(* ===== verification/Prelude_Locks.thy ===== *)
theory Prelude_Locks
  imports Main "HOL-Library.Word"
begin

text \<open>
  Shared vocabulary of the development.

  It holds the machine-integer and byte types, big- and little-endian codecs of
  fixed width, slices of byte buffers, saturating arithmetic, the result type of
  the standard library's fallible calls, and the ordered association lists that
  stand for Rust's BTreeMap. Everything here models the language and its standard
  library; no definition of this theory translates a file of the repository.
\<close>

section \<open>Collections of facts\<close>

named_theorems codec_simps "length and round-trip facts of the byte codecs"
named_theorems eval_simps "evaluation of the codecs on numerals"
named_theorems bt_simps "lookup facts of ordered maps"

section \<open>Machine integers, bytes, results\<close>

type_synonym u8 = "8 word"
type_synonym u16 = "16 word"
type_synonym u32 = "32 word"
type_synonym u64 = "64 word"
type_synonym uuid = "128 word"
type_synonym bytes = "u8 list"

text \<open>Rust's \<^verbatim>\<open>io::ErrorKind\<close>, as far as the code names or returns kinds;
  \<open>Panicked\<close> stands for an expectation or assertion that fires.\<close>

datatype io_error =
    NotFound
  | AlreadyExists
  | InvalidInput
  | InvalidData
  | WouldBlock
  | StorageFull
  | UnexpectedEof
  | OtherError
  | Panicked

type_synonym 'a io = "io_error + 'a"

text \<open>
  The question-mark operator: stop at the first error, go on with the value otherwise.
\<close>

definition try_bind :: "'e + 'a \<Rightarrow> ('a \<Rightarrow> 'e + 'b) \<Rightarrow> 'e + 'b" where
  "try_bind r k = (case r of Inl e \<Rightarrow> Inl e | Inr x \<Rightarrow> k x)"

lemma try_bind_simps [simp]:
  "try_bind (Inl e) k = Inl e"
  "try_bind (Inr x) k = k x"
  by (simp_all add: try_bind_def)

lemma try_bind_Inr_iff: "try_bind r k = Inr y \<longleftrightarrow> (\<exists>x. r = Inr x \<and> k x = Inr y)"
  by (cases r) auto

text \<open>Unsigned saturating addition and multiplication.\<close>

definition saturating_add :: "'a::len word \<Rightarrow> 'a word \<Rightarrow> 'a word" where
  "saturating_add a b = (if unat a + unat b < 2 ^ LENGTH('a) then a + b else - 1)"

definition saturating_mul :: "'a::len word \<Rightarrow> 'a word \<Rightarrow> 'a word" where
  "saturating_mul a b = (if unat a * unat b < 2 ^ LENGTH('a) then a * b else - 1)"

lemma unat_max_word: "unat (- 1 :: 'a::len word) = 2 ^ LENGTH('a) - 1"
  by (simp add: unsigned_minus_1_eq_mask mask_eq_exp_minus_1)

lemma unat_saturating_add:
  "unat (saturating_add a b) = min (unat a + unat b) (2 ^ LENGTH('a) - 1)"
  for a b :: "'a::len word"
proof (cases "unat a + unat b < 2 ^ LENGTH('a)")
  case True
  then show ?thesis
    by (simp add: saturating_add_def unat_word_ariths)
next
  case False
  then show ?thesis
    by (simp add: saturating_add_def unat_max_word)
qed

lemma unat_saturating_mul:
  "unat (saturating_mul a b) = min (unat a * unat b) (2 ^ LENGTH('a) - 1)"
  for a b :: "'a::len word"
proof (cases "unat a * unat b < 2 ^ LENGTH('a)")
  case True
  then show ?thesis
    by (simp add: saturating_mul_def unat_word_ariths)
next
  case False
  then show ?thesis
    by (simp add: saturating_mul_def unat_max_word)
qed

section \<open>Slices\<close>

text \<open>\<open>slice a b xs\<close> is \<^verbatim>\<open>&xs[a..b]\<close> for a range inside the buffer.\<close>

definition slice :: "nat \<Rightarrow> nat \<Rightarrow> 'a list \<Rightarrow> 'a list" where
  "slice a b xs = take (b - a) (drop a xs)"

lemma length_slice [simp]: "length (slice a b xs) = min (b - a) (length xs - a)"
  by (simp add: slice_def min.commute)

lemma slice_append_left: "b \<le> length xs \<Longrightarrow> slice a b (xs @ ys) = slice a b xs"
  by (simp add: slice_def)

lemma slice_append_right:
  "length xs \<le> a \<Longrightarrow> slice a b (xs @ ys) = slice (a - length xs) (b - length xs) ys"
  by (simp add: slice_def)

lemma slice_whole: "length xs = n \<Longrightarrow> slice 0 n xs = xs"
  by (simp add: slice_def)

lemma slice_field:
  "length xs = a \<Longrightarrow> length f = b - a \<Longrightarrow> slice a b (xs @ f @ ys) = f"
  by (simp add: slice_def)

section \<open>Fixed-width integer codecs\<close>

text \<open>
  \<^verbatim>\<open>to_be_bytes\<close> and \<^verbatim>\<open>from_be_bytes\<close>: most significant byte first;
  the little-endian forms are their reversals.
\<close>

fun be_bytes :: "nat \<Rightarrow> 'a::len word \<Rightarrow> bytes" where
  "be_bytes 0 w = []"
| "be_bytes (Suc n) w = ucast (drop_bit (8 * n) w) # be_bytes n w"

definition be_val :: "bytes \<Rightarrow> nat" where
  "be_val bs = foldl (\<lambda>acc b. acc * 256 + unat b) 0 bs"

definition be_word :: "bytes \<Rightarrow> 'a::len word" where
  "be_word bs = word_of_nat (be_val bs)"

definition le_bytes :: "nat \<Rightarrow> 'a::len word \<Rightarrow> bytes" where
  "le_bytes n w = rev (be_bytes n w)"

definition le_word :: "bytes \<Rightarrow> 'a::len word" where
  "le_word bs = be_word (rev bs)"

lemma length_be_bytes [simp, codec_simps]: "length (be_bytes n w) = n"
  by (induction n) simp_all

lemma length_le_bytes [simp, codec_simps]: "length (le_bytes n w) = n"
  by (simp add: le_bytes_def)

lemma be_val_Nil [simp]: "be_val [] = 0"
  by (simp add: be_val_def)

lemma foldl_be_val:
  "foldl (\<lambda>acc b. acc * 256 + unat b) a bs = a * 256 ^ length bs + be_val (bs :: bytes)"
  unfolding be_val_def
proof (induction bs arbitrary: a)
  case Nil
  then show ?case by simp
next
  case (Cons b bs)
  show ?case
    using Cons [of "a * 256 + unat b"] Cons [of "unat b"]
    by (simp add: algebra_simps)
qed

text \<open>Evaluation of the codecs on numerals.\<close>

lemma be_bytes_numeral [eval_simps]:
  "be_bytes (numeral k) w = ucast (drop_bit (8 * pred_numeral k) w) # be_bytes (pred_numeral k) w"
  by (simp add: numeral_eq_Suc)

declare be_val_def [eval_simps] be_word_def [eval_simps] le_bytes_def [eval_simps]
  le_word_def [eval_simps] slice_def [eval_simps] saturating_add_def [eval_simps]

lemma be_val_Cons: "be_val (b # bs) = unat b * 256 ^ length bs + be_val bs"
  using foldl_be_val [of "unat b" bs] by (simp add: be_val_def)

lemma be_val_less: "be_val bs < 256 ^ length bs"
proof (induction bs)
  case Nil
  then show ?case by simp
next
  case (Cons b bs)
  have "unat b < 256"
    using unsigned_less [of b] by simp
  then have "unat b + 1 \<le> 256"
    by simp
  then have le: "(unat b + 1) * 256 ^ length bs \<le> 256 * 256 ^ length bs"
    by (rule mult_right_mono) simp
  have "be_val (b # bs) < (unat b + 1) * 256 ^ length bs"
    using Cons by (simp add: be_val_Cons)
  also note le
  finally show ?case by simp
qed

lemma unat_byte_of: "unat (ucast (drop_bit m w) :: u8) = (unat w div 2 ^ m) mod 256"
  for w :: "'a::len word"
proof -
  have "unat (drop_bit m w) = unat w div 2 ^ m"
    by (simp only: unsigned_drop_bit_eq take_bit_nat_eq_self [OF unsigned_less]) (rule drop_bit_eq_div)
  then show ?thesis
    by (simp add: unsigned_ucast_eq take_bit_eq_mod del: drop_bit_eq_div)
qed

lemma be_val_be_bytes: "be_val (be_bytes n w) = unat w mod 256 ^ n"
proof (induction n)
  case 0
  then show ?case by simp
next
  case (Suc n)
  have pow: "(2::nat) ^ (8 * n) = 256 ^ n"
    by (simp add: power_mult)
  have "be_val (be_bytes (Suc n) w) =
      ((unat w div 256 ^ n) mod 256) * 256 ^ n + unat w mod 256 ^ n"
    by (simp add: be_val_Cons Suc unat_byte_of pow)
  also have "\<dots> = unat w mod (256 ^ n * 256)"
    by (simp add: mod_mult2_eq)
  finally show ?case
    by (simp add: mult.commute)
qed

lemma be_word_be_bytes [codec_simps]:
  "LENGTH('a) = 8 * n \<Longrightarrow> be_word (be_bytes n w) = w" for w :: "'a::len word"
proof -
  assume len: "LENGTH('a) = 8 * n"
  have "unat w < 2 ^ LENGTH('a)"
    by (rule unsigned_less)
  then have "unat w mod 256 ^ n = unat w"
    by (simp add: len power_mult)
  then show ?thesis
    by (simp add: be_word_def be_val_be_bytes)
qed

lemma be_bytes_inject:
  assumes "length xs = length ys" and "be_val xs = be_val ys"
  shows "xs = ys"
  using assms
proof (induction xs ys rule: list_induct2)
  case Nil
  then show ?case by simp
next
  case (Cons x xs y ys)
  have bx: "be_val xs < 256 ^ length xs" and by': "be_val ys < 256 ^ length xs"
    using be_val_less [of xs] be_val_less [of ys] Cons.hyps by simp_all
  have eq: "unat x * 256 ^ length xs + be_val xs = unat y * 256 ^ length xs + be_val ys"
    using Cons.prems Cons.hyps by (simp add: be_val_Cons)
  have "(unat x * 256 ^ length xs + be_val xs) div 256 ^ length xs = unat x"
    using bx by simp
  moreover have "(unat y * 256 ^ length xs + be_val ys) div 256 ^ length xs = unat y"
    using by' by simp
  ultimately have "unat x = unat y"
    using eq by simp
  then show ?case
    using eq Cons.IH by (simp add: word_unat_eq_iff)
qed

lemma be_bytes_be_word:
  assumes "length bs = n" and "LENGTH('a) = 8 * n"
  shows "be_bytes n (be_word bs :: 'a::len word) = bs"
proof (rule be_bytes_inject)
  show "length (be_bytes n (be_word bs :: 'a word)) = length bs"
    using assms by simp
  have "be_val bs < 2 ^ LENGTH('a)"
    using be_val_less [of bs] assms by (simp add: power_mult)
  then have "unat (be_word bs :: 'a word) = be_val bs"
    by (simp add: be_word_def unat_of_nat take_bit_eq_mod)
  then show "be_val (be_bytes n (be_word bs :: 'a word)) = be_val bs"
    using be_val_less [of bs] assms(1) by (simp add: be_val_be_bytes)
qed

lemma le_word_le_bytes [codec_simps]:
  "LENGTH('a) = 8 * n \<Longrightarrow> le_word (le_bytes n w) = w" for w :: "'a::len word"
  by (simp add: le_word_def le_bytes_def be_word_be_bytes)

lemma be_word_be_bytes_sizes [simp, codec_simps]:
  "be_word (be_bytes 2 a) = (a :: u16)"
  "be_word (be_bytes 4 b) = (b :: u32)"
  "be_word (be_bytes 8 c) = (c :: u64)"
  "be_word (be_bytes 16 d) = (d :: uuid)"
  by (rule be_word_be_bytes, simp)+

lemma le_word_le_bytes_sizes [simp, codec_simps]:
  "le_word (le_bytes 2 a) = (a :: u16)"
  "le_word (le_bytes 4 b) = (b :: u32)"
  "le_word (le_bytes 8 c) = (c :: u64)"
  by (rule le_word_le_bytes, simp)+

end
