(* ===== verification/Ordered_Map.thy ===== *)
theory Ordered_Map
  imports Prelude_Locks
begin

text \<open>
  Rust's BTreeMap and BTreeSet as the code uses them: keys in strictly ascending
  order, so that iteration order is a function of the contents. A map is the list
  of its entries in iteration order. The interface the clients rely on is the locale
  \<open>ordered_map\<close>; the entry lists interpret it.
\<close>

section \<open>Entry lists\<close>

type_synonym ('k, 'v) btree = "('k \<times> 'v) list"

definition bt_wf :: "('k::linorder, 'v) btree \<Rightarrow> bool" where
  "bt_wf m \<longleftrightarrow> sorted_wrt (<) (map fst m)"

definition bt_get :: "('k::linorder, 'v) btree \<Rightarrow> 'k \<Rightarrow> 'v option" where
  "bt_get m k = map_of m k"

fun bt_insert :: "'k::linorder \<Rightarrow> 'v \<Rightarrow> ('k, 'v) btree \<Rightarrow> ('k, 'v) btree" where
  "bt_insert k v [] = [(k, v)]"
| "bt_insert k v ((k', v') # m) =
     (if k < k' then (k, v) # (k', v') # m
      else if k = k' then (k, v) # m
      else (k', v') # bt_insert k v m)"

definition bt_remove :: "'k::linorder \<Rightarrow> ('k, 'v) btree \<Rightarrow> ('k, 'v) btree" where
  "bt_remove k m = filter (\<lambda>e. fst e \<noteq> k) m"

text \<open>\<open>append\<close> moves the entries of the second map in; its values win.\<close>

definition bt_append :: "('k::linorder, 'v) btree \<Rightarrow> ('k, 'v) btree \<Rightarrow> ('k, 'v) btree" where
  "bt_append m n = fold (\<lambda>e. bt_insert (fst e) (snd e)) n m"

text \<open>A mutable borrow of one entry, absent entries left alone (\<open>get_mut\<close>).\<close>

definition bt_adjust :: "'k::linorder \<Rightarrow> ('v \<Rightarrow> 'v) \<Rightarrow> ('k, 'v) btree \<Rightarrow> ('k, 'v) btree" where
  "bt_adjust k f m = map (\<lambda>(k', v). (k', if k' = k then f v else v)) m"

definition bt_map :: "('k \<Rightarrow> 'v \<Rightarrow> 'w) \<Rightarrow> ('k::linorder, 'v) btree \<Rightarrow> ('k, 'w) btree" where
  "bt_map f m = map (\<lambda>(k, v). (k, f k v)) m"

text \<open>A BTreeSet is a strictly ascending list.\<close>

fun bs_insert :: "'k::linorder \<Rightarrow> 'k list \<Rightarrow> 'k list" where
  "bs_insert k [] = [k]"
| "bs_insert k (x # xs) =
     (if k < x then k # x # xs else if k = x then x # xs else x # bs_insert k xs)"

section \<open>The interface\<close>

locale ordered_map =
  fixes wf :: "'m \<Rightarrow> bool"
    and empty :: 'm
    and get :: "'m \<Rightarrow> 'k::linorder \<Rightarrow> 'v option"
    and insert :: "'k \<Rightarrow> 'v \<Rightarrow> 'm \<Rightarrow> 'm"
    and remove :: "'k \<Rightarrow> 'm \<Rightarrow> 'm"
    and entries :: "'m \<Rightarrow> ('k \<times> 'v) list"
  assumes wf_empty: "wf empty"
    and wf_insert: "wf m \<Longrightarrow> wf (insert k v m)"
    and wf_remove: "wf m \<Longrightarrow> wf (remove k m)"
    and entries_sorted: "wf m \<Longrightarrow> sorted_wrt (<) (map fst (entries m))"
    and get_entries: "wf m \<Longrightarrow> get m = map_of (entries m)"
    and get_empty: "get empty k = None"
    and get_insert: "wf m \<Longrightarrow> get (insert k v m) = (get m)(k \<mapsto> v)"
    and get_remove: "wf m \<Longrightarrow> get (remove k m) = (get m)(k := None)"
    and entries_inj: "wf m \<Longrightarrow> wf n \<Longrightarrow> entries m = entries n \<Longrightarrow> m = n"
begin

lemma strict_sorted_map_of_inj:
  fixes xs ys :: "('a::linorder \<times> 'b) list"
  assumes "sorted_wrt (<) (map fst xs)" and "sorted_wrt (<) (map fst ys)"
    and "map_of xs = map_of ys"
  shows "xs = ys"
proof -
  have dx: "distinct (map fst xs)" and dy: "distinct (map fst ys)"
    using assms by (simp_all add: strict_sorted_iff)
  have eq: "set xs = set ys"
    using map_of_inject_set [OF dx dy] assms(3) by simp
  show ?thesis
    by (rule map_sorted_distinct_set_unique [where f = fst])
      (use assms dx dy eq in \<open>auto simp: strict_sorted_iff distinct_map\<close>)
qed

lemma map_extensional: "wf m \<Longrightarrow> wf n \<Longrightarrow> get m = get n \<Longrightarrow> m = n"
  using entries_inj strict_sorted_map_of_inj entries_sorted get_entries by metis

lemma insert_insert: "wf m \<Longrightarrow> insert k v (insert k w m) = insert k v m"
  by (rule map_extensional) (simp_all add: wf_insert get_insert)

lemma insert_commute: "wf m \<Longrightarrow> k \<noteq> l \<Longrightarrow> insert k v (insert l w m) = insert l w (insert k v m)"
  by (rule map_extensional) (auto simp: wf_insert get_insert)

lemma insert_same: "wf m \<Longrightarrow> get m k = Some v \<Longrightarrow> insert k v m = m"
  by (rule map_extensional) (auto simp: wf_insert get_insert)

lemma dom_get: "wf m \<Longrightarrow> dom (get m) = fst ` set (entries m)"
  by (simp add: get_entries dom_map_of_conv_image_fst)

end

section \<open>The entry lists implement it\<close>

lemma keys_bt_insert: "fst ` set (bt_insert k v m) = insert k (fst ` set m)"
  by (induction k v m rule: bt_insert.induct) auto

lemma bt_get_insert [simp, bt_simps]: "bt_get (bt_insert k v m) = (bt_get m)(k \<mapsto> v)"
  unfolding bt_get_def by (induction k v m rule: bt_insert.induct) auto

lemma bt_wf_insert [simp, bt_simps]: "bt_wf m \<Longrightarrow> bt_wf (bt_insert k v m)"
proof (induction k v m rule: bt_insert.induct)
  case (2 k v k' v' m)
  have "\<forall>x\<in>fst ` set (bt_insert k v m). k' < x" if "k' < k"
    using that 2 by (auto simp: keys_bt_insert bt_wf_def)
  then show ?case
    using 2 by (auto simp: bt_wf_def)
qed (simp add: bt_wf_def)

lemma bt_get_empty [simp, bt_simps]: "bt_get [] k = None"
  by (simp add: bt_get_def)

lemma bt_wf_empty [simp, bt_simps]: "bt_wf []"
  by (simp add: bt_wf_def)

lemma bt_get_remove [simp, bt_simps]: "bt_get (bt_remove k m) = (bt_get m)(k := None)"
  unfolding bt_get_def bt_remove_def by (induction m) auto

lemma bt_wf_remove [simp, bt_simps]: "bt_wf m \<Longrightarrow> bt_wf (bt_remove k m)"
  unfolding bt_wf_def bt_remove_def by (induction m) auto

interpretation bt: ordered_map bt_wf "[]" bt_get bt_insert bt_remove "\<lambda>m. m"
proof unfold_locales
  show "sorted_wrt (<) (map fst m)" if "bt_wf m" for m :: "('a, 'b) btree"
    using that by (simp add: bt_wf_def)
  show "bt_get m = map_of m" for m :: "('a, 'b) btree"
    by (rule ext) (simp add: bt_get_def)
qed simp_all

lemma bt_get_adjust [simp, bt_simps]:
  "bt_get (bt_adjust k f m) l = (if l = k then map_option f (bt_get m k) else bt_get m l)"
  unfolding bt_get_def bt_adjust_def by (induction m) auto

lemma keys_bt_adjust [simp]: "map fst (bt_adjust k f m) = map fst m"
  by (simp add: bt_adjust_def case_prod_beta)

lemma bt_wf_adjust [simp, bt_simps]: "bt_wf (bt_adjust k f m) = bt_wf m"
  by (simp add: bt_wf_def)

lemma bt_get_map [simp, bt_simps]: "bt_get (bt_map f m) k = map_option (f k) (bt_get m k)"
  unfolding bt_get_def bt_map_def by (induction m) auto

lemma keys_bt_map [simp]: "map fst (bt_map f m) = map fst m"
  by (simp add: bt_map_def case_prod_beta)

lemma bt_wf_map [simp, bt_simps]: "bt_wf (bt_map f m) = bt_wf m"
  by (simp add: bt_wf_def)

lemma bt_wf_append [simp, bt_simps]: "bt_wf m \<Longrightarrow> bt_wf (bt_append m n)"
  unfolding bt_append_def by (induction n arbitrary: m) simp_all

lemma bt_get_append:
  "bt_wf n \<Longrightarrow> bt_get (bt_append m n) k = (case bt_get n k of None \<Rightarrow> bt_get m k | Some v \<Rightarrow> Some v)"
proof (induction n arbitrary: m)
  case Nil
  then show ?case by (simp add: bt_append_def)
next
  case (Cons e n)
  have wf: "bt_wf n" and fresh: "bt_get n (fst e) = None"
    using Cons.prems by (auto simp: bt_wf_def bt_get_def map_of_eq_None_iff)
  have "bt_append m (e # n) = bt_append (bt_insert (fst e) (snd e) m) n"
    by (simp add: bt_append_def)
  then show ?case
    using Cons.IH [OF wf] fresh by (cases e) (auto simp: bt_get_def split: option.splits)
qed

lemma bt_get_mem: "bt_wf m \<Longrightarrow> (k, v) \<in> set m \<longleftrightarrow> bt_get m k = Some v"
  by (simp add: bt_wf_def bt_get_def strict_sorted_iff map_of_eq_Some_iff)

lemma bt_get_eq_None: "bt_get m k = None \<longleftrightarrow> k \<notin> fst ` set m"
  by (simp add: bt_get_def map_of_eq_None_iff)

lemma set_bs_insert [simp]: "set (bs_insert k xs) = insert k (set xs)"
  by (induction k xs rule: bs_insert.induct) auto

lemma sorted_bs_insert [simp]: "sorted_wrt (<) xs \<Longrightarrow> sorted_wrt (<) (bs_insert k xs)"
  by (induction k xs rule: bs_insert.induct) auto

end
