(* ===== verification/Lock_Wire.thy ===== *)
theory Lock_Wire
  imports Ordered_Map "HOL-Library.List_Lexorder" "HOL-Library.Char_ord"
begin

text \<open>
  The lock envelope of \<^verbatim>\<open>ext/advisory_lock/src/locks.rs\<close>: the request,
  response, lease and transition shapes, the admission rules on display names and
  labels, the canonical identity rule, and the decoding of a request.

  A Rust string is a list of characters, one per byte. Parsing JSON text and parsing
  or printing UUID text is third-party code: both are parameters.
\<close>

section \<open>Shapes\<close>

text \<open>Classification of a committed lock transition.\<close>

datatype transition =
    Hold (tr_lock_id: u64) (tr_lease_id: u64) (tr_holder: bytes) (tr_expiry: u64)
  | Renew (tr_lock_id: u64) (tr_lease_id: u64) (tr_holder: bytes) (tr_expiry: u64)
  | Release (tr_lock_id: u64) (tr_lease_id: u64) (tr_holder: bytes) (tr_expiry: u64)
  | Break (tr_lock_id: u64) (tr_lease_id: u64) (tr_holder: bytes) (tr_expiry: u64)

fun transition_lock_id :: "transition \<Rightarrow> u64" where
  "transition_lock_id (Hold l _ _ _) = l"
| "transition_lock_id (Renew l _ _ _) = l"
| "transition_lock_id (Release l _ _ _) = l"
| "transition_lock_id (Break l _ _ _) = l"

record lease =
  lease_id :: u64
  holder :: uuid
  expiry :: u64
  lease_ms :: u64
  name :: "string option"
  labels :: "string list option"
  taken_at_ms :: u64
  renew_count :: u32

record lease_candidate =
  cand_lease_id :: u64
  cand_holder :: uuid
  cand_lease_ms :: u64

datatype request =
    ReqGet (message_id: uuid) (client_id: u64) (request_num: u64) (lock_id: u64)
  | ReqSet (message_id: uuid) (client_id: u64) (request_num: u64) (lock_id: u64)
      (req_lease: lease_candidate) (req_name: "string option")
      (req_labels: "string list option") (sent_at_ms: "u64 option")
  | ReqRelease (message_id: uuid) (client_id: u64) (request_num: u64) (lock_id: u64)
      (req_holder: uuid) (req_lease_id: u64)
  | ReqBreak (message_id: uuid) (client_id: u64) (request_num: u64) (lock_id: u64)

fun ids :: "request \<Rightarrow> uuid \<times> u64 \<times> u64" where
  "ids (ReqGet m c n _) = (m, c, n)"
| "ids (ReqSet m c n _ _ _ _ _) = (m, c, n)"
| "ids (ReqRelease m c n _ _ _) = (m, c, n)"
| "ids (ReqBreak m c n _) = (m, c, n)"

datatype response =
    RespGet (resp_message_id: uuid) (resp_request_num: u64) (resp_lock_id: u64)
      (resp_lease: "lease option") (executed_at: u64)
  | RespSet (resp_message_id: uuid) (resp_request_num: u64) (resp_lock_id: u64)
      (granted: bool) (resp_lease: "lease option") (executed_at: u64)
  | RespRelease (resp_message_id: uuid) (resp_request_num: u64) (resp_lock_id: u64)
      (released: bool) (resp_lease: "lease option") (executed_at: u64)
  | RespBreak (resp_message_id: uuid) (resp_request_num: u64) (resp_lock_id: u64)
      (broken: bool) (resp_lease: "lease option") (executed_at: u64)

record state_snapshot =
  locks :: "(u64, lease) btree"
  generations :: "(u64, u64) btree"

text \<open>The refusals of the envelope, one per error the code constructs.\<close>

datatype lock_error =
    BadJson
  | InvalidLockName
  | TooManyLabels
  | InvalidLabel
  | EnvelopeMismatch
  | NilHolder
  | CoreRefused
  | GrantedWithoutLease

section \<open>Identity rules\<close>

text \<open>
  The canonical identity rule: text that parses but is not the canonical rendering
  of what it parses to is refused.
\<close>

definition canonical_uuid :: "(string \<Rightarrow> uuid option) \<Rightarrow> (uuid \<Rightarrow> string) \<Rightarrow> string \<Rightarrow> uuid option" where
  "canonical_uuid parse_str to_str text =
     (case parse_str text of
        None \<Rightarrow> None
      | Some parsed \<Rightarrow> if to_str parsed \<noteq> text then None else Some parsed)"

definition byte_in :: "char \<Rightarrow> char \<Rightarrow> char \<Rightarrow> bool" where
  "byte_in lo hi c \<longleftrightarrow> lo \<le> c \<and> c \<le> hi"

text \<open>The match arm of a name segment's bytes.\<close>

definition name_byte :: "char \<Rightarrow> bool" where
  "name_byte c \<longleftrightarrow>
     byte_in (CHR ''A'') (CHR ''Z'') c \<or> byte_in (CHR ''a'') (CHR ''z'') c \<or>
     byte_in (CHR ''0'') (CHR ''9'') c \<or> c = CHR ''.'' \<or> c = CHR ''_'' \<or> c = CHR ''-''"

fun name_loop :: "nat \<Rightarrow> string \<Rightarrow> bool" where
  "name_loop segment_len [] = (segment_len > 0)"
| "name_loop segment_len (c # cs) =
     (if c = CHR ''/'' then (if segment_len = 0 then False else name_loop 0 cs)
      else if name_byte c then name_loop (segment_len + 1) cs
      else False)"

definition valid_name :: "string \<Rightarrow> bool" where
  "valid_name s =
     (case s of
        [] \<Rightarrow> False
      | c # cs \<Rightarrow> if length s > 128 \<or> c \<noteq> CHR ''/'' then False else name_loop 0 cs)"

definition label_alnum :: "char \<Rightarrow> bool" where
  "label_alnum c \<longleftrightarrow> byte_in (CHR ''a'') (CHR ''z'') c \<or> byte_in (CHR ''0'') (CHR ''9'') c"

definition valid_label :: "string \<Rightarrow> bool" where
  "valid_label s =
     (if s = [] \<or> length s > 32 then False
      else if \<not> label_alnum (s ! 0) then False
      else if length s = 1 then True
      else if \<not> label_alnum (s ! (length s - 1)) then False
      else list_all (\<lambda>c. label_alnum c \<or> c = CHR ''-'') (slice 1 (length s - 1) s))"

fun validate_labels :: "string list \<Rightarrow> lock_error + unit" where
  "validate_labels [] = Inr ()"
| "validate_labels (l # ls) = (if \<not> valid_label l then Inl InvalidLabel else validate_labels ls)"

definition validate_identity :: "string option \<Rightarrow> string list option \<Rightarrow> lock_error + unit" where
  "validate_identity nm lbs =
     (if (case nm of None \<Rightarrow> False | Some n \<Rightarrow> \<not> valid_name n) then Inl InvalidLockName
      else (case lbs of
              None \<Rightarrow> Inr ()
            | Some ls \<Rightarrow> if length ls > 8 then Inl TooManyLabels else validate_labels ls))"

definition taken_at_ms_on_holder_change :: "u64 \<Rightarrow> u64 \<Rightarrow> u64" where
  "taken_at_ms_on_holder_change prior_taken_at_ms execution_time =
     (if prior_taken_at_ms = execution_time then saturating_add execution_time 1
      else execution_time)"

section \<open>Decoding\<close>

text \<open>\<open>list.sort(); list.dedup();\<close> and the empty list stored as no labels.\<close>

definition canonical_labels :: "string list option \<Rightarrow> string list option" where
  "canonical_labels lbs =
     (case lbs of
        None \<Rightarrow> None
      | Some ls \<Rightarrow> (let ls' = remdups_adj (sort ls) in if ls' = [] then None else Some ls'))"

fun normalise_request :: "request \<Rightarrow> lock_error + request" where
  "normalise_request (ReqSet m c n l cand nm lbs sent) =
     try_bind (validate_identity nm lbs)
       (\<lambda>_. Inr (ReqSet m c n l cand nm (canonical_labels lbs) sent))"
| "normalise_request r = Inr r"

text \<open>\<open>parse\<close> stands for \<^verbatim>\<open>serde_json::from_slice\<close> at the request type.\<close>

definition decode :: "(bytes \<Rightarrow> request option) \<Rightarrow> bytes \<Rightarrow> lock_error + request" where
  "decode parse b = (case parse b of None \<Rightarrow> Inl BadJson | Some r \<Rightarrow> normalise_request r)"

definition validate_payload ::
  "(bytes \<Rightarrow> request option) \<Rightarrow> uuid \<Rightarrow> u64 \<Rightarrow> u64 \<Rightarrow> bytes \<Rightarrow> bool" where
  "validate_payload parse m c n payload =
     (case decode parse payload of Inl _ \<Rightarrow> False | Inr r \<Rightarrow> ids r = (m, c, n))"

section \<open>Facts\<close>

lemma transition_lock_id_sel: "transition_lock_id t = tr_lock_id t"
  by (cases t) simp_all

lemma ids_sel: "ids r = (message_id r, client_id r, request_num r)"
  by (cases r) simp_all

lemma normalise_request_ids: "normalise_request r = Inr r' \<Longrightarrow> ids r' = ids r"
  by (cases r) (auto simp: try_bind_Inr_iff)

lemma normalise_request_lock_id: "normalise_request r = Inr r' \<Longrightarrow> lock_id r' = lock_id r"
  by (cases r) (auto simp: try_bind_Inr_iff)

lemma validate_labels_iff: "validate_labels ls = Inr () \<longleftrightarrow> list_all valid_label ls"
  by (induction ls) auto

lemma validate_identity_Inr_iff:
  "validate_identity nm lbs = Inr () \<longleftrightarrow>
     (\<forall>n. nm = Some n \<longrightarrow> valid_name n) \<and>
     (\<forall>ls. lbs = Some ls \<longrightarrow> length ls \<le> 8 \<and> list_all valid_label ls)"
  by (auto simp: validate_identity_def validate_labels_iff split: option.splits)

subsection \<open>Names are slash-separated paths\<close>

definition path_text :: "string list \<Rightarrow> string" where
  "path_text segs = concat (map (\<lambda>seg. CHR ''/'' # seg) segs)"

definition name_segment :: "string \<Rightarrow> bool" where
  "name_segment seg \<longleftrightarrow> seg \<noteq> [] \<and> list_all name_byte seg"

lemma slash_not_name_byte [simp]: "\<not> name_byte (CHR ''/'')"
  by (simp add: name_byte_def byte_in_def less_eq_char_def)

lemma name_loop_segment:
  "list_all name_byte seg \<Longrightarrow> name_loop n (seg @ cs) = name_loop (n + length seg) cs"
proof (induction seg arbitrary: n)
  case Nil
  then show ?case by simp
next
  case (Cons c seg)
  then have "c \<noteq> CHR ''/''" by auto
  with Cons show ?case by simp
qed

lemma name_loop_path:
  "list_all name_segment segs \<Longrightarrow> n > 0 \<Longrightarrow> name_loop n (path_text segs)"
proof (induction segs arbitrary: n)
  case Nil
  then show ?case by (simp add: path_text_def)
next
  case (Cons seg segs)
  then have seg: "seg \<noteq> []" "list_all name_byte seg"
    by (simp_all add: name_segment_def)
  have "name_loop n (path_text (seg # segs)) = name_loop 0 (seg @ path_text segs)"
    using Cons.prems by (simp add: path_text_def)
  also have "\<dots> = name_loop (length seg) (path_text segs)"
    using name_loop_segment [OF seg(2), of 0] by simp
  finally show ?case
    using Cons seg(1) by simp
qed

lemma name_loop_decompose:
  "name_loop n cs \<Longrightarrow>
     \<exists>seg segs. cs = seg @ path_text segs \<and> list_all name_byte seg \<and> n + length seg > 0 \<and>
       list_all name_segment segs"
proof (induction n cs rule: name_loop.induct)
  case (1 n)
  then show ?case
    by (intro exI [of _ "[]"] exI [of _ "[]"]) (simp add: path_text_def)
next
  case (2 n c cs)
  show ?case
  proof (cases "c = CHR ''/''")
    case True
    with 2 obtain seg segs where *: "cs = seg @ path_text segs" "list_all name_byte seg"
        "length seg > 0" "list_all name_segment segs" and n: "n > 0"
      by (auto split: if_splits)
    then have "c # cs = [] @ path_text (seg # segs)" and "list_all name_segment (seg # segs)"
      using True by (auto simp: path_text_def name_segment_def)
    with n show ?thesis by (intro exI [of _ "[]"] exI [of _ "seg # segs"]) simp
  next
    case False
    with 2 obtain seg segs where *: "cs = seg @ path_text segs" "list_all name_byte seg"
        "list_all name_segment segs" and c: "name_byte c"
      by (auto split: if_splits)
    then show ?thesis by (intro exI [of _ "c # seg"] exI [of _ segs]) simp
  qed
qed

text \<open>
  The byte loop of \<open>valid_name\<close> accepts exactly the paths of at most 128
  bytes: one or more segments, each a slash followed by one or more letters, digits, dots,
  underscores or dashes.
\<close>

theorem valid_name_path_iff:
  "valid_name s \<longleftrightarrow>
     length s \<le> 128 \<and> (\<exists>segs. segs \<noteq> [] \<and> list_all name_segment segs \<and> s = path_text segs)"
proof
  assume v: "valid_name s"
  then obtain cs where s: "s = CHR ''/'' # cs" and len: "length s \<le> 128" and lp: "name_loop 0 cs"
    by (auto simp: valid_name_def split: list.splits if_splits)
  obtain seg segs where *: "cs = seg @ path_text segs" "list_all name_byte seg"
      "0 + length seg > 0" "list_all name_segment segs"
    using name_loop_decompose [OF lp] by blast
  then have "s = path_text (seg # segs)" "list_all name_segment (seg # segs)"
    using s by (auto simp: path_text_def name_segment_def)
  then show "length s \<le> 128 \<and> (\<exists>segs. segs \<noteq> [] \<and> list_all name_segment segs \<and> s = path_text segs)"
    using len by blast
next
  assume "length s \<le> 128 \<and> (\<exists>segs. segs \<noteq> [] \<and> list_all name_segment segs \<and> s = path_text segs)"
  then obtain seg segs where len: "length s \<le> 128" and s: "s = path_text (seg # segs)"
      and seg: "seg \<noteq> []" "list_all name_byte seg" and segs: "list_all name_segment segs"
    by (auto simp: neq_Nil_conv name_segment_def)
  have "name_loop 0 (seg @ path_text segs)"
    using name_loop_segment [OF seg(2), of 0] name_loop_path [OF segs, of "length seg"] seg(1) by simp
  then show "valid_name s"
    using len s by (simp add: valid_name_def path_text_def)
qed

subsection \<open>Labels\<close>

lemma valid_label_shape_iff:
  "valid_label s \<longleftrightarrow>
     (\<exists>c. s = [c] \<and> label_alnum c) \<or>
     (\<exists>c mid d. s = c # mid @ [d] \<and> length mid \<le> 30 \<and> label_alnum c \<and> label_alnum d \<and>
        list_all (\<lambda>x. label_alnum x \<or> x = CHR ''-'') mid)"
proof (cases s)
  case Nil
  then show ?thesis by (simp add: valid_label_def)
next
  case (Cons c cs)
  show ?thesis
  proof (cases cs rule: rev_cases)
    case Nil
    with Cons show ?thesis by (auto simp: valid_label_def)
  next
    case (snoc mid d)
    with Cons have s: "s = c # mid @ [d]" by simp
    have "slice 1 (length s - 1) s = mid" "s ! (length s - 1) = d" "s ! 0 = c"
      by (simp_all add: s slice_def nth_append)
    then show ?thesis by (auto simp: valid_label_def s)
  qed
qed

lemma newline_not_label_byte [simp]: "\<not> label_alnum (CHR 0x0A)"
  by (simp add: label_alnum_def byte_in_def less_eq_char_def)

lemma valid_label_no_newline: "valid_label s \<Longrightarrow> CHR 0x0A \<notin> set s"
  by (auto simp: valid_label_shape_iff list_all_iff dest!: bspec [of _ _ "CHR 0x0A"])

lemma valid_label_nonempty: "valid_label s \<Longrightarrow> s \<noteq> []"
  by (auto simp: valid_label_def)

subsection \<open>Canonical labels\<close>

lemma sorted_remdups_adj_strict: "sorted (xs :: 'a::linorder list) \<Longrightarrow> sorted_wrt (<) (remdups_adj xs)"
proof (induction xs rule: remdups_adj.induct)
  case (3 x y xs)
  show ?case
  proof (cases "x = y")
    case False
    with 3 have "x < y" and "\<forall>z\<in>set xs. y \<le> z" by auto
    with 3 False show ?thesis by (auto intro: less_le_trans)
  qed (use 3 in simp)
qed simp_all

lemma canonical_labels_Some_iff:
  "canonical_labels lbs = Some ls \<longleftrightarrow>
     (\<exists>ls0. lbs = Some ls0 \<and> set ls = set ls0 \<and> ls \<noteq> [] \<and> sorted_wrt (<) ls)"
proof
  assume "canonical_labels lbs = Some ls"
  then show "\<exists>ls0. lbs = Some ls0 \<and> set ls = set ls0 \<and> ls \<noteq> [] \<and> sorted_wrt (<) ls"
    by (auto simp: canonical_labels_def Let_def sorted_remdups_adj_strict split: option.splits if_splits)
next
  assume "\<exists>ls0. lbs = Some ls0 \<and> set ls = set ls0 \<and> ls \<noteq> [] \<and> sorted_wrt (<) ls"
  then obtain ls0 where *: "lbs = Some ls0" "set ls = set ls0" "ls \<noteq> []" "sorted_wrt (<) ls"
    by blast
  have "remdups_adj (sort ls0) = ls"
    by (rule strict_sorted_equal)
      (use * sorted_remdups_adj_strict [OF sorted_sort, of ls0] in simp_all)
  with * show "canonical_labels lbs = Some ls"
    by (auto simp: canonical_labels_def)
qed

lemma canonical_labels_eq_by_set:
  assumes "set xs = set ys"
  shows "canonical_labels (Some xs) = canonical_labels (Some ys)"
proof -
  have "remdups_adj (sort xs) = remdups_adj (sort ys)"
    by (rule strict_sorted_equal)
      (use assms sorted_remdups_adj_strict [OF sorted_sort, of xs]
        sorted_remdups_adj_strict [OF sorted_sort, of ys] in simp_all)
  then show ?thesis by (simp add: canonical_labels_def)
qed

subsection \<open>Decoded requests\<close>

lemma canonical_labels_unique:
  "lbs' = canonical_labels lbs \<longleftrightarrow> (\<forall>ls. lbs' = Some ls \<longleftrightarrow> canonical_labels lbs = Some ls)"
  by (cases lbs'; cases "canonical_labels lbs") auto

text \<open>
  What decoding a SET accepts and what it makes of the labels. The decoded request
  is the parsed one with its labels replaced; it is accepted exactly when the name, if
  any, is a valid name and the labels, if any, are at most eight valid labels; the labels
  of the decoded request are the strictly ascending list of the same labels, and an empty
  list is stored as none. The order and the repetition of the client's labels never matter.
\<close>

theorem decode_set_iff:
  assumes "parse b = Some (ReqSet m c n l cand nm lbs sent)"
  shows "decode parse b = Inr (ReqSet m c n l cand nm lbs' sent) \<longleftrightarrow>
     (\<forall>x. nm = Some x \<longrightarrow> valid_name x) \<and>
     (\<forall>ls. lbs = Some ls \<longrightarrow> length ls \<le> 8 \<and> list_all valid_label ls) \<and>
     (\<forall>ls. lbs' = Some ls \<longleftrightarrow>
        (\<exists>ls0. lbs = Some ls0 \<and> set ls = set ls0 \<and> ls \<noteq> [] \<and> sorted_wrt (<) ls))"
proof -
  have "decode parse b = Inr (ReqSet m c n l cand nm lbs' sent) \<longleftrightarrow>
      validate_identity nm lbs = Inr () \<and> lbs' = canonical_labels lbs"
    using assms by (auto simp: decode_def try_bind_Inr_iff)
  then show ?thesis
    by (simp only: validate_identity_Inr_iff canonical_labels_unique canonical_labels_Some_iff conj_assoc)
qed

lemma demo_labels:
  "canonical_labels (Some [''b'', ''a'', ''b'']) = Some [''a'', ''b'']"
  "valid_label ''a''" "valid_label ''b''"
  by code_simp+

theorem decode_set_iff_witness:
  "decode (\<lambda>_. Some (ReqSet 1 2 3 4 \<lparr>cand_lease_id = 0, cand_holder = 5, cand_lease_ms = 9\<rparr> None
       (Some [''b'', ''a'', ''b'']) None)) [] =
     Inr (ReqSet 1 2 3 4 \<lparr>cand_lease_id = 0, cand_holder = 5, cand_lease_ms = 9\<rparr> None
       (Some [''a'', ''b'']) None)"
  unfolding canonical_labels_Some_iff [symmetric]
    decode_set_iff [where parse = "\<lambda>_. Some (ReqSet 1 2 3 4 \<lparr>cand_lease_id = 0, cand_holder = 5,
      cand_lease_ms = 9\<rparr> None (Some [''b'', ''a'', ''b'']) None)" and b = "[]", OF refl]
  by (simp add: demo_labels)

end
