(* ===== verification/Lock_Service.thy ===== *)
theory Lock_Service
  imports Lock_Wire
begin

text \<open>
  The lock service of \<^verbatim>\<open>ext/advisory_lock/src/locks.rs\<close>: the gateway
  envelope around the lock machinery of the replication library, its side table of
  display identity and counters, and the snapshot taken at a stop and installed at a boot.

  The library's lock machinery (\<^verbatim>\<open>vrr::locks\<close>) is not part of the
  repository. It is the parameter \<open>core_ops\<close>; its request, response and lease
  shapes are the ones the service builds and takes apart. What the service relies on is
  stated by the predicates of the section on the documented behaviour, which follow the
  client protocol document.
\<close>

section \<open>The lock machinery as a parameter\<close>

record client =
  msb :: u64
  lsb :: u64

record core_lease =
  cl_lease_id :: u64
  cl_holder :: client
  cl_expiry :: u64
  cl_window :: u64

record core_snap =
  cs_locks :: "(u64, core_lease) btree"
  cs_generations :: "(u64, u64) btree"

datatype core_request =
    CoreGet u64
  | CoreSet client u64 u64
  | CoreRelease client u64 u64
  | CoreBreak u64

datatype core_response =
    CoreRespGet u64 "core_lease option" u64
  | CoreRespSet u64 bool "core_lease option" u64
  | CoreRespRelease u64 bool "core_lease option" u64
  | CoreRespBreak u64 bool "core_lease option" u64

record 'c core_ops =
  core_execute :: "'c \<Rightarrow> u64 \<Rightarrow> core_request \<Rightarrow> (core_response \<times> 'c) option"
  core_snapshot :: "'c \<Rightarrow> core_snap"
  core_restore :: "'c \<Rightarrow> core_snap \<Rightarrow> 'c"
  core_is_empty :: "'c \<Rightarrow> bool"
  core_client_new :: "u64 \<Rightarrow> u64 \<Rightarrow> client option"

section \<open>Client identities\<close>

text \<open>The holder's 128 bits as the machinery's client identity; the nil pair is refused.\<close>

definition client_of :: "'c core_ops \<Rightarrow> uuid \<Rightarrow> lock_error + client" where
  "client_of co h =
     (let b = be_bytes 16 h in
      case core_client_new co (be_word (slice 0 8 b)) (be_word (slice 8 16 b)) of
        None \<Rightarrow> Inl NilHolder
      | Some c \<Rightarrow> Inr c)"

definition core_nil_client :: client where
  "core_nil_client = \<lparr>msb = 0, lsb = 0\<rparr>"

definition client_bytes :: "client \<Rightarrow> bytes" where
  "client_bytes c = be_bytes 8 (msb c) @ be_bytes 8 (lsb c)"

definition holder_uuid :: "client \<Rightarrow> uuid" where
  "holder_uuid c = be_word (client_bytes c)"

section \<open>The service\<close>

record durable_entry =
  d_name :: "string option"
  d_labels :: "string list option"
  d_taken_at_ms :: u64
  d_renew_count :: u32

definition default_entry :: durable_entry where
  "default_entry = \<lparr>d_name = None, d_labels = None, d_taken_at_ms = 0, d_renew_count = 0\<rparr>"

record 'c service =
  svc_core :: 'c
  svc_durable :: "(u64, durable_entry) btree"

definition compose :: "(u64, durable_entry) btree \<Rightarrow> u64 \<Rightarrow> core_lease \<Rightarrow> lease" where
  "compose durable l cl =
     (let entry = bt_get durable l in
      \<lparr>lease_id = cl_lease_id cl, holder = holder_uuid (cl_holder cl), expiry = cl_expiry cl,
       lease_ms = cl_window cl,
       name = Option.bind entry d_name,
       labels = Option.bind entry d_labels,
       taken_at_ms = (case entry of None \<Rightarrow> 0 | Some e \<Rightarrow> d_taken_at_ms e),
       renew_count = (case entry of None \<Rightarrow> 0 | Some e \<Rightarrow> d_renew_count e)\<rparr>)"

definition opt_or :: "'a option \<Rightarrow> 'a option \<Rightarrow> 'a option" where
  "opt_or a b = (case a of None \<Rightarrow> b | Some x \<Rightarrow> Some x)"

fun core_request_of :: "'c core_ops \<Rightarrow> request \<Rightarrow> lock_error + core_request" where
  "core_request_of co (ReqGet _ _ _ l) = Inr (CoreGet l)"
| "core_request_of co (ReqSet _ _ _ l cand _ _ _) =
     try_bind (client_of co (cand_holder cand)) (\<lambda>c. Inr (CoreSet c l (cand_lease_ms cand)))"
| "core_request_of co (ReqRelease _ _ _ l h lid) =
     try_bind (client_of co h) (\<lambda>c. Inr (CoreRelease c l lid))"
| "core_request_of co (ReqBreak _ _ _ l) = Inr (CoreBreak l)"

text \<open>The side-table entry a granted SET stores: a renewal or a take.\<close>

definition granted_entry ::
  "bool \<Rightarrow> durable_entry \<Rightarrow> durable_entry option \<Rightarrow> string option \<Rightarrow> string list option \<Rightarrow> u64 \<Rightarrow> durable_entry" where
  "granted_entry has_incumbent prior stored_entry set_name set_labels t =
     (if has_incumbent then
        \<lparr>d_name = opt_or set_name (d_name prior), d_labels = opt_or set_labels (d_labels prior),
         d_taken_at_ms = d_taken_at_ms prior,
         d_renew_count = saturating_add (d_renew_count prior) 1\<rparr>
      else
        \<lparr>d_name = opt_or set_name (d_name prior), d_labels = opt_or set_labels (d_labels prior),
         d_taken_at_ms =
           (case stored_entry of
              Some p \<Rightarrow> taken_at_ms_on_holder_change (d_taken_at_ms p) t
            | None \<Rightarrow> t),
         d_renew_count = 0\<rparr>)"

definition clear_counters :: "durable_entry \<Rightarrow> durable_entry" where
  "clear_counters e = e\<lparr>d_taken_at_ms := 0, d_renew_count := 0\<rparr>"

type_synonym 'c exec_result = "lock_error + ((response \<times> transition option) \<times> 'c service)"

definition reply_get :: "uuid \<Rightarrow> u64 \<Rightarrow> u64 \<Rightarrow> core_lease option \<Rightarrow> u64 \<Rightarrow> 'c service \<Rightarrow> 'c exec_result" where
  "reply_get m n l cl at s =
     Inr ((RespGet m n l (map_option (compose (svc_durable s) l) cl) at, None), s)"

definition reply_set ::
  "uuid \<Rightarrow> u64 \<Rightarrow> u64 \<Rightarrow> core_lease option \<Rightarrow> durable_entry \<Rightarrow> string option \<Rightarrow> string list option \<Rightarrow>
     u64 \<Rightarrow> bool \<Rightarrow> core_lease option \<Rightarrow> u64 \<Rightarrow> 'c service \<Rightarrow> 'c exec_result" where
  "reply_set m n t incumbent prior set_name set_labels l gr cl at s =
     (if \<not> gr then
        Inr ((RespSet m n l False (map_option (compose (svc_durable s) l) cl) at, None), s)
      else
        (case cl of
           None \<Rightarrow> Inl GrantedWithoutLease
         | Some g \<Rightarrow>
             (let entry = granted_entry (incumbent \<noteq> None) prior (bt_get (svc_durable s) l)
                            set_name set_labels t;
                  s' = s\<lparr>svc_durable := bt_insert l entry (svc_durable s)\<rparr>;
                  tr = (if incumbent \<noteq> None
                        then Renew l (cl_lease_id g) (client_bytes (cl_holder g)) (cl_expiry g)
                        else Hold l (cl_lease_id g) (client_bytes (cl_holder g)) (cl_expiry g))
              in Inr ((RespSet m n l True (Some (compose (svc_durable s') l g)) at, Some tr), s'))))"

definition reply_release ::
  "uuid \<Rightarrow> u64 \<Rightarrow> core_lease option \<Rightarrow> u64 \<Rightarrow> bool \<Rightarrow> core_lease option \<Rightarrow> u64 \<Rightarrow> 'c service \<Rightarrow> 'c exec_result" where
  "reply_release m n incumbent l rel cl at s =
     (if rel then
        Inr ((RespRelease m n l True None at,
              map_option (\<lambda>i. Release l (cl_lease_id i) (client_bytes (cl_holder i)) (cl_expiry i)) incumbent),
             s\<lparr>svc_durable := bt_adjust l clear_counters (svc_durable s)\<rparr>)
      else
        Inr ((RespRelease m n l False (map_option (compose (svc_durable s) l) cl) at, None), s))"

definition reply_break ::
  "uuid \<Rightarrow> u64 \<Rightarrow> core_lease option \<Rightarrow> u64 \<Rightarrow> bool \<Rightarrow> core_lease option \<Rightarrow> u64 \<Rightarrow> 'c service \<Rightarrow> 'c exec_result" where
  "reply_break m n stored l br cl at s =
     (if br then
        (let s' = s\<lparr>svc_durable := bt_adjust l clear_counters (svc_durable s)\<rparr> in
         Inr ((RespBreak m n l True (map_option (compose (svc_durable s') l) cl) at,
               map_option (\<lambda>i. Break l (cl_lease_id i) (client_bytes (cl_holder i)) (cl_expiry i)) stored),
              s'))
      else
        Inr ((RespBreak m n l False (map_option (compose (svc_durable s) l) cl) at, None), s))"

fun service_reply ::
  "uuid \<Rightarrow> u64 \<Rightarrow> u64 \<Rightarrow> core_lease option \<Rightarrow> core_lease option \<Rightarrow> durable_entry \<Rightarrow> string option \<Rightarrow>
     string list option \<Rightarrow> core_response \<Rightarrow> 'c service \<Rightarrow> 'c exec_result" where
  "service_reply m n t stored incumbent prior set_name set_labels (CoreRespGet l cl at) s =
     reply_get m n l cl at s"
| "service_reply m n t stored incumbent prior set_name set_labels (CoreRespSet l gr cl at) s =
     reply_set m n t incumbent prior set_name set_labels l gr cl at s"
| "service_reply m n t stored incumbent prior set_name set_labels (CoreRespRelease l rel cl at) s =
     reply_release m n incumbent l rel cl at s"
| "service_reply m n t stored incumbent prior set_name set_labels (CoreRespBreak l br cl at) s =
     reply_break m n stored l br cl at s"

definition stored_lease :: "'c core_ops \<Rightarrow> 'c \<Rightarrow> u64 \<Rightarrow> core_lease option" where
  "stored_lease co c l = bt_get (cs_locks (core_snapshot co c)) l"

definition live_lease :: "'c core_ops \<Rightarrow> 'c \<Rightarrow> u64 \<Rightarrow> u64 \<Rightarrow> core_lease option" where
  "live_lease co c l t =
     (case stored_lease co c l of
        None \<Rightarrow> None
      | Some x \<Rightarrow> if cl_expiry x > t then Some x else None)"

fun set_identity :: "request \<Rightarrow> string option \<times> string list option" where
  "set_identity (ReqSet _ _ _ _ _ nm lbs _) = (nm, lbs)"
| "set_identity _ = (None, None)"

definition service_execute ::
  "'c core_ops \<Rightarrow> (bytes \<Rightarrow> request option) \<Rightarrow> uuid \<Rightarrow> u64 \<Rightarrow> u64 \<Rightarrow> u64 \<Rightarrow> bytes \<Rightarrow> 'c service \<Rightarrow> 'c exec_result" where
  "service_execute co parse m c n t payload s =
     try_bind (decode parse payload) (\<lambda>request.
       if ids request \<noteq> (m, c, n) then Inl EnvelopeMismatch
       else
         (let l = lock_id request;
              stored = stored_lease co (svc_core s) l;
              incumbent = live_lease co (svc_core s) l t;
              prior = (case bt_get (svc_durable s) l of None \<Rightarrow> default_entry | Some e \<Rightarrow> e);
              (set_name, set_labels) = set_identity request
          in try_bind (core_request_of co request) (\<lambda>creq.
               case core_execute co (svc_core s) t creq of
                 None \<Rightarrow> Inl CoreRefused
               | Some (reply, core') \<Rightarrow>
                   service_reply m n t stored incumbent prior set_name set_labels reply
                     (s\<lparr>svc_core := core'\<rparr>))))"

definition service_is_empty :: "'c core_ops \<Rightarrow> 'c service \<Rightarrow> bool" where
  "service_is_empty co s = core_is_empty co (svc_core s)"

definition service_snapshot :: "'c core_ops \<Rightarrow> 'c service \<Rightarrow> state_snapshot" where
  "service_snapshot co s =
     (let cs = core_snapshot co (svc_core s) in
      \<lparr>locks = bt_map (compose (svc_durable s)) (cs_locks cs), generations = cs_generations cs\<rparr>)"

definition core_lease_of :: "'c core_ops \<Rightarrow> lease \<Rightarrow> core_lease" where
  "core_lease_of co le =
     \<lparr>cl_lease_id = lease_id le,
      cl_holder = (case client_of co (holder le) of Inl _ \<Rightarrow> core_nil_client | Inr c \<Rightarrow> c),
      cl_expiry = expiry le, cl_window = lease_ms le\<rparr>"

definition durable_of :: "lease \<Rightarrow> durable_entry" where
  "durable_of le =
     \<lparr>d_name = name le, d_labels = labels le, d_taken_at_ms = taken_at_ms le,
      d_renew_count = renew_count le\<rparr>"

definition service_restore :: "'c core_ops \<Rightarrow> state_snapshot \<Rightarrow> 'c service \<Rightarrow> 'c service" where
  "service_restore co snap s =
     \<lparr>svc_core = core_restore co (svc_core s)
        \<lparr>cs_locks = bt_map (\<lambda>_ le. core_lease_of co le) (locks snap),
         cs_generations = generations snap\<rparr>,
      svc_durable = bt_map (\<lambda>_ le. durable_of le) (locks snap)\<rparr>"

section \<open>The documented behaviour of the lock machinery\<close>

text \<open>A client identity is its two halves, and the nil pair is no client.\<close>

definition client_law :: "'c core_ops \<Rightarrow> bool" where
  "client_law co \<longleftrightarrow>
     (\<forall>m l. core_client_new co m l = (if m = 0 \<and> l = 0 then None else Some \<lparr>msb = m, lsb = l\<rparr>))"

text \<open>Restoring installs a snapshot wholesale.\<close>

definition restore_law :: "'c core_ops \<Rightarrow> bool" where
  "restore_law co \<longleftrightarrow> (\<forall>c sn. core_snapshot co (core_restore co c sn) = sn)"

text \<open>GET returns the live lease and changes nothing.\<close>

definition get_law :: "'c core_ops \<Rightarrow> bool" where
  "get_law co \<longleftrightarrow> (\<forall>c t l. \<exists>c'.
     core_execute co c t (CoreGet l) = Some (CoreRespGet l (live_lease co c l t) t, c') \<and>
     core_snapshot co c' = core_snapshot co c)"

text \<open>
  SET: a positive window against a free lock or the same holder's lease is granted and
  the stored record becomes the reply's lease; every other SET is refused with the
  incumbent and changes nothing.
\<close>

definition set_law :: "'c core_ops \<Rightarrow> bool" where
  "set_law co \<longleftrightarrow> (\<forall>c t cl l w.
     if w \<noteq> 0 \<and> (\<forall>x. live_lease co c l t = Some x \<longrightarrow> cl_holder x = cl)
     then \<exists>c' g. core_execute co c t (CoreSet cl l w) = Some (CoreRespSet l True (Some g) t, c') \<and>
            cl_holder g = cl \<and> cl_window g = w \<and>
            (unat t + unat w < 2 ^ 64 \<longrightarrow> cl_expiry g = t + w) \<and>
            stored_lease co c' = (stored_lease co c)(l \<mapsto> g)
     else \<exists>c'. core_execute co c t (CoreSet cl l w) =
              Some (CoreRespSet l False (live_lease co c l t) t, c') \<and>
            core_snapshot co c' = core_snapshot co c)"

text \<open>
  RELEASE removes a live lease when holder and lease id match, succeeds idempotently
  when there is no live lease, and is refused otherwise.
\<close>

definition release_law :: "'c core_ops \<Rightarrow> bool" where
  "release_law co \<longleftrightarrow> (\<forall>c t cl l lid.
     case live_lease co c l t of
       None \<Rightarrow> (\<exists>c'. core_execute co c t (CoreRelease cl l lid) = Some (CoreRespRelease l True None t, c') \<and>
                 (\<forall>k. k \<noteq> l \<longrightarrow> stored_lease co c' k = stored_lease co c k) \<and>
                 live_lease co c' l t = None)
     | Some x \<Rightarrow>
         (if cl_holder x = cl \<and> cl_lease_id x = lid
          then \<exists>c'. core_execute co c t (CoreRelease cl l lid) = Some (CoreRespRelease l True None t, c') \<and>
                 stored_lease co c' = (stored_lease co c)(l := None)
          else \<exists>c'. core_execute co c t (CoreRelease cl l lid) = Some (CoreRespRelease l False (Some x) t, c') \<and>
                 core_snapshot co c' = core_snapshot co c))"

text \<open>
  BREAK leaves every other lock alone; nothing stored is reported as such; a stored
  lease is replaced by the keeper record: the lease id bumped, no holder, expiry 0.
\<close>

definition keeper_of :: "core_lease \<Rightarrow> core_lease \<Rightarrow> bool" where
  "keeper_of x k \<longleftrightarrow>
     cl_lease_id k = cl_lease_id x + 1 \<and> cl_holder k = core_nil_client \<and> cl_expiry k = 0"

definition break_law :: "'c core_ops \<Rightarrow> bool" where
  "break_law co \<longleftrightarrow> (\<forall>c t l.
     case stored_lease co c l of
       None \<Rightarrow> (\<exists>c'. core_execute co c t (CoreBreak l) = Some (CoreRespBreak l False None t, c') \<and>
                 core_snapshot co c' = core_snapshot co c)
     | Some x \<Rightarrow> (\<exists>c' k. core_execute co c t (CoreBreak l) = Some (CoreRespBreak l True (Some k) t, c') \<and>
                 keeper_of x k \<and> stored_lease co c' = (stored_lease co c)(l \<mapsto> k)))"

definition core_documented :: "'c core_ops \<Rightarrow> bool" where
  "core_documented co \<longleftrightarrow>
     client_law co \<and> restore_law co \<and> get_law co \<and> set_law co \<and> release_law co \<and> break_law co"

end
