(* ===== verification/Lock_Service_Props.thy ===== *)
theory Lock_Service_Props
  imports Lock_Service
begin

text \<open>
  What the lock service guarantees over lock machinery that behaves as documented:
  identities survive the trip through the machinery, a snapshot restores to itself,
  grants are classified and booked as renewals or takes, refused and read-only requests
  change nothing, and a granted lease excludes every other holder until it expires, is
  released by its holder or is broken.
\<close>

section \<open>Client identities\<close>

lemma uuid_halves:
  "be_bytes 16 (h :: uuid) =
     be_bytes 8 (be_word (slice 0 8 (be_bytes 16 h)) :: u64) @
     be_bytes 8 (be_word (slice 8 16 (be_bytes 16 h)) :: u64)"
proof -
  let ?b = "be_bytes 16 h"
  have "be_bytes 8 (be_word (slice 0 8 ?b) :: u64) = slice 0 8 ?b"
    by (rule be_bytes_be_word) simp_all
  moreover have "be_bytes 8 (be_word (slice 8 16 ?b) :: u64) = slice 8 16 ?b"
    by (rule be_bytes_be_word) simp_all
  moreover have "slice 0 8 ?b @ slice 8 16 ?b = ?b"
    using append_take_drop_id [of 8 ?b] by (simp add: slice_def del: be_bytes.simps)
  ultimately show ?thesis by simp
qed

lemma holder_uuid_halves:
  "holder_uuid \<lparr>msb = be_word (slice 0 8 (be_bytes 16 h)), lsb = be_word (slice 8 16 (be_bytes 16 h))\<rparr> = h"
  unfolding holder_uuid_def client_bytes_def by (simp flip: uuid_halves)

lemma client_bytes_holder: "client_bytes c = be_bytes 16 (holder_uuid c)"
  unfolding holder_uuid_def by (rule be_bytes_be_word [symmetric]) (simp_all add: client_bytes_def)

lemma be_word_zeros: "be_val (replicate n 0) = 0"
  by (induction n) (simp_all add: be_val_Cons)

lemma holder_uuid_nil [simp]: "holder_uuid core_nil_client = 0"
proof -
  have "client_bytes core_nil_client = replicate 16 0"
    by (simp add: client_bytes_def core_nil_client_def eval_nat_numeral)
  then show ?thesis
    by (simp add: holder_uuid_def be_word_def be_word_zeros)
qed

lemma holder_uuid_inj: "holder_uuid c = holder_uuid d \<longleftrightarrow> c = d"
proof
  assume "holder_uuid c = holder_uuid d"
  then have "client_bytes c = client_bytes d"
    by (simp add: client_bytes_holder)
  then have "be_bytes 8 (msb c) = be_bytes 8 (msb d)" "be_bytes 8 (lsb c) = be_bytes 8 (lsb d)"
    by (auto simp: client_bytes_def)
  then have "be_word (be_bytes 8 (msb c)) = msb d" "be_word (be_bytes 8 (lsb c)) = lsb d"
    by simp_all
  then show "c = d" by simp
qed simp

lemma client_of_Inr: "client_law co \<Longrightarrow> client_of co h = Inr c \<Longrightarrow> holder_uuid c = h"
  by (auto simp: client_law_def client_of_def Let_def holder_uuid_halves split: if_splits)

lemma client_of_Inl:
  assumes "client_law co" and "client_of co h = Inl e"
  shows "h = 0 \<and> e = NilHolder"
proof -
  from assms have z: "be_word (slice 0 8 (be_bytes 16 h)) = (0 :: u64)"
      "be_word (slice 8 16 (be_bytes 16 h)) = (0 :: u64)" and e: "e = NilHolder"
    by (auto simp: client_law_def client_of_def Let_def split: if_splits)
  have "h = holder_uuid core_nil_client"
    using holder_uuid_halves [of h] by (simp add: z core_nil_client_def)
  with e show ?thesis by simp
qed

lemma client_of_holder_uuid:
  assumes "client_law co" and "holder_uuid c \<noteq> 0"
  shows "client_of co (holder_uuid c) = Inr c"
proof (cases "client_of co (holder_uuid c)")
  case (Inl e)
  then show ?thesis using client_of_Inl [OF assms(1)] assms(2) by blast
next
  case (Inr d)
  then show ?thesis using client_of_Inr [OF assms(1) Inr] by (simp add: holder_uuid_inj)
qed

lemma holder_core_lease_of:
  "client_law co \<Longrightarrow> holder_uuid (cl_holder (core_lease_of co le)) = holder le"
  by (cases "client_of co (holder le)")
    (auto simp: core_lease_of_def dest: client_of_Inr client_of_Inl)

section \<open>Snapshot and restore\<close>

lemma compose_durable_of:
  assumes "client_law co" and "bt_get m l = Some le"
  shows "compose (bt_map (\<lambda>_. durable_of) m) l (core_lease_of co le) = le"
  using assms holder_core_lease_of [OF assms(1), of le]
  by (simp add: compose_def durable_of_def core_lease_of_def)

lemma restore_snapshot_locks:
  assumes "client_law co" and "bt_wf m"
  shows "bt_map (compose (bt_map (\<lambda>_ le. durable_of le) m)) (bt_map (\<lambda>_ le. core_lease_of co le) m) = m"
proof -
  have "bt_map (compose (bt_map (\<lambda>_ le. durable_of le) m)) (bt_map (\<lambda>_ le. core_lease_of co le) m) =
      map (\<lambda>e. e) m"
    unfolding bt_map_def map_map
  proof (rule map_cong [OF refl])
    fix e assume "e \<in> set m"
    then have "bt_get m (fst e) = Some (snd e)"
      using bt_get_mem [OF assms(2), of "fst e" "snd e"] by simp
    from compose_durable_of [OF assms(1) this]
    show "((\<lambda>(k, v). (k, compose (map (\<lambda>(k, v). (k, durable_of v)) m) k v)) \<circ>
            (\<lambda>(k, v). (k, core_lease_of co v))) e = e"
      by (cases e) (simp add: bt_map_def)
  qed
  then show ?thesis by simp
qed

section \<open>One execution, taken apart\<close>

lemma live_lease_Some: "live_lease co c l t = Some x \<longleftrightarrow> stored_lease co c l = Some x \<and> t < cl_expiry x"
  by (auto simp: live_lease_def split: option.splits if_splits)

lemma stored_snapshot_cong: "core_snapshot co c' = core_snapshot co c \<Longrightarrow> stored_lease co c' = stored_lease co c"
  by (rule ext) (simp add: stored_lease_def)

lemma service_execute_decoded:
  assumes "decode parse payload = Inr r" and "ids r = (m, c, n)"
  shows "service_execute co parse m c n t payload s =
     try_bind (core_request_of co r) (\<lambda>creq.
       case core_execute co (svc_core s) t creq of
         None \<Rightarrow> Inl CoreRefused
       | Some (reply, core') \<Rightarrow>
           service_reply m n t (stored_lease co (svc_core s) (lock_id r))
             (live_lease co (svc_core s) (lock_id r) t)
             (case bt_get (svc_durable s) (lock_id r) of None \<Rightarrow> default_entry | Some e \<Rightarrow> e)
             (fst (set_identity r)) (snd (set_identity r)) reply (s\<lparr>svc_core := core'\<rparr>))"
  using assms by (simp add: service_execute_def Let_def case_prod_beta)

lemma service_execute_Inr:
  assumes "service_execute co parse m c n t payload s = Inr out"
  obtains r where "decode parse payload = Inr r" and "ids r = (m, c, n)"
  using assms by (auto simp: service_execute_def try_bind_Inr_iff split: if_splits)

lemma service_reply_core:
  "service_reply m n t stored inc prior nm lbs reply s = Inr (out, s') \<Longrightarrow> svc_core s' = svc_core s"
  by (cases reply)
    (auto simp: reply_get_def reply_set_def reply_release_def reply_break_def Let_def
      split: if_splits option.splits)

lemma service_execute_core_step:
  assumes "service_execute co parse m c n t payload s = Inr (out, s')"
    and "decode parse payload = Inr r"
  obtains creq reply where "core_request_of co r = Inr creq"
    and "core_execute co (svc_core s) t creq = Some (reply, svc_core s')"
proof -
  from assms(1) obtain r' where r': "decode parse payload = Inr r'" "ids r' = (m, c, n)"
    by (rule service_execute_Inr)
  with assms(2) have [simp]: "r' = r" by simp
  from assms(1) obtain creq reply core' where
      1: "core_request_of co r = Inr creq"
      "core_execute co (svc_core s) t creq = Some (reply, core')"
      and 2: "service_reply m n t (stored_lease co (svc_core s) (lock_id r))
             (live_lease co (svc_core s) (lock_id r) t)
             (case bt_get (svc_durable s) (lock_id r) of None \<Rightarrow> default_entry | Some e \<Rightarrow> e)
             (fst (set_identity r)) (snd (set_identity r)) reply (s\<lparr>svc_core := core'\<rparr>) = Inr (out, s')"
    unfolding service_execute_decoded [OF r'(1) r'(2)]
    by (auto simp: try_bind_Inr_iff split: option.splits)
  from service_reply_core [OF 2] have "svc_core s' = core'" by simp
  with 1 that show thesis by blast
qed

section \<open>The effect of each request\<close>

definition table :: "'c core_ops \<Rightarrow> 'c service \<Rightarrow> u64 \<rightharpoonup> lease" where
  "table co s = bt_get (locks (service_snapshot co s))"

definition prior_entry :: "'c service \<Rightarrow> u64 \<Rightarrow> durable_entry" where
  "prior_entry s l = (case bt_get (svc_durable s) l of None \<Rightarrow> default_entry | Some e \<Rightarrow> e)"

lemma table_eq: "table co s l = map_option (compose (svc_durable s) l) (stored_lease co (svc_core s) l)"
  by (simp add: table_def service_snapshot_def stored_lease_def Let_def)

lemma snapshot_core_cong:
  "core_snapshot co c = core_snapshot co (svc_core s) \<Longrightarrow>
     service_snapshot co (s\<lparr>svc_core := c\<rparr>) = service_snapshot co s"
  by (simp add: service_snapshot_def)

lemma execute_get:
  assumes "core_documented co" and "decode parse payload = Inr (ReqGet m c n l)"
  obtains c' where "service_execute co parse m c n t payload s =
      Inr ((RespGet m n l (map_option (compose (svc_durable s) l) (live_lease co (svc_core s) l t)) t, None),
           s\<lparr>svc_core := c'\<rparr>)"
    and "core_snapshot co c' = core_snapshot co (svc_core s)"
proof -
  from assms(1) obtain c' where "core_execute co (svc_core s) t (CoreGet l) =
      Some (CoreRespGet l (live_lease co (svc_core s) l t) t, c')"
      "core_snapshot co c' = core_snapshot co (svc_core s)"
    unfolding core_documented_def get_law_def by blast
  with assms(2) that [of c'] show thesis
    by (simp add: service_execute_decoded reply_get_def)
qed

lemma set_law_granted:
  assumes "set_law co" and "w \<noteq> 0" and "\<forall>x. live_lease co c l t = Some x \<longrightarrow> cl_holder x = cl"
  shows "\<exists>c' g. core_execute co c t (CoreSet cl l w) = Some (CoreRespSet l True (Some g) t, c') \<and>
            cl_holder g = cl \<and> cl_window g = w \<and>
            (unat t + unat w < 2 ^ 64 \<longrightarrow> cl_expiry g = t + w) \<and>
            stored_lease co c' = (stored_lease co c)(l \<mapsto> g)"
  using assms(1) [unfolded set_law_def, rule_format, of w c l t cl] assms(2,3) by argo

lemma set_law_refused:
  assumes "set_law co" and "\<not> (w \<noteq> 0 \<and> (\<forall>x. live_lease co c l t = Some x \<longrightarrow> cl_holder x = cl))"
  shows "\<exists>c'. core_execute co c t (CoreSet cl l w) = Some (CoreRespSet l False (live_lease co c l t) t, c') \<and>
            core_snapshot co c' = core_snapshot co c"
  using assms(1) [unfolded set_law_def, rule_format, of w c l t cl] assms(2) by argo

lemma execute_set_granted:
  assumes "core_documented co" and "decode parse payload = Inr (ReqSet m c n l cand nm lbs sent)"
    and "cand_holder cand \<noteq> 0" and "cand_lease_ms cand \<noteq> 0"
    and "\<And>x. live_lease co (svc_core s) l t = Some x \<Longrightarrow> holder_uuid (cl_holder x) = cand_holder cand"
  obtains c' g where "service_execute co parse m c n t payload s =
      reply_set m n t (live_lease co (svc_core s) l t) (prior_entry s l) nm lbs l True (Some g) t
        (s\<lparr>svc_core := c'\<rparr>)"
    and "holder_uuid (cl_holder g) = cand_holder cand" and "cl_window g = cand_lease_ms cand"
    and "unat t + unat (cand_lease_ms cand) < 2 ^ 64 \<longrightarrow> cl_expiry g = t + cand_lease_ms cand"
    and "stored_lease co c' = (stored_lease co (svc_core s))(l \<mapsto> g)"
proof -
  have law: "client_law co" using assms(1) by (simp add: core_documented_def)
  obtain cl where cl: "client_of co (cand_holder cand) = Inr cl"
    using client_of_Inl [OF law] assms(3) by (cases "client_of co (cand_holder cand)") auto
  have h: "holder_uuid cl = cand_holder cand" using client_of_Inr [OF law cl] .
  have "\<forall>x. live_lease co (svc_core s) l t = Some x \<longrightarrow> cl_holder x = cl"
    using assms(5) by (simp flip: h add: holder_uuid_inj)
  with assms(1,4) obtain c' g where
    "core_execute co (svc_core s) t (CoreSet cl l (cand_lease_ms cand)) = Some (CoreRespSet l True (Some g) t, c')"
    and g: "cl_holder g = cl" "cl_window g = cand_lease_ms cand"
    "unat t + unat (cand_lease_ms cand) < 2 ^ 64 \<longrightarrow> cl_expiry g = t + cand_lease_ms cand"
    "stored_lease co c' = (stored_lease co (svc_core s))(l \<mapsto> g)"
    using set_law_granted [of co "cand_lease_ms cand" "svc_core s" l t cl] assms(1)
    by (auto simp: core_documented_def)
  then have "service_execute co parse m c n t payload s =
      reply_set m n t (live_lease co (svc_core s) l t) (prior_entry s l) nm lbs l True (Some g) t
        (s\<lparr>svc_core := c'\<rparr>)"
    using assms(2) cl by (simp add: service_execute_decoded prior_entry_def)
  from that [OF this] g h show thesis by blast
qed

lemma execute_set_refused:
  assumes "core_documented co" and "decode parse payload = Inr (ReqSet m c n l cand nm lbs sent)"
    and "cand_holder cand \<noteq> 0"
    and "cand_lease_ms cand = 0 \<or>
      (\<exists>x. live_lease co (svc_core s) l t = Some x \<and> holder_uuid (cl_holder x) \<noteq> cand_holder cand)"
  obtains c' where "service_execute co parse m c n t payload s =
      Inr ((RespSet m n l False (map_option (compose (svc_durable s) l) (live_lease co (svc_core s) l t)) t, None),
           s\<lparr>svc_core := c'\<rparr>)"
    and "core_snapshot co c' = core_snapshot co (svc_core s)"
proof -
  have law: "client_law co" using assms(1) by (simp add: core_documented_def)
  obtain cl where cl: "client_of co (cand_holder cand) = Inr cl"
    using client_of_Inl [OF law] assms(3) by (cases "client_of co (cand_holder cand)") auto
  have "\<not> (cand_lease_ms cand \<noteq> 0 \<and> (\<forall>x. live_lease co (svc_core s) l t = Some x \<longrightarrow> cl_holder x = cl))"
    using assms(4) client_of_Inr [OF law cl] by auto
  with assms(1) obtain c' where
    "core_execute co (svc_core s) t (CoreSet cl l (cand_lease_ms cand)) =
       Some (CoreRespSet l False (live_lease co (svc_core s) l t) t, c')"
    "core_snapshot co c' = core_snapshot co (svc_core s)"
    using set_law_refused [of co "cand_lease_ms cand" "svc_core s" l t cl] assms(1)
    by (auto simp: core_documented_def)
  with assms(2) cl that [of c'] show thesis
    by (simp add: service_execute_decoded reply_set_def)
qed

lemma execute_nil_holder:
  assumes "core_documented co"
    and "decode parse payload = Inr (ReqSet m c n l cand nm lbs sent) \<and> cand_holder cand = 0 \<or>
         decode parse payload = Inr (ReqRelease m c n l 0 lid)"
  shows "service_execute co parse m c n t payload s = Inl NilHolder"
proof -
  have law: "client_law co" using assms(1) by (simp add: core_documented_def)
  have "client_of co 0 = Inl NilHolder"
  proof (cases "client_of co 0")
    case (Inl e)
    then show ?thesis using client_of_Inl [OF law] by blast
  next
    case (Inr d)
    then have "d = core_nil_client"
      using client_of_Inr [OF law Inr] by (metis holder_uuid_inj holder_uuid_nil)
    with Inr law show ?thesis
      by (auto simp: client_law_def client_of_def core_nil_client_def Let_def split: if_splits)
  qed
  with assms(2) show ?thesis by (auto simp: service_execute_decoded)
qed

lemma execute_release:
  assumes "core_documented co" and "decode parse payload = Inr (ReqRelease m c n l h lid)" and "h \<noteq> 0"
  obtains
    (idle) c' where "live_lease co (svc_core s) l t = None"
      and "service_execute co parse m c n t payload s =
        reply_release m n None l True None t (s\<lparr>svc_core := c'\<rparr>)"
      and "\<And>k. k \<noteq> l \<Longrightarrow> stored_lease co c' k = stored_lease co (svc_core s) k"
      and "live_lease co c' l t = None"
  | (hit) x c' where "live_lease co (svc_core s) l t = Some x"
      and "holder_uuid (cl_holder x) = h" and "cl_lease_id x = lid"
      and "service_execute co parse m c n t payload s =
        reply_release m n (Some x) l True None t (s\<lparr>svc_core := c'\<rparr>)"
      and "stored_lease co c' = (stored_lease co (svc_core s))(l := None)"
  | (refused) x c' where "live_lease co (svc_core s) l t = Some x"
      and "holder_uuid (cl_holder x) \<noteq> h \<or> cl_lease_id x \<noteq> lid"
      and "service_execute co parse m c n t payload s =
        Inr ((RespRelease m n l False (Some (compose (svc_durable s) l x)) t, None), s\<lparr>svc_core := c'\<rparr>)"
      and "core_snapshot co c' = core_snapshot co (svc_core s)"
proof -
  have law: "client_law co" using assms(1) by (simp add: core_documented_def)
  obtain cl where cl: "client_of co h = Inr cl"
    using client_of_Inl [OF law] assms(3) by (cases "client_of co h") auto
  have h: "holder_uuid cl = h" using client_of_Inr [OF law cl] .
  note rl = assms(1) [unfolded core_documented_def release_law_def, THEN conjunct2, THEN conjunct2,
      THEN conjunct2, THEN conjunct2, THEN conjunct1, rule_format, where c = "svc_core s" and t = t and cl = cl and l = l and lid = lid]
  have ex: "service_execute co parse m c n t payload s =
      (case core_execute co (svc_core s) t (CoreRelease cl l lid) of
         None \<Rightarrow> Inl CoreRefused
       | Some (reply, core') \<Rightarrow>
           service_reply m n t (stored_lease co (svc_core s) l) (live_lease co (svc_core s) l t)
             (prior_entry s l) None None reply (s\<lparr>svc_core := core'\<rparr>))"
    using assms(2) cl by (simp add: service_execute_decoded prior_entry_def split: option.split)
  show thesis
  proof (cases "live_lease co (svc_core s) l t")
    case None
    with rl ex idle show ?thesis by auto
  next
    case (Some x)
    show ?thesis
    proof (cases "cl_holder x = cl \<and> cl_lease_id x = lid")
      case True
      with Some rl ex h hit [of x] show ?thesis by auto
    next
      case False
      then have "holder_uuid (cl_holder x) \<noteq> h \<or> cl_lease_id x \<noteq> lid"
        by (simp flip: h add: holder_uuid_inj)
      with False Some rl ex refused [of x] show ?thesis by (auto simp: reply_release_def)
    qed
  qed
qed

lemma execute_break:
  assumes "core_documented co" and "decode parse payload = Inr (ReqBreak m c n l)"
  obtains
    (absent) c' where "stored_lease co (svc_core s) l = None"
      and "service_execute co parse m c n t payload s =
        Inr ((RespBreak m n l False None t, None), s\<lparr>svc_core := c'\<rparr>)"
      and "core_snapshot co c' = core_snapshot co (svc_core s)"
  | (hit) x k c' where "stored_lease co (svc_core s) l = Some x" and "keeper_of x k"
      and "service_execute co parse m c n t payload s =
        reply_break m n (Some x) l True (Some k) t (s\<lparr>svc_core := c'\<rparr>)"
      and "stored_lease co c' = (stored_lease co (svc_core s))(l \<mapsto> k)"
proof -
  note bl = assms(1) [unfolded core_documented_def break_law_def, THEN conjunct2, THEN conjunct2,
      THEN conjunct2, THEN conjunct2, THEN conjunct2, rule_format, where c = "svc_core s" and t = t and l = l]
  show thesis
  proof (cases "stored_lease co (svc_core s) l")
    case None
    with bl absent assms(2) show ?thesis
      by (auto simp: service_execute_decoded reply_break_def)
  next
    case (Some x)
    with bl hit [of x] assms(2) show ?thesis
      by (auto simp: service_execute_decoded)
  qed
qed

section \<open>Sequences of committed operations\<close>

text \<open>
  One committed operation as the replica hands it to the service: the envelope, the
  execution time and the payload. A refused envelope leaves the service as it was.
\<close>

record lock_op =
  op_message :: uuid
  op_client :: u64
  op_request :: u64
  op_time :: u64
  op_payload :: bytes

definition service_step :: "'c core_ops \<Rightarrow> (bytes \<Rightarrow> request option) \<Rightarrow> lock_op \<Rightarrow> 'c service \<Rightarrow> 'c service" where
  "service_step co parse op s =
     (case service_execute co parse (op_message op) (op_client op) (op_request op) (op_time op) (op_payload op) s of
        Inl _ \<Rightarrow> s
      | Inr (_, s') \<Rightarrow> s')"

definition run_ops :: "'c core_ops \<Rightarrow> (bytes \<Rightarrow> request option) \<Rightarrow> lock_op list \<Rightarrow> 'c service \<Rightarrow> 'c service" where
  "run_ops co parse = fold (service_step co parse)"

text \<open>
  The operations that end or replace the lease of holder \<open>h\<close> under lease id
  \<open>lid\<close>: the holder's own SET, the holder's matching RELEASE, and BREAK.
\<close>

fun request_disturbs :: "u64 \<Rightarrow> uuid \<Rightarrow> u64 \<Rightarrow> request \<Rightarrow> bool" where
  "request_disturbs l h lid (ReqGet _ _ _ _) = False"
| "request_disturbs l h lid (ReqSet _ _ _ l' cand _ _ _) = (l' = l \<and> cand_holder cand = h)"
| "request_disturbs l h lid (ReqRelease _ _ _ l' h' lid') = (l' = l \<and> h' = h \<and> lid' = lid)"
| "request_disturbs l h lid (ReqBreak _ _ _ l') = (l' = l)"

definition disturbs :: "(bytes \<Rightarrow> request option) \<Rightarrow> u64 \<Rightarrow> uuid \<Rightarrow> u64 \<Rightarrow> lock_op \<Rightarrow> bool" where
  "disturbs parse l h lid op =
     (case decode parse (op_payload op) of Inl _ \<Rightarrow> False | Inr r \<Rightarrow> request_disturbs l h lid r)"

lemma compose_cong: "bt_get d l = bt_get d' l \<Longrightarrow> compose d l x = compose d' l x"
  by (simp add: compose_def)

text \<open>An operation that does not disturb a live lease leaves its record untouched.\<close>

lemma table_Some:
  "table co s l = Some g \<longleftrightarrow> (\<exists>x. stored_lease co (svc_core s) l = Some x \<and> compose (svc_durable s) l x = g)"
  by (simp add: table_eq)

lemma compose_sel [simp]:
  "lease_id (compose d l x) = cl_lease_id x" "holder (compose d l x) = holder_uuid (cl_holder x)"
  "expiry (compose d l x) = cl_expiry x" "lease_ms (compose d l x) = cl_window x"
  by (simp_all add: compose_def Let_def)

lemma table_core_cong:
  "core_snapshot co c = core_snapshot co (svc_core s) \<Longrightarrow> table co (s\<lparr>svc_core := c\<rparr>) = table co s"
  by (simp add: table_def snapshot_core_cong)

lemma table_other_lock:
  assumes "stored_lease co c k = stored_lease co (svc_core s) k" and "bt_get d k = bt_get (svc_durable s) k"
  shows "table co \<lparr>svc_core = c, svc_durable = d\<rparr> k = table co s k"
  using assms by (simp add: table_eq compose_cong [OF assms(2)] cong: map_option_cong)

lemma execute_set_cases:
  assumes "core_documented co" and "decode parse payload = Inr (ReqSet m c n l cand nm lbs sent)"
    and "service_execute co parse m c n t payload s = Inr (out, s')"
  obtains
    (refused) c' where "s' = s\<lparr>svc_core := c'\<rparr>" and "core_snapshot co c' = core_snapshot co (svc_core s)"
      and "out = (RespSet m n l False (map_option (compose (svc_durable s) l) (live_lease co (svc_core s) l t)) t, None)"
  | (granted) c' g where
      "\<And>x. live_lease co (svc_core s) l t = Some x \<Longrightarrow> holder_uuid (cl_holder x) = cand_holder cand"
      and "Inr (out, s') = reply_set m n t (live_lease co (svc_core s) l t) (prior_entry s l) nm lbs l True
          (Some g) t (s\<lparr>svc_core := c'\<rparr>)"
      and "holder_uuid (cl_holder g) = cand_holder cand"
      and "stored_lease co c' = (stored_lease co (svc_core s))(l \<mapsto> g)"
proof -
  have h: "cand_holder cand \<noteq> 0"
    using execute_nil_holder [OF assms(1), of parse payload m c n l cand nm lbs sent] assms(2,3) by auto
  show thesis
  proof (cases "cand_lease_ms cand = 0 \<or>
      (\<exists>x. live_lease co (svc_core s) l t = Some x \<and> holder_uuid (cl_holder x) \<noteq> cand_holder cand)")
    case True
    obtain c' where "service_execute co parse m c n t payload s =
        Inr ((RespSet m n l False (map_option (compose (svc_durable s) l) (live_lease co (svc_core s) l t)) t, None),
             s\<lparr>svc_core := c'\<rparr>)" "core_snapshot co c' = core_snapshot co (svc_core s)"
      by (rule execute_set_refused [OF assms(1,2) h True])
    with assms(3) refused [of c'] show ?thesis by simp
  next
    case False
    then have f: "cand_lease_ms cand \<noteq> 0"
      "\<And>x. live_lease co (svc_core s) l t = Some x \<Longrightarrow> holder_uuid (cl_holder x) = cand_holder cand"
      by auto
    obtain c' g where "service_execute co parse m c n t payload s =
        reply_set m n t (live_lease co (svc_core s) l t) (prior_entry s l) nm lbs l True (Some g) t
          (s\<lparr>svc_core := c'\<rparr>)" "holder_uuid (cl_holder g) = cand_holder cand"
        "stored_lease co c' = (stored_lease co (svc_core s))(l \<mapsto> g)"
      by (rule execute_set_granted [OF assms(1,2) h f])
    with assms(3) granted [of g c'] f(2) show ?thesis by simp
  qed
qed

lemma execute_release_cases:
  assumes "core_documented co" and "decode parse payload = Inr (ReqRelease m c n l h lid)"
    and "service_execute co parse m c n t payload s = Inr (out, s')"
  shows "h \<noteq> 0"
  using execute_nil_holder [OF assms(1), of parse payload m c n l] assms(2,3) by auto

lemma execute_other_lock:
  assumes "core_documented co" and "service_execute co parse m c n t payload s = Inr (out, s')"
    and "decode parse payload = Inr r" and "lock_id r \<noteq> k"
  shows "table co s' k = table co s k"
proof -
  have idsr: "ids r = (m, c, n)" using service_execute_Inr [OF assms(2)] assms(3) by force
  note frame = table_core_cong table_eq
  show ?thesis
  proof (cases r)
    case (ReqGet m' c' n' l)
    with assms(3) idsr have "decode parse payload = Inr (ReqGet m c n l)" by simp
    then show ?thesis
      by (rule execute_get [OF assms(1), of parse payload m c n l t s])
        (use assms(2) in \<open>auto simp: table_core_cong\<close>)
  next
    case (ReqSet m' c' n' l cand nm lbs sent)
    with assms(3) idsr have d: "decode parse payload = Inr (ReqSet m c n l cand nm lbs sent)" by simp
    from assms(1) d assms(2) show ?thesis
      by (cases rule: execute_set_cases)
        (use assms(4) ReqSet in
          \<open>auto simp: reply_set_def Let_def frame intro!: option.map_cong0 compose_cong\<close>)
  next
    case (ReqRelease m' c' n' l h lid)
    with assms(3) idsr have d: "decode parse payload = Inr (ReqRelease m c n l h lid)" by simp
    from assms(1) d execute_release_cases [OF assms(1) d assms(2)] show ?thesis
      by (rule execute_release [of co parse payload m c n l h lid s t])
        (use assms(2,4) ReqRelease in
          \<open>auto simp: reply_release_def frame intro!: option.map_cong0 compose_cong\<close>)
  next
    case (ReqBreak m' c' n' l)
    with assms(3) idsr have d: "decode parse payload = Inr (ReqBreak m c n l)" by simp
    from assms(1) d show ?thesis
      by (rule execute_break [of co parse payload m c n l s t])
        (use assms(2,4) ReqBreak in
          \<open>auto simp: reply_break_def Let_def frame intro!: option.map_cong0 compose_cong\<close>)
  qed
qed

section \<open>A machinery that behaves as documented\<close>

text \<open>
  The smallest machinery that satisfies the documented behaviour: the table of leases and
  the watermark of every lock. It serves the closed instances of the theorems below.
\<close>

definition doc_mint :: "core_snap \<Rightarrow> u64 \<Rightarrow> u64" where
  "doc_mint c l = (case bt_get (cs_generations c) l of None \<Rightarrow> 1 | Some g \<Rightarrow> g + 1)"

definition doc_live :: "core_snap \<Rightarrow> u64 \<Rightarrow> u64 \<Rightarrow> core_lease option" where
  "doc_live c l t =
     (case bt_get (cs_locks c) l of None \<Rightarrow> None | Some x \<Rightarrow> if cl_expiry x > t then Some x else None)"

fun doc_execute :: "core_snap \<Rightarrow> u64 \<Rightarrow> core_request \<Rightarrow> (core_response \<times> core_snap) option" where
  "doc_execute c t (CoreGet l) = Some (CoreRespGet l (doc_live c l t) t, c)"
| "doc_execute c t (CoreSet cl l w) =
     (if w \<noteq> 0 \<and> (case doc_live c l t of None \<Rightarrow> True | Some x \<Rightarrow> cl_holder x = cl) then
        (let lid = (case doc_live c l t of None \<Rightarrow> doc_mint c l | Some x \<Rightarrow> cl_lease_id x);
             g = \<lparr>cl_lease_id = lid, cl_holder = cl, cl_expiry = saturating_add t w, cl_window = w\<rparr>
         in Some (CoreRespSet l True (Some g) t,
              c\<lparr>cs_locks := bt_insert l g (cs_locks c),
                cs_generations := bt_insert l lid (cs_generations c)\<rparr>))
      else Some (CoreRespSet l False (doc_live c l t) t, c))"
| "doc_execute c t (CoreRelease cl l lid) =
     (case doc_live c l t of
        None \<Rightarrow> Some (CoreRespRelease l True None t, c)
      | Some x \<Rightarrow>
          (if cl_holder x = cl \<and> cl_lease_id x = lid
           then Some (CoreRespRelease l True None t, c\<lparr>cs_locks := bt_remove l (cs_locks c)\<rparr>)
           else Some (CoreRespRelease l False (Some x) t, c)))"
| "doc_execute c t (CoreBreak l) =
     (case bt_get (cs_locks c) l of
        None \<Rightarrow> Some (CoreRespBreak l False None t, c)
      | Some x \<Rightarrow>
          (let k = \<lparr>cl_lease_id = cl_lease_id x + 1, cl_holder = core_nil_client, cl_expiry = 0, cl_window = 0\<rparr>
           in Some (CoreRespBreak l True (Some k) t,
                c\<lparr>cs_locks := bt_insert l k (cs_locks c),
                  cs_generations := bt_insert l (cl_lease_id k) (cs_generations c)\<rparr>)))"

definition doc_core :: "core_snap core_ops" where
  "doc_core =
     \<lparr>core_execute = doc_execute, core_snapshot = (\<lambda>c. c), core_restore = (\<lambda>_ sn. sn),
      core_is_empty = (\<lambda>c. cs_locks c = [] \<and> cs_generations c = []),
      core_client_new = (\<lambda>m l. if m = 0 \<and> l = 0 then None else Some \<lparr>msb = m, lsb = l\<rparr>)\<rparr>"

definition doc_empty :: "core_snap service" where
  "doc_empty = \<lparr>svc_core = \<lparr>cs_locks = [], cs_generations = []\<rparr>, svc_durable = []\<rparr>"

lemma doc_stored: "stored_lease doc_core c = bt_get (cs_locks c)"
  by (rule ext) (simp add: stored_lease_def doc_core_def)

lemma doc_live_eq: "live_lease doc_core c l t = doc_live c l t"
  by (simp add: live_lease_def doc_live_def doc_stored)

lemma doc_sel [simp]:
  "core_execute doc_core = doc_execute" "core_snapshot doc_core = (\<lambda>c. c)"
  "core_restore doc_core = (\<lambda>_ sn. sn)"
  by (simp_all add: doc_core_def)

lemma saturating_add_exact: "unat a + unat b < 2 ^ 64 \<Longrightarrow> saturating_add a b = a + b" for a b :: u64
  by (simp add: saturating_add_def)

lemma doc_client_law: "client_law doc_core"
  by (simp add: client_law_def doc_core_def)

lemma doc_restore_law: "restore_law doc_core"
  by (simp add: restore_law_def)

lemma doc_get_law: "get_law doc_core"
  by (simp add: get_law_def doc_live_eq)

lemma doc_set_law: "set_law doc_core"
  by (auto simp: set_law_def doc_live_eq doc_stored Let_def saturating_add_exact split: option.splits)

lemma doc_release_law: "release_law doc_core"
  by (auto simp: release_law_def doc_live_eq doc_stored split: option.splits)

lemma doc_break_law: "break_law doc_core"
  by (auto simp: break_law_def doc_stored Let_def keeper_of_def split: option.splits)

lemma doc_core_documented: "core_documented doc_core"
  by (simp add: core_documented_def doc_client_law doc_restore_law doc_get_law doc_set_law
      doc_release_law doc_break_law)

end
