(* ===== verification/Lock_Exclusion.thy ===== *)
theory Lock_Exclusion
  imports Lock_Service_Props
begin

text \<open>
  The guarantees of the lock service, stated over its table of leases: exclusion over
  sequences of committed operations, the bookkeeping of grants, the agreement of the
  reported transition with the change of the table, and the round trip of a snapshot.
\<close>

section \<open>Undisturbed leases\<close>

text \<open>A lease record as the journal's transitions show it.\<close>

definition shows_lease :: "lease \<Rightarrow> u64 \<Rightarrow> bytes \<Rightarrow> u64 \<Rightarrow> bool" where
  "shows_lease g lid hb e \<longleftrightarrow> lease_id g = lid \<and> be_bytes 16 (holder g) = hb \<and> expiry g = e"

definition live_in :: "(u64 \<rightharpoonup> lease) \<Rightarrow> u64 \<Rightarrow> u64 \<Rightarrow> bool" where
  "live_in T l t \<longleftrightarrow> (case T l of None \<Rightarrow> False | Some g \<Rightarrow> t < expiry g)"

text \<open>The change of the table a transition stands for.\<close>

fun transition_shows :: "u64 \<Rightarrow> (u64 \<rightharpoonup> lease) \<Rightarrow> (u64 \<rightharpoonup> lease) \<Rightarrow> transition \<Rightarrow> bool" where
  "transition_shows t T T' (Hold l lid hb e) \<longleftrightarrow>
     \<not> live_in T l t \<and> (\<exists>g. T' l = Some g \<and> shows_lease g lid hb e \<and> renew_count g = 0)"
| "transition_shows t T T' (Renew l lid hb e) \<longleftrightarrow>
     live_in T l t \<and> (\<exists>g. T' l = Some g \<and> shows_lease g lid hb e \<and>
       (\<exists>g0. T l = Some g0 \<and> holder g0 = holder g \<and>
          renew_count g = saturating_add (renew_count g0) 1 \<and> taken_at_ms g = taken_at_ms g0))"
| "transition_shows t T T' (Release l lid hb e) \<longleftrightarrow>
     t < e \<and> (\<exists>g. T l = Some g \<and> shows_lease g lid hb e) \<and> T' l = None"
| "transition_shows t T T' (Break l lid hb e) \<longleftrightarrow>
     (\<exists>g. T l = Some g \<and> shows_lease g lid hb e) \<and>
     (\<exists>k. T' l = Some k \<and> lease_id k = lid + 1 \<and> holder k = 0 \<and> expiry k = 0 \<and>
        renew_count k = 0 \<and> taken_at_ms k = 0)"

lemma live_lease_None:
  "live_lease co c l t = None \<longleftrightarrow> (\<forall>x. stored_lease co c l = Some x \<longrightarrow> \<not> t < cl_expiry x)"
  by (auto simp: live_lease_def split: option.splits if_splits)

lemma live_in_table: "live_in (table co s) l t \<longleftrightarrow> live_lease co (svc_core s) l t \<noteq> None"
  by (auto simp: live_in_def table_eq live_lease_def split: option.splits)

lemma shows_compose:
  "shows_lease (compose d l x) (cl_lease_id x) (client_bytes (cl_holder x)) (cl_expiry x)"
  by (simp add: shows_lease_def client_bytes_holder)

lemma shows_compose_iff:
  "shows_lease (compose d l x) lid hb e \<longleftrightarrow>
     lid = cl_lease_id x \<and> hb = client_bytes (cl_holder x) \<and> e = cl_expiry x"
  by (auto simp: shows_lease_def client_bytes_holder)

lemma compose_entry [simp]:
  "bt_get d l = Some e \<Longrightarrow> name (compose d l x) = d_name e"
  "bt_get d l = Some e \<Longrightarrow> labels (compose d l x) = d_labels e"
  "bt_get d l = Some e \<Longrightarrow> taken_at_ms (compose d l x) = d_taken_at_ms e"
  "bt_get d l = Some e \<Longrightarrow> renew_count (compose d l x) = d_renew_count e"
  by (simp_all add: compose_def)

lemma compose_prior:
  "name (compose (svc_durable s) l x) = d_name (prior_entry s l)"
  "labels (compose (svc_durable s) l x) = d_labels (prior_entry s l)"
  "taken_at_ms (compose (svc_durable s) l x) = d_taken_at_ms (prior_entry s l)"
  "renew_count (compose (svc_durable s) l x) = d_renew_count (prior_entry s l)"
  by (simp_all add: compose_def prior_entry_def default_entry_def split: option.split)

lemma granted_entry_prior:
  assumes "prior = prior_entry s l"
  shows "d_name (granted_entry b prior (bt_get (svc_durable s) l) nm lbs t) = opt_or nm (d_name prior)"
    and "d_labels (granted_entry b prior (bt_get (svc_durable s) l) nm lbs t) = opt_or lbs (d_labels prior)"
  by (simp_all add: granted_entry_def)

lemma granted_entry_counters:
  "d_renew_count (granted_entry True p e nm lbs t) = saturating_add (d_renew_count p) 1"
  "d_taken_at_ms (granted_entry True p e nm lbs t) = d_taken_at_ms p"
  "d_renew_count (granted_entry False p e nm lbs t) = 0"
  by (simp_all add: granted_entry_def)

lemma compose_cleared:
  "taken_at_ms (compose (bt_adjust l clear_counters d) l x) = 0"
  "renew_count (compose (bt_adjust l clear_counters d) l x) = 0"
  by (simp_all add: compose_def clear_counters_def split: option.split)

text \<open>What a granted SET leaves behind.\<close>

lemma reply_set_granted:
  assumes "Inr (out, s') = reply_set m n t inc prior nm lbs l True (Some g) at s0"
  shows "\<exists>entry. entry = granted_entry (inc \<noteq> None) prior (bt_get (svc_durable s0) l) nm lbs t \<and>
     svc_durable s' = bt_insert l entry (svc_durable s0) \<and> svc_core s' = svc_core s0 \<and>
     out = (RespSet m n l True (Some (compose (svc_durable s') l g)) at,
            Some (if inc \<noteq> None then Renew l (cl_lease_id g) (client_bytes (cl_holder g)) (cl_expiry g)
                  else Hold l (cl_lease_id g) (client_bytes (cl_holder g)) (cl_expiry g)))"
  using assms by (simp add: reply_set_def Let_def)

lemma execute_keeps_undisturbed:
  assumes "core_documented co" and "table co s l = Some g" and "t < expiry g"
    and "service_execute co parse m c n t payload s = Inr (out, s')"
    and "decode parse payload = Inr r" and "\<not> request_disturbs l (holder g) (lease_id g) r"
  shows "table co s' l = Some g"
proof (cases "lock_id r = l")
  case False
  with execute_other_lock [OF assms(1,4,5)] assms(2) show ?thesis by simp
next
  case True
  from assms(2) obtain x where x: "stored_lease co (svc_core s) l = Some x" "compose (svc_durable s) l x = g"
    by (auto simp: table_Some)
  with assms(3) have live: "live_lease co (svc_core s) l t = Some x" by (auto simp: live_lease_Some)
  have idsr: "ids r = (m, c, n)" using service_execute_Inr [OF assms(4)] assms(5) by force
  show ?thesis
  proof (cases r)
    case (ReqGet m' c' n' l')
    with assms(5) idsr have "decode parse payload = Inr (ReqGet m c n l')" by simp
    then show ?thesis
      by (rule execute_get [OF assms(1), of parse payload m c n l' t s])
        (use assms(2,4) in \<open>auto simp: table_core_cong\<close>)
  next
    case (ReqSet m' c' n' l' cand nm lbs sent)
    with assms(5) idsr True have d: "decode parse payload = Inr (ReqSet m c n l cand nm lbs sent)" by simp
    from assms(1) d assms(4) show ?thesis
      by (cases rule: execute_set_cases)
        (use assms(2,6) ReqSet True live x in \<open>auto simp: table_core_cong\<close>)
  next
    case (ReqRelease m' c' n' l' h lid)
    with assms(5) idsr True have d: "decode parse payload = Inr (ReqRelease m c n l h lid)" by simp
    from assms(1) d execute_release_cases [OF assms(1) d assms(4)] show ?thesis
      by (rule execute_release [of co parse payload m c n l h lid s t])
        (use assms(2,4,6) ReqRelease True live x in \<open>auto simp: table_core_cong\<close>)
  next
    case (ReqBreak m' c' n' l')
    with True assms(6) show ?thesis by simp
  qed
qed

lemma run_keeps_undisturbed:
  assumes "core_documented co" and "table co s l = Some g"
    and "\<forall>op\<in>set ops. op_time op < expiry g \<and> \<not> disturbs parse l (holder g) (lease_id g) op"
  shows "table co (run_ops co parse ops s) l = Some g"
  using assms(2,3)
proof (induction ops arbitrary: s)
  case Nil
  then show ?case by (simp add: run_ops_def)
next
  case (Cons op ops)
  have "table co (service_step co parse op s) l = Some g"
  proof (cases "service_execute co parse (op_message op) (op_client op) (op_request op) (op_time op) (op_payload op) s")
    case (Inl e)
    with Cons.prems(1) show ?thesis by (simp add: service_step_def)
  next
    case (Inr res)
    then obtain out s' r where e: "service_execute co parse (op_message op) (op_client op) (op_request op)
        (op_time op) (op_payload op) s = Inr (out, s')" and r: "decode parse (op_payload op) = Inr r"
      using service_execute_Inr by (metis surj_pair)
    from Cons.prems(2) r have "op_time op < expiry g" "\<not> request_disturbs l (holder g) (lease_id g) r"
      by (auto simp: disturbs_def)
    with execute_keeps_undisturbed [OF assms(1) Cons.prems(1) _ e r] e show ?thesis
      by (simp add: service_step_def)
  qed
  with Cons.IH [of "service_step co parse op s"] Cons.prems(2) show ?case
    by (simp add: run_ops_def)
qed

section \<open>Replies and transitions\<close>

lemma table_granted:
  assumes "Inr (out, s') = reply_set m n t inc prior nm lbs l True (Some g) at (s\<lparr>svc_core := c'\<rparr>)"
    and "stored_lease co c' = (stored_lease co (svc_core s))(l \<mapsto> g)"
  shows "table co s' l = Some (compose (svc_durable s') l g)"
  using reply_set_granted [OF assms(1)] assms(2) by (simp add: table_eq)

lemma granted_transition_shows:
  assumes "Inr ((resp, Some tr), s') =
      reply_set m n t (live_lease co (svc_core s) l t) (prior_entry s l) nm lbs l True (Some g) at (s\<lparr>svc_core := c'\<rparr>)"
    and "stored_lease co c' = (stored_lease co (svc_core s))(l \<mapsto> g)"
    and "\<And>x. live_lease co (svc_core s) l t = Some x \<Longrightarrow> holder_uuid (cl_holder x) = holder_uuid (cl_holder g)"
  shows "transition_shows t (table co s) (table co s') tr \<and> transition_lock_id tr = l"
proof -
  let ?inc = "live_lease co (svc_core s) l t"
  note g = reply_set_granted [OF assms(1)] and tab = table_granted [OF assms(1,2)]
  show ?thesis
  proof (cases ?inc)
    case None
    then have "\<not> live_in (table co s) l t" by (simp add: live_in_table)
    with g tab None show ?thesis by (auto simp: shows_compose granted_entry_counters)
  next
    case (Some x)
    then have "live_in (table co s) l t" "table co s l = Some (compose (svc_durable s) l x)"
      by (simp_all add: live_in_table table_eq live_lease_Some)
    with g tab Some assms(3) show ?thesis
      by (auto simp: shows_compose granted_entry_counters compose_prior)
  qed
qed

lemma release_transition_shows:
  assumes "Inr ((resp, Some tr), s') = reply_release m n (Some x) l True None at (s\<lparr>svc_core := c'\<rparr>)"
    and "stored_lease co c' = (stored_lease co (svc_core s))(l := None)"
    and "live_lease co (svc_core s) l t = Some x"
  shows "transition_shows t (table co s) (table co s') tr \<and> transition_lock_id tr = l"
  using assms by (auto simp: reply_release_def table_eq live_lease_Some shows_compose)

lemma break_transition_shows:
  assumes "Inr ((resp, Some tr), s') = reply_break m n (Some x) l True (Some k) at (s\<lparr>svc_core := c'\<rparr>)"
    and "stored_lease co c' = (stored_lease co (svc_core s))(l \<mapsto> k)"
    and "stored_lease co (svc_core s) l = Some x" and "keeper_of x k"
  shows "transition_shows t (table co s) (table co s') tr \<and> transition_lock_id tr = l"
  using assms by (auto simp: reply_break_def Let_def table_eq shows_compose keeper_of_def compose_cleared)

text \<open>The three things one execution can do to the table.\<close>

lemma execute_outcome:
  assumes "core_documented co" and "service_execute co parse m c n t payload s = Inr ((resp, tr), s')"
  obtains
    (quiet) "tr = None" and "table co s' = table co s"
  | (stale) l where "tr = None" and "\<not> live_in (table co s) l t"
      and "\<And>k. k \<noteq> l \<Longrightarrow> table co s' k = table co s k"
  | (changed) tr' where "tr = Some tr'" and "transition_shows t (table co s) (table co s') tr'"
      and "\<And>k. k \<noteq> transition_lock_id tr' \<Longrightarrow> table co s' k = table co s k"
proof -
  obtain r where r: "decode parse payload = Inr r" "ids r = (m, c, n)"
    using service_execute_Inr [OF assms(2)] by blast
  note other = execute_other_lock [OF assms(1) assms(2) r(1)]
  show thesis
  proof (cases r)
    case (ReqGet m' c' n' l)
    with r have "decode parse payload = Inr (ReqGet m c n l)" by simp
    then show ?thesis
      by (rule execute_get [OF assms(1), of parse payload m c n l t s])
        (use assms(2) quiet in \<open>auto simp: table_core_cong\<close>)
  next
    case (ReqSet m' c' n' l cand nm lbs sent)
    with r have d: "decode parse payload = Inr (ReqSet m c n l cand nm lbs sent)" by simp
    from assms(1) d assms(2) show ?thesis
    proof (cases rule: execute_set_cases)
      case (refused core')
      with quiet show ?thesis by (simp add: table_core_cong)
    next
      case (granted core' g)
      from reply_set_granted [OF granted(2)] obtain tr' where tr': "tr = Some tr'" by auto
      with granted_transition_shows [of resp tr' s'] granted changed [OF tr'] other ReqSet
      show ?thesis by fastforce
    qed
  next
    case (ReqRelease m' c' n' l h lid)
    with r have d: "decode parse payload = Inr (ReqRelease m c n l h lid)" by simp
    from assms(1) d execute_release_cases [OF assms(1) d assms(2)] show ?thesis
    proof (rule execute_release [of co parse payload m c n l h lid s t], goal_cases)
      case (1 core')
      with assms(2) other ReqRelease stale [of l] show ?case
        by (auto simp: reply_release_def live_in_table)
    next
      case (2 x core')
      then obtain tr' where tr': "tr = Some tr'" using assms(2) by (auto simp: reply_release_def)
      with release_transition_shows [of resp tr' s'] 2 assms(2) changed [OF tr'] other ReqRelease
      show ?case by fastforce
    next
      case (3 x core')
      with assms(2) quiet show ?case by (auto simp: table_core_cong)
    qed
  next
    case (ReqBreak m' c' n' l)
    with r have d: "decode parse payload = Inr (ReqBreak m c n l)" by simp
    from assms(1) d show ?thesis
    proof (rule execute_break [of co parse payload m c n l s t], goal_cases)
      case (1 core')
      with assms(2) quiet show ?case by (auto simp: table_core_cong)
    next
      case (2 x k core')
      then obtain tr' where tr': "tr = Some tr'" using assms(2) by (auto simp: reply_break_def Let_def)
      with break_transition_shows [of resp tr' s'] 2 assms(2) changed [OF tr'] other ReqBreak
      show ?case by fastforce
    qed
  qed
qed

section \<open>Closed instances\<close>

definition demo_parse :: "bytes \<Rightarrow> request option" where
  "demo_parse b =
     (if b = [1] then
        Some (ReqSet 9 7 1 5 \<lparr>cand_lease_id = 0, cand_holder = 21, cand_lease_ms = 100\<rparr>
          (Some ''/db'') None (Some 10))
      else if b = [2] then
        Some (ReqSet 8 6 1 5 \<lparr>cand_lease_id = 0, cand_holder = 22, cand_lease_ms = 100\<rparr>
          None None (Some 20))
      else if b = [3] then Some (ReqGet 4 6 2 5)
      else None)"

definition demo_lease :: lease where
  "demo_lease = \<lparr>lease_id = 1, holder = 21, expiry = 110, lease_ms = 100, name = Some ''/db'',
     labels = None, taken_at_ms = 10, renew_count = 0\<rparr>"

definition demo_held :: "core_snap service" where
  "demo_held =
     \<lparr>svc_core = \<lparr>cs_locks = [(5, \<lparr>cl_lease_id = 1, cl_holder = \<lparr>msb = 0, lsb = 21\<rparr>, cl_expiry = 110,
          cl_window = 100\<rparr>)], cs_generations = [(5, 1)]\<rparr>,
      svc_durable = [(5, \<lparr>d_name = Some ''/db'', d_labels = None, d_taken_at_ms = 10, d_renew_count = 0\<rparr>)]\<rparr>"

definition demo_get :: lock_op where
  "demo_get = \<lparr>op_message = 4, op_client = 6, op_request = 2, op_time = 15, op_payload = [3]\<rparr>"

lemmas service_eval = service_execute_def decode_def validate_identity_def valid_name_def name_byte_def
  byte_in_def canonical_labels_def stored_lease_def live_lease_def doc_live_def doc_mint_def client_of_def
  reply_set_def reply_get_def reply_release_def reply_break_def granted_entry_def opt_or_def compose_def
  default_entry_def client_bytes_def holder_uuid_def bt_get_def clear_counters_def Let_def

lemmas doc_eval = doc_core_def doc_empty_def demo_parse_def demo_lease_def demo_held_def demo_get_def

lemma demo_grant:
  "service_execute doc_core demo_parse 9 7 1 10 [1] doc_empty =
     Inr ((RespSet 9 1 5 True (Some demo_lease) 10, Some (Hold 5 1 (be_bytes 16 (21::uuid)) 110)), demo_held)"
  by (simp add: service_eval doc_eval eval_simps)

lemma demo_decode:
  "decode demo_parse [1] = Inr (ReqSet 9 7 1 5 \<lparr>cand_lease_id = 0, cand_holder = 21, cand_lease_ms = 100\<rparr>
     (Some ''/db'') None (Some 10))"
  "decode demo_parse [2] = Inr (ReqSet 8 6 1 5 \<lparr>cand_lease_id = 0, cand_holder = 22, cand_lease_ms = 100\<rparr>
     None None (Some 20))"
  "decode demo_parse [3] = Inr (ReqGet 4 6 2 5)"
  by (simp_all add: service_eval doc_eval)

lemma demo_read:
  "service_execute doc_core demo_parse 4 6 2 15 [3] demo_held =
     Inr ((RespGet 4 2 5 (Some demo_lease) 15, None), demo_held)"
  by (simp add: service_eval doc_eval eval_simps)

lemma demo_table: "table doc_core demo_held 5 = Some demo_lease" "table doc_core doc_empty = Map.empty"
  by (auto simp: table_eq service_eval doc_eval eval_simps)

section \<open>Guarantees\<close>

lemma take_stamp:
  assumes "unat t + 1 < 2 ^ 64"
  shows "taken_at_ms_on_holder_change p t \<in> {t, t + 1}" and "taken_at_ms_on_holder_change p t \<noteq> p"
proof -
  have "saturating_add t 1 = t + 1" using assms by (simp add: saturating_add_exact)
  moreover have "t + 1 \<noteq> t" by simp
  ultimately show "taken_at_ms_on_holder_change p t \<in> {t, t + 1}" "taken_at_ms_on_holder_change p t \<noteq> p"
    by (auto simp: taken_at_ms_on_holder_change_def)
qed

lemma granted_reply_stored:
  assumes "core_documented co"
    and "service_execute co parse m c n t payload s = Inr ((RespSet m' n' l True (Some g) at, tr), s')"
  shows "table co s' l = Some g"
proof -
  obtain r where r: "decode parse payload = Inr r" "ids r = (m, c, n)"
    using service_execute_Inr [OF assms(2)] by blast
  show ?thesis
  proof (cases r)
    case (ReqGet m1 c1 n1 l1)
    with r have "decode parse payload = Inr (ReqGet m c n l1)" by simp
    then show ?thesis
      by (rule execute_get [OF assms(1), of parse payload m c n l1 t s]) (use assms(2) in auto)
  next
    case (ReqSet m1 c1 n1 l1 cand nm lbs sent)
    with r have d: "decode parse payload = Inr (ReqSet m c n l1 cand nm lbs sent)" by simp
    from assms(1) d assms(2) show ?thesis
    proof (cases rule: execute_set_cases)
      case (granted core' x)
      from reply_set_granted [OF granted(2)] table_granted [OF granted(2,4)] show ?thesis by auto
    qed auto
  next
    case (ReqRelease m1 c1 n1 l1 h lid)
    with r have d: "decode parse payload = Inr (ReqRelease m c n l1 h lid)" by simp
    from assms(1) d execute_release_cases [OF assms(1) d assms(2)] show ?thesis
      by (rule execute_release [of co parse payload m c n l1 h lid s t])
        (use assms(2) in \<open>auto simp: reply_release_def\<close>)
  next
    case (ReqBreak m1 c1 n1 l1)
    with r have d: "decode parse payload = Inr (ReqBreak m c n l1)" by simp
    from assms(1) d show ?thesis
      by (rule execute_break [of co parse payload m c n l1 s t])
        (use assms(2) in \<open>auto simp: reply_break_def Let_def\<close>)
  qed
qed

text \<open>
  C1: mutual exclusion. After a SET was granted, and whatever further operations are
  committed before the granted lease expires, other than the holder's own SET, the
  holder's RELEASE of that very lease and a BREAK of the lock, a SET by any other holder
  at a time before the expiry is refused, is answered with exactly the granted lease,
  reports no transition and leaves the whole table as it is.
\<close>

theorem lease_excludes_other_holders:
  assumes "core_documented co"
    and "service_execute co parse m c n t payload s = Inr ((RespSet m n l True (Some g) at, tr), s1)"
    and "\<forall>op\<in>set ops. op_time op < expiry g \<and> \<not> disturbs parse l (holder g) (lease_id g) op"
    and "decode parse payload' = Inr (ReqSet m' c' n' l cand nm lbs sent)"
    and "cand_holder cand \<noteq> holder g" and "cand_holder cand \<noteq> 0" and "t' < expiry g"
  shows "\<exists>s3. service_execute co parse m' c' n' t' payload' (run_ops co parse ops s1) =
           Inr ((RespSet m' n' l False (Some g) t', None), s3) \<and>
         service_snapshot co s3 = service_snapshot co (run_ops co parse ops s1)"
proof -
  let ?s2 = "run_ops co parse ops s1"
  have "table co ?s2 l = Some g"
    using run_keeps_undisturbed [OF assms(1) granted_reply_stored [OF assms(1,2)] assms(3)] .
  then obtain x where x: "stored_lease co (svc_core ?s2) l = Some x" "compose (svc_durable ?s2) l x = g"
    by (auto simp: table_Some)
  with assms(7) have live: "live_lease co (svc_core ?s2) l t' = Some x" by (auto simp: live_lease_Some)
  with x assms(5) have "cand_lease_ms cand = 0 \<or>
      (\<exists>x. live_lease co (svc_core ?s2) l t' = Some x \<and> holder_uuid (cl_holder x) \<noteq> cand_holder cand)"
    by auto
  then show ?thesis
    by (rule execute_set_refused [OF assms(1,4,6)]) (use live x snapshot_core_cong in auto)
qed

theorem lease_excludes_other_holders_witness:
  "\<exists>s3. service_execute doc_core demo_parse 8 6 1 20 [2] (run_ops doc_core demo_parse [demo_get] demo_held) =
       Inr ((RespSet 8 1 5 False (Some demo_lease) 20, None), s3) \<and>
     service_snapshot doc_core s3 = service_snapshot doc_core (run_ops doc_core demo_parse [demo_get] demo_held)"
proof (rule lease_excludes_other_holders [OF doc_core_documented demo_grant])
  show "\<forall>op\<in>set [demo_get]. op_time op < expiry demo_lease \<and>
      \<not> disturbs demo_parse 5 (holder demo_lease) (lease_id demo_lease) op"
    by (simp add: disturbs_def demo_get_def demo_decode demo_lease_def)
  show "decode demo_parse [2] = Inr (ReqSet 8 6 1 5
      \<lparr>cand_lease_id = 0, cand_holder = 22, cand_lease_ms = 100\<rparr> None None (Some 20))"
    by (rule demo_decode)
qed (simp_all add: demo_lease_def)

text \<open>
  C2: a reported transition is the change of the table. When an
  execution reports a transition, the transition describes what the execution did to the
  table: a hold of a lock
  that was not live, a renewal by the same holder that keeps the time of taking and
  counts one renewal, a release of the live lease, a break that leaves the keeper record;
  and no other lock changes. (An execution that reports none may still drop an expired record.)
\<close>

theorem transition_reflects_table:
  assumes "core_documented co"
    and "service_execute co parse m c n t payload s = Inr ((resp, Some tr), s')"
  shows "transition_shows t (table co s) (table co s') tr \<and>
         (\<forall>k. k \<noteq> transition_lock_id tr \<longrightarrow> table co s' k = table co s k)"
  using assms by (cases rule: execute_outcome) auto

theorem transition_reflects_table_witness:
  "transition_shows 10 (table doc_core doc_empty) (table doc_core demo_held) (Hold 5 1 (be_bytes 16 (21::uuid)) 110) \<and>
   table doc_core demo_held 6 = table doc_core doc_empty 6"
  using transition_reflects_table [OF doc_core_documented demo_grant] by simp

text \<open>
  C3: an execution that reports no transition, be it a read, a refusal or a release of
  nothing, leaves every lease that is live at its execution time exactly as it was.
\<close>

theorem unreported_keeps_live_leases:
  assumes "core_documented co"
    and "service_execute co parse m c n t payload s = Inr ((resp, None), s')"
    and "table co s l = Some g" and "t < expiry g"
  shows "table co s' l = Some g"
  using assms(1,2)
proof (cases rule: execute_outcome)
  case (stale k)
  with assms(3,4) show ?thesis by (cases "l = k") (auto simp: live_in_def)
qed (use assms in auto)

theorem unreported_keeps_live_leases_witness: "table doc_core demo_held 5 = Some demo_lease"
  by (rule unreported_keeps_live_leases [OF doc_core_documented demo_read demo_table(1)])
    (simp add: demo_lease_def)

text \<open>
  C5: the bookkeeping of a granted SET. A SET for a holder other than the nil identity, with a
  positive window whose end fits the 64-bit clock, by the holder of
  the live lease, or against a lock with no live lease, is granted. The lease in the reply
  is the one stored, it belongs to the candidate's holder for the asked window and expires
  that window after the execution time; its name and labels are the ones given or else the
  ones kept from before. A renewal counts one more renewal and keeps the time of taking. A
  take starts with no renewals, and is stamped with the execution time or the millisecond
  after it, and not with the stamp of the lock's side entry, where there is an entry (a release and a break clear its stamp).
\<close>

theorem granted_set_booking:
  assumes "core_documented co" and "decode parse payload = Inr (ReqSet m c n l cand nm lbs sent)"
    and "cand_holder cand \<noteq> 0" and "cand_lease_ms cand \<noteq> 0"
    and "\<forall>g0. table co s l = Some g0 \<longrightarrow> t < expiry g0 \<longrightarrow> holder g0 = cand_holder cand"
    and "unat t + unat (cand_lease_ms cand) < 2 ^ 64"
  shows "\<exists>g tr s'. service_execute co parse m c n t payload s = Inr ((RespSet m n l True (Some g) t, Some tr), s') \<and>
     table co s' l = Some g \<and> holder g = cand_holder cand \<and> lease_ms g = cand_lease_ms cand \<and>
     expiry g = t + cand_lease_ms cand \<and>
     name g = opt_or nm (d_name (prior_entry s l)) \<and> labels g = opt_or lbs (d_labels (prior_entry s l)) \<and>
     (live_in (table co s) l t \<longrightarrow>
        renew_count g = saturating_add (d_renew_count (prior_entry s l)) 1 \<and>
        taken_at_ms g = d_taken_at_ms (prior_entry s l)) \<and>
     (\<not> live_in (table co s) l t \<longrightarrow>
        renew_count g = 0 \<and> taken_at_ms g \<in> {t, t + 1} \<and>
        (\<forall>p. bt_get (svc_durable s) l = Some p \<longrightarrow> taken_at_ms g \<noteq> d_taken_at_ms p))"
proof -
  have "\<And>x. live_lease co (svc_core s) l t = Some x \<Longrightarrow> holder_uuid (cl_holder x) = cand_holder cand"
    using assms(5) by (auto simp: live_lease_Some table_Some)
  from assms(1-4) this obtain c' x where ex: "service_execute co parse m c n t payload s =
      reply_set m n t (live_lease co (svc_core s) l t) (prior_entry s l) nm lbs l True (Some x) t
        (s\<lparr>svc_core := c'\<rparr>)"
    and x: "holder_uuid (cl_holder x) = cand_holder cand" "cl_window x = cand_lease_ms cand"
      "unat t + unat (cand_lease_ms cand) < 2 ^ 64 \<longrightarrow> cl_expiry x = t + cand_lease_ms cand"
      "stored_lease co c' = (stored_lease co (svc_core s))(l \<mapsto> x)"
    by (rule execute_set_granted)
  obtain out s' where r: "reply_set m n t (live_lease co (svc_core s) l t) (prior_entry s l) nm lbs l True
      (Some x) t (s\<lparr>svc_core := c'\<rparr>) = Inr (out, s')"
    by (simp add: reply_set_def Let_def)
  have lt: "unat t + 1 < 2 ^ 64" using assms(4,6) unat_gt_0 [of "cand_lease_ms cand"] by linarith
  define e where "e = granted_entry (live_lease co (svc_core s) l t \<noteq> None) (prior_entry s l)
      (bt_get (svc_durable s) l) nm lbs t"
  note tab = table_granted [OF r [symmetric] x(4)]
  obtain tr where out: "out = (RespSet m n l True (Some (compose (svc_durable s') l x)) t, Some tr)"
    and dur: "bt_get (svc_durable s') l = Some e"
    using reply_set_granted [OF r [symmetric]] by (auto simp: e_def)
  have e: "live_in (table co s) l t \<Longrightarrow>
        d_renew_count e = saturating_add (d_renew_count (prior_entry s l)) 1 \<and>
        d_taken_at_ms e = d_taken_at_ms (prior_entry s l)"
     "\<not> live_in (table co s) l t \<Longrightarrow> d_renew_count e = 0 \<and> d_taken_at_ms e \<in> {t, t + 1} \<and>
        (\<forall>p. bt_get (svc_durable s) l = Some p \<longrightarrow> d_taken_at_ms e \<noteq> d_taken_at_ms p)"
     "d_name e = opt_or nm (d_name (prior_entry s l))" "d_labels e = opt_or lbs (d_labels (prior_entry s l))"
    using take_stamp [OF lt]
    by (auto simp: e_def live_in_table granted_entry_def split: option.split)
  show ?thesis
    unfolding ex r out using tab dur e x assms(6)
    by (intro exI [of _ "compose (svc_durable s') l x"] exI [of _ tr] exI [of _ s']) simp
qed

theorem granted_set_booking_witness:
  "\<exists>g tr s'. service_execute doc_core demo_parse 9 7 1 10 [1] doc_empty = Inr ((RespSet 9 1 5 True (Some g) 10, Some tr), s') \<and>
     table doc_core s' 5 = Some g \<and> holder g = 21 \<and> expiry g = 110 \<and> name g = Some ''/db'' \<and> renew_count g = 0"
  using granted_set_booking [OF doc_core_documented demo_decode(1), of doc_empty 10]
  by (auto simp: demo_table live_in_def prior_entry_def opt_or_def)

text \<open>
  C4: a snapshot survives the stop and the next start. Installing a snapshot into any
  service and taking a snapshot again yields the installed one, keeper records with the
  nil holder and the generation watermarks included.
\<close>

theorem snapshot_of_restored:
  assumes "client_law co" and "restore_law co" and "bt_wf (locks snap)"
  shows "service_snapshot co (service_restore co snap s) = snap"
  using assms restore_snapshot_locks [OF assms(1,3)]
  by (simp add: service_snapshot_def service_restore_def restore_law_def Let_def)

theorem snapshot_of_restored_witness:
  "service_snapshot doc_core (service_restore doc_core \<lparr>locks = [(5, demo_lease)], generations = [(5, 1)]\<rparr> doc_empty) =
     \<lparr>locks = [(5, demo_lease)], generations = [(5, 1)]\<rparr>"
  by (rule snapshot_of_restored [OF doc_client_law doc_restore_law]) (simp add: bt_wf_def)

end
