(* ===== verification/Lock_Journal.thy ===== *)
theory Lock_Journal
  imports Prelude_Locks
begin

text \<open>
  The record format of \<^verbatim>\<open>ext/advisory_lock/src/journal.rs\<close>: the table-driven
  CRC-32, the 61-byte event record, the 40-byte metafile, the corrupt-tail-tolerant reader
  of a whole file and the window of operation and expiry times kept for the open file.
\<close>

unbundle bit_operations_syntax

section \<open>CRC-32\<close>

text \<open>The eight rounds that fill one table entry.\<close>

primrec crc32_rounds :: "nat \<Rightarrow> u32 \<Rightarrow> u32" where
  "crc32_rounds 0 crc = crc"
| "crc32_rounds (Suc j) crc =
     crc32_rounds j (if crc AND 1 \<noteq> 0 then drop_bit 1 crc XOR 0xEDB88320 else drop_bit 1 crc)"

definition crc32_table :: "u32 list" where
  "crc32_table = map (\<lambda>i. crc32_rounds 8 (word_of_nat i)) [0..<256]"

definition crc32_step :: "u8 \<Rightarrow> u32 \<Rightarrow> u32" where
  "crc32_step byte crc =
     (let index = unat ((crc XOR ucast byte) AND 0xFF)
      in drop_bit 8 crc XOR crc32_table ! index)"

definition crc32_ieee :: "bytes \<Rightarrow> u32" where
  "crc32_ieee data = fold crc32_step data 0xFFFFFFFF XOR 0xFFFFFFFF"

section \<open>Event records\<close>

definition RECORD_MAGIC :: bytes where
  "RECORD_MAGIC = [0x4C, 0x4B, 0x45, 0x31]"

definition META_MAGIC :: bytes where
  "META_MAGIC = [0x4C, 0x4B, 0x4D, 0x31]"

definition RECORD_SIZE :: nat where
  "RECORD_SIZE = 61"

definition META_SIZE :: nat where
  "META_SIZE = 40"

definition RECORD_PAYLOAD_LEN :: u32 where
  "RECORD_PAYLOAD_LEN = 53"

definition KIND_HOLD :: u8 where
  "KIND_HOLD = 1"

definition KIND_RENEW :: u8 where
  "KIND_RENEW = 2"

definition KIND_RELEASE :: u8 where
  "KIND_RELEASE = 3"

definition KIND_BREAK :: u8 where
  "KIND_BREAK = 4"

definition kind_name :: "u8 \<Rightarrow> string" where
  "kind_name k =
     (if k = KIND_HOLD then ''hold''
      else if k = KIND_RENEW then ''renew''
      else if k = KIND_RELEASE then ''release''
      else if k = KIND_BREAK then ''break''
      else ''unknown'')"

record journal_event =
  ev_kind :: u8
  ev_ts :: u64
  ev_lock_id :: u64
  ev_lease_id :: u64
  ev_holder :: bytes
  ev_expiry :: u64

text \<open>The bytes from the kind to the expiry, which the checksum covers.\<close>

definition event_payload :: "journal_event \<Rightarrow> bytes" where
  "event_payload e =
     ev_kind e # be_bytes 8 (ev_ts e) @ be_bytes 8 (ev_lock_id e) @ be_bytes 8 (ev_lease_id e) @
     ev_holder e @ be_bytes 8 (ev_expiry e)"

definition encode_event :: "journal_event \<Rightarrow> bytes" where
  "encode_event e =
     RECORD_MAGIC @ be_bytes 4 RECORD_PAYLOAD_LEN @ event_payload e @
     be_bytes 4 (crc32_ieee (event_payload e))"

definition known_kind :: "u8 \<Rightarrow> bool" where
  "known_kind k \<longleftrightarrow> k = KIND_HOLD \<or> k = KIND_RENEW \<or> k = KIND_RELEASE \<or> k = KIND_BREAK"

definition parse_record :: "bytes \<Rightarrow> (journal_event \<times> nat) option" where
  "parse_record data =
     (if length data < RECORD_SIZE then None
      else if slice 0 4 data \<noteq> RECORD_MAGIC then None
      else if be_word (slice 57 61 data) \<noteq> crc32_ieee (slice 8 57 data) then None
      else if \<not> known_kind (data ! 8) then None
      else Some (\<lparr>ev_kind = data ! 8, ev_ts = be_word (slice 9 17 data),
                  ev_lock_id = be_word (slice 17 25 data), ev_lease_id = be_word (slice 25 33 data),
                  ev_holder = slice 33 49 data, ev_expiry = be_word (slice 49 57 data)\<rparr>,
                 RECORD_SIZE))"

function parse_file_from :: "bytes \<Rightarrow> nat \<Rightarrow> journal_event list" where
  "parse_file_from data offset =
     (if offset + RECORD_SIZE \<le> length data then
        (case parse_record (drop offset data) of
           Some (event, consumed) \<Rightarrow> event # parse_file_from data (offset + consumed)
         | None \<Rightarrow> [])
      else [])"
  by pat_completeness auto
termination
  by (relation "measure (\<lambda>(data, offset). length data - offset)")
    (auto simp: RECORD_SIZE_def parse_record_def split: if_splits)

declare parse_file_from.simps [simp del]

definition parse_file :: "bytes \<Rightarrow> journal_event list" where
  "parse_file data = parse_file_from data 0"

section \<open>Metafile and window\<close>

record meta =
  op_min :: u64
  op_max :: u64
  expiry_min :: u64
  expiry_max :: u64
  meta_count :: u32

definition encode_meta :: "meta \<Rightarrow> bytes" where
  "encode_meta m =
     META_MAGIC @ be_bytes 8 (op_min m) @ be_bytes 8 (op_max m) @ be_bytes 8 (expiry_min m) @
     be_bytes 8 (expiry_max m) @ be_bytes 4 (meta_count m)"

definition decode_meta :: "bytes \<Rightarrow> meta option" where
  "decode_meta data =
     (if length data < META_SIZE then None
      else if slice 0 4 data \<noteq> META_MAGIC then None
      else Some \<lparr>op_min = be_word (slice 4 12 data), op_max = be_word (slice 12 20 data),
                 expiry_min = be_word (slice 20 28 data), expiry_max = be_word (slice 28 36 data),
                 meta_count = be_word (slice 36 40 data)\<rparr>)"

record window =
  win_op_min :: u64
  win_op_max :: u64
  win_expiry_min :: u64
  win_expiry_max :: u64
  win_count :: u32

definition window_new :: "journal_event \<Rightarrow> window" where
  "window_new e =
     \<lparr>win_op_min = ev_ts e, win_op_max = ev_ts e, win_expiry_min = ev_expiry e,
      win_expiry_max = ev_expiry e, win_count = 1\<rparr>"

definition window_update :: "window \<Rightarrow> journal_event \<Rightarrow> window" where
  "window_update w e =
     \<lparr>win_op_min = min (win_op_min w) (ev_ts e), win_op_max = max (win_op_max w) (ev_ts e),
      win_expiry_min = min (win_expiry_min w) (ev_expiry e),
      win_expiry_max = max (win_expiry_max w) (ev_expiry e), win_count = win_count w + 1\<rparr>"

definition window_meta :: "window \<Rightarrow> meta" where
  "window_meta w =
     \<lparr>op_min = win_op_min w, op_max = win_op_max w, expiry_min = win_expiry_min w,
      expiry_max = win_expiry_max w, meta_count = win_count w\<rparr>"

text \<open>\<open>match &mut self.window\<close>: the first event starts the window.\<close>

definition window_add :: "window option \<Rightarrow> journal_event \<Rightarrow> window option" where
  "window_add w e = Some (case w of None \<Rightarrow> window_new e | Some w' \<Rightarrow> window_update w' e)"

end
