(* ===== verification/Journal_Props.thy ===== *)
theory Journal_Props
  imports Lock_Journal
begin

text \<open>
  Facts about the journal's records: the table-driven checksum is the bitwise one and
  tells apart any two buffers that differ in one byte; records round-trip and refuse every
  single corrupted byte that is checked; a file read back after a torn write yields exactly
  the records that were complete.
\<close>

unbundle bit_operations_syntax

section \<open>The checksum\<close>

definition crc32_round :: "u32 \<Rightarrow> u32" where
  "crc32_round crc = (if crc AND 1 \<noteq> 0 then drop_bit 1 crc XOR 0xEDB88320 else drop_bit 1 crc)"

lemma crc32_rounds_Suc: "crc32_rounds (Suc j) crc = crc32_rounds j (crc32_round crc)"
  by (simp add: crc32_round_def)

lemma and_one_bit: "(c AND 1 \<noteq> 0) = bit c 0" for c :: u32
  by (simp add: and_one_eq bit_0 odd_iff_mod_2_eq_one)

lemma crc32_round_bit: "crc32_round c = drop_bit 1 c XOR (if bit c 0 then 0xEDB88320 else 0)"
  by (simp add: crc32_round_def and_one_bit)

lemma crc32_round_xor: "crc32_round (a XOR b) = crc32_round a XOR crc32_round b"
  by (simp add: crc32_round_bit bit_xor_iff drop_bit_xor xor.assoc xor.left_commute)

lemma crc32_rounds_xor: "crc32_rounds n (a XOR b) = crc32_rounds n a XOR crc32_rounds n b"
  by (induction n arbitrary: a b) (simp_all only: crc32_rounds_Suc crc32_rounds.simps(1) crc32_round_xor)

lemma crc32_round_top: "bit (crc32_round c) 31 = bit c 0"
  by (auto simp: crc32_round_bit bit_xor_iff bit_drop_bit_eq dest: bit_imp_le_length)

lemma xor_cancel: "a XOR c = b XOR c \<longleftrightarrow> a = b" for a b c :: "'a::len word"
  by (metis xor.assoc xor_self_eq xor.right_neutral)

lemma crc32_round_inj: "crc32_round a = crc32_round b \<longleftrightarrow> a = b"
proof
  assume eq: "crc32_round a = crc32_round b"
  then have low: "bit a 0 = bit b 0" by (metis crc32_round_top)
  with eq have "drop_bit 1 a = drop_bit 1 b" by (simp add: crc32_round_bit xor_cancel)
  then have "bit a (Suc n) = bit b (Suc n)" for n by (metis bit_drop_bit_eq plus_1_eq_Suc comp_apply)
  with low show "a = b" by (intro bit_eqI) (metis not0_implies_Suc)
qed simp

lemma crc32_rounds_inj: "crc32_rounds n a = crc32_rounds n b \<longleftrightarrow> a = b"
  by (induction n arbitrary: a b) (simp_all only: crc32_rounds_Suc crc32_rounds.simps(1) crc32_round_inj)

lemma crc32_rounds_shift: "(\<And>i. i < n \<Longrightarrow> \<not> bit c i) \<Longrightarrow> crc32_rounds n c = drop_bit n c"
proof (induction n arbitrary: c)
  case 0
  then show ?case by simp
next
  case (Suc n)
  then have "crc32_round c = drop_bit 1 c" by (simp add: crc32_round_bit)
  moreover have "crc32_rounds n (drop_bit 1 c) = drop_bit n (drop_bit 1 c)"
    by (rule Suc.IH) (use Suc.prems in \<open>auto simp: bit_drop_bit_eq\<close>)
  ultimately show ?case by (simp only: crc32_rounds_Suc drop_bit_drop_bit) simp
qed

lemma crc32_table_nth: "unat c < 256 \<Longrightarrow> crc32_table ! unat c = crc32_rounds 8 c"
  by (simp add: crc32_table_def)

text \<open>The table lookup is eight bitwise rounds.\<close>

lemma xor_split_mask: "x = (x AND NOT m) XOR (x AND m)" for x m :: "'a::len word"
  by (rule bit_eqI) (auto simp: bit_xor_iff bit_and_iff bit_not_iff)

lemma crc32_step_rounds: "crc32_step byte crc = crc32_rounds 8 (crc XOR ucast byte)"
proof -
  let ?x = "crc XOR ucast byte" and ?m = "mask 8 :: u32"
  have mask: "(0xFF :: u32) = ?m" by (simp add: mask_eq_exp_minus_1)
  have "?x AND 0xFF \<le> 0xFF" by (metis and.commute word_and_le2 word_and_le1)
  then have "unat (?x AND 0xFF) \<le> unat (0xFF :: u32)" by (simp only: word_le_nat_alt)
  then have idx: "unat (?x AND 0xFF) < 256" by simp
  have "crc32_rounds 8 (?x AND NOT ?m) = drop_bit 8 (?x AND NOT ?m)"
    by (rule crc32_rounds_shift) (simp add: bit_and_iff bit_not_iff bit_mask_iff)
  also have "\<dots> = drop_bit 8 crc"
    by (rule bit_eqI) (auto simp: bit_and_iff bit_not_iff bit_xor_iff bit_drop_bit_eq bit_ucast_iff bit_mask_iff
        dest: bit_imp_le_length)
  finally have high: "crc32_rounds 8 (?x AND NOT ?m) = drop_bit 8 crc" .
  have "crc32_step byte crc = drop_bit 8 crc XOR crc32_rounds 8 (?x AND 0xFF)"
    by (simp add: crc32_step_def crc32_table_nth [OF idx])
  also have "\<dots> = crc32_rounds 8 ((?x AND NOT ?m) XOR (?x AND ?m))"
    by (simp only: crc32_rounds_xor high mask)
  finally show ?thesis using xor_split_mask [of ?x ?m] by simp
qed

lemma crc32_step_inj_state: "crc32_step b x = crc32_step b y \<longleftrightarrow> x = y"
  by (simp add: crc32_step_rounds crc32_rounds_inj xor_cancel)

lemma crc32_step_inj_byte: "crc32_step b x = crc32_step c x \<longleftrightarrow> b = c"
proof -
  have "unat (ucast a :: u32) = unat a" for a :: u8
  proof -
    have "unat a < 2 ^ 32" using unsigned_less [of a, where ?'a = nat] by simp
    then show ?thesis by (simp add: unsigned_ucast_eq take_bit_nat_eq_self)
  qed
  then have "(ucast b :: u32) = ucast c \<longleftrightarrow> b = c"
    by (metis word_unat_eq_iff)
  then show ?thesis
    by (simp add: crc32_step_rounds crc32_rounds_inj xor.commute [of x] xor_cancel)
qed

lemma crc32_fold_inj: "fold crc32_step bs x = fold crc32_step bs y \<longleftrightarrow> x = y"
  by (induction bs arbitrary: x y) (simp_all add: crc32_step_inj_state)

lemma crc32_one_byte: "crc32_ieee (xs @ b # ys) = crc32_ieee (xs @ c # ys) \<longleftrightarrow> b = c"
  by (simp add: crc32_ieee_def xor_cancel crc32_fold_inj crc32_step_inj_byte)

lemma crc32_list_update:
  assumes "i < length bs" and "bs ! i \<noteq> b"
  shows "crc32_ieee (bs[i := b]) \<noteq> crc32_ieee bs"
proof -
  have "bs[i := b] = take i bs @ b # drop (Suc i) bs" and "bs = take i bs @ bs ! i # drop (Suc i) bs"
    using assms(1) by (simp_all add: upd_conv_take_nth_drop id_take_nth_drop)
  then show ?thesis using assms(2) crc32_one_byte by metis
qed

section \<open>Records\<close>

definition event_wf :: "journal_event \<Rightarrow> bool" where
  "event_wf e \<longleftrightarrow> known_kind (ev_kind e) \<and> length (ev_holder e) = 16"

lemma length_magic [simp]: "length RECORD_MAGIC = 4" "length META_MAGIC = 4"
  by (simp_all add: RECORD_MAGIC_def META_MAGIC_def)

lemma length_event_payload: "length (ev_holder e) = 16 \<Longrightarrow> length (event_payload e) = 49"
  by (simp add: event_payload_def)

lemma length_encode_event: "length (ev_holder e) = 16 \<Longrightarrow> length (encode_event e) = RECORD_SIZE"
  by (simp add: encode_event_def length_event_payload RECORD_SIZE_def)

lemma encode_event_slices:
  assumes "length (ev_holder e) = 16"
  shows "slice 0 4 (encode_event e @ rest) = RECORD_MAGIC"
    and "slice 8 57 (encode_event e @ rest) = event_payload e"
    and "slice 57 61 (encode_event e @ rest) = be_bytes 4 (crc32_ieee (event_payload e))"
  using length_event_payload [OF assms] by (simp_all add: slice_def encode_event_def)

lemma slice_slice: "b \<le> d - c \<Longrightarrow> slice a b (slice c d xs) = slice (c + a) (c + b) xs"
  by (simp add: slice_def drop_take add.commute)

lemma event_payload_slices:
  assumes "length (ev_holder e) = 16"
  shows "slice 1 9 (event_payload e) = be_bytes 8 (ev_ts e)"
    and "slice 9 17 (event_payload e) = be_bytes 8 (ev_lock_id e)"
    and "slice 17 25 (event_payload e) = be_bytes 8 (ev_lease_id e)"
    and "slice 25 41 (event_payload e) = ev_holder e"
    and "slice 41 49 (event_payload e) = be_bytes 8 (ev_expiry e)"
  using assms by (simp_all add: slice_def event_payload_def)

text \<open>The fields of a record are the fields of its payload.\<close>

definition payload_event :: "bytes \<Rightarrow> journal_event" where
  "payload_event p =
     \<lparr>ev_kind = p ! 0, ev_ts = be_word (slice 1 9 p), ev_lock_id = be_word (slice 9 17 p),
      ev_lease_id = be_word (slice 17 25 p), ev_holder = slice 25 41 p, ev_expiry = be_word (slice 41 49 p)\<rparr>"

lemma payload_event_payload: "length (ev_holder e) = 16 \<Longrightarrow> payload_event (event_payload e) = e"
  by (simp add: payload_event_def event_payload_slices del: One_nat_def) (simp add: event_payload_def)

lemma parse_record_payload:
  "parse_record data =
     (if RECORD_SIZE \<le> length data \<and> slice 0 4 data = RECORD_MAGIC \<and>
         be_word (slice 57 61 data) = crc32_ieee (slice 8 57 data) \<and> known_kind (slice 8 57 data ! 0)
      then Some (payload_event (slice 8 57 data), RECORD_SIZE) else None)"
proof (cases "RECORD_SIZE \<le> length data")
  case True
  then have "slice 8 57 data ! 0 = data ! 8" by (simp add: slice_def RECORD_SIZE_def)
  with True show ?thesis
    by (simp add: parse_record_def payload_event_def slice_slice)
qed (simp add: parse_record_def)

lemma parse_encode:
  assumes "event_wf e"
  shows "parse_record (encode_event e @ rest) = Some (e, RECORD_SIZE)"
proof -
  have h: "length (ev_holder e) = 16" and k: "known_kind (event_payload e ! 0)"
    using assms by (simp_all add: event_wf_def event_payload_def)
  show ?thesis
    unfolding parse_record_payload encode_event_slices [OF h]
    using k payload_event_payload [OF h] length_encode_event [OF h] by simp
qed

lemma slice_update:
  assumes "i < length xs"
  shows "slice a b (xs[i := v]) = (if a \<le> i \<and> i < b then (slice a b xs)[i - a := v] else slice a b xs)"
  using assms by (auto simp: slice_def take_update_swap drop_update_swap intro!: nth_equalityI simp: nth_list_update)

lemma be_word_4_update:
  assumes "length bs = 4" and "i < 4" and "bs ! i \<noteq> b"
  shows "(be_word (bs[i := b]) :: u32) \<noteq> be_word bs"
proof
  assume "(be_word (bs[i := b]) :: u32) = be_word bs"
  then have "be_bytes 4 (be_word (bs[i := b]) :: u32) = be_bytes 4 (be_word bs :: u32)" by simp
  then have "bs[i := b] = bs" using assms(1) by (simp add: be_bytes_be_word)
  with assms show False by (metis nth_list_update_eq)
qed

lemma slice_nth: "i < b - a \<Longrightarrow> a + i < length xs \<Longrightarrow> slice a b xs ! i = xs ! (a + i)"
  by (simp add: slice_def)

text \<open>Every checked byte of a record is checked: one wrong byte refuses the record.\<close>

lemma corrupt_record_refused:
  assumes "event_wf e" and "i < RECORD_SIZE" and "i < 4 \<or> 8 \<le> i" and "encode_event e ! i \<noteq> b"
  shows "parse_record ((encode_event e @ rest)[i := b]) = None"
proof -
  have h: "length (ev_holder e) = 16" using assms(1) by (simp add: event_wf_def)
  let ?d = "encode_event e @ rest"
  note s = encode_event_slices [OF h, of rest]
  have len: "i < length ?d" "?d ! i \<noteq> b"
    using assms(2,4) length_encode_event [OF h] by (simp_all add: nth_append)
  note u = slice_update [OF len(1)]
  consider "i < 4" | "8 \<le> i" "i < 57" | "57 \<le> i" "i < 61"
    using assms(2,3) by (force simp: RECORD_SIZE_def)
  then show ?thesis
  proof cases
    case 1
    have "slice 0 4 ?d ! i = ?d ! i" using 1 len(1) by (simp add: slice_nth)
    then have "slice 0 4 (?d[i := b]) ! i \<noteq> RECORD_MAGIC ! i"
      using 1 len s(1) by (simp add: u)
    then show ?thesis by (auto simp: parse_record_payload)
  next
    case 2
    have "slice 8 57 ?d ! (i - 8) = ?d ! i" using 2 len(1) by (simp add: slice_nth)
    then have "crc32_ieee (slice 8 57 (?d[i := b])) \<noteq> crc32_ieee (event_payload e)"
      using 2 len crc32_list_update [of "i - 8" "event_payload e" b] length_event_payload [OF h] s(2)
      by (simp add: u)
    with 2 s(3) show ?thesis by (auto simp: parse_record_payload u)
  next
    case 3
    have "slice 57 61 ?d ! (i - 57) = ?d ! i" using 3 len(1) by (simp add: slice_nth)
    then have "(be_word (slice 57 61 (?d[i := b])) :: u32) \<noteq> be_word (slice 57 61 ?d)"
      using 3 len be_word_4_update [of "slice 57 61 ?d" "i - 57" b] s(3) by (simp add: u)
    with 3 s(2,3) show ?thesis by (auto simp: parse_record_payload u)
  qed
qed

section \<open>Files\<close>

lemma parse_record_consumes: "parse_record d = Some (e, n) \<Longrightarrow> n = RECORD_SIZE \<and> RECORD_SIZE \<le> length d"
  by (auto simp: parse_record_payload split: if_splits)

lemma parse_file_from_shift:
  "parse_file_from data (offset + k) = parse_file_from (drop offset data) k"
proof (induction "drop offset data" k rule: parse_file_from.induct)
  case (1 k)
  note L = parse_file_from.simps [of data "offset + k"] and R = parse_file_from.simps [of "drop offset data" k]
  have d: "drop k (drop offset data) = drop (offset + k) data" by (simp add: add.commute)
  have c: "(offset + k + RECORD_SIZE \<le> length data) = (k + RECORD_SIZE \<le> length (drop offset data))"
    by (auto simp: RECORD_SIZE_def)
  show ?case
  proof (cases "k + RECORD_SIZE \<le> length (drop offset data)")
    case False
    then show ?thesis unfolding L R c by simp
  next
    case True
    show ?thesis
    proof (cases "parse_record (drop (offset + k) data)")
      case None
      then show ?thesis unfolding L R c d by simp
    next
      case (Some en)
      obtain e n where en: "en = (e, n)" by fastforce
      have "parse_record (drop k (drop offset data)) = Some (e, n)" using Some en d by simp
      then have "parse_file_from data (offset + (k + n)) = parse_file_from (drop offset data) (k + n)"
        using 1 [OF True, of "(e, n)" e n] by simp
      with True Some en show ?thesis unfolding L R c d by (simp add: add.assoc)
    qed
  qed
qed

lemma parse_file_unfold:
  "parse_file data = (case parse_record data of None \<Rightarrow> [] | Some (e, _) \<Rightarrow> e # parse_file (drop RECORD_SIZE data))"
proof (cases "parse_record data")
  case None
  then show ?thesis unfolding parse_file_def by (subst parse_file_from.simps) simp
next
  case (Some en)
  obtain e n where en: "en = (e, n)" by fastforce
  with Some have n: "n = RECORD_SIZE" "RECORD_SIZE \<le> length data"
    using parse_record_consumes by simp_all
  with Some en parse_file_from_shift [of data RECORD_SIZE 0] show ?thesis
    unfolding parse_file_def by (subst parse_file_from.simps) simp
qed

lemma parse_file_encoded:
  "list_all event_wf evs \<Longrightarrow> parse_file (concat (map encode_event evs) @ rest) = evs @ parse_file rest"
proof (induction evs)
  case Nil
  then show ?case by simp
next
  case (Cons e evs)
  then have "parse_record (encode_event e @ concat (map encode_event evs) @ rest) = Some (e, RECORD_SIZE)"
    by (simp add: parse_encode)
  moreover have "length (encode_event e) = RECORD_SIZE"
    using Cons.prems by (simp add: event_wf_def length_encode_event)
  ultimately show ?case using Cons by (subst parse_file_unfold) simp
qed

lemma parse_file_short: "length rest < RECORD_SIZE \<Longrightarrow> parse_file rest = []"
  by (subst parse_file_unfold) (simp add: parse_record_def)

lemma length_encoded: "list_all event_wf evs \<Longrightarrow> length (concat (map encode_event evs)) = RECORD_SIZE * length evs"
  by (induction evs) (simp_all add: event_wf_def length_encode_event)

text \<open>
  A journal file cut off at any byte reads back as exactly the records that were
  written completely: no complete record before the cut is lost, and none is made up from
  the torn bytes.
\<close>

theorem parse_file_torn:
  assumes "list_all event_wf evs"
  shows "parse_file (take n (concat (map encode_event evs))) = take (n div RECORD_SIZE) evs"
  using assms
proof (induction evs arbitrary: n)
  case Nil
  then show ?case by (simp add: parse_file_short RECORD_SIZE_def)
next
  case (Cons e evs)
  have len: "length (encode_event e) = RECORD_SIZE"
    using Cons.prems by (simp add: event_wf_def length_encode_event)
  show ?case
  proof (cases "n < RECORD_SIZE")
    case True
    then show ?thesis using len by (simp add: parse_file_short)
  next
    case False
    then have "take n (concat (map encode_event (e # evs))) =
        concat (map encode_event [e]) @ take (n - RECORD_SIZE) (concat (map encode_event evs))"
      using len by simp
    moreover have "n div RECORD_SIZE = Suc ((n - RECORD_SIZE) div RECORD_SIZE)"
      using False by (simp add: le_div_geq RECORD_SIZE_def)
    ultimately show ?thesis
      using Cons parse_file_encoded [of "[e]"] by simp
  qed
qed

definition sample_event :: journal_event where
  "sample_event = \<lparr>ev_kind = 4, ev_ts = 10, ev_lock_id = 5, ev_lease_id = 1, ev_holder = replicate 16 7, ev_expiry = 110\<rparr>"

lemma sample_event_wf: "event_wf sample_event"
  by (simp add: event_wf_def sample_event_def known_kind_def KIND_BREAK_def)

theorem parse_file_torn_witness:
  "parse_file (take 100 (concat (map encode_event [sample_event, sample_event]))) = [sample_event]"
  by (subst parse_file_torn) (simp_all add: sample_event_wf RECORD_SIZE_def)

text \<open>
  The table-driven checksum is the bitwise one: each byte is folded in by eight
  shift-and-reduce rounds with the reversed polynomial.
\<close>

theorem crc32_table_driven_is_bitwise:
  "crc32_ieee data = fold (\<lambda>byte crc. crc32_rounds 8 (crc XOR ucast byte)) data 0xFFFFFFFF XOR 0xFFFFFFFF"
  by (simp add: crc32_ieee_def crc32_step_rounds [abs_def])

text \<open>
  What one damaged byte does to a record. The four bytes of the length field are not
  read: whatever they are, the record parses to the same event. A wrong value of any other
  byte, be it of the magic, the kind, a field or the checksum, makes the record refused;
  it never parses as another event.
\<close>

theorem record_damage:
  assumes "event_wf e" and "i < RECORD_SIZE" and "encode_event e ! i \<noteq> b"
  shows "parse_record ((encode_event e @ rest)[i := b]) =
    (if 4 \<le> i \<and> i < 8 then Some (e, RECORD_SIZE) else None)"
proof (cases "4 \<le> i \<and> i < 8")
  case True
  have h: "length (ev_holder e) = 16" using assms(1) by (simp add: event_wf_def)
  have len: "i < length (encode_event e @ rest)" using assms(2) length_encode_event [OF h] by simp
  have "parse_record ((encode_event e @ rest)[i := b]) = parse_record (encode_event e @ rest)"
    using True by (simp add: parse_record_payload slice_update [OF len])
  with True parse_encode [OF assms(1)] show ?thesis by simp
next
  case False
  then have "i < 4 \<or> 8 \<le> i" by linarith
  with False corrupt_record_refused [OF assms(1,2) _ assms(3)] show ?thesis by simp
qed

theorem record_damage_witness:
  "parse_record ((encode_event sample_event @ [])[8 := 3]) = None \<and>
   parse_record ((encode_event sample_event @ [])[5 := 3]) = Some (sample_event, RECORD_SIZE)"
proof
  have "encode_event sample_event ! 8 = 4"
    by (simp add: encode_event_def event_payload_def sample_event_def nth_append)
  then show "parse_record ((encode_event sample_event @ [])[8 := 3]) = None"
    by (subst record_damage [OF sample_event_wf]) (simp_all add: RECORD_SIZE_def)
  have "encode_event sample_event ! 5 = 0"
    by (simp add: encode_event_def RECORD_PAYLOAD_LEN_def be_bytes_numeral nth_append)
  then show "parse_record ((encode_event sample_event @ [])[5 := 3]) = Some (sample_event, RECORD_SIZE)"
    by (subst record_damage [OF sample_event_wf]) (simp_all add: RECORD_SIZE_def)
qed

end
