(* ===== verification/Disk_Seam.thy ===== *)
theory Disk_Seam
  imports Prelude_Locks
begin

text \<open>
  The disk seam of \<^verbatim>\<open>ext/advisory_lock/src/disk.rs\<close> over a model of the
  local filesystem: directory entries name inodes, an inode has the bytes a reader sees
  and the bytes an fsync has put on the medium, and a directory has the entries a lookup
  sees and the entries a directory fsync has persisted. Every operation first takes the
  next element of a fault schedule, so that a statement about all schedules covers every
  failing operation, every short write, and a process that dies between two operations.

  A path is its list of components; an absolute path starts with the component
  \<open>''/''\<close>, and the parent of a bare file name is the empty path, which no open succeeds on.
\<close>

section \<open>The filesystem\<close>

type_synonym path = "string list"

text \<open>One operation's fate: it runs, or it fails after the given number of bytes.\<close>

datatype fault = Runs | Fails io_error nat

record fs =
  names :: "(path \<times> nat) list"
  names_kept :: "path \<rightharpoonup> nat"
  cached :: "nat \<Rightarrow> bytes"
  kept :: "nat \<Rightarrow> bytes"
  next_inode :: nat
  dirs :: "path list"
  faults :: "fault list"

text \<open>An open file: its inode, its own cursor, and whether writes go to the end.\<close>

record disk_file =
  inode :: nat
  cursor :: nat
  appends :: bool

type_synonym 'a disk = "fs \<Rightarrow> 'a io \<times> fs"

definition dret :: "'a \<Rightarrow> 'a disk" where
  "dret x f = (Inr x, f)"

definition dfail :: "io_error \<Rightarrow> 'a disk" where
  "dfail e f = (Inl e, f)"

definition dbind :: "'a disk \<Rightarrow> ('a \<Rightarrow> 'b disk) \<Rightarrow> 'b disk" where
  "dbind m k f = (case m f of (Inl e, f') \<Rightarrow> (Inl e, f') | (Inr x, f') \<Rightarrow> k x f')"

text \<open>\<^verbatim>\<open>let _ = ...\<close>: the effect without the verdict.\<close>

definition ignoring :: "'a disk \<Rightarrow> fs \<Rightarrow> fs" where
  "ignoring m f = snd (m f)"

definition parent :: "path \<Rightarrow> path option" where
  "parent p = (if p = [] \<or> p = [''/''] then None else Some (butlast p))"

definition parent_or_dot :: "path \<Rightarrow> path" where
  "parent_or_dot p = (case parent p of None \<Rightarrow> [''.''] | Some q \<Rightarrow> q)"

definition file_name :: "path \<Rightarrow> string" where
  "file_name p = (if p = [] \<or> p = [''/''] then [] else last p)"

text \<open>\<^verbatim>\<open>OsString::push\<close> on the whole path: the last component grows.\<close>

definition with_suffix :: "path \<Rightarrow> string \<Rightarrow> path" where
  "with_suffix p s = (if p = [] then [s] else butlast p @ [last p @ s])"

definition lookup :: "fs \<Rightarrow> path \<Rightarrow> nat option" where
  "lookup f p = map_of (names f) p"

definition is_dir :: "fs \<Rightarrow> path \<Rightarrow> bool" where
  "is_dir f p \<longleftrightarrow> p \<in> set (dirs f)"

text \<open>The directory a new entry of this path would be made in: the empty parent is the
  working directory.\<close>

definition has_parent_dir :: "fs \<Rightarrow> path \<Rightarrow> bool" where
  "has_parent_dir f p \<longleftrightarrow> p \<noteq> [] \<and> (butlast p = [] \<or> is_dir f (butlast p))"

definition link :: "path \<Rightarrow> nat \<Rightarrow> (path \<times> nat) list \<Rightarrow> (path \<times> nat) list" where
  "link p i ns = filter (\<lambda>e. fst e \<noteq> p) ns @ [(p, i)]"

definition unlink :: "path \<Rightarrow> (path \<times> nat) list \<Rightarrow> (path \<times> nat) list" where
  "unlink p ns = filter (\<lambda>e. fst e \<noteq> p) ns"

definition overwrite :: "nat \<Rightarrow> bytes \<Rightarrow> bytes \<Rightarrow> bytes" where
  "overwrite off bs old =
     take off old @ replicate (off - length old) 0 @ bs @ drop (off + length bs) old"

definition resize :: "nat \<Rightarrow> bytes \<Rightarrow> bytes" where
  "resize n old = take n old @ replicate (n - length old) 0"

section \<open>Faults\<close>

definition next_fault :: "fs \<Rightarrow> fault" where
  "next_fault f = (case faults f of [] \<Rightarrow> Runs | x # _ \<Rightarrow> x)"

definition take_fault :: "fs \<Rightarrow> fs" where
  "take_fault f = f\<lparr>faults := tl (faults f)\<rparr>"

definition guarded :: "'a disk \<Rightarrow> 'a disk" where
  "guarded m f = (case next_fault f of Runs \<Rightarrow> m (take_fault f) | Fails e _ \<Rightarrow> (Inl e, take_fault f))"

section \<open>Directory operations\<close>

fun ancestors :: "path \<Rightarrow> path list" where
  "ancestors p = map (\<lambda>n. take n p) [1..<Suc (length p)]"

definition create_dir_all :: "path \<Rightarrow> unit disk" where
  "create_dir_all p = guarded (\<lambda>f.
     if list_ex (\<lambda>q. lookup f q \<noteq> None) (ancestors p) then (Inl AlreadyExists, f)
     else (Inr (), f\<lparr>dirs := dirs f @ filter (\<lambda>q. \<not> is_dir f q) (ancestors p)\<rparr>))"

definition disk_rename :: "path \<Rightarrow> path \<Rightarrow> unit disk" where
  "disk_rename p q = guarded (\<lambda>f.
     case lookup f p of
       None \<Rightarrow> (Inl NotFound, f)
     | Some i \<Rightarrow>
         if \<not> has_parent_dir f q then (Inl NotFound, f)
         else if is_dir f q then (Inl OtherError, f)
         else (Inr (), f\<lparr>names := link q i (unlink p (names f))\<rparr>))"

definition remove_file :: "path \<Rightarrow> unit disk" where
  "remove_file p = guarded (\<lambda>f.
     case lookup f p of
       None \<Rightarrow> (Inl NotFound, f)
     | Some _ \<Rightarrow> (Inr (), f\<lparr>names := unlink p (names f)\<rparr>))"

definition disk_exists :: "path \<Rightarrow> fs \<Rightarrow> bool" where
  "disk_exists p f \<longleftrightarrow> lookup f p \<noteq> None \<or> is_dir f p"

definition disk_read :: "path \<Rightarrow> bytes disk" where
  "disk_read p = guarded (\<lambda>f.
     case lookup f p of None \<Rightarrow> (Inl NotFound, f) | Some i \<Rightarrow> (Inr (cached f i), f))"

definition disk_file_len :: "path \<Rightarrow> nat disk" where
  "disk_file_len p = guarded (\<lambda>f.
     case lookup f p of None \<Rightarrow> (Inl NotFound, f) | Some i \<Rightarrow> (Inr (length (cached f i)), f))"

definition read_dir :: "path \<Rightarrow> path list disk" where
  "read_dir p = guarded (\<lambda>f.
     if is_dir f p then (Inr (filter (\<lambda>q. parent q = Some p) (map fst (names f) @ dirs f)), f)
     else (Inl NotFound, f))"

text \<open>fsync of a directory persists which inode each of its entries names.\<close>

definition sync_path :: "path \<Rightarrow> unit disk" where
  "sync_path p = guarded (\<lambda>f.
     if is_dir f p then
       (Inr (), f\<lparr>names_kept := (\<lambda>q. if parent q = Some p then lookup f q else names_kept f q)\<rparr>)
     else (case lookup f p of
             None \<Rightarrow> (Inl NotFound, f)
           | Some i \<Rightarrow> (Inr (), f\<lparr>kept := (kept f)(i := cached f i)\<rparr>)))"

section \<open>Opening files\<close>

definition open_existing :: "bool \<Rightarrow> path \<Rightarrow> disk_file disk" where
  "open_existing app p = guarded (\<lambda>f.
     case lookup f p of
       None \<Rightarrow> (Inl NotFound, f)
     | Some i \<Rightarrow> (Inr \<lparr>inode = i, cursor = 0, appends = app\<rparr>, f))"

definition make_file :: "bool \<Rightarrow> path \<Rightarrow> disk_file disk" where
  "make_file app p f =
     (let i = next_inode f in
      (Inr \<lparr>inode = i, cursor = 0, appends = app\<rparr>,
       f\<lparr>names := link p i (names f), cached := (cached f)(i := []), kept := (kept f)(i := []),
         next_inode := i + 1\<rparr>))"

definition create_new :: "bool \<Rightarrow> path \<Rightarrow> disk_file disk" where
  "create_new app p = guarded (\<lambda>f.
     if disk_exists p f then (Inl AlreadyExists, f)
     else if \<not> has_parent_dir f p then (Inl NotFound, f)
     else make_file app p f)"

definition open_or_create :: "bool \<Rightarrow> path \<Rightarrow> disk_file disk" where
  "open_or_create app p = guarded (\<lambda>f.
     case lookup f p of
       Some i \<Rightarrow> (Inr \<lparr>inode = i, cursor = 0, appends = app\<rparr>, f)
     | None \<Rightarrow>
         if is_dir f p then (Inl OtherError, f)
         else if \<not> has_parent_dir f p then (Inl NotFound, f)
         else make_file app p f)"

definition open_read :: "path \<Rightarrow> disk_file disk" where
  "open_read = open_existing False"

definition open_read_write :: "path \<Rightarrow> disk_file disk" where
  "open_read_write = open_existing False"

definition open_read_append :: "path \<Rightarrow> disk_file disk" where
  "open_read_append = open_existing True"

definition open_or_create_write :: "path \<Rightarrow> disk_file disk" where
  "open_or_create_write = open_or_create False"

definition open_or_create_append :: "path \<Rightarrow> disk_file disk" where
  "open_or_create_append = open_or_create True"

definition create_new_write :: "path \<Rightarrow> disk_file disk" where
  "create_new_write = create_new False"

definition create_new_append :: "path \<Rightarrow> disk_file disk" where
  "create_new_append = create_new True"

definition create_new_read_write :: "path \<Rightarrow> disk_file disk" where
  "create_new_read_write = create_new False"

section \<open>Operations on an open file\<close>

definition read_exact :: "nat \<Rightarrow> disk_file \<Rightarrow> (bytes \<times> disk_file) disk" where
  "read_exact n h = guarded (\<lambda>f.
     let c = cached f (inode h) in
     if cursor h + n \<le> length c
     then (Inr (slice (cursor h) (cursor h + n) c, h\<lparr>cursor := cursor h + n\<rparr>), f)
     else (Inl UnexpectedEof, f))"

definition seek_start :: "nat \<Rightarrow> disk_file \<Rightarrow> disk_file disk" where
  "seek_start n h = guarded (\<lambda>f. (Inr (h\<lparr>cursor := n\<rparr>), f))"

definition seek_end :: "disk_file \<Rightarrow> disk_file disk" where
  "seek_end h = guarded (\<lambda>f. (Inr (h\<lparr>cursor := length (cached f (inode h))\<rparr>), f))"

definition write_at :: "nat \<Rightarrow> nat \<Rightarrow> bytes \<Rightarrow> fs \<Rightarrow> fs" where
  "write_at i off bs f = f\<lparr>cached := (cached f)(i := overwrite off bs (cached f i))\<rparr>"

definition write_all_at :: "disk_file \<Rightarrow> nat \<Rightarrow> bytes \<Rightarrow> unit disk" where
  "write_all_at h off bs f =
     (case next_fault f of
        Runs \<Rightarrow> (Inr (), write_at (inode h) off bs (take_fault f))
      | Fails e n \<Rightarrow> (Inl e, write_at (inode h) off (take n bs) (take_fault f)))"

definition write_all :: "disk_file \<Rightarrow> bytes \<Rightarrow> disk_file disk" where
  "write_all h bs f =
     (let off = (if appends h then length (cached f (inode h)) else cursor h) in
      case write_all_at h off bs f of
        (Inl e, f') \<Rightarrow> (Inl e, f')
      | (Inr _, f') \<Rightarrow> (Inr (h\<lparr>cursor := off + length bs\<rparr>), f'))"

text \<open>The page-cache flush of a file without a buffer of its own.\<close>

definition file_flush :: "disk_file \<Rightarrow> unit disk" where
  "file_flush h = guarded (\<lambda>f. (Inr (), f))"

definition sync_all :: "disk_file \<Rightarrow> unit disk" where
  "sync_all h = guarded (\<lambda>f. (Inr (), f\<lparr>kept := (kept f)(inode h := cached f (inode h))\<rparr>))"

definition set_len :: "disk_file \<Rightarrow> nat \<Rightarrow> unit disk" where
  "set_len h n = guarded (\<lambda>f. (Inr (), f\<lparr>cached := (cached f)(inode h := resize n (cached f (inode h)))\<rparr>))"

definition file_len :: "disk_file \<Rightarrow> nat disk" where
  "file_len h = guarded (\<lambda>f. (Inr (length (cached f (inode h))), f))"

section \<open>Crashes\<close>

text \<open>
  What a crash may leave: an entry is the current one or the persisted one; an inode whose
  bytes were on the medium has them, any other inode may have anything.
\<close>

definition crash_to :: "fs \<Rightarrow> fs \<Rightarrow> bool" where
  "crash_to f f' \<longleftrightarrow>
     (\<forall>p. lookup f' p = lookup f p \<or> lookup f' p = names_kept f p) \<and>
     (\<forall>i. cached f i = kept f i \<longrightarrow> cached f' i = kept f i)"

text \<open>The bytes a reader finds under a path.\<close>

definition content :: "fs \<Rightarrow> path \<Rightarrow> bytes option" where
  "content f p = map_option (cached f) (lookup f p)"

text \<open>Bytes that no crash can take away.\<close>

definition safe :: "fs \<Rightarrow> path \<Rightarrow> bool" where
  "safe f p \<longleftrightarrow> names_kept f p = lookup f p \<and> (\<forall>i. lookup f p = Some i \<longrightarrow> kept f i = cached f i)"

end
