(* ===== verification/Staged_Write.thy ===== *)
theory Staged_Write
  imports Disk_Seam
begin

text \<open>
  The staged durable write that every small durable file of the program goes through:
  a temporary file beside the target, the bytes, an fsync, a rename onto the target, and
  an fsync of the directory. The state file, the marker, the view record and the metafile
  of a rolled file are written this way. The interface \<open>crash_atomic\<close> states what
  the callers rely on, in terms of the contents a crash may leave under the target.
\<close>

section \<open>The staged write\<close>

definition sync_parent :: "path \<Rightarrow> unit disk" where
  "sync_parent p = sync_path (parent_or_dot p)"

text \<open>Write, fsync, rename, directory fsync: the closure all the writers share.\<close>

definition stage_body :: "disk_file \<Rightarrow> path \<Rightarrow> path \<Rightarrow> path \<Rightarrow> bytes \<Rightarrow> unit disk" where
  "stage_body h tmp target anchor bs =
     dbind (write_all h bs) (\<lambda>h'.
     dbind (sync_all h') (\<lambda>_.
     dbind (disk_rename tmp target) (\<lambda>_.
     sync_parent anchor)))"

definition cleaning :: "path \<Rightarrow> unit disk \<Rightarrow> unit disk" where
  "cleaning tmp m f =
     (case m f of
        (Inl e, f') \<Rightarrow> (Inl e, ignoring (remove_file tmp) f')
      | (Inr _, f') \<Rightarrow> (Inr (), f'))"

text \<open>Creation inside the closure: a failed creation is cleaned up after as well.\<close>

definition staged_write :: "path \<Rightarrow> path \<Rightarrow> path \<Rightarrow> bytes \<Rightarrow> unit disk" where
  "staged_write tmp target anchor bs =
     cleaning tmp (dbind (create_new_write tmp) (\<lambda>h. stage_body h tmp target anchor bs))"

text \<open>Creation before the closure: a failed creation returns at once.\<close>

definition created_write :: "path \<Rightarrow> path \<Rightarrow> path \<Rightarrow> bytes \<Rightarrow> unit disk" where
  "created_write tmp target anchor bs =
     dbind (create_new_write tmp) (\<lambda>h. cleaning tmp (stage_body h tmp target anchor bs))"

section \<open>The interface\<close>

text \<open>The contents a crash may leave under a path.\<close>

definition survivors :: "fs \<Rightarrow> path \<Rightarrow> bytes option set" where
  "survivors f p = {content f' p | f'. crash_to f f'}"

text \<open>
  The state of a filesystem: every entry names an allocated inode, a path is not both a
  file and a directory, and the empty path is neither.
\<close>

definition fs_wf :: "fs \<Rightarrow> bool" where
  "fs_wf f \<longleftrightarrow>
     (\<forall>p i. lookup f p = Some i \<or> names_kept f p = Some i \<longrightarrow> i < next_inode f) \<and>
     (\<forall>p. is_dir f p \<longrightarrow> lookup f p = None) \<and> \<not> is_dir f [] \<and> lookup f [] = None"

text \<open>
  A history of writes: each element is a content and whether its write was reported as
  done.
\<close>

primrec run_puts :: "('u \<Rightarrow> bytes \<Rightarrow> unit disk) \<Rightarrow> ('u \<times> bytes) list \<Rightarrow> fs \<Rightarrow> fs" where
  "run_puts put [] f = f"
| "run_puts put (x # xs) f = run_puts put xs (snd (put (fst x) (snd x) f))"

primrec attempts :: "('u \<Rightarrow> bytes \<Rightarrow> unit disk) \<Rightarrow> ('u \<times> bytes) list \<Rightarrow> fs \<Rightarrow> bytes option set \<Rightarrow> bytes option set" where
  "attempts put [] f S = S"
| "attempts put (x # xs) f S =
     attempts put xs (snd (put (fst x) (snd x) f))
       (if fst (put (fst x) (snd x) f) = Inr () then {Some (snd x)} else insert (Some (snd x)) S)"

locale crash_atomic =
  fixes put :: "'u \<Rightarrow> bytes \<Rightarrow> unit disk" and target :: path
  assumes put_wf: "fs_wf f \<Longrightarrow> fs_wf (snd (put u bs f))"
    and put_any: "fs_wf f \<Longrightarrow> survivors (snd (put u bs f)) target \<subseteq> insert (Some bs) (survivors f target)"
    and put_done: "fs_wf f \<Longrightarrow> put u bs f = (Inr (), f') \<Longrightarrow>
      survivors f' target = {Some bs} \<and> content f' target = Some bs"
begin

text \<open>Only what was written since the last acknowledged write can be found after a crash.\<close>

lemma history:
  "fs_wf f \<Longrightarrow> survivors f target \<subseteq> S \<Longrightarrow> survivors (run_puts put xs f) target \<subseteq> attempts put xs f S"
proof (induction xs arbitrary: f S)
  case Nil
  then show ?case by simp
next
  case (Cons x xs)
  let ?f = "snd (put (fst x) (snd x) f)"
  have "survivors ?f target \<subseteq>
      (if fst (put (fst x) (snd x) f) = Inr () then {Some (snd x)} else insert (Some (snd x)) S)"
    using put_any [OF Cons.prems(1), of "fst x" "snd x"] put_done [OF Cons.prems(1), of "fst x" "snd x"]
      Cons.prems(2)
    by (cases "put (fst x) (snd x) f") auto
  with Cons.IH [OF put_wf [OF Cons.prems(1)]] show ?case by simp
qed

lemma last_acknowledged:
  assumes "fs_wf f" and "fst (put u bs (run_puts put xs f)) = Inr ()"
  shows "survivors (run_puts put (xs @ [(u, bs)]) f) target = {Some bs}"
proof -
  have wf: "fs_wf (run_puts put xs f)"
    using assms(1) by (induction xs arbitrary: f) (auto intro: put_wf)
  have "run_puts put (xs @ [(u, bs)]) f = snd (put u bs (run_puts put xs f))"
    by (induction xs arbitrary: f) auto
  with put_done [OF wf, of u bs] assms(2) show ?thesis
    by (cases "put u bs (run_puts put xs f)") auto
qed

end

section \<open>The staged write implements the interface\<close>

lemma lookup_link [simp]:
  "map_of (link p i ns) q = (if q = p then Some i else map_of ns q)"
proof -
  have "map_of (filter (\<lambda>e. fst e \<noteq> p) ns) q = (if q = p then None else map_of ns q)"
    by (induction ns) auto
  then show ?thesis by (auto simp: link_def map_add_def split: option.split)
qed

lemma lookup_unlink [simp]:
  "map_of (unlink p ns) q = (if q = p then None else map_of ns q)"
  unfolding unlink_def by (induction ns) auto

text \<open>What can be under a path after a crash, as far as the inodes at hand decide it.\<close>

definition pinned :: "fs \<Rightarrow> nat option \<Rightarrow> bytes option \<Rightarrow> bool" where
  "pinned f e c \<longleftrightarrow>
     (case e of None \<Rightarrow> c = None
      | Some i \<Rightarrow> \<exists>b. c = Some b \<and> (cached f i = kept f i \<longrightarrow> b = cached f i))"

lemma survivors_iff:
  "c \<in> survivors f p \<longleftrightarrow> pinned f (lookup f p) c \<or> pinned f (names_kept f p) c"
proof
  assume "c \<in> survivors f p"
  then obtain f' where f': "crash_to f f'" "c = content f' p" by (auto simp: survivors_def)
  have "lookup f' p = lookup f p \<or> lookup f' p = names_kept f p"
    using f'(1) by (simp add: crash_to_def)
  moreover have "pinned f (lookup f' p) c"
    using f' by (auto simp: pinned_def content_def crash_to_def split: option.split)
  ultimately show "pinned f (lookup f p) c \<or> pinned f (names_kept f p) c" by auto
next
  have key: "c \<in> survivors f p"
    if "pinned f e c" and e: "e = lookup f p \<or> e = names_kept f p" for e
  proof -
    let ?ns = "case e of None \<Rightarrow> unlink p (names f) | Some i \<Rightarrow> link p i (names f)"
    let ?ca = "case e of None \<Rightarrow> cached f | Some i \<Rightarrow> (cached f)(i := the c)"
    have "crash_to f (f\<lparr>names := ?ns, cached := ?ca\<rparr>)"
      using that by (auto simp: crash_to_def lookup_def pinned_def split: option.splits)
    moreover have "content (f\<lparr>names := ?ns, cached := ?ca\<rparr>) p = c"
      using that(1) by (auto simp: content_def lookup_def pinned_def split: option.splits)
    ultimately show ?thesis by (auto simp: survivors_def intro!: exI)
  qed
  assume "pinned f (lookup f p) c \<or> pinned f (names_kept f p) c"
  then show "c \<in> survivors f p" using key by blast
qed

text \<open>Nothing that can be found under the target has been touched.\<close>

definition untouched :: "path \<Rightarrow> fs \<Rightarrow> fs \<Rightarrow> bool" where
  "untouched p f f' \<longleftrightarrow>
     fs_wf f' \<and> next_inode f \<le> next_inode f' \<and> dirs f' = dirs f \<and>
     lookup f' p = lookup f p \<and> names_kept f' p = names_kept f p \<and>
     (\<forall>i < next_inode f. cached f' i = cached f i \<and> kept f' i = kept f i)"

lemma untouched_refl: "fs_wf f \<Longrightarrow> untouched p f f"
  by (simp add: untouched_def)

lemma untouched_trans: "untouched p f g \<Longrightarrow> untouched p g h \<Longrightarrow> untouched p f h"
  by (auto simp: untouched_def)

lemma pinned_cong:
  "(\<And>i. e = Some i \<Longrightarrow> cached f' i = cached f i \<and> kept f' i = kept f i) \<Longrightarrow> pinned f' e c = pinned f e c"
  by (auto simp: pinned_def split: option.split)

lemma untouched_survivors:
  assumes "fs_wf f" and "untouched p f f'"
  shows "survivors f' p = survivors f p"
proof -
  have "pinned f' (lookup f' p) c = pinned f (lookup f p) c" for c
    using assms by (auto simp: untouched_def fs_wf_def intro!: pinned_cong)
  moreover have "pinned f' (names_kept f' p) c = pinned f (names_kept f p) c" for c
    using assms by (auto simp: untouched_def fs_wf_def intro!: pinned_cong)
  ultimately show ?thesis by (auto simp: survivors_iff)
qed

lemma take_fault_sel [simp]:
  "names (take_fault f) = names f" "names_kept (take_fault f) = names_kept f"
  "cached (take_fault f) = cached f" "kept (take_fault f) = kept f"
  "next_inode (take_fault f) = next_inode f" "dirs (take_fault f) = dirs f"
  "lookup (take_fault f) p = lookup f p" "is_dir (take_fault f) p = is_dir f p"
  "has_parent_dir (take_fault f) p = has_parent_dir f p" "disk_exists p (take_fault f) = disk_exists p f"
  by (simp_all add: take_fault_def lookup_def is_dir_def has_parent_dir_def disk_exists_def)

lemma fs_wf_take_fault [simp]: "fs_wf (take_fault f) = fs_wf f"
  by (simp add: fs_wf_def)

lemma untouched_take_fault [simp]: "untouched p f (take_fault g) = untouched p f g"
  by (simp add: untouched_def)

lemma guarded_cases:
  assumes "guarded m f = (r, f')"
  obtains (fault) e where "r = Inl e" "f' = take_fault f"
    | (runs) "m (take_fault f) = (r, f')"
  using assms by (auto simp: guarded_def split: fault.splits)

lemma create_new_cases:
  assumes "create_new app p f = (r, f')"
  obtains (fails) e where "r = Inl e" "f' = take_fault f"
    | (made) "r = Inr \<lparr>inode = next_inode f, cursor = 0, appends = app\<rparr>"
        "\<not> disk_exists p f" "has_parent_dir f p" "make_file app p (take_fault f) = (r, f')"
  using assms unfolding create_new_def
  by (rule guarded_cases) (auto simp: make_file_def Let_def split: if_splits)

lemma fs_wf_make_file:
  assumes "fs_wf f" and "p \<noteq> []" and "\<not> disk_exists p f" and "make_file app p f = (r, f')"
  shows "fs_wf f'"
proof -
  have f': "f' = f\<lparr>names := link p (next_inode f) (names f), cached := (cached f)(next_inode f := []),
      kept := (kept f)(next_inode f := []), next_inode := next_inode f + 1\<rparr>"
    using assms(4) by (simp add: make_file_def Let_def)
  have "lookup f' q = (if q = p then Some (next_inode f) else lookup f q)" for q
    by (simp add: f' lookup_def)
  moreover have "names_kept f' = names_kept f" "is_dir f' = is_dir f" "next_inode f' = next_inode f + 1"
    by (simp_all add: f' is_dir_def fun_eq_iff)
  ultimately show ?thesis
    using assms(1-3) by (fastforce simp: fs_wf_def disk_exists_def)
qed

lemma fs_wf_unlink: "fs_wf f \<Longrightarrow> fs_wf (f\<lparr>names := unlink q (names f)\<rparr>)"
  by (auto simp: fs_wf_def lookup_def is_dir_def split: if_splits)

lemma remove_file_untouched:
  assumes "fs_wf f" and "p \<noteq> q"
  shows "untouched p f (ignoring (remove_file q) f)"
  using assms fs_wf_unlink [of "take_fault f" q]
  by (auto simp: ignoring_def remove_file_def guarded_def untouched_def lookup_def
      split: option.split fault.split)

text \<open>Writing and syncing a file that is not the target's.\<close>

lemma write_at_sel [simp]:
  "names (write_at i off b f) = names f" "names_kept (write_at i off b f) = names_kept f"
  "cached (write_at i off b f) = (cached f)(i := overwrite off b (cached f i))"
  "kept (write_at i off b f) = kept f" "next_inode (write_at i off b f) = next_inode f"
  "dirs (write_at i off b f) = dirs f" "lookup (write_at i off b f) p = lookup f p"
  "is_dir (write_at i off b f) p = is_dir f p" "fs_wf (write_at i off b f) = fs_wf f"
  by (simp_all add: write_at_def lookup_def is_dir_def fs_wf_def)

lemma write_all_effect:
  assumes "write_all h bs f = (r, f')" and "\<not> appends h"
  obtains (fails) e b where "r = Inl e" and "f' = write_at (inode h) (cursor h) b (take_fault f)"
    | (made) "r = Inr (h\<lparr>cursor := cursor h + length bs\<rparr>)"
        and "f' = write_at (inode h) (cursor h) bs (take_fault f)"
proof (cases "next_fault f")
  case Runs
  with assms made show ?thesis by (simp add: write_all_def write_all_at_def Let_def)
next
  case (Fails e n)
  with assms fails [of e "take n bs"] show ?thesis by (simp add: write_all_def write_all_at_def Let_def)
qed

lemma untouched_write_at:
  "untouched p f0 f \<Longrightarrow> next_inode f0 \<le> i \<Longrightarrow> untouched p f0 (write_at i off b f)"
  by (simp add: untouched_def)

lemma sync_all_effect:
  assumes "sync_all h f = (r, f')"
  obtains (fails) e where "r = Inl e" and "f' = take_fault f"
    | (made) "r = Inr ()" and "f' = (take_fault f)\<lparr>kept := (kept f)(inode h := cached f (inode h))\<rparr>"
  using assms unfolding sync_all_def by (rule guarded_cases) auto

lemma kept_update_sel [simp]:
  "lookup (f\<lparr>kept := k\<rparr>) p = lookup f p" "is_dir (f\<lparr>kept := k\<rparr>) p = is_dir f p"
  "fs_wf (f\<lparr>kept := k\<rparr>) = fs_wf f"
  by (simp_all add: lookup_def is_dir_def fs_wf_def)

lemma untouched_sync:
  "untouched p f0 f \<Longrightarrow> next_inode f0 \<le> i \<Longrightarrow> untouched p f0 (f\<lparr>kept := (kept f)(i := b)\<rparr>)"
  by (simp add: untouched_def)

text \<open>The target's entry names the complete, synced bytes; its persisted entry is the old one.\<close>

definition landed :: "path \<Rightarrow> bytes \<Rightarrow> fs \<Rightarrow> fs \<Rightarrow> bool" where
  "landed p bs f0 f \<longleftrightarrow>
     fs_wf f \<and> dirs f = dirs f0 \<and>
     (\<exists>i. lookup f p = Some i \<and> cached f i = bs \<and> kept f i = bs) \<and>
     names_kept f p = names_kept f0 p \<and>
     (\<forall>i < next_inode f0. cached f i = cached f0 i \<and> kept f i = kept f0 i)"

lemma landed_survivors:
  assumes "fs_wf f0" and "landed p bs f0 f"
  shows "survivors f p \<subseteq> insert (Some bs) (survivors f0 p)"
proof -
  have "pinned f (names_kept f p) c = pinned f0 (names_kept f0 p) c" for c
    using assms by (auto simp: landed_def fs_wf_def intro!: pinned_cong)
  with assms(2) show ?thesis
    by (auto simp: survivors_iff landed_def pinned_def split: option.splits)
qed

lemma names_update_sel [simp]:
  "lookup (f\<lparr>names := link q i (unlink p (names f))\<rparr>) r =
     (if r = q then Some i else if r = p then None else lookup f r)"
  "is_dir (f\<lparr>names := ns\<rparr>) r = is_dir f r"
  by (simp_all add: lookup_def is_dir_def)

lemma rename_effect:
  assumes "disk_rename p q f = (r, f')" and "lookup f p = Some i"
  obtains (fails) e where "r = Inl e" and "f' = take_fault f"
    | (made) "r = Inr ()" and "has_parent_dir f q" and "\<not> is_dir f q"
        and "f' = (take_fault f)\<lparr>names := link q i (unlink p (names f))\<rparr>"
  using assms(1) unfolding disk_rename_def
  by (rule guarded_cases) (use assms(2) in \<open>auto split: if_splits\<close>)

lemma fs_wf_rename:
  assumes "fs_wf f" and "lookup f p = Some i" and "q \<noteq> []" and "\<not> is_dir f q"
  shows "fs_wf (f\<lparr>names := link q i (unlink p (names f))\<rparr>)"
  using assms unfolding fs_wf_def by (auto split: if_splits)

lemma rename_landed:
  assumes "untouched p f0 f" and "lookup f tmp = Some i" and "p \<noteq> []" and "\<not> is_dir f p"
    and "cached f i = bs" and "kept f i = bs"
  shows "landed p bs f0 (f\<lparr>names := link p i (unlink tmp (names f))\<rparr>)"
  using assms fs_wf_rename [of f tmp i p] by (simp add: untouched_def landed_def)

lemma kept_names_sel [simp]:
  "lookup (f\<lparr>names_kept := k\<rparr>) p = lookup f p" "is_dir (f\<lparr>names_kept := k\<rparr>) p = is_dir f p"
  by (simp_all add: lookup_def is_dir_def)

lemma sync_path_effect:
  assumes "sync_path d f = (r, f')"
  obtains (fails) e where "r = Inl e" and "f' = take_fault f"
    | (dir) "r = Inr ()" and "is_dir f d"
        and "f' = (take_fault f)\<lparr>names_kept := (\<lambda>q. if parent q = Some d then lookup f q else names_kept f q)\<rparr>"
    | (plain) i where "r = Inr ()" and "lookup f d = Some i"
  using assms unfolding sync_path_def
  by (rule guarded_cases) (auto split: if_splits option.splits cong: if_cong)

text \<open>The directory fsync, the last step.\<close>

lemma sync_landed:
  assumes "fs_wf f0" and "landed p bs f0 f" and "parent p = Some d" and "d = [] \<or> is_dir f d"
    and "sync_path d f = (r, f')"
  shows "fs_wf f' \<and> survivors f' p \<subseteq> insert (Some bs) (survivors f0 p) \<and>
    (r = Inr () \<longrightarrow> survivors f' p = {Some bs} \<and> content f' p = Some bs)"
  using assms(5)
proof (cases rule: sync_path_effect)
  case (fails e)
  have "survivors f' p = survivors f p" using fails(2) by (auto simp: survivors_iff pinned_def split: option.split)
  with fails assms(2) landed_survivors [OF assms(1,2)] show ?thesis by (simp add: landed_def)
next
  case dir
  have wf: "fs_wf f" using assms(2) by (simp add: landed_def)
  obtain i where i: "lookup f p = Some i" "cached f i = bs" "kept f i = bs"
    using assms(2) by (auto simp: landed_def)
  have wf': "fs_wf f'" using wf dir(3) by (auto simp: fs_wf_def split: if_splits)
  have "survivors f' p = {Some bs}"
    using i dir(3) assms(3) by (auto simp: survivors_iff pinned_def)
  moreover have "content f' p = Some bs" using i dir(3) by (simp add: content_def)
  ultimately show ?thesis using wf' by simp
next
  case (plain i)
  with assms(2,4) have False by (auto simp: landed_def fs_wf_def)
  then show ?thesis ..
qed

text \<open>The whole closure, from the created temporary file on.\<close>

lemma overwrite_fresh [simp]: "overwrite 0 bs [] = bs"
  by (simp add: overwrite_def)

lemma stage_body_law:
  assumes wf: "fs_wf f0" and un: "untouched p f0 f"
    and h: "next_inode f0 \<le> inode h" "cursor h = 0" "\<not> appends h" "cached f (inode h) = []"
    and tmp: "lookup f tmp = Some (inode h)" and p: "p \<noteq> []" "parent p = Some (parent_or_dot anchor)"
    and d: "parent_or_dot anchor = [] \<or> is_dir f (parent_or_dot anchor)"
    and run: "stage_body h tmp p anchor bs f = (r, f')"
  shows "fs_wf f' \<and> survivors f' p \<subseteq> insert (Some bs) (survivors f0 p) \<and>
    (r = Inr () \<longrightarrow> survivors f' p = {Some bs} \<and> content f' p = Some bs)"
proof -
  have stop: ?thesis if "untouched p f0 f'" and "r \<noteq> Inr ()"
    using that untouched_survivors [OF wf that(1)] by (auto simp: untouched_def)
  obtain r1 f1 where 1: "write_all h bs f = (r1, f1)" by fastforce
  from 1 h(3) show ?thesis
  proof (cases rule: write_all_effect)
    case (fails e b)
    then have "r = Inl e" "f' = f1" using run 1 by (simp_all add: stage_body_def dbind_def)
    moreover have "untouched p f0 f1" using fails(2) un h(1) by (simp add: untouched_write_at)
    ultimately show ?thesis using stop by simp
  next
    case made
    note w = this
    let ?h = "h\<lparr>cursor := cursor h + length bs\<rparr>"
    have un1: "untouched p f0 f1" using w(2) un h(1) by (simp add: untouched_write_at)
    obtain r2 f2 where 2: "sync_all ?h f1 = (r2, f2)" by fastforce
    then show ?thesis
    proof (cases rule: sync_all_effect)
      case (fails e)
      then have "r = Inl e" "f' = f2" using run 1 2 w(1) by (simp_all add: stage_body_def dbind_def)
      with fails(2) un1 stop show ?thesis by simp
    next
      case made
      have un2: "untouched p f0 f2" using made(2) un1 h(1) untouched_sync [of p f0 "take_fault f1"] by simp
      have f2: "lookup f2 tmp = Some (inode h)" "cached f2 (inode h) = bs" "kept f2 (inode h) = bs"
        using made(2) w(2) h tmp by simp_all
      obtain r3 f3 where 3: "disk_rename tmp p f2 = (r3, f3)" by fastforce
      have run3: "(r, f') = (case r3 of Inl e \<Rightarrow> (Inl e, f3) | Inr _ \<Rightarrow> sync_path (parent_or_dot anchor) f3)"
        using run 1 2 3 w made by (simp add: stage_body_def dbind_def sync_parent_def split: sum.split)
      from 3 f2(1) show ?thesis
      proof (cases rule: rename_effect)
        case (fails e)
        with run3 un2 stop show ?thesis by simp
      next
        case made
        have l: "landed p bs f0 f3"
          using rename_landed [of p f0 "take_fault f2" tmp "inode h" bs] made un2 f2 p by simp
        have "d = [] \<or> is_dir f3 d" if "d = parent_or_dot anchor" for d
          using that d l un by (simp add: landed_def untouched_def is_dir_def)
        with sync_landed [OF wf l p(2), of r f'] run3 made(1) show ?thesis by simp
      qed
    qed
  qed
qed

text \<open>The place of a staged write: the temporary file beside the target.\<close>

definition stage_place :: "path \<Rightarrow> path \<Rightarrow> path \<Rightarrow> bool" where
  "stage_place tmp p anchor \<longleftrightarrow>
     tmp \<noteq> p \<and> p \<noteq> [] \<and> parent p = Some (parent_or_dot anchor) \<and> butlast tmp = butlast p"

lemma parent_butlast: "parent p = Some d \<Longrightarrow> d = butlast p"
  by (simp add: parent_def split: if_splits)

lemma created_stage:
  assumes "fs_wf f" and "stage_place tmp p anchor" and "create_new_write tmp f = (Inr h, f1)"
  shows "untouched p f f1" and "inode h = next_inode f" and "cursor h = 0" and "\<not> appends h"
    and "cached f1 (inode h) = []" and "lookup f1 tmp = Some (inode h)"
    and "parent_or_dot anchor = [] \<or> is_dir f1 (parent_or_dot anchor)"
proof -
  have c: "create_new False tmp f = (Inr h, f1)" using assms(3) by (simp add: create_new_write_def)
  have made: "h = \<lparr>inode = next_inode f, cursor = 0, appends = False\<rparr>" "\<not> disk_exists tmp f"
      "has_parent_dir f tmp" "make_file False tmp (take_fault f) = (Inr h, f1)"
    using c by (cases rule: create_new_cases; simp)+
  have f1: "f1 = (take_fault f)\<lparr>names := link tmp (next_inode f) (names f),
      cached := (cached f)(next_inode f := []), kept := (kept f)(next_inode f := []),
      next_inode := next_inode f + 1\<rparr>"
    using made(4) by (simp add: make_file_def Let_def)
  have wf: "fs_wf f1"
    using fs_wf_make_file [of "take_fault f" tmp False "Inr h" f1] assms(1) made
    by (simp add: has_parent_dir_def)
  show "untouched p f f1"
    using wf f1 assms(2) by (auto simp: untouched_def lookup_def stage_place_def)
  show "inode h = next_inode f" "cursor h = 0" "\<not> appends h" using made(1) by simp_all
  show "cached f1 (inode h) = []" "lookup f1 tmp = Some (inode h)" using made(1) f1 by (simp_all add: lookup_def)
  have "parent_or_dot anchor = butlast tmp"
    using assms(2) parent_butlast [of p] by (simp add: stage_place_def)
  then show "parent_or_dot anchor = [] \<or> is_dir f1 (parent_or_dot anchor)"
    using made(3) f1 by (auto simp: has_parent_dir_def is_dir_def)
qed

lemma create_new_write_fails:
  "fs_wf f \<Longrightarrow> create_new_write tmp f = (Inl e, f1) \<Longrightarrow> untouched p f f1"
  unfolding create_new_write_def by (erule create_new_cases) (simp_all add: untouched_refl)

text \<open>The law of the interface, for one write.\<close>

definition atomic_outcome :: "path \<Rightarrow> bytes \<Rightarrow> fs \<Rightarrow> unit io \<times> fs \<Rightarrow> bool" where
  "atomic_outcome p bs f res \<longleftrightarrow>
     fs_wf (snd res) \<and> survivors (snd res) p \<subseteq> insert (Some bs) (survivors f p) \<and>
     (fst res = Inr () \<longrightarrow> survivors (snd res) p = {Some bs} \<and> content (snd res) p = Some bs)"

lemma atomic_cleaning:
  assumes "atomic_outcome p bs f (m g)" and "tmp \<noteq> p"
  shows "atomic_outcome p bs f (cleaning tmp m g)"
proof (cases "m g")
  case (Pair r g')
  then show ?thesis
  proof (cases r)
    case (Inl e)
    have wf: "fs_wf g'" using assms(1) Pair by (simp add: atomic_outcome_def)
    have un: "untouched p g' (ignoring (remove_file tmp) g')"
      by (rule remove_file_untouched [OF wf]) (use assms(2) in simp)
    have wf': "fs_wf (ignoring (remove_file tmp) g')" using un by (simp add: untouched_def)
    have "survivors g' p \<subseteq> insert (Some bs) (survivors f p)"
      using assms(1) Pair by (simp add: atomic_outcome_def)
    then show ?thesis
      using wf' untouched_survivors [OF wf un] Pair Inl by (simp add: atomic_outcome_def cleaning_def)
  next
    case (Inr u)
    with assms(1) Pair show ?thesis by (simp add: atomic_outcome_def cleaning_def)
  qed
qed

lemma atomic_body:
  assumes "fs_wf f" and "stage_place tmp p anchor" and "create_new_write tmp f = (Inr h, f1)"
  shows "atomic_outcome p bs f (stage_body h tmp p anchor bs f1)"
proof -
  obtain r f' where run: "stage_body h tmp p anchor bs f1 = (r, f')" by fastforce
  note c = created_stage [OF assms]
  from assms(2) have p: "p \<noteq> []" "parent p = Some (parent_or_dot anchor)"
    by (simp_all add: stage_place_def)
  have "next_inode f \<le> inode h" using c(2) by simp
  from stage_body_law [OF assms(1) c(1) this c(3,4,5,6) p c(7) run] run show ?thesis
    by (simp add: atomic_outcome_def)
qed

lemma atomic_failed_create:
  assumes "fs_wf f" and "create_new_write tmp f = (Inl e, f1)"
  shows "atomic_outcome p bs f (Inl e, f1)"
  using create_new_write_fails [OF assms, of p] untouched_survivors [OF assms(1), of p f1]
  by (auto simp: atomic_outcome_def untouched_def)

lemma staged_write_atomic:
  assumes "fs_wf f" and "stage_place tmp p anchor"
  shows "atomic_outcome p bs f (staged_write tmp p anchor bs f)"
proof -
  have "atomic_outcome p bs f (dbind (create_new_write tmp) (\<lambda>h. stage_body h tmp p anchor bs) f)"
    using atomic_failed_create [OF assms(1)] atomic_body [OF assms]
    by (auto simp: dbind_def split: prod.split sum.split)
  then show ?thesis
    unfolding staged_write_def using assms(2) by (intro atomic_cleaning) (simp_all add: stage_place_def)
qed

lemma created_write_atomic:
  assumes "fs_wf f" and "stage_place tmp p anchor"
  shows "atomic_outcome p bs f (created_write tmp p anchor bs f)"
proof (cases "create_new_write tmp f")
  case (Pair r f1)
  have "tmp \<noteq> p" using assms(2) by (simp add: stage_place_def)
  then have "atomic_outcome p bs f (cleaning tmp (stage_body h tmp p anchor bs) f1)" if "r = Inr h" for h
    using atomic_cleaning [of p bs f "stage_body h tmp p anchor bs" f1 tmp] atomic_body [OF assms] Pair that
    by simp
  with Pair atomic_failed_create [OF assms(1)] show ?thesis
    by (auto simp: created_write_def dbind_def split: sum.split)
qed

lemma crash_atomicI:
  assumes "\<And>u bs f. fs_wf f \<Longrightarrow> atomic_outcome p bs f (put u bs f)"
  shows "crash_atomic put p"
proof
  fix u bs f assume wf: "fs_wf f"
  from assms [OF wf, of bs u] show "fs_wf (snd (put u bs f))"
    "survivors (snd (put u bs f)) p \<subseteq> insert (Some bs) (survivors f p)"
    by (simp_all add: atomic_outcome_def)
next
  fix u bs f f' assume "fs_wf f" and "put u bs f = (Inr (), f')"
  with assms [of f bs u] show "survivors f' p = {Some bs} \<and> content f' p = Some bs"
    by (simp add: atomic_outcome_def)
qed

section \<open>A disk without faults\<close>

lemma take_fault_ok: "faults f = [] \<Longrightarrow> take_fault f = f"
  by (cases f) (simp add: take_fault_def)

lemma guarded_ok: "faults f = [] \<Longrightarrow> guarded m f = m f"
  by (simp add: guarded_def next_fault_def take_fault_ok)

lemma dbind_ok: "m f = (Inr x, f') \<Longrightarrow> dbind m k f = k x f'"
  by (simp add: dbind_def)

lemma write_all_ok:
  "faults f = [] \<Longrightarrow> write_all h bs f =
     (let off = (if appends h then length (cached f (inode h)) else cursor h) in
      (Inr (h\<lparr>cursor := off + length bs\<rparr>), write_at (inode h) off bs f))"
  by (simp add: write_all_def write_all_at_def next_fault_def take_fault_ok Let_def)

lemma overwrite_end [simp]: "overwrite (length old) bs old = old @ bs"
  by (simp add: overwrite_def)

lemma faults_write_at [simp]: "faults (write_at i off bs f) = faults f"
  by (simp add: write_at_def)

lemma create_new_write_ok:
  assumes "faults f = []" and "\<not> disk_exists p f" and "has_parent_dir f p"
  shows "create_new_write p f =
    (Inr \<lparr>inode = next_inode f, cursor = 0, appends = False\<rparr>,
     f\<lparr>names := link p (next_inode f) (names f), cached := (cached f)(next_inode f := []),
       kept := (kept f)(next_inode f := []), next_inode := next_inode f + 1\<rparr>)"
  using assms by (simp add: create_new_write_def create_new_def guarded_ok make_file_def Let_def)

lemma sync_all_ok:
  "faults f = [] \<Longrightarrow> sync_all h f = (Inr (), f\<lparr>kept := (kept f)(inode h := cached f (inode h))\<rparr>)"
  by (simp add: sync_all_def guarded_ok)

lemma rename_ok:
  "faults f = [] \<Longrightarrow> lookup f p = Some i \<Longrightarrow> has_parent_dir f q \<Longrightarrow> \<not> is_dir f q \<Longrightarrow>
     disk_rename p q f = (Inr (), f\<lparr>names := link q i (unlink p (names f))\<rparr>)"
  by (simp add: disk_rename_def guarded_ok)

lemma sync_path_ok:
  "faults f = [] \<Longrightarrow> is_dir f d \<Longrightarrow>
     sync_path d f = (Inr (), f\<lparr>names_kept := (\<lambda>q. if parent q = Some d then lookup f q else names_kept f q)\<rparr>)"
  by (simp add: sync_path_def guarded_ok)

text \<open>Everything but the target, the temporary name and fresh inodes is as before.\<close>

definition elsewhere_same :: "path \<Rightarrow> path \<Rightarrow> fs \<Rightarrow> fs \<Rightarrow> bool" where
  "elsewhere_same tmp p f f' \<longleftrightarrow>
     faults f' = [] \<and> dirs f' = dirs f \<and> next_inode f \<le> next_inode f' \<and> lookup f' tmp = None \<and>
     (\<forall>q. q \<noteq> p \<longrightarrow> q \<noteq> tmp \<longrightarrow> lookup f' q = lookup f q) \<and>
     (\<forall>i < next_inode f. cached f' i = cached f i \<and> kept f' i = kept f i)"

lemma staged_run_ok:
  assumes f: "faults f = []" and wf: "fs_wf f" and pl: "stage_place tmp p anchor"
    and tmp: "\<not> disk_exists tmp f" and d: "is_dir f (parent_or_dot anchor)" and p: "\<not> is_dir f p"
  shows "\<exists>h f1 f'. create_new_write tmp f = (Inr h, f1) \<and> stage_body h tmp p anchor bs f1 = (Inr (), f') \<and>
    elsewhere_same tmp p f f' \<and> content f' p = Some bs"
proof -
  let ?n = "next_inode f"
  let ?h = "\<lparr>inode = ?n, cursor = 0, appends = False\<rparr>"
  let ?f1 = "f\<lparr>names := link tmp ?n (names f), cached := (cached f)(?n := []), kept := (kept f)(?n := []),
    next_inode := ?n + 1\<rparr>"
  have pd: "parent_or_dot anchor = butlast p" "butlast tmp = butlast p" "tmp \<noteq> p" "p \<noteq> []"
    using pl parent_butlast [of p] by (simp_all add: stage_place_def)
  have ne: "butlast p \<noteq> []" using d wf pd(1) by (auto simp: fs_wf_def)
  have "tmp \<noteq> []" using pd(2) ne by (metis butlast.simps(1))
  then have c: "create_new_write tmp f = (Inr ?h, ?f1)"
    using create_new_write_ok [OF f tmp] d pd by (simp add: has_parent_dir_def)
  let ?f2 = "write_at ?n 0 bs ?f1"
  have w: "write_all ?h bs ?f1 = (Inr (?h\<lparr>cursor := length bs\<rparr>), ?f2)"
    using f by (simp add: write_all_ok)
  let ?f3 = "?f2\<lparr>kept := (kept ?f2)(?n := cached ?f2 ?n)\<rparr>"
  have s: "sync_all (?h\<lparr>cursor := length bs\<rparr>) ?f2 = (Inr (), ?f3)"
    using f by (subst sync_all_ok) simp_all
  let ?f4 = "?f3\<lparr>names := link p ?n (unlink tmp (names ?f3))\<rparr>"
  have r: "disk_rename tmp p ?f3 = (Inr (), ?f4)"
    by (rule rename_ok) (use f d p pd in \<open>simp_all add: write_at_def lookup_def has_parent_dir_def is_dir_def\<close>)
  let ?f5 = "?f4\<lparr>names_kept := (\<lambda>q. if parent q = Some (parent_or_dot anchor) then lookup ?f4 q else names_kept ?f4 q)\<rparr>"
  have y: "sync_path (parent_or_dot anchor) ?f4 = (Inr (), ?f5)"
    by (rule sync_path_ok) (use f d in \<open>simp_all add: write_at_def is_dir_def\<close>)
  have "stage_body ?h tmp p anchor bs ?f1 = (Inr (), ?f5)"
    unfolding stage_body_def sync_parent_def
    by (simp only: dbind_def w s r y prod.case sum.case)
  moreover have "elsewhere_same tmp p f ?f5" using f pd(3)
    by (auto simp: elsewhere_same_def lookup_def write_at_def)
  moreover have "content ?f5 p = Some bs"
    by (simp add: content_def lookup_def write_at_def)
  ultimately show ?thesis using c by blast
qed

lemma created_write_ok:
  assumes "faults f = []" and "fs_wf f" and "stage_place tmp p anchor"
    and "\<not> disk_exists tmp f" and "is_dir f (parent_or_dot anchor)" and "\<not> is_dir f p"
  shows "\<exists>f'. created_write tmp p anchor bs f = (Inr (), f') \<and> elsewhere_same tmp p f f' \<and>
    content f' p = Some bs \<and> fs_wf f'"
proof -
  obtain h f1 f' where "create_new_write tmp f = (Inr h, f1)" "stage_body h tmp p anchor bs f1 = (Inr (), f')"
      "elsewhere_same tmp p f f'" "content f' p = Some bs"
    using staged_run_ok [OF assms] by blast
  moreover from this have "created_write tmp p anchor bs f = (Inr (), f')"
    by (simp add: created_write_def dbind_def cleaning_def)
  moreover have "fs_wf (snd (created_write tmp p anchor bs f))"
    using created_write_atomic [OF assms(2,3)] by (simp add: atomic_outcome_def)
  ultimately show ?thesis by auto
qed

lemma staged_write_ok:
  assumes "faults f = []" and "fs_wf f" and "stage_place tmp p anchor"
    and "\<not> disk_exists tmp f" and "is_dir f (parent_or_dot anchor)" and "\<not> is_dir f p"
  shows "\<exists>f'. staged_write tmp p anchor bs f = (Inr (), f') \<and> elsewhere_same tmp p f f' \<and>
    content f' p = Some bs \<and> fs_wf f'"
proof -
  obtain h f1 f' where "create_new_write tmp f = (Inr h, f1)" "stage_body h tmp p anchor bs f1 = (Inr (), f')"
      "elsewhere_same tmp p f f'" "content f' p = Some bs"
    using staged_run_ok [OF assms] by blast
  moreover from this have "staged_write tmp p anchor bs f = (Inr (), f')"
    by (simp add: staged_write_def dbind_def cleaning_def)
  moreover have "fs_wf (snd (staged_write tmp p anchor bs f))"
    using staged_write_atomic [OF assms(2,3)] by (simp add: atomic_outcome_def)
  ultimately show ?thesis by auto
qed

section \<open>Operations that report success\<close>

lemma dbind_Inr: "dbind m k f = (Inr y, f') \<longleftrightarrow> (\<exists>x f1. m f = (Inr x, f1) \<and> k x f1 = (Inr y, f'))"
  by (auto simp: dbind_def split: prod.splits sum.splits)

lemma sync_all_Inr:
  "sync_all h f = (Inr r, f') \<Longrightarrow> f' = (take_fault f)\<lparr>kept := (kept f)(inode h := cached f (inode h))\<rparr>"
  by (auto simp: sync_all_def guarded_def split: fault.splits)

end
