(* ===== verification/Text_Fields.thy ===== *)
theory Text_Fields
  imports Prelude_Locks
begin

text \<open>
  The text handling of the standard library that the program's line formats use: decimal
  rendering and parsing of unsigned integers, trimming, splitting at a character, and the
  prefix and suffix tests on file names. A text is its UTF-8 bytes; trimming removes the encodings of
  the Unicode white space.
\<close>

section \<open>Decimal numbers\<close>

definition digit_char :: "nat \<Rightarrow> char" where
  "digit_char d = char_of (48 + d)"

definition digit_val :: "char \<Rightarrow> nat option" where
  "digit_val c = (if 48 \<le> (of_char c :: nat) \<and> (of_char c :: nat) \<le> 57 then Some (of_char c - 48) else None)"

fun show_dec :: "nat \<Rightarrow> string" where
  "show_dec n = (if n < 10 then [digit_char n] else show_dec (n div 10) @ [digit_char (n mod 10)])"

declare show_dec.simps [simp del]

text \<open>The digit loop of \<^verbatim>\<open>str::parse\<close> with its overflow check.\<close>

fun parse_digits :: "nat \<Rightarrow> nat \<Rightarrow> string \<Rightarrow> nat option" where
  "parse_digits bound acc [] = Some acc"
| "parse_digits bound acc (c # cs) =
     (case digit_val c of
        None \<Rightarrow> None
      | Some d \<Rightarrow> if acc * 10 + d < bound then parse_digits bound (acc * 10 + d) cs else None)"

text \<open>An optional plus sign, then at least one digit.\<close>

definition parse_dec :: "nat \<Rightarrow> string \<Rightarrow> nat option" where
  "parse_dec bound s =
     (case s of
        [] \<Rightarrow> None
      | c # cs \<Rightarrow> if c = CHR ''+'' \<and> cs \<noteq> [] then parse_digits bound 0 cs else parse_digits bound 0 s)"

definition parse_u16 :: "string \<Rightarrow> u16 option" where
  "parse_u16 s = map_option word_of_nat (parse_dec (2 ^ 16) s)"

definition parse_u32 :: "string \<Rightarrow> u32 option" where
  "parse_u32 s = map_option word_of_nat (parse_dec (2 ^ 32) s)"

definition parse_u64 :: "string \<Rightarrow> u64 option" where
  "parse_u64 s = map_option word_of_nat (parse_dec (2 ^ 64) s)"

section \<open>Trimming and splitting\<close>

text \<open>The encodings of the characters of the Unicode property White_Space.\<close>

definition WHITE_SPACE :: "string list" where
  "WHITE_SPACE =
     map (\<lambda>c. [c]) [CHR 0x09, CHR 0x0A, CHR 0x0B, CHR 0x0C, CHR 0x0D, CHR 0x20] @
     map (\<lambda>c. [CHR 0xC2, c]) [CHR 0x85, CHR 0xA0] @
     map (\<lambda>c. [CHR 0xE2, CHR 0x80, c])
       [CHR 0x80, CHR 0x81, CHR 0x82, CHR 0x83, CHR 0x84, CHR 0x85, CHR 0x86, CHR 0x87, CHR 0x88, CHR 0x89, CHR 0x8A,
        CHR 0xA8, CHR 0xA9, CHR 0xAF] @
     [[CHR 0xE1, CHR 0x9A, CHR 0x80], [CHR 0xE2, CHR 0x81, CHR 0x9F], [CHR 0xE3, CHR 0x80, CHR 0x80]]"

definition is_space :: "char \<Rightarrow> bool" where
  "is_space c \<longleftrightarrow> (\<exists>w \<in> set WHITE_SPACE. c = hd w \<or> c = last w)"

function strip_codes :: "string list \<Rightarrow> string \<Rightarrow> string" where
  "strip_codes codes s =
     (case find (\<lambda>w. w \<noteq> [] \<and> take (length w) s = w) codes of
        None \<Rightarrow> s
      | Some w \<Rightarrow> strip_codes codes (drop (length w) s))"
  by pat_completeness auto

termination
proof (relation "measure (\<lambda>(_, s). length s)")
  fix codes :: "string list" and s w :: string
  assume "find (\<lambda>w. w \<noteq> [] \<and> take (length w) s = w) codes = Some w"
  then have "w \<noteq> []" "take (length w) s = w" by (auto simp: find_Some_iff)
  then show "((codes, drop (length w) s), codes, s) \<in> measure (\<lambda>(_, s). length s)"
    by (cases s; cases w) simp_all
qed simp

declare strip_codes.simps [simp del]

definition trim :: "string \<Rightarrow> string" where
  "trim s = rev (strip_codes (map rev WHITE_SPACE) (rev (strip_codes WHITE_SPACE s)))"

fun split_once :: "char \<Rightarrow> string \<Rightarrow> (string \<times> string) option" where
  "split_once d [] = None"
| "split_once d (c # cs) =
     (if c = d then Some ([], cs)
      else map_option (\<lambda>(a, b). (c # a, b)) (split_once d cs))"

fun split_on :: "char \<Rightarrow> string \<Rightarrow> string list" where
  "split_on d [] = [[]]"
| "split_on d (c # cs) =
     (if c = d then [] # split_on d cs
      else (case split_on d cs of [] \<Rightarrow> [[c]] | w # ws \<Rightarrow> (c # w) # ws))"

definition strip_prefix :: "string \<Rightarrow> string \<Rightarrow> string option" where
  "strip_prefix p s = (if take (length p) s = p then Some (drop (length p) s) else None)"

definition strip_suffix :: "string \<Rightarrow> string \<Rightarrow> string option" where
  "strip_suffix p s = map_option rev (strip_prefix (rev p) (rev s))"

definition starts_with :: "string \<Rightarrow> string \<Rightarrow> bool" where
  "starts_with p s \<longleftrightarrow> strip_prefix p s \<noteq> None"

definition ends_with :: "string \<Rightarrow> string \<Rightarrow> bool" where
  "ends_with p s \<longleftrightarrow> strip_suffix p s \<noteq> None"

section \<open>Facts\<close>

lemma digit_val_char [simp]: "d < 10 \<Longrightarrow> digit_val (digit_char d) = Some d"
  by (simp add: digit_val_def digit_char_def)

lemma is_space_code: "is_space c \<Longrightarrow> (of_char c :: nat) \<in> {9 ..< 14} \<union> {32} \<union> {0x80 ..}"
  by (simp add: is_space_def WHITE_SPACE_def) (elim disjE; simp)

lemma digit_char_plain:
  "d < 10 \<Longrightarrow> digit_char d \<noteq> CHR ''+'' \<and> digit_char d \<noteq> CHR '' '' \<and> \<not> is_space (digit_char d) \<and>
     digit_char d \<noteq> CHR ''-'' \<and> digit_char d \<noteq> CHR ''.''"
proof -
  assume "d < 10"
  then have "(of_char (digit_char d) :: nat) = 48 + d" by (simp add: digit_char_def)
  then show ?thesis using is_space_code [of "digit_char d"] \<open>d < 10\<close> by auto
qed

lemma show_dec_digits: "c \<in> set (show_dec n) \<Longrightarrow> \<exists>d < 10. c = digit_char d"
proof (induction n rule: show_dec.induct)
  case (1 n)
  show ?case
  proof (cases "n < 10")
    case True
    with 1(2) show ?thesis by (subst (asm) show_dec.simps) auto
  next
    case False
    with 1(2) have "c \<in> set (show_dec (n div 10)) \<or> c = digit_char (n mod 10)"
      by (subst (asm) show_dec.simps) auto
    moreover have "n mod 10 < 10" by simp
    ultimately show ?thesis using 1(1) False by blast
  qed
qed

lemma show_dec_nonempty [simp]: "show_dec n \<noteq> []"
  by (subst show_dec.simps) simp

lemma parse_digits_append:
  "parse_digits bound acc (xs @ ys) = Option.bind (parse_digits bound acc xs) (\<lambda>v. parse_digits bound v ys)"
  by (induction xs arbitrary: acc) (auto split: option.split)

lemma parse_digits_show: "n < bound \<Longrightarrow> parse_digits bound 0 (show_dec n) = Some n"
proof (induction n rule: show_dec.induct)
  case (1 n)
  show ?case
  proof (cases "n < 10")
    case True
    with 1(2) show ?thesis by (subst show_dec.simps) simp
  next
    case False
    then have "n div 10 < n" by simp
    with 1 False have "parse_digits bound 0 (show_dec (n div 10)) = Some (n div 10)" by simp
    with False 1(2) show ?thesis by (subst show_dec.simps) (simp add: parse_digits_append)
  qed
qed

lemma parse_show_dec: "n < bound \<Longrightarrow> parse_dec bound (show_dec n) = Some n"
proof -
  assume n: "n < bound"
  obtain c cs where s: "show_dec n = c # cs" by (cases "show_dec n") auto
  then have "c \<noteq> CHR ''+''" using show_dec_digits [of c n] digit_char_plain by auto
  with s parse_digits_show [OF n] show ?thesis by (simp add: parse_dec_def)
qed

lemma parse_dec_less: "parse_dec bound s = Some n \<Longrightarrow> bound \<noteq> 0 \<Longrightarrow> n < bound"
proof -
  have "parse_digits bound acc cs = Some n \<Longrightarrow> acc < bound \<Longrightarrow> n < bound" for acc cs
    by (induction cs arbitrary: acc) (auto split: option.splits if_splits)
  then show "parse_dec bound s = Some n \<Longrightarrow> bound \<noteq> 0 \<Longrightarrow> n < bound"
    by (auto simp: parse_dec_def simp del: parse_digits.simps split: list.splits if_splits)
qed

lemma parse_u16_show [simp]: "parse_u16 (show_dec (unat s)) = Some s"
proof -
  have "unat s < 2 ^ 16" using unsigned_less [of s] by simp
  from parse_show_dec [OF this] show ?thesis by (simp add: parse_u16_def)
qed

lemma parse_u32_show [simp]: "parse_u32 (show_dec (unat s)) = Some s"
proof -
  have "unat s < 2 ^ 32" using unsigned_less [of s] by simp
  from parse_show_dec [OF this] show ?thesis by (simp add: parse_u32_def)
qed

lemma parse_u64_show [simp]: "parse_u64 (show_dec (unat s)) = Some s"
proof -
  have "unat s < 2 ^ 64" using unsigned_less [of s] by simp
  from parse_show_dec [OF this] show ?thesis by (simp add: parse_u64_def)
qed

lemma show_dec_plain: "c \<in> set (show_dec n) \<Longrightarrow> \<not> is_space c \<and> c \<noteq> CHR '' ''"
  using show_dec_digits [of c n] digit_char_plain by auto

lemma show_dec_inj: "show_dec m = show_dec n \<longleftrightarrow> m = n"
proof
  assume "show_dec m = show_dec n"
  moreover have "m < Suc (m + n)" "n < Suc (m + n)" by simp_all
  ultimately show "m = n" by (metis option.inject parse_show_dec)
qed simp

lemma split_once_free: "d \<notin> set a \<Longrightarrow> split_once d (a @ d # b) = Some (a, b)"
  by (induction a) auto

lemma split_on_free: "d \<notin> set a \<Longrightarrow> split_on d a = [a]"
  by (induction a) auto

lemma split_on_cons: "d \<notin> set a \<Longrightarrow> split_on d (a @ d # b) = a # split_on d b"
  by (induction a) auto

lemma dec_without: "c \<in> set (show_dec n) \<Longrightarrow> c \<noteq> CHR ''|'' \<and> c \<noteq> CHR '':'' \<and> c \<noteq> CHR '','' \<and> c \<noteq> CHR ''}'' \<and> c \<noteq> CHR 0x22 \<and> c \<noteq> CHR 0x0A"
proof -
  assume "c \<in> set (show_dec n)"
  then obtain k where k: "k < 10" "c = digit_char k" using show_dec_digits by blast
  have o: "(of_char c :: nat) = 48 + k" using k by (simp add: digit_char_def)
  show ?thesis using o k(1) by auto
qed

lemma first_field_inj: "d \<notin> set a \<Longrightarrow> d \<notin> set a' \<Longrightarrow> a @ d # b = a' @ d # b' \<longleftrightarrow> a = a' \<and> b = b'" for d :: char
  using split_once_free [of d a b] split_once_free [of d a' b'] by (metis option.inject prod.inject)

lemma dec_field_inj: "show_dec m @ CHR '':'' # b = show_dec n @ CHR '':'' # b' \<longleftrightarrow> m = n \<and> b = b'"
proof -
  have "CHR '':'' \<notin> set (show_dec k)" for k using dec_without by blast
  then show ?thesis by (simp add: first_field_inj show_dec_inj)
qed

lemma split_on_chain:
  assumes "d \<notin> set a" and "\<forall>e \<in> set es. d \<notin> set e"
  shows "split_on d (a @ concat (map (\<lambda>e. d # e) es)) = a # es"
  using assms
proof (induction es arbitrary: a)
  case (Cons e es)
  from Cons.IH [of e] Cons.prems show ?case by (simp add: split_on_cons)
qed (simp add: split_on_free)

lemma strip_codes_none:
  assumes "s \<noteq> [] \<longrightarrow> (\<forall>w \<in> set codes. w \<noteq> [] \<longrightarrow> hd w \<noteq> hd s)"
  shows "strip_codes codes s = s"
proof -
  have "find (\<lambda>w. w \<noteq> [] \<and> take (length w) s = w) codes = None"
    unfolding find_None_iff
  proof
    assume "\<exists>w. w \<in> set codes \<and> w \<noteq> [] \<and> take (length w) s = w"
    then obtain w where w: "w \<in> set codes" "w \<noteq> []" "take (length w) s = w" by blast
    then have "s \<noteq> []" "hd w = hd s" by (metis take_Nil, metis hd_take length_greater_0_conv)
    with w assms show False by blast
  qed
  then show ?thesis by (subst strip_codes.simps) simp
qed

lemma is_space_ends: "w \<in> set WHITE_SPACE \<Longrightarrow> is_space (hd w) \<and> is_space (last w)"
  unfolding is_space_def by blast

lemma strip_newline: "strip_codes (map rev WHITE_SPACE) (CHR 0x0A # s) = strip_codes (map rev WHITE_SPACE) s"
proof -
  have "find (\<lambda>w. w \<noteq> [] \<and> take (length w) (CHR 0x0A # s) = w) (map rev WHITE_SPACE) = Some [CHR 0x0A]"
    by (simp add: WHITE_SPACE_def)
  then show ?thesis by (subst strip_codes.simps) simp
qed

lemma trim_line:
  assumes "s \<noteq> []" and "\<not> is_space (hd s)" and "\<not> is_space (last s)"
  shows "trim (s @ [CHR 0x0A]) = s"
proof -
  have "strip_codes WHITE_SPACE (s @ [CHR 0x0A]) = s @ [CHR 0x0A]"
    by (rule strip_codes_none) (metis assms(1,2) hd_append2 is_space_ends)
  moreover have "strip_codes (map rev WHITE_SPACE) (rev s) = rev s"
  proof (rule strip_codes_none, intro impI ballI)
    fix w assume "w \<in> set (map rev WHITE_SPACE)" and "w \<noteq> []"
    then obtain v where "v \<in> set WHITE_SPACE" "w = rev v" by auto
    then show "hd w \<noteq> hd (rev s)" using assms(1,3) is_space_ends [of v] by (auto simp: hd_rev)
  qed
  ultimately show ?thesis by (simp add: trim_def strip_newline)
qed

lemma strip_prefix_append [simp]: "strip_prefix p (p @ s) = Some s"
  by (simp add: strip_prefix_def)

lemma strip_suffix_append [simp]: "strip_suffix p (s @ p) = Some s"
  by (simp add: strip_suffix_def)

end
