(* ===== verification/Journal_File.thy ===== *)
theory Journal_File
  imports Journal_Props Staged_Write Text_Fields
begin

text \<open>
  The rolling journal of \<^verbatim>\<open>ext/advisory_lock/src/journal.rs\<close> over the disk
  seam: finding and resuming the open file, appending, rolling, and the metafile. Clock
  readings are arguments. An operation that fails leaves no journal, as its callers drop
  the journal then.
\<close>

section \<open>Names\<close>

definition open_name :: "nat \<Rightarrow> string" where
  "open_name started_ms = ''ev-open-'' @ show_dec started_ms @ ''.bin''"

definition rolled_name :: "meta \<Rightarrow> string" where
  "rolled_name m =
     ''ev-'' @ show_dec (unat (op_min m)) @ ''-'' @ show_dec (unat (op_max m)) @ ''-'' @
     show_dec (unat (expiry_min m)) @ ''-'' @ show_dec (unat (expiry_max m)) @ ''.bin''"

definition is_open_name :: "string \<Rightarrow> bool" where
  "is_open_name s \<longleftrightarrow> starts_with ''ev-open-'' s \<and> ends_with ''.bin'' s"

definition find_open_file_on :: "path \<Rightarrow> path option disk" where
  "find_open_file_on dir =
     dbind (read_dir dir) (\<lambda>es. dret (find (\<lambda>p. is_open_name (file_name p)) es))"

definition parse_open_timestamp :: "path \<Rightarrow> nat option" where
  "parse_open_timestamp p =
     Option.bind (strip_prefix ''ev-open-'' (file_name p)) (\<lambda>s.
     Option.bind (strip_suffix ''.bin'' s) (parse_dec (2 ^ 64)))"

text \<open>\<^verbatim>\<open>Path::with_extension\<close>: the text after the last dot is replaced.\<close>

definition file_stem :: "string \<Rightarrow> string" where
  "file_stem s = (case split_once (CHR ''.'') (rev s) of
     None \<Rightarrow> s
   | Some (_, b) \<Rightarrow> if b = [] then s else rev b)"

definition with_extension :: "path \<Rightarrow> string \<Rightarrow> path" where
  "with_extension p ext = butlast p @ [file_stem (last p) @ ''.'' @ ext]"

section \<open>The metafile\<close>

definition meta_tmp :: "path \<Rightarrow> nat \<Rightarrow> path" where
  "meta_tmp p unique = parent_or_dot p @ [''.'' @ file_name p @ ''.tmp-'' @ show_dec unique]"

definition write_meta_atomic :: "path \<Rightarrow> meta \<Rightarrow> nat \<Rightarrow> unit disk" where
  "write_meta_atomic p m unique = created_write (meta_tmp p unique) p p (encode_meta m)"

section \<open>The journal\<close>

record journal =
  j_dir :: path
  j_roll_bytes :: nat
  j_file :: disk_file
  j_open_path :: path
  j_started_ms :: nat
  j_written :: nat
  j_window :: "window option"

definition create_open_file :: "path \<Rightarrow> nat \<Rightarrow> (disk_file \<times> path) disk" where
  "create_open_file dir started_ms =
     (let p = dir @ [open_name started_ms] in
      dbind (create_new_append p) (\<lambda>h. dret (h, p)))"

lemma read_exact_Inr:
  assumes "read_exact n h f = (Inr (buf, h'), f')"
  shows "cursor h + n \<le> length (cached f (inode h)) \<and> cursor h' = cursor h + n \<and> inode h' = inode h \<and>
    cached f' = cached f"
  using assms unfolding read_exact_def
  by (rule guarded_cases) (auto simp: Let_def split: if_splits)

text \<open>The resume scan: whole records up to the roll mark.\<close>

function journal_scan ::
  "nat \<Rightarrow> nat \<Rightarrow> window option \<Rightarrow> disk_file \<Rightarrow> (nat \<times> window option \<times> disk_file) disk" where
  "journal_scan roll_bytes scanned w h f =
     (if scanned + RECORD_SIZE > roll_bytes then (Inr (scanned, w, h), f)
      else
        (case read_exact RECORD_SIZE h f of
           (Inl e, f') \<Rightarrow> if e = UnexpectedEof then (Inr (scanned, w, h), f') else (Inl e, f')
         | (Inr (buf, h'), f') \<Rightarrow>
             (case parse_record buf of
                Some (event, _) \<Rightarrow> journal_scan roll_bytes (scanned + RECORD_SIZE) (window_add w event) h' f'
              | None \<Rightarrow> (Inr (scanned, w, h'), f'))))"
  by pat_completeness auto
termination
  by (relation "measure (\<lambda>(roll_bytes, scanned, w, h, f). length (cached f (inode h)) - cursor h)")
    (auto dest!: read_exact_Inr [OF sym] simp: RECORD_SIZE_def)

declare journal_scan.simps [simp del]

definition journal_open_on :: "path \<Rightarrow> nat \<Rightarrow> nat \<Rightarrow> journal disk" where
  "journal_open_on dir roll_bytes now_ms =
     dbind (create_dir_all dir) (\<lambda>_.
     dbind (find_open_file_on dir) (\<lambda>entry.
     case entry of
       Some p \<Rightarrow>
         dbind (open_read_append p) (\<lambda>h.
         dbind (journal_scan roll_bytes 0 None h) (\<lambda>(scanned, w, h').
         dbind (seek_end h') (\<lambda>h''.
         dret \<lparr>j_dir = dir, j_roll_bytes = roll_bytes, j_file = h'', j_open_path = p,
               j_started_ms = (case parse_open_timestamp p of None \<Rightarrow> 0 | Some t \<Rightarrow> t),
               j_written = scanned, j_window = w\<rparr>)))
     | None \<Rightarrow>
         dbind (create_open_file dir now_ms) (\<lambda>(h, p).
         dret \<lparr>j_dir = dir, j_roll_bytes = roll_bytes, j_file = h, j_open_path = p,
               j_started_ms = now_ms, j_written = 0, j_window = None\<rparr>)))"

text \<open>The handle put in place of the file being renamed.\<close>

definition placeholder :: "path \<Rightarrow> disk_file disk" where
  "placeholder open_path f =
     (case open_read [''/'', ''dev'', ''null''] f of
        (Inr h, f1) \<Rightarrow> (Inr h, f1)
      | (Inl _, f1) \<Rightarrow>
          (case open_read open_path f1 of
             (Inr h, f2) \<Rightarrow> (Inr h, f2)
           | (Inl _, f2) \<Rightarrow> (Inl Panicked, f2)))"

definition journal_roll :: "nat \<Rightarrow> nat \<Rightarrow> journal \<Rightarrow> journal disk" where
  "journal_roll unique now_ms j =
     (case j_window j of
        None \<Rightarrow> dret j
      | Some w \<Rightarrow>
          (let m = window_meta w; final_path = j_dir j @ [rolled_name m] in
           dbind (placeholder (j_open_path j)) (\<lambda>_.
           dbind (disk_rename (j_open_path j) final_path) (\<lambda>_.
           dbind (write_meta_atomic (with_extension final_path ''meta'') m unique) (\<lambda>_.
           dbind (create_open_file (j_dir j) now_ms) (\<lambda>(h, p).
           dret (j\<lparr>j_started_ms := now_ms, j_file := h, j_open_path := p, j_written := 0, j_window := None\<rparr>)))))))"

definition journal_append :: "nat \<Rightarrow> nat \<Rightarrow> journal_event \<Rightarrow> journal \<Rightarrow> journal disk" where
  "journal_append unique now_ms event j =
     dbind (write_all (j_file j) (encode_event event)) (\<lambda>h.
     dbind (file_flush h) (\<lambda>_.
     let j' = j\<lparr>j_file := h, j_window := window_add (j_window j) event, j_written := j_written j + RECORD_SIZE\<rparr> in
     if j_written j' \<ge> j_roll_bytes j' then journal_roll unique now_ms j' else dret j'))"

definition journal_flush :: "journal \<Rightarrow> unit disk" where
  "journal_flush j = sync_all (j_file j)"

end
