(* ===== verification/Aof_Writer.thy ===== *)
theory Aof_Writer
  imports Journal_File
begin

text \<open>
  The write-behind log of \<^verbatim>\<open>ext/advisory_lock/src/aof.rs\<close>: the append, pad and
  roll machine over the disk seam, the bounded queue in front of it, and the writer
  thread's loop, one received message at a time. Clock readings are arguments. The
  io_uring variant of the file write is not modelled; the blocking one is.
\<close>

section \<open>Constants and the file sink\<close>

definition ROLL_BYTES :: nat where
  "ROLL_BYTES = 2 * 1024 * 1024"

definition PUMP_TICK :: nat where
  "PUMP_TICK = 200"

record aof_config =
  cfg_flush_bytes :: nat
  cfg_flush_interval :: "nat option"
  cfg_queue_cap :: nat

definition default_aof_config :: aof_config where
  "default_aof_config = \<lparr>cfg_flush_bytes = 64 * 1024, cfg_flush_interval = Some 1000, cfg_queue_cap = 4096\<rparr>"

record file_sink =
  sk_file :: disk_file
  sk_path :: path
  sk_offset :: nat

definition sink_open_file :: "path \<Rightarrow> nat \<Rightarrow> (path \<times> disk_file) disk" where
  "sink_open_file dir started_ms =
     (let p = dir @ [open_name started_ms] in
      dbind (create_new_read_write p) (\<lambda>h. dret (p, h)))"

definition sink_new :: "path \<Rightarrow> nat \<Rightarrow> file_sink disk" where
  "sink_new dir started_ms =
     dbind (sink_open_file dir started_ms) (\<lambda>(p, h). dret \<lparr>sk_file = h, sk_path = p, sk_offset = 0\<rparr>)"

definition sink_adopt :: "path \<Rightarrow> disk_file \<Rightarrow> nat \<Rightarrow> file_sink" where
  "sink_adopt p h offset = \<lparr>sk_file = h, sk_path = p, sk_offset = offset\<rparr>"

definition sink_write_all :: "file_sink \<Rightarrow> bytes \<Rightarrow> file_sink disk" where
  "sink_write_all s bs =
     dbind (write_all_at (sk_file s) (sk_offset s) bs) (\<lambda>_. dret (s\<lparr>sk_offset := sk_offset s + length bs\<rparr>))"

definition sink_sync :: "file_sink \<Rightarrow> unit disk" where
  "sink_sync s = sync_all (sk_file s)"

section \<open>The append and roll machine\<close>

record aof_core =
  a_dir :: path
  a_flush_bytes :: nat
  a_sink :: file_sink
  a_written :: nat
  a_window :: "window option"
  a_syncs :: nat
  a_buf :: bytes

text \<open>The resume scan: whole records to the end of the file.\<close>

function aof_scan :: "nat \<Rightarrow> window option \<Rightarrow> disk_file \<Rightarrow> (nat \<times> window option \<times> disk_file) disk" where
  "aof_scan scanned w h f =
     (case read_exact RECORD_SIZE h f of
        (Inl e, f') \<Rightarrow> if e = UnexpectedEof then (Inr (scanned, w, h), f') else (Inl e, f')
      | (Inr (chunk, h'), f') \<Rightarrow>
          (case parse_record chunk of
             Some (event, _) \<Rightarrow> aof_scan (scanned + RECORD_SIZE) (window_add w event) h' f'
           | None \<Rightarrow> (Inr (scanned, w, h'), f')))"
  by pat_completeness auto
termination
  by (relation "measure (\<lambda>(scanned, w, h, f). length (cached f (inode h)) - cursor h)")
    (auto dest!: read_exact_Inr [OF sym] simp: RECORD_SIZE_def)

declare aof_scan.simps [simp del]

definition aof_resume :: "path \<Rightarrow> (file_sink \<times> nat \<times> window option) disk" where
  "aof_resume p =
     dbind (open_read_write p) (\<lambda>h.
     dbind (aof_scan 0 None h) (\<lambda>(scanned, w, h').
     dbind (file_len h') (\<lambda>len.
     dbind (if len > scanned then set_len h' scanned else dret ()) (\<lambda>_.
     dret (sink_adopt p h' scanned, scanned, w)))))"

definition aof_open_on :: "path \<Rightarrow> nat \<Rightarrow> nat \<Rightarrow> aof_core disk" where
  "aof_open_on dir flush_bytes now_ms =
     dbind (create_dir_all dir) (\<lambda>_.
     dbind (find_open_file_on dir) (\<lambda>entry.
     dbind (case entry of
              Some p \<Rightarrow> aof_resume p
            | None \<Rightarrow> dbind (sink_new dir now_ms) (\<lambda>s. dret (s, 0, None))) (\<lambda>(s, written, w).
     dret \<lparr>a_dir = dir, a_flush_bytes = flush_bytes, a_sink = s, a_written = written, a_window = w,
           a_syncs = 0, a_buf = []\<rparr>)))"

definition aof_flush_buf :: "aof_core \<Rightarrow> aof_core disk" where
  "aof_flush_buf c =
     (if a_buf c = [] then dret c
      else dbind (sink_write_all (a_sink c) (a_buf c)) (\<lambda>s. dret (c\<lparr>a_sink := s, a_buf := []\<rparr>)))"

definition aof_checkpoint :: "aof_core \<Rightarrow> aof_core disk" where
  "aof_checkpoint c =
     dbind (aof_flush_buf c) (\<lambda>c'.
     dbind (sink_sync (a_sink c')) (\<lambda>_. dret (c'\<lparr>a_syncs := a_syncs c' + 1\<rparr>)))"

definition aof_flush :: "aof_core \<Rightarrow> aof_core disk" where
  "aof_flush c = aof_flush_buf c"

definition aof_shutdown :: "aof_core \<Rightarrow> aof_core disk" where
  "aof_shutdown c = aof_checkpoint c"

text \<open>Pad, flush and fsync: the file as it is finalized. A pad length below zero and a size other
  than the roll size panic.\<close>

definition aof_finalize :: "aof_core \<Rightarrow> aof_core disk" where
  "aof_finalize c =
     (if a_written c > ROLL_BYTES then dfail Panicked else
     dbind (aof_flush_buf (c\<lparr>a_buf := a_buf c @ replicate (ROLL_BYTES - a_written c) 0\<rparr>)) (\<lambda>c'.
     dbind (sink_sync (a_sink c')) (\<lambda>_.
     let c'' = c'\<lparr>a_syncs := a_syncs c' + 1\<rparr> in
     if sk_offset (a_sink c'') = ROLL_BYTES then dret c'' else dfail Panicked)))"

definition aof_roll :: "nat \<Rightarrow> nat \<Rightarrow> aof_core \<Rightarrow> aof_core disk" where
  "aof_roll unique now_ms c =
     (case a_window c of
        None \<Rightarrow> dret c
      | Some w \<Rightarrow>
          dbind (aof_finalize c) (\<lambda>c'.
          let final_path = a_dir c' @ [rolled_name (window_meta w)] in
          dbind (disk_rename (sk_path (a_sink c')) final_path) (\<lambda>_.
          dbind (write_meta_atomic (with_extension final_path ''meta'') (window_meta w) unique) (\<lambda>_.
          dbind (sink_new (a_dir c') now_ms) (\<lambda>s.
          dret (c'\<lparr>a_sink := s, a_written := 0, a_window := None\<rparr>))))))"

definition aof_push :: "journal_event \<Rightarrow> aof_core \<Rightarrow> aof_core" where
  "aof_push event c =
     c\<lparr>a_buf := a_buf c @ encode_event event, a_window := window_add (a_window c) event,
       a_written := a_written c + RECORD_SIZE\<rparr>"

definition aof_append :: "nat \<Rightarrow> nat \<Rightarrow> journal_event \<Rightarrow> aof_core \<Rightarrow> aof_core disk" where
  "aof_append unique now_ms event c =
     dbind (if a_written c + RECORD_SIZE > ROLL_BYTES then aof_roll unique now_ms c else dret c) (\<lambda>c.
     let c = aof_push event c in
     dbind (if length (a_buf c) \<ge> a_flush_bytes c then aof_flush_buf c else dret c) (\<lambda>c.
     if a_written c = ROLL_BYTES then aof_roll unique now_ms c else dret c))"

section \<open>The queue\<close>

text \<open>A drain request carries the number of the caller waiting for its answer.\<close>

datatype msg = Event journal_event | Checkpoint | Drain nat

record aof_queue =
  q_msgs :: "msg list"
  q_cap :: nat
  q_writer :: bool

text \<open>\<^verbatim>\<open>try_send\<close> on the bounded channel.\<close>

datatype send = Sent aof_queue | Full | Disconnected

definition try_send :: "msg \<Rightarrow> aof_queue \<Rightarrow> send" where
  "try_send m q =
     (if \<not> q_writer q then Disconnected
      else if length (q_msgs q) \<ge> q_cap q then Full
      else Sent (q\<lparr>q_msgs := q_msgs q @ [m]\<rparr>))"

text \<open>Never waits; a full queue or a dead writer crashes the process.\<close>

definition aof_enqueue :: "journal_event \<Rightarrow> aof_queue \<Rightarrow> aof_queue io" where
  "aof_enqueue event q =
     (case try_send (Event event) q of Sent q' \<Rightarrow> Inr q' | Full \<Rightarrow> Inl Panicked | Disconnected \<Rightarrow> Inl Panicked)"

definition aof_request_checkpoint :: "aof_queue \<Rightarrow> aof_queue" where
  "aof_request_checkpoint q =
     (case try_send Checkpoint q of Sent q' \<Rightarrow> q' | Full \<Rightarrow> q | Disconnected \<Rightarrow> q)"

text \<open>One attempt of the drain's send loop: sent, to be retried, or failed.\<close>

definition aof_drain_send :: "nat \<Rightarrow> aof_queue \<Rightarrow> aof_queue option io" where
  "aof_drain_send caller q =
     (case try_send (Drain caller) q of
        Sent q' \<Rightarrow> Inr (Some q')
      | Full \<Rightarrow> Inr None
      | Disconnected \<Rightarrow> Inl OtherError)"

section \<open>The writer thread\<close>

record pump_state =
  p_core :: aof_core
  p_last_flush :: nat
  p_last_sync :: nat

text \<open>The outcome of one turn of the loop: it goes on, ends, or aborts the process.\<close>

datatype pump_turn = Goes pump_state | Ends | Aborts

text \<open>What the turn received, and the clock readings it takes.\<close>

datatype received = Got msg | Timeout | Hangup

definition pump_receive ::
  "nat \<Rightarrow> nat \<Rightarrow> nat \<Rightarrow> msg \<Rightarrow> pump_state \<Rightarrow> fs \<Rightarrow> pump_turn \<times> (nat \<times> unit io) list \<times> fs" where
  "pump_receive unique now_ms at m p f =
     (case m of
        Event event \<Rightarrow>
          (case aof_append unique now_ms event (p_core p) f of
             (Inl _, f') \<Rightarrow> (Aborts, [], f')
           | (Inr c, f') \<Rightarrow> (Goes (p\<lparr>p_core := c\<rparr>), [], f'))
      | Checkpoint \<Rightarrow>
          (case aof_checkpoint (p_core p) f of
             (Inl _, f') \<Rightarrow> (Aborts, [], f')
           | (Inr c, f') \<Rightarrow> (Goes \<lparr>p_core = c, p_last_flush = at, p_last_sync = at\<rparr>, [], f'))
      | Drain caller \<Rightarrow>
          (case aof_checkpoint (p_core p) f of
             (Inl e, f') \<Rightarrow> (Aborts, [(caller, Inl e)], f')
           | (Inr c, f') \<Rightarrow> (Goes (p\<lparr>p_core := c\<rparr>), [(caller, Inr ())], f')))"

definition pump_flush :: "nat \<Rightarrow> pump_state \<Rightarrow> fs \<Rightarrow> pump_turn \<times> fs" where
  "pump_flush at p f =
     (if at - p_last_flush p \<ge> PUMP_TICK then
        (case aof_flush (p_core p) f of
           (Inl _, f') \<Rightarrow> (Aborts, f')
         | (Inr c, f') \<Rightarrow> (Goes (p\<lparr>p_core := c, p_last_flush := at\<rparr>), f'))
      else (Goes p, f))"

definition pump_sync :: "nat option \<Rightarrow> nat \<Rightarrow> pump_state \<Rightarrow> fs \<Rightarrow> pump_turn \<times> fs" where
  "pump_sync interval at p f =
     (case interval of
        None \<Rightarrow> (Goes p, f)
      | Some iv \<Rightarrow>
          if at - p_last_sync p \<ge> iv then
            (case aof_checkpoint (p_core p) f of
               (Inl _, f') \<Rightarrow> (Aborts, f')
             | (Inr c, f') \<Rightarrow> (Goes \<lparr>p_core = c, p_last_flush = at, p_last_sync = at\<rparr>, f'))
          else (Goes p, f))"

text \<open>One turn: receive, the buffered-write cadence, the fsync cadence; the shutdown at a hangup.\<close>

definition pump_turn_of ::
  "nat option \<Rightarrow> nat \<Rightarrow> nat \<Rightarrow> nat \<Rightarrow> received \<Rightarrow> pump_state \<Rightarrow> fs \<Rightarrow> pump_turn \<times> (nat \<times> unit io) list \<times> fs" where
  "pump_turn_of interval unique now_ms at r p f =
     (case r of
        Hangup \<Rightarrow>
          (case aof_shutdown (p_core p) f of
             (Inl _, f') \<Rightarrow> (Aborts, [], f')
           | (Inr _, f') \<Rightarrow> (Ends, [], f'))
      | _ \<Rightarrow>
          (let (t1, answers, f1) =
             (case r of Got m \<Rightarrow> pump_receive unique now_ms at m p f | _ \<Rightarrow> (Goes p, [], f)) in
           case t1 of
             Goes p1 \<Rightarrow>
               (case pump_flush at p1 f1 of
                  (Goes p2, f2) \<Rightarrow> (case pump_sync interval at p2 f2 of (t3, f3) \<Rightarrow> (t3, answers, f3))
                | (t2, f2) \<Rightarrow> (t2, answers, f2))
           | _ \<Rightarrow> (t1, answers, f1)))"

end
