(* ===== verification/Journal_File_Props.thy ===== *)
theory Journal_File_Props
  imports Journal_File
begin

text \<open>
  What the rolling journal does on a disk that does not fail: an append adds the record to
  what reads back, a roll moves every record under the final name with a metafile of their
  bounds, a resume rebuilds the window, and a torn tail left behind by a crash hides every
  record appended after it.
\<close>

section \<open>A small disk\<close>

definition demo_event :: journal_event where
  "demo_event = \<lparr>ev_kind = 1, ev_ts = 10, ev_lock_id = 5, ev_lease_id = 1, ev_holder = replicate 16 0, ev_expiry = 110\<rparr>"

definition demo_disk :: "bytes \<Rightarrow> fs" where
  "demo_disk c =
     \<lparr>names = [([''/'', ''j'', ''ev-open-7.bin''], 0)], names_kept = Map.empty, cached = (\<lambda>_. c), kept = (\<lambda>_. []),
      next_inode = 1, dirs = [[''/''], [''/'', ''j'']], faults = []\<rparr>"

definition demo_journal :: "nat \<Rightarrow> journal" where
  "demo_journal roll =
     \<lparr>j_dir = [''/'', ''j''], j_roll_bytes = roll, j_file = \<lparr>inode = 0, cursor = 0, appends = True\<rparr>,
      j_open_path = [''/'', ''j'', ''ev-open-7.bin''], j_started_ms = 7, j_written = 0, j_window = None\<rparr>"

section \<open>The window\<close>

definition window_of :: "journal_event list \<Rightarrow> window option" where
  "window_of evs = foldl window_add None evs"

lemma window_of_snoc: "window_of (evs @ [e]) = window_add (window_of evs) e"
  by (simp add: window_of_def)

lemma window_of_Nil [simp]: "window_of [] = None"
  by (simp add: window_of_def)

lemma window_of_bounds:
  assumes "evs \<noteq> []"
  shows "\<exists>w. window_of evs = Some w \<and>
    win_op_min w = Min (ev_ts ` set evs) \<and> win_op_max w = Max (ev_ts ` set evs) \<and>
    win_expiry_min w = Min (ev_expiry ` set evs) \<and> win_expiry_max w = Max (ev_expiry ` set evs) \<and>
    win_count w = word_of_nat (length evs)"
  using assms
proof (induction evs rule: rev_nonempty_induct)
  case (single e)
  then show ?case by (simp add: window_of_def window_add_def window_new_def)
next
  case (snoc e evs)
  then obtain w where "window_of evs = Some w" and
    w: "win_op_min w = Min (ev_ts ` set evs)" "win_op_max w = Max (ev_ts ` set evs)"
      "win_expiry_min w = Min (ev_expiry ` set evs)" "win_expiry_max w = Max (ev_expiry ` set evs)"
      "win_count w = word_of_nat (length evs)" by blast
  then have "window_of (evs @ [e]) = Some (window_update w e)"
    by (simp add: window_of_snoc window_add_def)
  with w snoc.hyps show ?case
    by (simp add: window_update_def min.commute max.commute)
qed

section \<open>Resuming\<close>

lemma parse_record_take: "parse_record (take RECORD_SIZE d) = parse_record d"
proof (cases "RECORD_SIZE \<le> length d")
  case True
  have "slice a b (take RECORD_SIZE d) = slice a b d" if "b \<le> RECORD_SIZE" for a b
    using that by (simp add: slice_def take_drop [symmetric] drop_take min_def)
  with True show ?thesis by (simp add: parse_record_payload RECORD_SIZE_def)
qed (simp add: parse_record_def)

lemma read_exact_ok:
  assumes "faults f = []"
  shows "read_exact n h f =
    (if cursor h + n \<le> length (cached f (inode h))
     then (Inr (take n (drop (cursor h) (cached f (inode h))), h\<lparr>cursor := cursor h + n\<rparr>), f)
     else (Inl UnexpectedEof, f))"
  using assms by (simp add: read_exact_def guarded_ok slice_def Let_def)

text \<open>Below the roll mark the scan finds exactly the records that read back.\<close>

lemma journal_scan_finds:
  assumes "faults f = []" and "cached f (inode h) = c"
    and "s + RECORD_SIZE * length (parse_file (drop (cursor h) c)) \<le> roll"
  shows "\<exists>h'. journal_scan roll s w h f =
      (Inr (s + RECORD_SIZE * length (parse_file (drop (cursor h) c)),
            foldl window_add w (parse_file (drop (cursor h) c)), h'), f) \<and>
      inode h' = inode h \<and> appends h' = appends h"
  using assms
proof (induction "length c - cursor h" arbitrary: s w h rule: less_induct)
  case less
  let ?d = "drop (cursor h) c"
  show ?case
  proof (cases "parse_record ?d")
    case None
    then have none: "parse_file ?d = []" by (subst parse_file_unfold) simp
    have "parse_record (take RECORD_SIZE ?d) = None" using None by (simp add: parse_record_take)
    then show ?thesis using less.prems none
      by (subst journal_scan.simps) (auto simp: read_exact_ok split: if_splits)
  next
    case (Some en)
    then obtain e where e: "parse_record ?d = Some (e, RECORD_SIZE)" and len: "RECORD_SIZE \<le> length ?d"
      using parse_record_consumes [of ?d "fst en" "snd en"] by (cases en) auto
    then have pf: "parse_file ?d = e # parse_file (drop (cursor h + RECORD_SIZE) c)"
      by (subst parse_file_unfold) (simp add: add.commute)
    let ?h = "h\<lparr>cursor := cursor h + RECORD_SIZE\<rparr>"
    have roll: "s + RECORD_SIZE \<le> roll"
      "(s + RECORD_SIZE) + RECORD_SIZE * length (parse_file (drop (cursor ?h) c)) \<le> roll"
      using less.prems(3) pf by simp_all
    have dec: "length c - cursor ?h < length c - cursor h"
      using len by (simp add: RECORD_SIZE_def)
    have inode: "cached f (inode ?h) = c" using less.prems(2) by simp
    from less.hyps [OF dec less.prems(1) inode roll(2), of "window_add w e"]
    obtain h' where h': "journal_scan roll (s + RECORD_SIZE) (window_add w e) ?h f =
      (Inr (s + RECORD_SIZE + RECORD_SIZE * length (parse_file (drop (cursor ?h) c)),
            foldl window_add (window_add w e) (parse_file (drop (cursor ?h) c)), h'), f)"
      "inode h' = inode h" "appends h' = appends h" by auto
    have "cursor h + RECORD_SIZE \<le> length c" using len by (simp add: RECORD_SIZE_def)
    then have "read_exact RECORD_SIZE h f = (Inr (take RECORD_SIZE ?d, ?h), f)"
      using less.prems by (simp add: read_exact_ok)
    with e h' roll(1) pf show ?thesis
      by (subst journal_scan.simps) (simp add: parse_record_take)
  qed
qed

section \<open>Appending\<close>

text \<open>The journal's open file holds these records and nothing else.\<close>

definition journal_holds :: "journal \<Rightarrow> fs \<Rightarrow> journal_event list \<Rightarrow> bool" where
  "journal_holds j f evs \<longleftrightarrow>
     faults f = [] \<and> fs_wf f \<and> list_all event_wf evs \<and> appends (j_file j) \<and>
     is_dir f (j_dir j) \<and> butlast (j_open_path j) = j_dir j \<and>
     lookup f (j_open_path j) = Some (inode (j_file j)) \<and>
     cached f (inode (j_file j)) = concat (map encode_event evs) \<and>
     j_window j = window_of evs \<and> j_written j = RECORD_SIZE * length evs"

lemma journal_append_writes:
  assumes "journal_holds j f evs" and "event_wf e"
  defines "f1 \<equiv> write_at (inode (j_file j)) (length (cached f (inode (j_file j)))) (encode_event e) f"
    and "j1 \<equiv> j\<lparr>j_file := (j_file j)\<lparr>cursor := length (cached f (inode (j_file j))) + length (encode_event e)\<rparr>,
      j_window := window_add (j_window j) e, j_written := j_written j + RECORD_SIZE\<rparr>"
  shows "journal_append u t e j f =
      (if j_roll_bytes j \<le> j_written j1 then journal_roll u t j1 f1 else (Inr j1, f1))"
    and "journal_holds j1 f1 (evs @ [e])"
proof -
  have h: "faults f = []" "appends (j_file j)" using assms(1) by (simp_all add: journal_holds_def)
  have "faults f1 = []" using h by (simp add: f1_def)
  with h show "journal_append u t e j f =
      (if j_roll_bytes j \<le> j_written j1 then journal_roll u t j1 f1 else (Inr j1, f1))"
    by (simp add: journal_append_def write_all_ok dbind_def Let_def file_flush_def guarded_ok j1_def f1_def dret_def)
  show "journal_holds j1 f1 (evs @ [e])"
    using assms(1,2) by (simp add: journal_holds_def f1_def j1_def window_of_snoc)
qed

lemma journal_holds_content:
  "journal_holds j f evs \<Longrightarrow> content f (j_open_path j) = Some (concat (map encode_event evs))"
  by (simp add: journal_holds_def content_def)

text \<open>
  Appending below the roll mark on a disk that does not fail adds exactly the event to
  what reads back from the open file, and keeps the journal's window and byte count those of
  the records in the file.
\<close>

theorem journal_append_adds:
  assumes "journal_holds j f evs" and "event_wf e"
    and "RECORD_SIZE * (length evs + 1) < j_roll_bytes j"
  shows "\<exists>j' f'. journal_append u t e j f = (Inr j', f') \<and> journal_holds j' f' (evs @ [e]) \<and>
    j_open_path j' = j_open_path j \<and>
    map_option parse_file (content f' (j_open_path j)) = Some (evs @ [e])"
proof -
  note w = journal_append_writes [OF assms(1,2)]
  let ?j1 = "j\<lparr>j_file := (j_file j)\<lparr>cursor := length (cached f (inode (j_file j))) + length (encode_event e)\<rparr>,
      j_window := window_add (j_window j) e, j_written := j_written j + RECORD_SIZE\<rparr>"
  have "\<not> j_roll_bytes j \<le> j_written ?j1" using assms(1,3) by (simp add: journal_holds_def)
  moreover have "list_all event_wf (evs @ [e])" using assms(1,2) by (simp add: journal_holds_def)
  then have "parse_file (concat (map encode_event (evs @ [e]))) = evs @ [e]"
    using parse_file_encoded [of "evs @ [e]" "[]"] by (simp add: parse_file_short RECORD_SIZE_def)
  ultimately show ?thesis
    using w(1) [of u t] w(2) journal_holds_content [OF w(2)] by simp
qed

lemma demo_event_wf: "event_wf demo_event"
  by (simp add: event_wf_def demo_event_def known_kind_def KIND_HOLD_def)

lemma demo_holds: "journal_holds (demo_journal roll) (demo_disk []) []"
  by (auto simp: journal_holds_def demo_journal_def demo_disk_def fs_wf_def lookup_def is_dir_def split: if_splits)

theorem journal_append_adds_witness:
  "\<exists>j' f'. journal_append 0 0 demo_event (demo_journal 1000) (demo_disk []) = (Inr j', f') \<and>
     map_option parse_file (content f' [''/'', ''j'', ''ev-open-7.bin'']) = Some [demo_event]"
  using journal_append_adds [OF demo_holds demo_event_wf, of 1000 0 0]
  by (auto simp: demo_journal_def RECORD_SIZE_def)

section \<open>Rolling\<close>

definition rolled_stem :: "meta \<Rightarrow> string" where
  "rolled_stem m =
     ''ev-'' @ show_dec (unat (op_min m)) @ ''-'' @ show_dec (unat (op_max m)) @ ''-'' @
     show_dec (unat (expiry_min m)) @ ''-'' @ show_dec (unat (expiry_max m))"

lemma rolled_name_stem: "rolled_name m = rolled_stem m @ ''.bin''"
  by (simp add: rolled_name_def rolled_stem_def)

lemma rolled_stem_head: "\<exists>d cs. d < 10 \<and> rolled_stem m = ''ev-'' @ digit_char d # cs"
proof -
  obtain c cs where s: "show_dec (unat (op_min m)) = c # cs" by (cases "show_dec (unat (op_min m))") auto
  then obtain d where "d < 10" "c = digit_char d" using show_dec_digits [of c "unat (op_min m)"] by auto
  with s show ?thesis by (auto simp: rolled_stem_def)
qed

lemma rolled_ne_open: "rolled_name m \<noteq> open_name t"
proof -
  obtain d cs where d: "d < 10" "rolled_stem m = ''ev-'' @ digit_char d # cs" using rolled_stem_head by blast
  have "(of_char (digit_char d) :: nat) = 48 + d" using d(1) by (simp add: digit_char_def)
  then have "digit_char d \<noteq> CHR ''o''" using d(1) by auto
  with d(2) show ?thesis by (simp add: rolled_name_stem open_name_def)
qed

lemma meta_path_eq: "with_extension (d @ [rolled_name m]) ''meta'' = d @ [rolled_stem m @ ''.meta'']"
  by (simp add: with_extension_def file_stem_def rolled_name_stem rolled_stem_def)

lemma meta_names_distinct:
  "rolled_stem m @ ''.meta'' \<noteq> rolled_name m'" "rolled_stem m @ ''.meta'' \<noteq> open_name t"
  by (rule notI, drule arg_cong [where f = last], simp add: rolled_name_stem open_name_def)+

lemma meta_tmp_eq:
  "d \<noteq> [] \<Longrightarrow> meta_tmp (d @ [rolled_stem m @ ''.meta'']) u =
     d @ [''.'' @ (rolled_stem m @ ''.meta'') @ ''.tmp-'' @ show_dec u]"
  by (simp add: meta_tmp_def parent_or_dot_def parent_def file_name_def)

lemma meta_tmp_distinct:
  "''.'' @ s \<noteq> rolled_name m" "''.'' @ s \<noteq> open_name t" "''.'' @ s \<noteq> rolled_stem m @ ''.meta''"
  by (simp_all add: rolled_name_def open_name_def rolled_stem_def)

text \<open>The directory has room for the files of a roll.\<close>

definition roll_room :: "path \<Rightarrow> path \<Rightarrow> fs \<Rightarrow> meta \<Rightarrow> nat \<Rightarrow> nat \<Rightarrow> bool" where
  "roll_room dir po f m u t \<longleftrightarrow>
     \<not> is_dir f (dir @ [rolled_name m]) \<and> \<not> is_dir f (dir @ [rolled_stem m @ ''.meta'']) \<and>
     \<not> disk_exists (meta_tmp (dir @ [rolled_stem m @ ''.meta'']) u) f \<and>
     \<not> is_dir f (dir @ [open_name t]) \<and>
     (lookup f (dir @ [open_name t]) = None \<or> po = dir @ [open_name t])"

lemma placeholder_ok:
  assumes "faults f = []" and "lookup f p = Some i"
  shows "\<exists>h. placeholder p f = (Inr h, f)"
  using assms by (auto simp: placeholder_def open_read_def open_existing_def guarded_ok split: option.split)

lemma encode_decode_meta: "decode_meta (encode_meta m) = Some m"
  by (simp add: decode_meta_def encode_meta_def META_SIZE_def slice_def)

lemma create_new_ok:
  assumes "faults f = []" and "\<not> disk_exists p f" and "has_parent_dir f p"
  shows "create_new app p f =
    (Inr \<lparr>inode = next_inode f, cursor = 0, appends = app\<rparr>,
     f\<lparr>names := link p (next_inode f) (names f), cached := (cached f)(next_inode f := []),
       kept := (kept f)(next_inode f := []), next_inode := next_inode f + 1\<rparr>)"
  using assms by (simp add: create_new_def guarded_ok make_file_def Let_def)

text \<open>The file work of a roll: the rename, the metafile, the next open file.\<close>

definition rolled_over :: "path \<Rightarrow> nat \<Rightarrow> meta \<Rightarrow> nat \<Rightarrow> disk_file \<Rightarrow> fs \<Rightarrow> fs \<Rightarrow> bool" where
  "rolled_over dir i m t h f f' \<longleftrightarrow>
     faults f' = [] \<and> fs_wf f' \<and> is_dir f' dir \<and>
     lookup f' (dir @ [rolled_name m]) = Some i \<and> cached f' i = cached f i \<and> kept f' i = kept f i \<and>
     content f' (dir @ [rolled_stem m @ ''.meta'']) = Some (encode_meta m) \<and>
     lookup f' (dir @ [open_name t]) = Some (inode h) \<and> cursor h = 0 \<and> cached f' (inode h) = []"

lemma roll_files_ok:
  assumes f: "faults f = []" "fs_wf f" "is_dir f dir" "lookup f po = Some i" and room: "roll_room dir po f m u t"
  shows "\<exists>f1 f2 h f3. disk_rename po (dir @ [rolled_name m]) f = (Inr (), f1) \<and>
    write_meta_atomic (dir @ [rolled_stem m @ ''.meta'']) m u f1 = (Inr (), f2) \<and>
    create_new app (dir @ [open_name t]) f2 = (Inr h, f3) \<and> appends h = app \<and> rolled_over dir i m t h f f3"
proof -
  let ?fin = "dir @ [rolled_name m]" and ?met = "dir @ [rolled_stem m @ ''.meta'']" and ?new = "dir @ [open_name t]"
  have dir: "dir \<noteq> []" using f(2,3) by (auto simp: fs_wf_def)
  let ?f1 = "f\<lparr>names := link ?fin i (unlink po (names f))\<rparr>"
  have r: "disk_rename po ?fin f = (Inr (), ?f1)"
    using f room by (intro rename_ok) (simp_all add: has_parent_dir_def roll_room_def)
  have wf1: "fs_wf ?f1" using f room by (intro fs_wf_rename) (simp_all add: roll_room_def)
  let ?tmp = "meta_tmp ?met u"
  have pl: "stage_place ?tmp ?met ?met"
    using dir by (simp add: meta_tmp_eq stage_place_def parent_def parent_or_dot_def)
  have tmp: "\<not> disk_exists ?tmp ?f1"
    using room meta_tmp_distinct(1) [of _ m]
    by (auto simp: disk_exists_def roll_room_def meta_tmp_eq [OF dir] split: if_splits)
  obtain f2 where f2: "write_meta_atomic ?met m u ?f1 = (Inr (), f2)" "elsewhere_same ?tmp ?met ?f1 f2"
      "content f2 ?met = Some (encode_meta m)" "fs_wf f2"
    using created_write_ok [OF _ wf1 pl tmp] f dir room
    by (auto simp: write_meta_atomic_def parent_or_dot_def parent_def roll_room_def)
  have ne: "?fin \<noteq> ?met" "?fin \<noteq> ?tmp" "?new \<noteq> ?met" "?new \<noteq> ?tmp" "?fin \<noteq> ?new"
    using meta_names_distinct(1) [of m m] meta_names_distinct(2) [of m t] meta_tmp_distinct(1) [of _ m]
      meta_tmp_distinct(2) [of _ t] rolled_ne_open [of m t]
    by (simp_all add: meta_tmp_eq [OF dir] eq_commute)
  have same: "lookup f2 q = lookup ?f1 q" if "q \<noteq> ?met" "q \<noteq> ?tmp" for q
    using f2(2) that by (simp only: elsewhere_same_def) blast
  have "i < next_inode f" using f(2,4) by (auto simp: fs_wf_def)
  then have fin2: "lookup f2 ?fin = Some i" "cached f2 i = cached f i" "kept f2 i = kept f i"
    using same [OF ne(1,2)] f2(2) by (simp_all add: elsewhere_same_def)
  have "\<not> is_dir f2 ?new" using room f2(2) by (simp add: roll_room_def elsewhere_same_def is_dir_def)
  moreover have "lookup f2 ?new = None"
    using same [OF ne(3,4)] ne(5) room by (auto simp: roll_room_def)
  ultimately have new2: "\<not> disk_exists ?new f2" by (simp add: disk_exists_def)
  let ?f3 = "f2\<lparr>names := link ?new (next_inode f2) (names f2), cached := (cached f2)(next_inode f2 := []),
       kept := (kept f2)(next_inode f2 := []), next_inode := next_inode f2 + 1\<rparr>"
  let ?h = "\<lparr>inode = next_inode f2, cursor = 0, appends = app\<rparr>"
  have d2: "is_dir f2 dir" "faults f2 = []" using f f2(2) by (simp_all add: elsewhere_same_def is_dir_def)
  have c: "create_new app ?new f2 = (Inr ?h, ?f3)"
    using d2 new2 by (intro create_new_ok) (simp_all add: has_parent_dir_def)
  have wf3: "fs_wf ?f3"
    by (rule fs_wf_make_file [OF f2(4) _ new2]) (simp_all add: make_file_def Let_def)
  have lt: "lookup f2 p = Some k \<Longrightarrow> k < next_inode f2" for p k using f2(4) by (auto simp: fs_wf_def)
  obtain k where k: "lookup f2 ?met = Some k" "cached f2 k = encode_meta m"
    using f2(3) by (auto simp: content_def)
  have "lookup ?f3 q = (if q = ?new then Some (next_inode f2) else lookup f2 q)" for q by (simp add: lookup_def)
  then have "rolled_over dir i m t ?h f ?f3"
    using fin2 k lt [OF fin2(1)] lt [OF k(1)] ne d2 wf3 by (simp add: content_def rolled_over_def is_dir_def)
  with r f2(1) c show ?thesis by fastforce
qed

lemma journal_roll_moves:
  assumes h: "journal_holds j f evs" and w: "window_of evs = Some w"
    and room: "roll_room (j_dir j) (j_open_path j) f (window_meta w) u t"
  shows "\<exists>j' f'. journal_roll u t j f = (Inr j', f') \<and> journal_holds j' f' [] \<and>
    content f' (j_dir j @ [rolled_name (window_meta w)]) = Some (concat (map encode_event evs)) \<and>
    content f' (j_dir j @ [rolled_stem (window_meta w) @ ''.meta'']) = Some (encode_meta (window_meta w))"
proof -
  have f: "faults f = []" "fs_wf f" "is_dir f (j_dir j)" "lookup f (j_open_path j) = Some (inode (j_file j))"
    using h by (simp_all add: journal_holds_def)
  obtain h0 where h0: "placeholder (j_open_path j) f = (Inr h0, f)" using placeholder_ok [OF f(1,4)] by blast
  obtain f1 f2 h3 f3 where r: "disk_rename (j_open_path j) (j_dir j @ [rolled_name (window_meta w)]) f = (Inr (), f1)"
      "write_meta_atomic (j_dir j @ [rolled_stem (window_meta w) @ ''.meta'']) (window_meta w) u f1 = (Inr (), f2)"
      "create_new True (j_dir j @ [open_name t]) f2 = (Inr h3, f3)" "appends h3"
      "rolled_over (j_dir j) (inode (j_file j)) (window_meta w) t h3 f f3"
    using roll_files_ok [OF f room] by blast
  let ?j = "j\<lparr>j_started_ms := t, j_file := h3, j_open_path := j_dir j @ [open_name t], j_written := 0, j_window := None\<rparr>"
  have "journal_roll u t j f = (Inr ?j, f3)"
    using h w h0 r
    by (simp add: journal_roll_def journal_holds_def Let_def dbind_def dret_def meta_path_eq create_open_file_def
        create_new_append_def)
  moreover have "content f3 (j_dir j @ [rolled_name (window_meta w)]) = Some (concat (map encode_event evs))"
    "content f3 (j_dir j @ [rolled_stem (window_meta w) @ ''.meta'']) = Some (encode_meta (window_meta w))"
    "journal_holds ?j f3 []"
    using r(4,5) h by (simp_all add: content_def journal_holds_def rolled_over_def)
  ultimately show ?thesis by blast
qed

text \<open>
  An append that reaches the roll mark loses nothing. Every record of the file, the
  new one included, then reads back from the file under its final name; the metafile
  beside it decodes to the bounds and the count of exactly these records; and the journal
  goes on with a fresh, empty open file.
\<close>

theorem journal_append_rolls:
  assumes "journal_holds j f evs" and "event_wf e"
    and "j_roll_bytes j \<le> RECORD_SIZE * (length evs + 1)"
    and "window_of (evs @ [e]) = Some w" and "roll_room (j_dir j) (j_open_path j) f (window_meta w) u t"
  shows "\<exists>j' f'. journal_append u t e j f = (Inr j', f') \<and> journal_holds j' f' [] \<and>
    map_option parse_file (content f' (j_dir j @ [rolled_name (window_meta w)])) = Some (evs @ [e]) \<and>
    Option.bind (content f' (with_extension (j_dir j @ [rolled_name (window_meta w)]) ''meta'')) decode_meta =
      Some (window_meta w)"
proof -
  let ?i = "inode (j_file j)"
  let ?f1 = "write_at ?i (length (cached f ?i)) (encode_event e) f"
  let ?j1 = "j\<lparr>j_file := (j_file j)\<lparr>cursor := length (cached f ?i) + length (encode_event e)\<rparr>,
      j_window := window_add (j_window j) e, j_written := j_written j + RECORD_SIZE\<rparr>"
  note wr = journal_append_writes [OF assms(1,2)]
  have room: "roll_room (j_dir ?j1) (j_open_path ?j1) ?f1 (window_meta w) u t"
    using assms(5) by (simp add: roll_room_def disk_exists_def)
  obtain j' f' where jf: "journal_roll u t ?j1 ?f1 = (Inr j', f')" "journal_holds j' f' []"
      "content f' (j_dir j @ [rolled_name (window_meta w)]) = Some (concat (map encode_event (evs @ [e])))"
      "content f' (j_dir j @ [rolled_stem (window_meta w) @ ''.meta'']) = Some (encode_meta (window_meta w))"
    using journal_roll_moves [OF wr(2) assms(4) room] by auto
  have "j_roll_bytes j \<le> j_written ?j1" using assms(1,3) by (simp add: journal_holds_def)
  then have "journal_append u t e j f = (Inr j', f')" using wr(1) [of u t] jf(1) by simp
  moreover have "list_all event_wf (evs @ [e])" using assms(1,2) by (simp add: journal_holds_def)
  then have "parse_file (concat (map encode_event (evs @ [e]))) = evs @ [e]"
    using parse_file_encoded [of "evs @ [e]" "[]"] by (simp add: parse_file_short RECORD_SIZE_def)
  ultimately show ?thesis using jf(2-4) by (simp add: meta_path_eq encode_decode_meta)
qed

lemma demo_window: "window_of ([] @ [demo_event]) = Some (window_new demo_event)"
  by (simp add: window_of_def window_add_def)

lemma demo_open_name: "open_name 7 = ''ev-open-7.bin''"
  by code_simp

lemma demo_room: "roll_room (j_dir (demo_journal 61)) (j_open_path (demo_journal 61)) (demo_disk c) m 0 7"
  by (simp add: roll_room_def demo_journal_def demo_disk_def is_dir_def disk_exists_def lookup_def demo_open_name
      meta_tmp_def parent_or_dot_def parent_def file_name_def)

theorem journal_append_rolls_witness:
  "\<exists>j' f'. journal_append 0 7 demo_event (demo_journal 61) (demo_disk []) = (Inr j', f') \<and>
     map_option parse_file (content f' [''/'', ''j'', rolled_name (window_meta (window_new demo_event))]) = Some [demo_event]"
  using journal_append_rolls [OF demo_holds demo_event_wf _ demo_window demo_room]
  by (auto simp: demo_journal_def RECORD_SIZE_def)

section \<open>Resuming after a crash\<close>

text \<open>A directory whose listing offers this open file with these bytes.\<close>

definition resumable :: "fs \<Rightarrow> path \<Rightarrow> path \<Rightarrow> bytes \<Rightarrow> bool" where
  "resumable f dir p c \<longleftrightarrow>
     faults f = [] \<and> fs_wf f \<and> list_all (is_dir f) (ancestors dir) \<and> is_dir f dir \<and>
     find (\<lambda>q. is_open_name (file_name q)) (filter (\<lambda>q. parent q = Some dir) (map fst (names f) @ dirs f)) = Some p \<and>
     content f p = Some c"

lemma create_dir_all_present:
  assumes "faults f = []" and "fs_wf f" and "list_all (is_dir f) (ancestors dir)"
  shows "create_dir_all dir f = (Inr (), f)"
proof -
  have "\<not> list_ex (\<lambda>q. lookup f q \<noteq> None) (ancestors dir)"
    using assms(2,3) by (auto simp: fs_wf_def list_all_iff list_ex_iff)
  moreover have "filter (\<lambda>q. \<not> is_dir f q) (ancestors dir) = []"
    using assms(3) by (auto simp: list_all_iff filter_empty_conv)
  ultimately show ?thesis using assms(1) by (simp add: create_dir_all_def guarded_ok del: ancestors.simps)
qed

lemma journal_open_resumes:
  assumes "resumable f dir p c" and "RECORD_SIZE * length (parse_file c) \<le> roll"
  shows "\<exists>j. journal_open_on dir roll now f = (Inr j, f) \<and> j_open_path j = p \<and> j_dir j = dir \<and>
    j_roll_bytes j = roll \<and> appends (j_file j) \<and> lookup f p = Some (inode (j_file j)) \<and>
    j_window j = window_of (parse_file c) \<and> j_written j = RECORD_SIZE * length (parse_file c)"
proof -
  have f: "faults f = []" "fs_wf f" "list_all (is_dir f) (ancestors dir)" "is_dir f dir"
    and p: "find (\<lambda>q. is_open_name (file_name q)) (filter (\<lambda>q. parent q = Some dir) (map fst (names f) @ dirs f)) = Some p"
    using assms(1) by (simp_all add: resumable_def)
  obtain i where i: "lookup f p = Some i" "cached f i = c"
    using assms(1) by (auto simp: resumable_def content_def)
  have "find_open_file_on dir f = (Inr (Some p), f)"
    using f p by (simp add: find_open_file_on_def read_dir_def guarded_ok dbind_def dret_def)
  moreover have "open_read_append p f = (Inr \<lparr>inode = i, cursor = 0, appends = True\<rparr>, f)"
    using f i by (simp add: open_read_append_def open_existing_def guarded_ok)
  moreover obtain h' where "journal_scan roll 0 None \<lparr>inode = i, cursor = 0, appends = True\<rparr> f =
      (Inr (RECORD_SIZE * length (parse_file c), window_of (parse_file c), h'), f)" "inode h' = i" "appends h'"
    using journal_scan_finds [OF f(1), of "\<lparr>inode = i, cursor = 0, appends = True\<rparr>" c 0 roll None] i assms(2)
    by (auto simp: window_of_def)
  moreover have "create_dir_all dir f = (Inr (), f)" using create_dir_all_present f by blast
  ultimately show ?thesis
    using f i by (simp add: journal_open_on_def dbind_def dret_def seek_end_def guarded_ok)
qed

primrec journal_append_all :: "(nat \<times> nat \<times> journal_event) list \<Rightarrow> journal \<Rightarrow> journal disk" where
  "journal_append_all [] j = dret j"
| "journal_append_all (x # xs) j =
     (case x of (u, t, e) \<Rightarrow> dbind (journal_append u t e j) (journal_append_all xs))"

lemma journal_append_all_grows:
  assumes "faults f = []" and "appends (j_file j)" and "list_all event_wf (map (\<lambda>x. snd (snd x)) xs)"
    and "j_written j + RECORD_SIZE * length xs < j_roll_bytes j"
    and "lookup f (j_open_path j) = Some (inode (j_file j))"
  shows "\<exists>j' f'. journal_append_all xs j f = (Inr j', f') \<and>
    content f' (j_open_path j) =
      Some (cached f (inode (j_file j)) @ concat (map (\<lambda>x. encode_event (snd (snd x))) xs))"
  using assms
proof (induction xs arbitrary: j f)
  case Nil
  then show ?case by (simp add: dret_def content_def)
next
  case (Cons x xs)
  obtain u t e where x: "x = (u, t, e)" by (cases x)
  let ?i = "inode (j_file j)"
  let ?f = "write_at ?i (length (cached f ?i)) (encode_event e) f"
  let ?j = "j\<lparr>j_file := (j_file j)\<lparr>cursor := length (cached f ?i) + length (encode_event e)\<rparr>,
      j_window := window_add (j_window j) e, j_written := j_written j + RECORD_SIZE\<rparr>"
  have "journal_append u t e j f = (Inr ?j, ?f)"
    using Cons.prems
    by (simp add: journal_append_def write_all_ok dbind_def Let_def file_flush_def guarded_ok dret_def)
  moreover have "\<exists>j' f'. journal_append_all xs ?j ?f = (Inr j', f') \<and>
    content f' (j_open_path ?j) =
      Some (cached ?f (inode (j_file ?j)) @ concat (map (\<lambda>x. encode_event (snd (snd x))) xs))"
    using Cons.prems by (intro Cons.IH) simp_all
  ultimately show ?case using x by (simp add: dbind_def)
qed

text \<open>
  C10: a torn tail is not cut off when the journal resumes. When a crash left one to three
  bytes of a record at the end of the open file, then after the resume every record up to the next
  roll of the file (as long as the well-formed records before the crash and those appended stay below the roll size, on a disk without faults) is
  appended behind them and none of these reads back: the file keeps reading as the records from
  before the crash.
\<close>

theorem journal_torn_tail_hides_appends:
  assumes "resumable f dir p (concat (map encode_event evs) @ take k (encode_event e0))"
    and "list_all event_wf evs" and "0 < k" and "k < 4"
    and "list_all event_wf (map (\<lambda>x. snd (snd x)) later)"
    and "RECORD_SIZE * (length evs + length later) < roll"
  shows "\<exists>j j' f'. journal_open_on dir roll now f = (Inr j, f) \<and>
    journal_append_all later j f = (Inr j', f') \<and>
    map_option parse_file (content f' p) = Some evs"
proof -
  let ?rest = "take k (encode_event e0) @ concat (map (\<lambda>x. encode_event (snd (snd x))) later)"
  have t: "take k (encode_event e0) = take k RECORD_MAGIC"
    using assms(4) by (simp add: encode_event_def)
  have "k = 1 \<or> k = 2 \<or> k = 3" using assms(3,4) by linarith
  then have "slice 0 4 ?rest \<noteq> RECORD_MAGIC" "k < RECORD_SIZE"
    by (cases later; auto simp: t slice_def RECORD_MAGIC_def encode_event_def RECORD_SIZE_def)+
  then have "parse_record ?rest = None" by (simp add: parse_record_payload)
  then have "parse_file ?rest = []" by (subst parse_file_unfold) simp
  then have tail: "parse_file (concat (map encode_event evs) @ ?rest) = evs"
    using assms(2) by (simp add: parse_file_encoded)
  have "parse_file (take k (encode_event e0)) = []"
    using \<open>k < RECORD_SIZE\<close> by (simp add: parse_file_short)
  then have pre: "parse_file (concat (map encode_event evs) @ take k (encode_event e0)) = evs"
    using assms(2) by (simp add: parse_file_encoded)
  have fits: "RECORD_SIZE * length evs \<le> roll" using assms(6) by (simp add: distrib_left)
  obtain j where j: "journal_open_on dir roll now f = (Inr j, f)" "j_open_path j = p" "j_roll_bytes j = roll"
      "appends (j_file j)" "lookup f p = Some (inode (j_file j))" "j_written j = RECORD_SIZE * length evs"
    using journal_open_resumes [OF assms(1), of roll now] fits pre by auto
  have f: "faults f = []" and c: "cached f (inode (j_file j)) = concat (map encode_event evs) @ take k (encode_event e0)"
    using assms(1) j(5) by (simp_all add: resumable_def content_def)
  obtain j' f' where "journal_append_all later j f = (Inr j', f')" and
    "content f' p = Some (concat (map encode_event evs) @ ?rest)"
    using journal_append_all_grows [OF f j(4) assms(5)] j assms(6) c
    by (auto simp: distrib_left)
  with j(1) tail show ?thesis by auto
qed

lemma demo_resumable: "resumable (demo_disk c) [''/'', ''j''] [''/'', ''j'', ''ev-open-7.bin''] c"
proof -
  have "fs_wf (demo_disk c)" by (auto simp: demo_disk_def fs_wf_def lookup_def is_dir_def split: if_splits)
  moreover have "is_open_name ''ev-open-7.bin''"
    by (simp add: is_open_name_def starts_with_def ends_with_def strip_suffix_def strip_prefix_def)
  ultimately show ?thesis
    by (simp add: resumable_def demo_disk_def is_dir_def content_def lookup_def parent_def file_name_def)
qed

theorem journal_torn_tail_hides_appends_witness:
  "\<exists>j j' f'. journal_open_on [''/'', ''j''] 1000 0 (demo_disk (encode_event demo_event @ take 2 (encode_event demo_event))) =
       (Inr j, demo_disk (encode_event demo_event @ take 2 (encode_event demo_event))) \<and>
     journal_append_all [(0, 0, demo_event)] j (demo_disk (encode_event demo_event @ take 2 (encode_event demo_event))) = (Inr j', f') \<and>
     map_option parse_file (content f' [''/'', ''j'', ''ev-open-7.bin'']) = Some [demo_event]"
  by (rule journal_torn_tail_hides_appends [where ?e0.0 = demo_event and k = 2])
    (simp_all add: demo_resumable demo_event_wf RECORD_SIZE_def)

end
