(* ===== verification/Aof_Props.thy ===== *)
theory Aof_Props
  imports Aof_Writer Journal_File_Props
begin

text \<open>
  What the write-behind log promises: a resume cuts the torn tail off, a rolled file is one
  whole erasure block of readable, synced records, and an answered drain means that every
  event queued before it is on the medium, whatever operation of the disk fails.
\<close>

section \<open>Bytes that read as records\<close>

text \<open>Whole records: whatever follows, these events read back first.\<close>

definition reads_as :: "bytes \<Rightarrow> journal_event list \<Rightarrow> bool" where
  "reads_as b evs \<longleftrightarrow> length b = RECORD_SIZE * length evs \<and> (\<forall>x. parse_file (b @ x) = evs @ parse_file x)"

lemma reads_as_Nil [simp]: "reads_as [] []"
  by (simp add: reads_as_def)

lemma reads_as_append: "reads_as a xs \<Longrightarrow> reads_as b ys \<Longrightarrow> reads_as (a @ b) (xs @ ys)"
  by (simp add: reads_as_def distrib_left)

lemma reads_as_event: "event_wf e \<Longrightarrow> reads_as (encode_event e) [e]"
  using parse_file_encoded [of "[e]"] by (simp add: reads_as_def event_wf_def length_encode_event)

lemma reads_as_parse: "reads_as b evs \<Longrightarrow> parse_file b = evs"
  using parse_file_short [of "[]"] by (auto simp: reads_as_def RECORD_SIZE_def dest: spec [where x = "[]"])

lemma reads_as_prefix: "reads_as (take (RECORD_SIZE * length (parse_file c)) c) (parse_file c)"
proof (induction "length c" arbitrary: c rule: less_induct)
  case less
  show ?case
  proof (cases "parse_record c")
    case None
    then have "parse_file c = []" by (subst parse_file_unfold) simp
    then show ?thesis by simp
  next
    case (Some en)
    then obtain e where e: "parse_record c = Some (e, RECORD_SIZE)" and len: "RECORD_SIZE \<le> length c"
      using parse_record_consumes [of c "fst en" "snd en"] by (cases en) auto
    let ?d = "drop RECORD_SIZE c"
    have pf: "parse_file c = e # parse_file ?d" using e by (subst parse_file_unfold) simp
    have "parse_record (take RECORD_SIZE c @ x) = Some (e, RECORD_SIZE)" for x
      using e len parse_record_take [of "take RECORD_SIZE c @ x"] parse_record_take [of c] by simp
    then have "reads_as (take RECORD_SIZE c) [e]"
      using len by (auto simp: reads_as_def parse_file_unfold [of "take RECORD_SIZE c @ _"])
    moreover have "reads_as (take (RECORD_SIZE * length (parse_file ?d)) ?d) (parse_file ?d)"
      using len by (intro less.hyps) (simp add: RECORD_SIZE_def)
    moreover have "take (RECORD_SIZE + n) c = take RECORD_SIZE c @ take n ?d" for n by (rule take_add)
    ultimately show ?thesis using reads_as_append [of "take RECORD_SIZE c" "[e]"] by (simp add: pf)
  qed
qed

lemma parse_file_pad: "parse_file (replicate n 0) = []"
proof -
  have "parse_record (replicate n 0) = None"
    by (auto simp: parse_record_payload slice_def RECORD_MAGIC_def RECORD_SIZE_def dest: arg_cong [where f = hd])
  then show ?thesis by (subst parse_file_unfold) simp
qed

section \<open>The invariant of the writer\<close>

text \<open>The file together with the buffer is exactly the events taken since the last roll.\<close>

definition aof_holds :: "aof_core \<Rightarrow> fs \<Rightarrow> journal_event list \<Rightarrow> bool" where
  "aof_holds c f evs \<longleftrightarrow>
     reads_as (cached f (inode (sk_file (a_sink c))) @ a_buf c) evs \<and>
     sk_offset (a_sink c) = length (cached f (inode (sk_file (a_sink c)))) \<and>
     a_window c = window_of evs \<and> a_written c = RECORD_SIZE * length evs"

abbreviation aof_inode :: "aof_core \<Rightarrow> nat" where
  "aof_inode c \<equiv> inode (sk_file (a_sink c))"

lemma sink_write_Inr:
  assumes "sink_write_all s bs f = (Inr s', f')"
  shows "s' = s\<lparr>sk_offset := sk_offset s + length bs\<rparr>"
    and "f' = write_at (inode (sk_file s)) (sk_offset s) bs (take_fault f)"
  using assms
  by (auto simp: sink_write_all_def dbind_def dret_def write_all_at_def split: fault.splits)

lemma aof_flush_buf_holds:
  assumes "aof_flush_buf c f = (Inr c', f')" and "aof_holds c f evs"
  shows "aof_holds c' f' evs \<and> a_buf c' = [] \<and> aof_inode c' = aof_inode c \<and> a_syncs c' = a_syncs c"
proof (cases "a_buf c = []")
  case True
  then show ?thesis using assms by (simp add: aof_flush_buf_def dret_def)
next
  case False
  then obtain s where s: "sink_write_all (a_sink c) (a_buf c) f = (Inr s, f')" and c': "c' = c\<lparr>a_sink := s, a_buf := []\<rparr>"
    using assms(1) by (auto simp: aof_flush_buf_def dbind_def dret_def split: prod.splits sum.splits)
  show ?thesis using assms(2) sink_write_Inr [OF s] c' by (simp add: aof_holds_def)
qed

lemma aof_checkpoint_holds:
  assumes "aof_checkpoint c f = (Inr c', f')" and "aof_holds c f evs"
  shows "aof_holds c' f' evs \<and> a_buf c' = [] \<and> aof_inode c' = aof_inode c \<and>
    kept f' (aof_inode c) = cached f' (aof_inode c)"
proof -
  obtain c1 f1 where c1: "aof_flush_buf c f = (Inr c1, f1)" "sync_all (sk_file (a_sink c1)) f1 = (Inr (), f')"
      "c' = c1\<lparr>a_syncs := a_syncs c1 + 1\<rparr>"
    using assms(1)
    by (auto simp: aof_checkpoint_def dbind_def dret_def sink_sync_def split: prod.splits sum.splits)
  with aof_flush_buf_holds [OF c1(1) assms(2)] sync_all_Inr [OF c1(2)] show ?thesis
    by (auto simp: aof_holds_def)
qed

lemma aof_push_holds:
  "aof_holds c f evs \<Longrightarrow> event_wf e \<Longrightarrow> aof_holds (aof_push e c) f (evs @ [e])"
  using reads_as_append [of "cached f (aof_inode c) @ a_buf c" evs "encode_event e" "[e]"] reads_as_event [of e]
  by (simp add: aof_holds_def aof_push_def window_of_snoc)

text \<open>No whole number of records is exactly the roll size.\<close>

lemma records_miss_roll: "RECORD_SIZE * n \<noteq> ROLL_BYTES"
proof
  assume "RECORD_SIZE * n = ROLL_BYTES"
  then have "ROLL_BYTES mod RECORD_SIZE = 0" by (metis mod_mult_self1_is_0)
  then show False by (simp add: ROLL_BYTES_def RECORD_SIZE_def)
qed

lemma aof_append_holds:
  assumes "aof_append u t e c f = (Inr c', f')" and "aof_holds c f evs" and "event_wf e"
    and "RECORD_SIZE * (length evs + 1) \<le> ROLL_BYTES"
  shows "aof_holds c' f' (evs @ [e]) \<and> aof_inode c' = aof_inode c"
proof -
  let ?c = "aof_push e c"
  have h: "aof_holds ?c f (evs @ [e])" using assms(2,3) by (rule aof_push_holds)
  have noroll: "\<not> a_written c + RECORD_SIZE > ROLL_BYTES" using assms(2,4) by (simp add: aof_holds_def)
  have i: "aof_inode ?c = aof_inode c" by (simp add: aof_push_def)
  have dead: "a_written x \<noteq> ROLL_BYTES" if "aof_holds x g ys" for x g ys
    using that records_miss_roll by (simp add: aof_holds_def)
  show ?thesis
  proof (cases "length (a_buf ?c) \<ge> a_flush_bytes ?c")
    case False
    then show ?thesis using assms(1) noroll dead [OF h] h i
      by (simp add: aof_append_def Let_def dbind_def dret_def split: if_splits)
  next
    case True
    then obtain c1 f1 where c1: "aof_flush_buf ?c f = (Inr c1, f1)"
      using assms(1) noroll by (auto simp: aof_append_def Let_def dbind_def dret_def split: prod.splits sum.splits)
    with aof_flush_buf_holds [OF c1 h] dead [of c1 f1] assms(1) noroll True i show ?thesis
      by (auto simp: aof_append_def Let_def dbind_def dret_def split: if_splits)
  qed
qed

section \<open>The writer thread\<close>

type_synonym turn_input = "nat \<times> nat \<times> nat \<times> received"

text \<open>The loop over what it receives: the answers given to the drains, and how it stands.\<close>

primrec pump_run ::
  "nat option \<Rightarrow> turn_input list \<Rightarrow> pump_state \<Rightarrow> fs \<Rightarrow> pump_turn \<times> (nat \<times> unit io) list \<times> fs" where
  "pump_run interval [] p f = (Goes p, [], f)"
| "pump_run interval (x # xs) p f =
     (case x of (unique, now_ms, at, r) \<Rightarrow>
        case pump_turn_of interval unique now_ms at r p f of
          (Goes p', answers, f') \<Rightarrow>
            (case pump_run interval xs p' f' of (t, answers', f'') \<Rightarrow> (t, answers @ answers', f''))
        | (t, answers, f') \<Rightarrow> (t, answers, f'))"

fun event_of :: "received \<Rightarrow> journal_event list" where
  "event_of (Got (Event e)) = [e]"
| "event_of _ = []"

definition queued_events :: "turn_input list \<Rightarrow> journal_event list" where
  "queued_events xs = concat (map (\<lambda>(_, _, _, r). event_of r) xs)"

lemma queued_events_Cons [simp]: "queued_events ((u, t, a, r) # xs) = event_of r @ queued_events xs"
  by (simp add: queued_events_def)

lemma pump_flush_Goes:
  assumes "pump_flush at p f = (Goes p', f')" and "aof_holds (p_core p) f evs"
  shows "aof_holds (p_core p') f' evs \<and> aof_inode (p_core p') = aof_inode (p_core p)"
  using assms aof_flush_buf_holds [of "p_core p" f _ _ evs]
  by (auto simp: pump_flush_def aof_flush_def split: if_splits prod.splits sum.splits)

lemma pump_sync_Goes:
  assumes "pump_sync interval at p f = (Goes p', f')" and "aof_holds (p_core p) f evs"
  shows "aof_holds (p_core p') f' evs \<and> aof_inode (p_core p') = aof_inode (p_core p)"
  using assms aof_checkpoint_holds [of "p_core p" f _ _ evs]
  by (auto simp: pump_sync_def split: if_splits prod.splits sum.splits option.splits)

lemma pump_receive_Goes:
  assumes "pump_receive u t at m p f = (Goes p', ans, f')" and "aof_holds (p_core p) f evs"
    and "list_all event_wf (event_of (Got m))"
    and "RECORD_SIZE * (length evs + length (event_of (Got m))) \<le> ROLL_BYTES"
  shows "aof_holds (p_core p') f' (evs @ event_of (Got m)) \<and> aof_inode (p_core p') = aof_inode (p_core p)"
  using assms aof_checkpoint_holds [of "p_core p" f _ _ evs] aof_append_holds [of u t _ "p_core p" f _ _ evs]
  by (cases m) (auto simp: pump_receive_def split: prod.splits sum.splits)

lemma pump_turn_Goes:
  assumes "pump_turn_of interval u t at r p f = (Goes p', ans, f')" and "aof_holds (p_core p) f evs"
    and "list_all event_wf (event_of r)" and "RECORD_SIZE * (length evs + length (event_of r)) \<le> ROLL_BYTES"
  shows "aof_holds (p_core p') f' (evs @ event_of r) \<and> aof_inode (p_core p') = aof_inode (p_core p)"
proof -
  have r: "r \<noteq> Hangup" using assms(1) by (auto simp: pump_turn_of_def split: prod.splits sum.splits)
  let ?first = "case r of Got m \<Rightarrow> pump_receive u t at m p f | _ \<Rightarrow> (Goes p, [], f)"
  obtain p1 a1 f1 p2 f2 where 1: "?first = (Goes p1, a1, f1)" and 2: "pump_flush at p1 f1 = (Goes p2, f2)"
    and 3: "pump_sync interval at p2 f2 = (Goes p', f')"
    using assms(1) r
    by (cases r) (auto simp: pump_turn_of_def split: prod.splits pump_turn.splits)
  have "aof_holds (p_core p1) f1 (evs @ event_of r) \<and> aof_inode (p_core p1) = aof_inode (p_core p)"
    using 1 r assms(2-4) pump_receive_Goes [of u t at _ p f p1 a1 f1 evs] by (cases r) auto
  with pump_flush_Goes [OF 2] pump_sync_Goes [OF 3] show ?thesis by metis
qed

text \<open>Nothing the loop does after a drain takes the synced bytes back.\<close>

lemma pump_flush_keeps: "pump_flush at p f = (t, f') \<Longrightarrow> a_buf (p_core p) = [] \<Longrightarrow>
    f' = f \<and> (\<exists>p'. t = Goes p' \<and> p_core p' = p_core p)"
  by (auto simp: pump_flush_def aof_flush_def aof_flush_buf_def dret_def split: if_splits)

lemma aof_checkpoint_keeps:
  assumes "aof_checkpoint c f = (r, f')" and "a_buf c = []" and "kept f (aof_inode c) = cached f (aof_inode c)"
  shows "kept f' (aof_inode c) = kept f (aof_inode c)"
  using assms by (auto simp: aof_checkpoint_def aof_flush_buf_def dbind_def dret_def sink_sync_def sync_all_def
      guarded_def split: fault.splits)

lemma drain_turn:
  assumes "pump_turn_of interval u t at (Got (Drain n)) p f = (turn, ans, f')" and "aof_holds (p_core p) f evs"
    and "(n, Inr ()) \<in> set ans"
  shows "parse_file (kept f' (aof_inode (p_core p))) = evs"
proof -
  obtain c f1 where c: "aof_checkpoint (p_core p) f = (Inr c, f1)"
    using assms(1,3)
    by (cases "aof_checkpoint (p_core p) f"; cases "fst (aof_checkpoint (p_core p) f)")
      (auto simp: pump_turn_of_def pump_receive_def Let_def)
  let ?p = "p\<lparr>p_core := c\<rparr>"
  have h: "aof_holds c f1 evs" "a_buf c = []" "aof_inode c = aof_inode (p_core p)"
      "kept f1 (aof_inode c) = cached f1 (aof_inode c)"
    using aof_checkpoint_holds [OF c assms(2)] by simp_all
  obtain t2 f2 where 2: "pump_flush at ?p f1 = (t2, f2)" by fastforce
  obtain p2 where p2: "t2 = Goes p2" "p_core p2 = c" "f2 = f1"
    using pump_flush_keeps [OF 2] h(2) by auto
  have last: "pump_sync interval at p2 f1 = (turn, f')"
    using assms(1) c 2 p2 by (auto simp: pump_turn_of_def pump_receive_def split: prod.splits)
  have "kept f' (aof_inode c) = kept f1 (aof_inode c)"
    using last aof_checkpoint_keeps [OF _ h(2,4)] p2
    by (auto simp: pump_sync_def split: option.splits if_splits prod.splits sum.splits)
  moreover have "parse_file (cached f1 (aof_inode c)) = evs"
    using h(1,2) reads_as_parse by (simp add: aof_holds_def)
  ultimately show ?thesis using h(3,4) by simp
qed

fun drains :: "turn_input list \<Rightarrow> nat set" where
  "drains [] = {}"
| "drains ((_, _, _, Got (Drain n)) # xs) = insert n (drains xs)"
| "drains (_ # xs) = drains xs"

lemma pump_turn_answers:
  "pump_turn_of interval u t at r p f = (turn, ans, f') \<Longrightarrow> fst ` set ans \<subseteq> drains [(u, t, at, r)]"
  by (cases r; cases "case r of Got m \<Rightarrow> m")
    (auto simp: pump_turn_of_def pump_receive_def Let_def split: prod.splits sum.splits pump_turn.splits)

text \<open>
  C11: an answered drain means durable, up to the next roll. Whatever the writer thread received before (events,
  checkpoints, other drains, timeouts), as long as the events of the file and the well-formed ones queued fit the roll size, and whichever
  disk operation fails at whatever point,
  if a drain request of its own identity, none of the drains received before it, is answered with success then the bytes on the medium of the open
  file read back as all the events of the file followed by every event queued before the
  drain, in order.
\<close>

theorem drain_makes_durable:
  assumes "aof_holds (p_core p) f evs" and "list_all event_wf (queued_events xs)"
    and "RECORD_SIZE * (length evs + length (queued_events xs)) \<le> ROLL_BYTES"
    and "pump_run interval (xs @ [(u, t, at, Got (Drain n))]) p f = (turn, answers, f')"
    and "n \<notin> drains xs" and "(n, Inr ()) \<in> set answers"
  shows "parse_file (kept f' (aof_inode (p_core p))) = evs @ queued_events xs"
  using assms
proof (induction xs arbitrary: p f evs answers turn)
  case Nil
  then obtain turn1 ans1 where "pump_turn_of interval u t at (Got (Drain n)) p f = (turn1, ans1, f')"
      "(n, Inr ()) \<in> set ans1"
    by (auto split: prod.splits pump_turn.splits)
  from drain_turn [OF this(1) Nil.prems(1) this(2)] show ?case by (simp add: queued_events_def)
next
  case (Cons x xs)
  obtain u1 t1 at1 r where x: "x = (u1, t1, at1, r)" by (cases x)
  obtain turn1 ans1 f1 where 1: "pump_turn_of interval u1 t1 at1 r p f = (turn1, ans1, f1)"
    by (cases "pump_turn_of interval u1 t1 at1 r p f")
  have nd: "n \<notin> drains xs" "n \<notin> drains [(u1, t1, at1, r)]"
    using Cons.prems(5) x by (cases r; cases "case r of Got m \<Rightarrow> m"; auto)+
  have out: "(n, Inr ()) \<notin> set ans1" using pump_turn_answers [OF 1] nd(2) by force
  then obtain p1 where p1: "turn1 = Goes p1" using Cons.prems(4,6) 1 x by (cases turn1) auto
  obtain turn2 ans2 where 2: "pump_run interval (xs @ [(u, t, at, Got (Drain n))]) p1 f1 = (turn2, ans2, f')"
      "answers = ans1 @ ans2"
    using Cons.prems(4) 1 x p1 by (auto split: prod.splits)
  have wf: "list_all event_wf (event_of r)" "list_all event_wf (queued_events xs)" using Cons.prems(2) x by simp_all
  have len: "RECORD_SIZE * (length evs + length (event_of r)) \<le> ROLL_BYTES"
    and len': "RECORD_SIZE * (length (evs @ event_of r) + length (queued_events xs)) \<le> ROLL_BYTES"
    using Cons.prems(3) x by (simp_all add: distrib_left)
  have h: "aof_holds (p_core p1) f1 (evs @ event_of r)" "aof_inode (p_core p1) = aof_inode (p_core p)"
    using pump_turn_Goes [OF 1 [unfolded p1] Cons.prems(1) wf(1) len] by simp_all
  have "(n, Inr ()) \<in> set ans2" using Cons.prems(6) 2(2) out by simp
  from Cons.IH [OF h(1) wf(2) len' 2(1) nd(1) this] h(2) show ?case by (simp add: x)
qed

section \<open>A disk without faults\<close>

lemma aof_flush_buf_ok:
  assumes "faults f = []"
  shows "aof_flush_buf c f =
    (if a_buf c = [] then (Inr c, f)
     else (Inr (c\<lparr>a_sink := (a_sink c)\<lparr>sk_offset := sk_offset (a_sink c) + length (a_buf c)\<rparr>, a_buf := []\<rparr>),
           write_at (aof_inode c) (sk_offset (a_sink c)) (a_buf c) f))"
  using assms
  by (simp add: aof_flush_buf_def sink_write_all_def dbind_def dret_def write_all_at_def next_fault_def take_fault_ok)

lemma aof_checkpoint_ok:
  assumes "faults f = []"
  shows "\<exists>c' f'. aof_checkpoint c f = (Inr c', f') \<and> faults f' = [] \<and> names f' = names f"
  using assms
  by (auto simp: aof_checkpoint_def aof_flush_buf_ok dbind_def dret_def sink_sync_def sync_all_ok)

lemma aof_append_ok:
  assumes "faults f = []" and "aof_holds c f evs" and "event_wf e"
    and "RECORD_SIZE * (length evs + 1) \<le> ROLL_BYTES"
  shows "\<exists>c' f'. aof_append u t e c f = (Inr c', f') \<and> faults f' = [] \<and> names f' = names f"
proof -
  have "a_written (aof_push e c) \<noteq> ROLL_BYTES"
    using aof_push_holds [OF assms(2,3)] records_miss_roll [of "Suc (length evs)"] by (simp add: aof_holds_def)
  moreover have "\<not> a_written c + RECORD_SIZE > ROLL_BYTES" using assms(2,4) by (simp add: aof_holds_def)
  ultimately show ?thesis
    using assms(1) by (simp add: aof_append_def dbind_def dret_def Let_def aof_flush_buf_ok)
qed

primrec aof_append_all :: "(nat \<times> nat \<times> journal_event) list \<Rightarrow> aof_core \<Rightarrow> aof_core disk" where
  "aof_append_all [] c = dret c"
| "aof_append_all (x # xs) c = (case x of (u, t, e) \<Rightarrow> dbind (aof_append u t e c) (aof_append_all xs))"

lemma aof_append_all_ok:
  assumes "faults f = []" and "aof_holds c f evs" and "list_all event_wf (map (\<lambda>x. snd (snd x)) xs)"
    and "RECORD_SIZE * (length evs + length xs) \<le> ROLL_BYTES"
  shows "\<exists>c' f'. aof_append_all xs c f = (Inr c', f') \<and> faults f' = [] \<and> names f' = names f \<and>
    aof_holds c' f' (evs @ map (\<lambda>x. snd (snd x)) xs) \<and> aof_inode c' = aof_inode c"
  using assms
proof (induction xs arbitrary: c f evs)
  case Nil
  then show ?case by (simp add: dret_def)
next
  case (Cons x xs)
  obtain u t e where x: "x = (u, t, e)" by (cases x)
  have e: "event_wf e" "RECORD_SIZE * (length evs + 1) \<le> ROLL_BYTES"
    and later: "RECORD_SIZE * (length (evs @ [e]) + length xs) \<le> ROLL_BYTES"
    using Cons.prems(3,4) x by (simp_all add: distrib_left)
  obtain c1 f1 where 1: "aof_append u t e c f = (Inr c1, f1)" "faults f1 = []" "names f1 = names f"
    using aof_append_ok [OF Cons.prems(1,2) e] by blast
  have h: "aof_holds c1 f1 (evs @ [e])" "aof_inode c1 = aof_inode c"
    using aof_append_holds [OF 1(1) Cons.prems(2) e] by simp_all
  from Cons.IH [OF 1(2) h(1) _ later] Cons.prems(3) x 1 h(2) show ?case
    by (auto simp: dbind_def)
qed

lemma pump_flush_ok:
  "faults f = [] \<Longrightarrow> \<exists>p' f'. pump_flush at p f = (Goes p', f') \<and> faults f' = []"
  by (simp add: pump_flush_def aof_flush_def aof_flush_buf_ok)

lemma pump_sync_ok:
  assumes "faults f = []"
  shows "\<exists>p' f'. pump_sync interval at p f = (Goes p', f') \<and> faults f' = []"
proof -
  obtain c' f' where "aof_checkpoint (p_core p) f = (Inr c', f')" "faults f' = []"
    using aof_checkpoint_ok [OF assms] by blast
  with assms show ?thesis by (auto simp: pump_sync_def split: option.splits)
qed

lemma pump_receive_ok:
  assumes "faults f = []" and "aof_holds (p_core p) f evs" and "list_all event_wf (event_of (Got m))"
    and "RECORD_SIZE * (length evs + length (event_of (Got m))) \<le> ROLL_BYTES"
  shows "\<exists>p' ans f'. pump_receive u t at m p f = (Goes p', ans, f') \<and> faults f' = [] \<and>
    (\<forall>n. m = Drain n \<longrightarrow> (n, Inr ()) \<in> set ans)"
proof (cases m)
  case (Event e)
  then show ?thesis using aof_append_ok [OF assms(1,2), of e u t] assms(3,4) by (auto simp: pump_receive_def)
next
  case Checkpoint
  then show ?thesis using aof_checkpoint_ok [OF assms(1), of "p_core p"] by (auto simp: pump_receive_def)
next
  case (Drain n)
  then show ?thesis using aof_checkpoint_ok [OF assms(1), of "p_core p"] by (auto simp: pump_receive_def)
qed

lemma pump_turn_ok:
  assumes "faults f = []" and "aof_holds (p_core p) f evs" and "list_all event_wf (event_of r)"
    and "RECORD_SIZE * (length evs + length (event_of r)) \<le> ROLL_BYTES" and "r \<noteq> Hangup"
  shows "\<exists>p' ans f'. pump_turn_of interval u t at r p f = (Goes p', ans, f') \<and> faults f' = [] \<and>
    (\<forall>n. r = Got (Drain n) \<longrightarrow> (n, Inr ()) \<in> set ans)"
proof -
  let ?first = "case r of Got m \<Rightarrow> pump_receive u t at m p f | _ \<Rightarrow> (Goes p, [], f)"
  have "\<exists>p1 ans f1. ?first = (Goes p1, ans, f1) \<and> faults f1 = [] \<and> (\<forall>n. r = Got (Drain n) \<longrightarrow> (n, Inr ()) \<in> set ans)"
    using pump_receive_ok [OF assms(1,2)] assms by (cases r) auto
  then obtain p1 ans f1 where 1: "?first = (Goes p1, ans, f1)" "faults f1 = []"
      "\<forall>n. r = Got (Drain n) \<longrightarrow> (n, Inr ()) \<in> set ans" by blast
  obtain p2 f2 where 2: "pump_flush at p1 f1 = (Goes p2, f2)" "faults f2 = []" using pump_flush_ok [OF 1(2)] by blast
  obtain p3 f3 where 3: "pump_sync interval at p2 f2 = (Goes p3, f3)" "faults f3 = []" using pump_sync_ok [OF 2(2)] by blast
  have "pump_turn_of interval u t at r p f = (Goes p3, ans, f3)"
    using 1(1) 2(1) 3(1) assms(5) by (cases r) (simp_all add: pump_turn_of_def)
  with 1(3) 3(2) show ?thesis by blast
qed

lemma pump_run_answers:
  assumes "faults f = []" and "aof_holds (p_core p) f evs" and "list_all event_wf (queued_events xs)"
    and "RECORD_SIZE * (length evs + length (queued_events xs)) \<le> ROLL_BYTES"
    and "list_all (\<lambda>(_, _, _, r). r \<noteq> Hangup) xs"
  shows "\<exists>p' ans f'. pump_run interval xs p f = (Goes p', ans, f') \<and> (\<forall>n \<in> drains xs. (n, Inr ()) \<in> set ans)"
  using assms
proof (induction xs arbitrary: p f evs)
  case Nil
  then show ?case by simp
next
  case (Cons x xs)
  obtain u t at r where x: "x = (u, t, at, r)" by (cases x)
  have wf: "list_all event_wf (event_of r)" "list_all event_wf (queued_events xs)" "r \<noteq> Hangup"
    using Cons.prems(3,5) x by simp_all
  have len: "RECORD_SIZE * (length evs + length (event_of r)) \<le> ROLL_BYTES"
    and len': "RECORD_SIZE * (length (evs @ event_of r) + length (queued_events xs)) \<le> ROLL_BYTES"
    using Cons.prems(4) x by (simp_all add: distrib_left)
  obtain p1 ans1 f1 where 1: "pump_turn_of interval u t at r p f = (Goes p1, ans1, f1)" "faults f1 = []"
      "\<forall>n. r = Got (Drain n) \<longrightarrow> (n, Inr ()) \<in> set ans1"
    using pump_turn_ok [OF Cons.prems(1,2) wf(1) len wf(3)] by blast
  have h: "aof_holds (p_core p1) f1 (evs @ event_of r)" using pump_turn_Goes [OF 1(1) Cons.prems(2) wf(1) len] by simp
  obtain p' ans' f' where 2: "pump_run interval xs p1 f1 = (Goes p', ans', f')" "\<forall>n \<in> drains xs. (n, Inr ()) \<in> set ans'"
    using Cons.IH [OF 1(2) h wf(2) len'] Cons.prems(5) x by auto
  have "\<forall>n \<in> drains (x # xs). (n, Inr ()) \<in> set (ans1 @ ans')"
    using 1(3) 2(2) x by (cases r; cases "case r of Got m \<Rightarrow> m") auto
  then show ?case using x 1(1) 2(1) by simp
qed

text \<open>
  C12: on a disk that does not fail, every drain is answered. Whatever else the writer thread
  receives, as long as the queue's senders are alive and the file does not roll, each drain
  request gets the answer that its events are durable, so no stop waits forever.
\<close>

theorem every_drain_answered:
  assumes "faults f = []" and "aof_holds (p_core p) f evs" and "list_all event_wf (queued_events xs)"
    and "RECORD_SIZE * (length evs + length (queued_events xs)) \<le> ROLL_BYTES"
    and "list_all (\<lambda>(_, _, _, r). r \<noteq> Hangup) xs"
  shows "\<forall>n \<in> drains xs. (n, Inr ()) \<in> set (fst (snd (pump_run interval xs p f)))"
  using pump_run_answers [OF assms, of interval] by auto

section \<open>Resuming\<close>

lemma aof_scan_finds:
  assumes "faults f = []" and "cached f (inode h) = c"
  shows "\<exists>h'. aof_scan s w h f =
      (Inr (s + RECORD_SIZE * length (parse_file (drop (cursor h) c)),
            foldl window_add w (parse_file (drop (cursor h) c)), h'), f) \<and> inode h' = inode h"
  using assms
proof (induction "length c - cursor h" arbitrary: s w h rule: less_induct)
  case less
  let ?d = "drop (cursor h) c"
  show ?case
  proof (cases "parse_record ?d")
    case None
    then have none: "parse_file ?d = []" by (subst parse_file_unfold) simp
    have "parse_record (take RECORD_SIZE ?d) = None" using None by (simp add: parse_record_take)
    then show ?thesis using less.prems none
      by (subst aof_scan.simps) (auto simp: read_exact_ok split: if_splits)
  next
    case (Some en)
    then obtain e where e: "parse_record ?d = Some (e, RECORD_SIZE)" and len: "RECORD_SIZE \<le> length ?d"
      using parse_record_consumes [of ?d "fst en" "snd en"] by (cases en) auto
    then have pf: "parse_file ?d = e # parse_file (drop (cursor h + RECORD_SIZE) c)"
      by (subst parse_file_unfold) (simp add: add.commute)
    let ?h = "h\<lparr>cursor := cursor h + RECORD_SIZE\<rparr>"
    have dec: "length c - cursor ?h < length c - cursor h" using len by (simp add: RECORD_SIZE_def)
    have inode: "cached f (inode ?h) = c" using less.prems(2) by simp
    from less.hyps [OF dec less.prems(1) inode, of "s + RECORD_SIZE" "window_add w e"]
    obtain h' where h': "aof_scan (s + RECORD_SIZE) (window_add w e) ?h f =
      (Inr (s + RECORD_SIZE + RECORD_SIZE * length (parse_file (drop (cursor ?h) c)),
            foldl window_add (window_add w e) (parse_file (drop (cursor ?h) c)), h'), f)"
      "inode h' = inode h" by auto
    have "cursor h + RECORD_SIZE \<le> length c" using len by (simp add: RECORD_SIZE_def)
    then have "read_exact RECORD_SIZE h f = (Inr (take RECORD_SIZE ?d, ?h), f)"
      using less.prems by (simp add: read_exact_ok)
    with e h' pf show ?thesis
      by (subst aof_scan.simps) (simp add: parse_record_take)
  qed
qed

lemma resize_prefix:
  assumes "n \<le> length c"
  shows "resize n c = take n c"
  using assms by (simp add: resize_def)

lemma parse_file_fits: "RECORD_SIZE * length (parse_file c) \<le> length c"
  using reads_as_prefix [of c] by (auto simp: reads_as_def min_def split: if_splits)

lemma aof_resume_ok:
  assumes "faults f = []" and "lookup f p = Some i" and "cached f i = c"
  defines "n \<equiv> RECORD_SIZE * length (parse_file c)"
  shows "\<exists>s f'. aof_resume p f = (Inr (s, n, window_of (parse_file c)), f') \<and> faults f' = [] \<and> names f' = names f \<and>
    cached f' i = take n c \<and> inode (sk_file s) = i \<and> sk_offset s = n \<and> sk_path s = p"
proof -
  let ?h = "\<lparr>inode = i, cursor = 0, appends = False\<rparr>"
  obtain h' where h': "aof_scan 0 None ?h f = (Inr (n, window_of (parse_file c), h'), f)" "inode h' = i"
    using aof_scan_finds [OF assms(1), of ?h c 0 None] assms(3) by (auto simp: n_def window_of_def)
  have "n \<le> length c" by (simp add: n_def parse_file_fits)
  with h' assms(1-3) show ?thesis
    by (auto simp: aof_resume_def open_read_write_def open_existing_def guarded_ok dbind_def dret_def file_len_def
        set_len_def sink_adopt_def resize_prefix)
qed

text \<open>
  The write-behind log cuts a torn tail off when it resumes. Whatever bytes a crash left
  in the open file, the resumed writer goes on from exactly the records that read back: after
  any further events are appended and a checkpoint is taken, the file holds, on the medium,
  the old records followed by all the new ones.
\<close>

theorem aof_resume_keeps_appends:
  assumes "resumable f dir p c" and "list_all event_wf (map (\<lambda>x. snd (snd x)) later)"
    and "RECORD_SIZE * (length (parse_file c) + length later) \<le> ROLL_BYTES"
  shows "\<exists>c0 f0 c1 f1 c2 f2 i. aof_open_on dir flush_bytes now f = (Inr c0, f0) \<and>
    aof_append_all later c0 f0 = (Inr c1, f1) \<and> aof_checkpoint c1 f1 = (Inr c2, f2) \<and>
    lookup f2 p = Some i \<and> parse_file (cached f2 i) = parse_file c @ map (\<lambda>x. snd (snd x)) later \<and>
    kept f2 i = cached f2 i"
proof -
  have f: "faults f = []" "create_dir_all dir f = (Inr (), f)" "find_open_file_on dir f = (Inr (Some p), f)"
    using assms(1) create_dir_all_present [of f dir]
    by (simp_all add: resumable_def find_open_file_on_def read_dir_def guarded_ok dbind_def dret_def)
  obtain i where i: "lookup f p = Some i" "cached f i = c"
    using assms(1) by (auto simp: resumable_def content_def)
  let ?evs = "parse_file c" let ?n = "RECORD_SIZE * length ?evs"
  obtain s f0 where s: "aof_resume p f = (Inr (s, ?n, window_of ?evs), f0)" "faults f0 = []" "names f0 = names f"
      "cached f0 i = take ?n c" "inode (sk_file s) = i" "sk_offset s = ?n"
    using aof_resume_ok [OF f(1) i] by blast
  let ?c0 = "\<lparr>a_dir = dir, a_flush_bytes = flush_bytes, a_sink = s, a_written = ?n, a_window = window_of ?evs,
           a_syncs = 0, a_buf = []\<rparr>"
  have o: "aof_open_on dir flush_bytes now f = (Inr ?c0, f0)"
    using f s(1) by (simp add: aof_open_on_def dbind_def dret_def)
  have h0: "aof_holds ?c0 f0 ?evs" using s reads_as_prefix [of c] parse_file_fits [of c] by (simp add: aof_holds_def)
  obtain c1 f1 where 1: "aof_append_all later ?c0 f0 = (Inr c1, f1)" "faults f1 = []" "names f1 = names f0"
      "aof_holds c1 f1 (?evs @ map (\<lambda>x. snd (snd x)) later)" "aof_inode c1 = i"
    using aof_append_all_ok [OF s(2) h0 assms(2,3)] s(5) by auto
  obtain c2 f2 where 2: "aof_checkpoint c1 f1 = (Inr c2, f2)" "names f2 = names f1"
    using aof_checkpoint_ok [OF 1(2)] by blast
  have h2: "aof_holds c2 f2 (?evs @ map (\<lambda>x. snd (snd x)) later)" "a_buf c2 = []" "aof_inode c2 = i"
      "kept f2 i = cached f2 i"
    using aof_checkpoint_holds [OF 2(1) 1(4)] 1(5) by simp_all
  have "parse_file (cached f2 i) = ?evs @ map (\<lambda>x. snd (snd x)) later"
    using h2 reads_as_parse by (simp add: aof_holds_def)
  moreover have "lookup f2 p = Some i" using i(1) s(3) 1(3) 2(2) by (simp add: lookup_def)
  ultimately show ?thesis using o 1(1) 2(1) h2(4) by blast
qed

section \<open>Rolling\<close>

lemma aof_finalize_ok:
  assumes "faults f = []" and "aof_holds c f evs" and "a_written c \<le> ROLL_BYTES"
  shows "\<exists>c' f' b. aof_finalize c f = (Inr c', f') \<and> faults f' = [] \<and> names f' = names f \<and>
    dirs f' = dirs f \<and> (fs_wf f \<longrightarrow> fs_wf f') \<and> a_dir c' = a_dir c \<and> sk_path (a_sink c') = sk_path (a_sink c) \<and>
    a_buf c' = [] \<and> cached f' (aof_inode c) = b \<and> kept f' (aof_inode c) = b \<and> length b = ROLL_BYTES \<and> parse_file b = evs"
proof -
  let ?pad = "replicate (ROLL_BYTES - a_written c) (0 :: u8)"
  let ?i = "aof_inode c" and ?o = "sk_offset (a_sink c)"
  have h: "reads_as (cached f ?i @ a_buf c) evs" "?o = length (cached f ?i)" "a_written c = RECORD_SIZE * length evs"
    using assms(2) by (simp_all add: aof_holds_def)
  have "a_written c \<noteq> ROLL_BYTES" using h(3) records_miss_roll by simp
  then have ne: "a_buf c @ ?pad \<noteq> []" using assms(3) by simp
  have len: "?o + length (a_buf c @ ?pad) = ROLL_BYTES"
    using h assms(3) by (auto simp: reads_as_def)
  let ?f1 = "write_at ?i ?o (a_buf c @ ?pad) f"
  let ?f2 = "?f1\<lparr>kept := (kept ?f1)(?i := cached ?f1 ?i)\<rparr>"
  let ?c = "c\<lparr>a_sink := (a_sink c)\<lparr>sk_offset := ROLL_BYTES\<rparr>, a_buf := [], a_syncs := a_syncs c + 1\<rparr>"
  have "aof_finalize c f = (Inr ?c, ?f2)"
    using assms(1,3) ne len
    by (auto simp: aof_finalize_def aof_flush_buf_ok dbind_def sink_sync_def sync_all_ok Let_def dret_def)
  moreover have "cached ?f2 ?i = cached f ?i @ a_buf c @ ?pad" using h(2) by simp
  moreover have "parse_file (cached f ?i @ a_buf c @ ?pad) = evs"
    using h(1) parse_file_pad by (simp add: reads_as_def flip: append_assoc)
  ultimately show ?thesis using assms(1) h(2) len by (simp add: fs_wf_def lookup_def is_dir_def)
qed

lemma encode_meta_ne: "encode_meta m \<noteq> []"
  by (simp add: encode_meta_def flip: length_0_conv)

lemma aof_roll_ok:
  assumes "aof_holds c f evs" and "faults f = []" and "fs_wf f" and "is_dir f (a_dir c)"
    and "lookup f (sk_path (a_sink c)) = Some (aof_inode c)" and "RECORD_SIZE * length evs \<le> ROLL_BYTES"
    and "window_of evs = Some w" and "roll_room (a_dir c) (sk_path (a_sink c)) f (window_meta w) u t"
  shows "\<exists>c' f' f1 h b. aof_roll u t c f = (Inr c', f') \<and> aof_holds c' f' [] \<and> a_buf c' = [] \<and> sk_file (a_sink c') = h \<and>
    rolled_over (a_dir c) (aof_inode c) (window_meta w) t h f1 f' \<and>
    cached f1 (aof_inode c) = b \<and> kept f1 (aof_inode c) = b \<and> length b = ROLL_BYTES \<and> parse_file b = evs"
proof -
  let ?m = "window_meta w" and ?i = "aof_inode c"
  have w: "a_written c = RECORD_SIZE * length evs" "a_window c = Some w"
    using assms(1,7) by (simp_all add: aof_holds_def)
  obtain c1 f1 b where 1: "aof_finalize c f = (Inr c1, f1)" "faults f1 = []" "names f1 = names f" "dirs f1 = dirs f"
      "fs_wf f1" "a_dir c1 = a_dir c" "sk_path (a_sink c1) = sk_path (a_sink c)" "a_buf c1 = []" "cached f1 ?i = b"
      "kept f1 ?i = b" "length b = ROLL_BYTES" "parse_file b = evs"
    using aof_finalize_ok [OF assms(2,1)] assms(3,6) w by auto
  have f1: "is_dir f1 (a_dir c)" "lookup f1 (sk_path (a_sink c)) = Some ?i"
      "roll_room (a_dir c) (sk_path (a_sink c)) f1 ?m u t"
    using 1(3,4) assms(4,5,8) by (simp_all add: is_dir_def lookup_def roll_room_def disk_exists_def)
  obtain f2 f3 h4 f4 where r: "disk_rename (sk_path (a_sink c)) (a_dir c @ [rolled_name ?m]) f1 = (Inr (), f2)"
      "write_meta_atomic (a_dir c @ [rolled_stem ?m @ ''.meta'']) ?m u f2 = (Inr (), f3)"
      "create_new False (a_dir c @ [open_name t]) f3 = (Inr h4, f4)"
      "rolled_over (a_dir c) ?i ?m t h4 f1 f4"
    using roll_files_ok [OF 1(2,5) f1] by blast
  let ?s = "\<lparr>sk_file = h4, sk_path = a_dir c @ [open_name t], sk_offset = 0\<rparr>"
  let ?c = "c1\<lparr>a_sink := ?s, a_written := 0, a_window := None\<rparr>"
  have "aof_roll u t c f = (Inr ?c, f4)"
    using w 1 r by (simp add: aof_roll_def dbind_def dret_def Let_def sink_new_def sink_open_file_def
        create_new_read_write_def meta_path_eq)
  moreover have "aof_holds ?c f4 []" using r(4) 1(8) by (simp add: aof_holds_def rolled_over_def)
  ultimately show ?thesis using r(4) 1(8-12) by fastforce
qed

text \<open>The write of a full buffer touches the open file only.\<close>

lemma flush_full_ok:
  assumes "faults f = []" and "aof_holds c f evs"
  shows "\<exists>c' f'. (if length (a_buf c) \<ge> a_flush_bytes c then aof_flush_buf c else dret c) f = (Inr c', f') \<and>
    aof_holds c' f' evs \<and> names f' = names f \<and> kept f' = kept f \<and>
    (\<forall>k. k \<noteq> aof_inode c \<longrightarrow> cached f' k = cached f k)"
proof (cases "length (a_buf c) \<ge> a_flush_bytes c")
  case True
  have "\<exists>c' f'. aof_flush_buf c f = (Inr c', f') \<and> names f' = names f \<and> kept f' = kept f \<and>
      (\<forall>k. k \<noteq> aof_inode c \<longrightarrow> cached f' k = cached f k)"
    using assms(1) by (simp add: aof_flush_buf_ok)
  then obtain c' f' where "aof_flush_buf c f = (Inr c', f')" "names f' = names f" "kept f' = kept f"
      "\<forall>k. k \<noteq> aof_inode c \<longrightarrow> cached f' k = cached f k" by blast
  moreover from this aof_flush_buf_holds [OF _ assms(2)] have "aof_holds c' f' evs" by blast
  ultimately show ?thesis using True by simp
next
  case False
  then show ?thesis using assms by (simp add: dret_def)
qed

text \<open>
  The roll finalizes one erasure block. When the next record would pass the two-megabyte
  mark, the file renamed to its final name is exactly that long, reads back as every event
  taken since the last roll and nothing else, and is wholly on the medium; its metafile
  decodes to the bounds and the count of these events; and the new event starts the next
  open file.
\<close>

theorem aof_append_rolls:
  assumes "aof_holds c f evs" and "faults f = []" and "fs_wf f" and "is_dir f (a_dir c)"
    and "lookup f (sk_path (a_sink c)) = Some (aof_inode c)"
    and "RECORD_SIZE * length evs \<le> ROLL_BYTES" and "ROLL_BYTES < RECORD_SIZE * (length evs + 1)"
    and "window_of evs = Some w" and "roll_room (a_dir c) (sk_path (a_sink c)) f (window_meta w) u t"
    and "event_wf e"
  shows "\<exists>c' f' i b. aof_append u t e c f = (Inr c', f') \<and> aof_holds c' f' [e] \<and>
    lookup f' (a_dir c @ [rolled_name (window_meta w)]) = Some i \<and> cached f' i = b \<and> kept f' i = b \<and>
    length b = ROLL_BYTES \<and> parse_file b = evs \<and>
    Option.bind (content f' (with_extension (a_dir c @ [rolled_name (window_meta w)]) ''meta'')) decode_meta =
      Some (window_meta w)"
proof -
  let ?m = "window_meta w" and ?i = "aof_inode c"
  have w: "a_written c = RECORD_SIZE * length evs" using assms(1) by (simp add: aof_holds_def)
  obtain c4 f4 f1 h b where r: "aof_roll u t c f = (Inr c4, f4)" "aof_holds c4 f4 []" "sk_file (a_sink c4) = h"
      "rolled_over (a_dir c) ?i ?m t h f1 f4" "cached f1 ?i = b" "kept f1 ?i = b" "length b = ROLL_BYTES" "parse_file b = evs"
    using aof_roll_ok [OF assms(1-6,8,9)] by blast
  let ?c5 = "aof_push e c4"
  have h5: "aof_holds ?c5 f4 [e]" using aof_push_holds [OF r(2) assms(10)] by simp
  have i5: "aof_inode ?c5 = inode h" using r(3) by (simp add: aof_push_def)
  have ok4: "faults f4 = []" "cached f4 (inode h) = []" using r(4) by (simp_all add: rolled_over_def)
  obtain c6 f6 where 6: "(if length (a_buf ?c5) \<ge> a_flush_bytes ?c5 then aof_flush_buf ?c5 else dret ?c5) f4 = (Inr c6, f6)"
      "aof_holds c6 f6 [e]" "names f6 = names f4" "kept f6 = kept f4" "\<forall>k. k \<noteq> inode h \<longrightarrow> cached f6 k = cached f4 k"
    using flush_full_ok [OF ok4(1) h5] i5 by auto
  have "a_written c6 \<noteq> ROLL_BYTES" using 6(2) records_miss_roll [of 1] by (simp add: aof_holds_def)
  then have ap: "aof_append u t e c f = (Inr c6, f6)"
    using w assms(7) r(1) 6(1) by (simp add: aof_append_def dbind_def Let_def dret_def)
  obtain k where k: "lookup f4 (a_dir c @ [rolled_stem ?m @ ''.meta'']) = Some k" "cached f4 k = encode_meta ?m"
    using r(4) by (auto simp: rolled_over_def content_def)
  have "k \<noteq> inode h" using k(2) ok4(2) encode_meta_ne by metis
  then have met: "content f6 (with_extension (a_dir c @ [rolled_name ?m]) ''meta'') = Some (encode_meta ?m)"
    using k 6(3,5) by (simp add: content_def lookup_def meta_path_eq)
  have "?i \<noteq> inode h" using r(4-7) ok4(2) by (auto simp: rolled_over_def ROLL_BYTES_def)
  then have "lookup f6 (a_dir c @ [rolled_name ?m]) = Some ?i" "cached f6 ?i = b" "kept f6 ?i = b"
    using r(4-6) 6(3-5) by (simp_all add: rolled_over_def lookup_def)
  with ap 6(2) r(7,8) met show ?thesis by (simp add: encode_decode_meta)
qed

section \<open>Instances\<close>

definition demo_core :: "journal_event list \<Rightarrow> aof_core" where
  "demo_core evs =
     \<lparr>a_dir = [''/'', ''j''], a_flush_bytes = 65536,
      a_sink = \<lparr>sk_file = \<lparr>inode = 0, cursor = 0, appends = False\<rparr>, sk_path = [''/'', ''j'', ''ev-open-7.bin''],
        sk_offset = RECORD_SIZE * length evs\<rparr>,
      a_written = RECORD_SIZE * length evs, a_window = window_of evs, a_syncs = 0, a_buf = []\<rparr>"

lemma reads_as_encoded: "list_all event_wf evs \<Longrightarrow> reads_as (concat (map encode_event evs)) evs"
  using parse_file_encoded length_encoded by (simp add: reads_as_def)

lemma demo_core_holds:
  "list_all event_wf evs \<Longrightarrow> aof_holds (demo_core evs) (demo_disk (concat (map encode_event evs))) evs"
  using reads_as_encoded [of evs] by (simp add: aof_holds_def demo_core_def demo_disk_def length_encoded)

theorem drain_makes_durable_witness:
  "\<exists>turn answers f'. pump_run None [(0, 0, 0, Got (Event demo_event)), (0, 0, 0, Got (Drain 5))]
       \<lparr>p_core = demo_core [], p_last_flush = 0, p_last_sync = 0\<rparr> (demo_disk []) = (turn, answers, f') \<and>
     (5, Inr ()) \<in> set answers \<and> parse_file (kept f' 0) = [demo_event]"
proof -
  let ?p = "\<lparr>p_core = demo_core [], p_last_flush = 0, p_last_sync = 0\<rparr>"
  let ?in = "[(0, 0, 0, Got (Event demo_event)), (0, 0, 0, Got (Drain 5))]"
  have h: "faults (demo_disk []) = []" "aof_holds (p_core ?p) (demo_disk []) []"
    using demo_core_holds [of "[]"] by (simp_all add: demo_disk_def)
  obtain p' answers f' where run: "pump_run None ?in ?p (demo_disk []) = (Goes p', answers, f')" "(5, Inr ()) \<in> set answers"
    using pump_run_answers [OF h, of ?in None] demo_event_wf by (auto simp: RECORD_SIZE_def ROLL_BYTES_def queued_events_def)
  moreover have "parse_file (kept f' (aof_inode (p_core ?p))) = [] @ queued_events [(0, 0, 0, Got (Event demo_event))]"
    by (rule drain_makes_durable [where interval = None and n = 5 and p = ?p and f = "demo_disk []" and u = 0 and t = 0
        and at = 0 and turn = "Goes p'" and answers = answers])
      (use run h demo_event_wf in \<open>simp_all add: queued_events_def RECORD_SIZE_def ROLL_BYTES_def\<close>)
  ultimately show ?thesis by (auto simp: demo_core_def queued_events_def)
qed

theorem every_drain_answered_witness:
  "(5, Inr ()) \<in> set (fst (snd (pump_run (Some 1000) [(0, 0, 0, Got (Event demo_event)), (0, 0, 300, Got (Drain 5))]
     \<lparr>p_core = demo_core [], p_last_flush = 0, p_last_sync = 0\<rparr> (demo_disk []))))"
  using every_drain_answered [of "demo_disk []" "\<lparr>p_core = demo_core [], p_last_flush = 0, p_last_sync = 0\<rparr>" "[]"
      "[(0, 0, 0, Got (Event demo_event)), (0, 0, 300, Got (Drain 5))]" "Some 1000"] demo_core_holds [of "[]"] demo_event_wf
  by (simp add: demo_disk_def queued_events_def RECORD_SIZE_def ROLL_BYTES_def)

theorem aof_resume_keeps_appends_witness:
  "\<exists>c0 f0 c1 f1 c2 f2 i.
     aof_open_on [''/'', ''j''] 65536 0 (demo_disk (encode_event demo_event @ take 2 (encode_event demo_event))) = (Inr c0, f0) \<and>
     aof_append_all [(0, 0, demo_event)] c0 f0 = (Inr c1, f1) \<and> aof_checkpoint c1 f1 = (Inr c2, f2) \<and>
     lookup f2 [''/'', ''j'', ''ev-open-7.bin''] = Some i \<and> parse_file (cached f2 i) = [demo_event, demo_event] \<and>
     kept f2 i = cached f2 i"
proof -
  have "parse_file (take 2 (encode_event demo_event)) = []" by (simp add: parse_file_short RECORD_SIZE_def)
  then have "parse_file (encode_event demo_event @ take 2 (encode_event demo_event)) = [demo_event]"
    using reads_as_event [OF demo_event_wf] by (simp add: reads_as_def)
  with aof_resume_keeps_appends [OF demo_resumable [of "encode_event demo_event @ take 2 (encode_event demo_event)"],
      where later = "[(0, 0, demo_event)]" and flush_bytes = 65536 and now = 0] demo_event_wf
  show ?thesis by (simp add: RECORD_SIZE_def ROLL_BYTES_def)
qed

theorem aof_append_rolls_witness:
  "\<exists>c' f' i b w. aof_append 0 7 demo_event (demo_core (replicate 34379 demo_event))
       (demo_disk (concat (map encode_event (replicate 34379 demo_event)))) = (Inr c', f') \<and>
     lookup f' [''/'', ''j'', rolled_name (window_meta w)] = Some i \<and> cached f' i = b \<and> kept f' i = b \<and>
     length b = ROLL_BYTES \<and> parse_file b = replicate 34379 demo_event \<and> aof_holds c' f' [demo_event]"
proof -
  let ?n = "34379 :: nat" let ?evs = "replicate ?n demo_event"
  let ?d = "demo_disk (concat (map encode_event ?evs))"
  have wf: "list_all event_wf ?evs" using demo_event_wf by (simp add: list_all_iff)
  obtain w where w: "window_of ?evs = Some w" using window_of_bounds [of ?evs] by auto
  have d: "faults ?d = []" "fs_wf ?d" "is_dir ?d (a_dir (demo_core ?evs))"
      "lookup ?d (sk_path (a_sink (demo_core ?evs))) = Some (aof_inode (demo_core ?evs))"
    using demo_resumable [of "concat (map encode_event ?evs)"]
    by (simp_all add: resumable_def demo_core_def demo_disk_def lookup_def)
  have room: "roll_room (a_dir (demo_core ?evs)) (sk_path (a_sink (demo_core ?evs))) ?d (window_meta w) 0 7"
    using demo_room [of "concat (map encode_event ?evs)" "window_meta w"] by (simp add: demo_core_def demo_journal_def)
  have "RECORD_SIZE * length ?evs \<le> ROLL_BYTES" "ROLL_BYTES < RECORD_SIZE * (length ?evs + 1)"
    by (simp_all add: RECORD_SIZE_def ROLL_BYTES_def)
  from aof_append_rolls [OF demo_core_holds [OF wf] d this w room demo_event_wf]
  show ?thesis by (auto simp: demo_core_def)
qed

end
