(* ===== verification/State_Store.thy ===== *)
theory State_Store
  imports Journal_Props Staged_Write Text_Fields Lock_Wire
begin

text \<open>
  The state seam of \<^verbatim>\<open>ext/advisory_lock/src/state.rs\<close>: the framed state file,
  its staged write at a stop, and the guarded lazy load at a boot. Encoding a snapshot to
  JSON and back is third-party code and a parameter. The interface \<open>state_store\<close>
  is the trait's contract: what a reported flush promises a later load.
\<close>

section \<open>The file format\<close>

definition FORMAT_VERSION :: u8 where
  "FORMAT_VERSION = 2"

definition framed_body :: "bytes \<Rightarrow> bytes" where
  "framed_body payload = FORMAT_VERSION # be_bytes 4 (word_of_nat (length payload) :: u32) @ payload"

definition frame :: "(state_snapshot \<Rightarrow> bytes option) \<Rightarrow> state_snapshot \<Rightarrow> bytes io" where
  "frame to_vec snap =
     (case to_vec snap of
        None \<Rightarrow> Inl InvalidData
      | Some payload \<Rightarrow>
          if length payload \<ge> 2 ^ 32 then Inl InvalidInput
          else (let framed = framed_body payload in Inr (framed @ be_bytes 4 (crc32_ieee framed))))"

definition unframe :: "(bytes \<Rightarrow> state_snapshot option) \<Rightarrow> bytes \<Rightarrow> state_snapshot option" where
  "unframe from_slice b =
     (if length b < 9 \<or> b ! 0 \<noteq> FORMAT_VERSION then None
      else
        (let len = unat (be_word (slice 1 5 b) :: u32); body_end = 5 + len in
         if length b \<noteq> body_end + 4 then None
         else if crc32_ieee (slice 0 body_end b) \<noteq> be_word (slice body_end (length b) b) then None
         else from_slice (slice 5 body_end b)))"

section \<open>The file store\<close>

definition state_file_path :: "path \<Rightarrow> path" where
  "state_file_path state = with_suffix state ''.state''"

text \<open>The temporary's unique part: the process id and the clock, as arguments.\<close>

definition state_tmp :: "path \<Rightarrow> nat \<times> nat \<Rightarrow> path" where
  "state_tmp p u =
     parent_or_dot p @ [''.'' @ file_name p @ ''.state-tmp-'' @ show_dec (fst u) @ ''-'' @ show_dec (snd u)]"

definition write_atomically :: "path \<Rightarrow> nat \<times> nat \<Rightarrow> bytes \<Rightarrow> unit disk" where
  "write_atomically p u framed = staged_write (state_tmp p u) p p framed"

definition file_flush_state ::
  "(state_snapshot \<Rightarrow> bytes option) \<Rightarrow> path \<Rightarrow> nat \<times> nat \<Rightarrow> state_snapshot \<Rightarrow> unit disk" where
  "file_flush_state to_vec p u snap f =
     (case frame to_vec snap of Inl e \<Rightarrow> (Inl e, f) | Inr framed \<Rightarrow> write_atomically p u framed f)"

definition file_load_state ::
  "(bytes \<Rightarrow> state_snapshot option) \<Rightarrow> path \<Rightarrow> state_snapshot option disk" where
  "file_load_state from_slice p f =
     (if \<not> disk_exists p f then (Inr None, f)
      else dbind (disk_read p) (\<lambda>b. dret (unframe from_slice b)) f)"

text \<open>The lazy load with its guard; \<open>load\<close> is the store's own.\<close>

definition lazy_load :: "('s \<Rightarrow> state_snapshot option io \<times> 's) \<Rightarrow> bool \<Rightarrow> bool \<Rightarrow> 's \<Rightarrow> state_snapshot option io \<times> 's" where
  "lazy_load load clean_boot table_empty s =
     (if \<not> clean_boot then (Inr None, s)
      else if \<not> table_empty then (Inr None, s)
      else load s)"

section \<open>The contract\<close>

text \<open>The JSON codec gives back what it was given.\<close>

definition json_roundtrip :: "('a \<Rightarrow> bytes option) \<Rightarrow> (bytes \<Rightarrow> 'a option) \<Rightarrow> bool" where
  "json_roundtrip enc dec \<longleftrightarrow> (\<forall>x b. enc x = Some b \<longrightarrow> dec b = Some x)"

text \<open>
  \<open>view\<close> is what a load from the state a flush left finds of the flushed table; \<open>ok\<close> are the tables the store takes.
\<close>

locale state_store =
  fixes inv :: "'s \<Rightarrow> bool"
    and ok :: "state_snapshot \<Rightarrow> bool"
    and flush :: "'i \<Rightarrow> state_snapshot \<Rightarrow> 's \<Rightarrow> unit io \<times> 's"
    and load :: "'s \<Rightarrow> state_snapshot option io \<times> 's"
    and view :: "'s \<Rightarrow> state_snapshot \<Rightarrow> state_snapshot option"
  assumes flush_inv: "inv s \<Longrightarrow> ok snap \<Longrightarrow> inv (snd (flush i snap s))"
    and flush_load: "inv s \<Longrightarrow> ok snap \<Longrightarrow> flush i snap s = (Inr (), s') \<Longrightarrow> fst (load s') = Inr r \<Longrightarrow> r = view s' snap"
begin

text \<open>A stop that reported its flush, then a boot: only the flushed table or nothing.\<close>

lemma stop_then_boot:
  assumes "inv s" and "ok snap" and "flush i snap s = (Inr (), s')"
    and "fst (lazy_load load clean vacant s') = Inr (Some x)"
  shows "clean \<and> vacant \<and> view s' snap = Some x"
  using assms flush_load [OF assms(1-3)] by (auto simp: lazy_load_def split: if_splits)

lemma last_flush_wins:
  assumes "inv s" and "ok snap0" and "ok snap"
    and "flush i snap (snd (flush i0 snap0 s)) = (Inr (), s')" and "fst (load s') = Inr r"
  shows "r = view s' snap"
  using flush_load [OF flush_inv [OF assms(1,2)] assms(3-5)] .

end

section \<open>The format is sound\<close>

lemma length_framed_body [simp]: "length (framed_body p) = 5 + length p"
  by (simp add: framed_body_def)

lemma framed_len:
  "length p < 2 ^ 32 \<Longrightarrow> unat (be_word (slice 1 5 (framed_body p @ rest)) :: u32) = length p"
proof -
  assume "length p < 2 ^ 32"
  then have "unat (word_of_nat (length p) :: u32) = length p"
    by (simp add: unat_of_nat take_bit_nat_eq_self)
  moreover have "slice 1 5 (framed_body p @ rest) = be_bytes 4 (word_of_nat (length p) :: u32)"
    by (simp add: framed_body_def slice_def)
  ultimately show ?thesis by (simp del: One_nat_def)
qed

lemma framed_slices:
  "slice 0 (5 + length p) (framed_body p @ r) = framed_body p"
  "slice 5 (5 + length p) (framed_body p @ r) = p"
  "slice (5 + length p) (5 + length p + 4) (framed_body p @ r) = take 4 r"
  by (simp_all add: slice_def) (simp add: framed_body_def)

lemma frame_Inr:
  assumes "frame to_vec snap = Inr b"
  obtains p where "to_vec snap = Some p" and "length p < 2 ^ 32"
    and "b = framed_body p @ be_bytes 4 (crc32_ieee (framed_body p))"
proof (cases "to_vec snap")
  case None
  with assms show ?thesis by (simp add: frame_def)
next
  case (Some p)
  with assms that [of p] show ?thesis by (simp add: frame_def Let_def split: if_splits)
qed

lemma unframe_frame:
  assumes "json_roundtrip to_vec from_slice" and "frame to_vec snap = Inr b"
  shows "unframe from_slice b = Some snap"
proof -
  obtain p where p: "to_vec snap = Some p" "length p < 2 ^ 32"
    and b: "b = framed_body p @ be_bytes 4 (crc32_ieee (framed_body p))"
    by (rule frame_Inr [OF assms(2)])
  have len: "unat (be_word (slice 1 5 b) :: u32) = length p" using framed_len [OF p(2)] b by simp
  have "b ! 0 = FORMAT_VERSION" "length b = 5 + length p + 4" using b by (simp_all add: framed_body_def)
  moreover have "slice 0 (5 + length p) b = framed_body p" "slice 5 (5 + length p) b = p"
      "slice (5 + length p) (5 + length p + 4) b = be_bytes 4 (crc32_ieee (framed_body p))"
    unfolding b framed_slices by simp_all
  moreover have "from_slice p = Some snap" using assms(1) p(1) by (simp add: json_roundtrip_def)
  ultimately show ?thesis unfolding unframe_def Let_def len by simp
qed

lemma damaged_frame:
  assumes b: "b = framed_body p @ be_bytes 4 (crc32_ieee (framed_body p))" and p: "length p < 2 ^ 32"
    and i: "i < length b" "b ! i \<noteq> v"
  shows "unframe from_slice (b[i := v]) = None"
proof -
  let ?d = "b[i := v]" and ?e = "5 + length p"
  note u = slice_update [OF i(1)]
  have len: "length ?d = ?e + 4" using b by simp
  have s: "slice 0 ?e b = framed_body p" "slice ?e (?e + 4) b = be_bytes 4 (crc32_ieee (framed_body p))"
      "unat (be_word (slice 1 5 b) :: u32) = length p"
    unfolding b framed_slices framed_len [OF p] by simp_all
  consider "i = 0" | "1 \<le> i" "i < 5" | "5 \<le> i" "i < ?e" | "?e \<le> i" "i < ?e + 4"
    using i(1) len by force
  then show ?thesis
  proof cases
    case 1
    then have "?d ! 0 \<noteq> FORMAT_VERSION" using i b by (auto simp: framed_body_def)
    then show ?thesis by (simp add: unframe_def)
  next
    case 2
    have "slice 1 5 b ! (i - 1) = b ! i" using 2 i(1) slice_nth [of "i - 1" 5 1 b] by simp
    moreover have "length (slice 1 5 b) = 4" using len by simp
    ultimately have "(be_word (slice 1 5 ?d) :: u32) \<noteq> be_word (slice 1 5 b)"
      using 2 i(2) be_word_4_update [of "slice 1 5 b" "i - 1" v] by (simp only: u) auto
    then have "unat (be_word (slice 1 5 ?d) :: u32) \<noteq> length p"
      using s(3) by (metis word_unat_eq_iff)
    then show ?thesis using len by (simp add: unframe_def Let_def)
  next
    case 3
    have "slice 1 5 ?d = slice 1 5 b" using 3 by (simp only: u) simp
    moreover have "slice 0 ?e b ! i = b ! i" using 3 i(1) by (simp add: slice_nth)
    then have "crc32_ieee (slice 0 ?e ?d) \<noteq> crc32_ieee (framed_body p)"
      using 3 i(2) crc32_list_update [of i "framed_body p" v] s(1) by (simp add: u)
    moreover have "slice ?e (?e + 4) ?d = slice ?e (?e + 4) b" using 3 by (simp only: u) simp
    ultimately show ?thesis using len s unfolding unframe_def Let_def by (auto simp del: One_nat_def)
  next
    case 4
    have "slice 1 5 ?d = slice 1 5 b" using 4 by (simp only: u) simp
    moreover have "slice ?e (?e + 4) b ! (i - ?e) = b ! i" using 4 i(1) by (simp add: slice_nth)
    then have "(be_word (slice ?e (?e + 4) ?d) :: u32) \<noteq> be_word (slice ?e (?e + 4) b)"
      using 4 i(2) be_word_4_update [of "slice ?e (?e + 4) b" "i - ?e" v] s(2) len by (simp add: u less_diff_conv2)
    moreover have "slice 0 ?e ?d = slice 0 ?e b" using 4 by (simp only: u) simp
    ultimately show ?thesis using len s unfolding unframe_def Let_def by (auto simp del: One_nat_def)
  qed
qed

section \<open>The file store implements both contracts\<close>

text \<open>The path of a state file in some directory, absolute or not.\<close>

abbreviation in_dir :: "string \<Rightarrow> path \<Rightarrow> string \<Rightarrow> path" where
  "in_dir root ds n \<equiv> root # ds @ [n]"

lemma in_dir_place:
  assumes "n' \<noteq> n"
  shows "stage_place (parent_or_dot (in_dir root ds n) @ [n']) (in_dir root ds n) (in_dir root ds n)"
  using assms by (simp add: stage_place_def parent_def parent_or_dot_def)

lemma file_name_in_dir [simp]: "file_name (in_dir root ds n) = n"
  by (simp add: file_name_def)

lemma state_place: "stage_place (state_tmp (in_dir root ds n) u) (in_dir root ds n) (in_dir root ds n)"
  unfolding state_tmp_def file_name_in_dir
  by (rule in_dir_place) (rule notI, drule arg_cong [where f = length], simp)

interpretation state_file: crash_atomic "write_atomically (in_dir root ds n)" "in_dir root ds n" for root ds n
  by (rule crash_atomicI) (simp add: write_atomically_def staged_write_atomic state_place)

lemma file_load_content:
  assumes "fs_wf f" and "fst (file_load_state from_slice p f) = Inr r"
  shows "r = Option.bind (content f p) (unframe from_slice)"
proof (cases "lookup f p")
  case None
  then show ?thesis using assms(2)
    by (auto simp: file_load_state_def content_def disk_exists_def disk_read_def guarded_def dbind_def dret_def
        split: if_splits fault.splits)
next
  case (Some i)
  then show ?thesis using assms(2)
    by (auto simp: file_load_state_def content_def disk_exists_def disk_read_def guarded_def dbind_def dret_def
        split: if_splits fault.splits)
qed

lemma file_flush_cases:
  assumes "file_flush_state to_vec p u snap f = (r, f')"
  obtains (unframed) e where "frame to_vec snap = Inl e" "r = Inl e" "f' = f"
    | (framed) b where "frame to_vec snap = Inr b" "write_atomically p u b f = (r, f')"
  using assms by (cases "frame to_vec snap") (auto simp: file_flush_state_def)

lemma file_flush_wf:
  assumes "fs_wf f"
  shows "fs_wf (snd (file_flush_state to_vec (in_dir root ds n) u snap f))"
proof -
  obtain r f' where run: "file_flush_state to_vec (in_dir root ds n) u snap f = (r, f')" by fastforce
  then show ?thesis
  proof (cases rule: file_flush_cases)
    case (framed b)
    then show ?thesis using state_file.put_wf [OF assms, of root ds n u b] run by simp
  qed (use assms run in simp)
qed

lemma file_flush_then_load:
  assumes "json_roundtrip to_vec from_slice" and "fs_wf f"
    and "file_flush_state to_vec (in_dir root ds n) u snap f = (Inr (), f')"
    and "fst (file_load_state from_slice (in_dir root ds n) f') = Inr r"
  shows "r = Some snap"
  using assms(3)
proof (cases rule: file_flush_cases)
  case (framed b)
  have "content f' (in_dir root ds n) = Some b" "fs_wf f'"
    using state_file.put_done [OF assms(2) framed(2)] file_flush_wf [OF assms(2), of to_vec root ds n u snap] assms(3)
    by simp_all
  with assms(4) file_load_content unframe_frame [OF assms(1) framed(1)] show ?thesis by fastforce
qed simp

interpretation file_store: state_store "\<lambda>f. fs_wf f \<and> json_roundtrip to_vec from_slice" "\<lambda>_. True"
  "file_flush_state to_vec (in_dir root ds n)" "file_load_state from_slice (in_dir root ds n)" "\<lambda>_ snap. Some snap"
  for to_vec from_slice root ds n
  by unfold_locales (auto dest: file_flush_wf file_flush_then_load)

text \<open>A small disk and a codec for one table, for closed instances.\<close>

definition state_disk :: fs where
  "state_disk =
     \<lparr>names = [], names_kept = Map.empty, cached = (\<lambda>_. []), kept = (\<lambda>_. []), next_inode = 0,
      dirs = [[''/''], [''/'', ''s'']], faults = []\<rparr>"

definition demo_snap :: state_snapshot where
  "demo_snap = \<lparr>locks = [], generations = [(5, 2)]\<rparr>"

definition demo_to_vec :: "state_snapshot \<Rightarrow> bytes option" where
  "demo_to_vec s = (if s = demo_snap then Some [7] else None)"

definition demo_from_slice :: "bytes \<Rightarrow> state_snapshot option" where
  "demo_from_slice b = (if b = [7] then Some demo_snap else None)"

lemma demo_json: "json_roundtrip demo_to_vec demo_from_slice"
  by (simp add: json_roundtrip_def demo_to_vec_def demo_from_slice_def)

lemma state_disk_wf: "fs_wf state_disk"
  by (auto simp: state_disk_def fs_wf_def lookup_def is_dir_def)

lemma demo_frame: "\<exists>b. frame demo_to_vec demo_snap = Inr b \<and> length b = 10 \<and> b ! 0 = 2"
  by (simp add: frame_def demo_to_vec_def Let_def) (simp add: framed_body_def FORMAT_VERSION_def)

lemma demo_flush:
  "\<exists>f'. file_flush_state demo_to_vec (in_dir ''/'' [''s''] ''n'') (1, 2) demo_snap state_disk = (Inr (), f') \<and>
     faults f' = []"
proof -
  obtain b where b: "frame demo_to_vec demo_snap = Inr b" using demo_frame by blast
  let ?p = "in_dir ''/'' [''s''] ''n''"
  have "\<exists>f'. staged_write (state_tmp ?p (1, 2)) ?p ?p b state_disk = (Inr (), f') \<and>
      elsewhere_same (state_tmp ?p (1, 2)) ?p state_disk f' \<and> content f' ?p = Some b \<and> fs_wf f'"
    by (rule staged_write_ok [OF _ state_disk_wf state_place])
      (simp_all add: state_disk_def disk_exists_def lookup_def is_dir_def parent_or_dot_def parent_def state_tmp_def)
  with b show ?thesis
    by (auto simp: file_flush_state_def write_atomically_def elsewhere_same_def)
qed

lemma crash_to_refl: "crash_to f f"
  by (simp add: crash_to_def)

text \<open>The snapshot a reader of the state file finds.\<close>

definition state_view :: "(bytes \<Rightarrow> state_snapshot option) \<Rightarrow> path \<Rightarrow> fs \<Rightarrow> state_snapshot option" where
  "state_view from_slice p f = Option.bind (content f p) (unframe from_slice)"

lemma survivors_view:
  "crash_to f g \<Longrightarrow> content g p \<in> survivors f p"
  by (auto simp: survivors_def)

text \<open>
  C6: a flush of the table is atomic under crashes. Whatever operations of the disk fail
  during the flush, at whatever point the process dies, and whatever of the unsynced data
  the crash loses: the state file afterwards reads as the flushed table or as it could have
  read had the crash come before the flush. A flush that reported success reads as the
  flushed table after any crash.
\<close>

theorem state_flush_crash_atomic:
  assumes "json_roundtrip to_vec from_slice" and "fs_wf f"
    and "file_flush_state to_vec (in_dir root ds n) u snap f = (r, f')" and "crash_to f' g"
  shows "(state_view from_slice (in_dir root ds n) g = Some snap \<or>
      (\<exists>g0. crash_to f g0 \<and>
        state_view from_slice (in_dir root ds n) g = state_view from_slice (in_dir root ds n) g0)) \<and>
    (r = Inr () \<longrightarrow> state_view from_slice (in_dir root ds n) g = Some snap)"
  using assms(3)
proof (cases rule: file_flush_cases)
  case (unframed e)
  with assms(4) show ?thesis by auto
next
  case (framed b)
  let ?p = "in_dir root ds n"
  have un: "unframe from_slice b = Some snap" by (rule unframe_frame [OF assms(1) framed(1)])
  have "content g ?p \<in> survivors f' ?p" by (rule survivors_view [OF assms(4)])
  then have "content g ?p = Some b \<or> content g ?p \<in> survivors f ?p"
    using state_file.put_any [OF assms(2), of root ds n u b] framed(2) by auto
  moreover have "content g ?p = Some b" if "r = Inr ()"
    using state_file.put_done [OF assms(2)] framed(2) that \<open>content g ?p \<in> survivors f' ?p\<close> by auto
  ultimately show ?thesis using un by (auto simp: state_view_def survivors_def)
qed

theorem state_flush_crash_atomic_witness:
  "\<exists>f'. file_flush_state demo_to_vec (in_dir ''/'' [''s''] ''n'') (1, 2) demo_snap state_disk = (Inr (), f') \<and>
     state_view demo_from_slice (in_dir ''/'' [''s''] ''n'') f' = Some demo_snap"
proof -
  obtain f' where f': "file_flush_state demo_to_vec (in_dir ''/'' [''s''] ''n'') (1, 2) demo_snap state_disk = (Inr (), f')"
    using demo_flush by blast
  from state_flush_crash_atomic [OF demo_json state_disk_wf f' crash_to_refl] f' show ?thesis by blast
qed

text \<open>
  C8: one damaged byte never changes the table. A state file in which a single byte, of
  the version, the length, the payload or the checksum, has another value than was written
  is refused as a whole.
\<close>

theorem state_file_damage_refused:
  assumes "frame to_vec snap = Inr b" and "i < length b" and "b ! i \<noteq> v"
  shows "unframe from_slice (b[i := v]) = None"
proof -
  obtain p where p: "to_vec snap = Some p" "length p < 2 ^ 32"
    "b = framed_body p @ be_bytes 4 (crc32_ieee (framed_body p))"
    by (rule frame_Inr [OF assms(1)])
  from damaged_frame [OF p(3,2) assms(2,3)] show ?thesis .
qed

theorem state_file_damage_refused_witness:
  "\<exists>b. frame demo_to_vec demo_snap = Inr b \<and> unframe demo_from_slice (b[0 := 3]) = None"
proof -
  obtain b where b: "frame demo_to_vec demo_snap = Inr b" "length b = 10" "b ! 0 = 2" using demo_frame by blast
  then have "unframe demo_from_slice (b[0 := 3]) = None" by (intro state_file_damage_refused) simp_all
  with b show ?thesis by blast
qed

text \<open>
  C7: a boot loads only what the last stop flushed. After a flush that reported success,
  the guarded load yields a table only at a clean boot with an empty table, and then it is
  the flushed one; a crashed boot and a populated table get nothing.
\<close>

theorem boot_loads_flushed_table:
  assumes "json_roundtrip to_vec from_slice" and "fs_wf f"
    and "file_flush_state to_vec (in_dir root ds n) u snap f = (Inr (), f')"
    and "fst (lazy_load (file_load_state from_slice (in_dir root ds n)) clean vacant f') = Inr (Some x)"
  shows "clean \<and> vacant \<and> x = snap"
  using file_store.stop_then_boot [OF _ _ assms(3,4)] assms(1,2) by simp

theorem boot_loads_flushed_table_witness:
  "\<exists>f' x. file_flush_state demo_to_vec (in_dir ''/'' [''s''] ''n'') (1, 2) demo_snap state_disk = (Inr (), f') \<and>
     fst (lazy_load (file_load_state demo_from_slice (in_dir ''/'' [''s''] ''n'')) True True f') = Inr (Some x) \<and>
     x = demo_snap"
proof -
  let ?p = "in_dir ''/'' [''s''] ''n''"
  obtain f' where f': "file_flush_state demo_to_vec ?p (1, 2) demo_snap state_disk = (Inr (), f')" "faults f' = []"
    using demo_flush by blast
  obtain b where b: "frame demo_to_vec demo_snap = Inr b" "write_atomically ?p (1, 2) b state_disk = (Inr (), f')"
    using f'(1) by (cases rule: file_flush_cases) auto
  have "content f' ?p = Some b" using state_file.put_done [OF state_disk_wf b(2)] by simp
  then have "fst (file_load_state demo_from_slice ?p f') = Inr (unframe demo_from_slice b)"
    using f'(2) by (auto simp: file_load_state_def content_def disk_exists_def disk_read_def guarded_ok dbind_def dret_def)
  then have l: "fst (lazy_load (file_load_state demo_from_slice ?p) True True f') = Inr (Some demo_snap)"
    using unframe_frame [OF demo_json b(1)] by (simp add: lazy_load_def)
  from boot_loads_flushed_table [OF demo_json state_disk_wf f'(1) l] f' l show ?thesis by blast
qed

text \<open>
  The whole history of the state file. Over any sequence of writes, each succeeding or
  failing anywhere, and a crash at the end, the file holds the last write that was
  reported as done or one of the failed attempts after it; if none was reported, what the
  file could have held at first or one of the attempts.
\<close>

theorem state_file_history:
  assumes "fs_wf f" and "crash_to (run_puts (write_atomically (in_dir root ds n)) xs f) g"
  shows "content g (in_dir root ds n) \<in>
    attempts (write_atomically (in_dir root ds n)) xs f (survivors f (in_dir root ds n))"
  using state_file.history [OF assms(1) subset_refl] survivors_view [OF assms(2)] by blast

theorem state_file_history_witness:
  "content (run_puts (write_atomically (in_dir ''/'' [''s''] ''n'')) [((1, 2), [7])] state_disk) (in_dir ''/'' [''s''] ''n'') \<in>
     attempts (write_atomically (in_dir ''/'' [''s''] ''n'')) [((1, 2), [7])] state_disk
       (survivors state_disk (in_dir ''/'' [''s''] ''n''))"
  by (rule state_file_history [OF state_disk_wf crash_to_refl])

lemma write_all_names:
  "names (snd (write_all h bs f)) = names f \<and> dirs (snd (write_all h bs f)) = dirs f"
  by (auto simp: write_all_def write_all_at_def Let_def split: fault.split)

lemma sync_all_names: "names (snd (sync_all h f)) = names f \<and> dirs (snd (sync_all h f)) = dirs f"
  by (auto simp: sync_all_def guarded_def split: fault.split)

lemma rename_names:
  assumes "lookup f [] = None" and "q \<noteq> []"
  shows "lookup (snd (disk_rename p q f)) [] = None \<and> dirs (snd (disk_rename p q f)) = dirs f"
  using assms by (auto simp: disk_rename_def guarded_def lookup_def split: fault.split option.split)

lemma stage_body_bare:
  assumes "parent_or_dot anchor = []" and "q \<noteq> []" and "lookup f [] = None" and "\<not> is_dir f []"
  shows "fst (stage_body h tmp q anchor bs f) \<noteq> Inr ()"
proof
  assume ok: "fst (stage_body h tmp q anchor bs f) = Inr ()"
  obtain r1 f1 where 1: "write_all h bs f = (r1, f1)" by fastforce
  obtain h1 where r1: "r1 = Inr h1" using ok 1 by (cases r1) (auto simp: stage_body_def dbind_def)
  obtain r2 f2 where 2: "sync_all h1 f1 = (r2, f2)" by fastforce
  obtain u where r2: "r2 = Inr u" using ok 1 2 r1 by (cases r2) (auto simp: stage_body_def dbind_def)
  obtain r3 f3 where 3: "disk_rename tmp q f2 = (r3, f3)" by fastforce
  obtain v where r3: "r3 = Inr v" using ok 1 2 3 r1 r2 by (cases r3) (auto simp: stage_body_def dbind_def)
  have s: "fst (sync_path [] f3) = Inr ()"
    using ok 1 2 3 r1 r2 r3 assms(1) by (simp add: stage_body_def dbind_def sync_parent_def)
  have "names f2 = names f" "dirs f2 = dirs f"
    using write_all_names [of h bs f] sync_all_names [of h1 f1] 1 2 by simp_all
  then have "lookup f3 [] = None" "\<not> is_dir f3 []"
    using rename_names [of f2 q tmp] 3 assms(2-4) by (simp_all add: lookup_def is_dir_def)
  with s show False by (auto simp: sync_path_def guarded_def split: fault.splits)
qed

lemma staged_write_bare:
  assumes "fs_wf f" and "parent_or_dot anchor = []" and "q \<noteq> []"
  shows "fst (staged_write tmp q anchor bs f) \<noteq> Inr ()"
proof (cases "create_new_write tmp f")
  case (Pair r f1)
  show ?thesis
  proof (cases r)
    case (Inl e)
    with Pair show ?thesis by (simp add: staged_write_def cleaning_def dbind_def)
  next
    case (Inr h)
    have "create_new False tmp f = (Inr h, f1)" using Pair Inr by (simp add: create_new_write_def)
    then have "lookup f1 [] = None \<and> \<not> is_dir f1 []"
      by (cases rule: create_new_cases)
        (use assms(1) in \<open>auto simp: make_file_def Let_def lookup_def is_dir_def fs_wf_def has_parent_dir_def\<close>)
    then have "fst (stage_body h tmp q anchor bs f1) \<noteq> Inr ()" using stage_body_bare assms(2,3) by blast
    with Pair Inr show ?thesis
      by (cases "stage_body h tmp q anchor bs f1"; cases "fst (stage_body h tmp q anchor bs f1)")
        (auto simp: staged_write_def cleaning_def dbind_def)
  qed
qed

text \<open>
  C9: a state path without a directory part never flushes. The parent of a bare file name
  is the empty path, which cannot be opened, so the directory fsync that ends the write
  fails: every flush is reported as failed, also on a disk without faults.
\<close>

theorem bare_state_path_never_flushes:
  assumes "fs_wf f" and "n \<noteq> ''/''"
  shows "fst (file_flush_state to_vec [n] u snap f) \<noteq> Inr ()"
proof -
  have "parent_or_dot [n] = []" using assms(2) by (simp add: parent_or_dot_def parent_def)
  then show ?thesis using staged_write_bare [OF assms(1)]
    by (auto simp: file_flush_state_def write_atomically_def split: sum.split)
qed

theorem bare_state_path_never_flushes_witness:
  "fst (file_flush_state demo_to_vec [''n''] (1, 2) demo_snap state_disk) \<noteq> Inr ()"
  by (rule bare_state_path_never_flushes [OF state_disk_wf]) simp

end
