(* ===== verification/Utf8_Text.thy ===== *)
theory Utf8_Text
  imports Prelude_Locks
begin

text \<open>
  The standard library's conversions between bytes and text. A string is the list of the
  bytes of its UTF-8 form, one character per byte; here is which byte lists are text, the
  strict conversion, and the lossy one, which puts U+FFFD for each maximal invalid part.
\<close>

definition char_byte :: "char \<Rightarrow> u8" where
  "char_byte c = word_of_nat (of_char c)"

definition str_bytes :: "string \<Rightarrow> bytes" where
  "str_bytes s = map char_byte s"

definition bytes_str :: "bytes \<Rightarrow> string" where
  "bytes_str b = map (\<lambda>w. char_of (unat w)) b"

lemma unat_char_byte [simp]: "unat (char_byte c) = of_char c"
  using nat_of_char_less_256 [of c] by (simp add: char_byte_def unat_of_nat take_bit_nat_eq_self del: nat_of_char_less_256)

lemma char_byte_inj [simp]: "char_byte c = char_byte d \<longleftrightarrow> c = d"
  by (metis unat_char_byte char_of_char)

lemma bytes_str_bytes [simp]: "bytes_str (str_bytes s) = s"
  by (simp add: bytes_str_def str_bytes_def comp_def)

lemma str_bytes_append [simp]: "str_bytes (a @ b) = str_bytes a @ str_bytes b"
  by (simp add: str_bytes_def)

lemma length_str_bytes: "length (str_bytes s) = length s"
  by (simp add: str_bytes_def)

lemma str_bytes_str: "str_bytes (bytes_str b) = b"
proof -
  have "char_byte (char_of (unat w)) = w" for w :: u8
  proof -
    have "unat w < 256" using unsigned_less [of w, where 'a = nat] by simp
    then show ?thesis by (simp add: char_byte_def)
  qed
  then show ?thesis by (simp add: str_bytes_def bytes_str_def map_idI)
qed

lemma str_bytes_inj: "str_bytes a = str_bytes b \<longleftrightarrow> a = b"
  by (metis bytes_str_bytes)

definition continues :: "u8 \<Rightarrow> bool" where
  "continues b \<longleftrightarrow> 0x80 \<le> b \<and> b \<le> 0xBF"

definition byte_at :: "nat \<Rightarrow> bytes \<Rightarrow> u8" where
  "byte_at i b = (if i < length b then b ! i else 0)"

definition second_of_three :: "u8 \<Rightarrow> u8 \<Rightarrow> bool" where
  "second_of_three a b \<longleftrightarrow>
     a = 0xE0 \<and> 0xA0 \<le> b \<and> b \<le> 0xBF \<or> 0xE1 \<le> a \<and> a \<le> 0xEC \<and> continues b \<or>
     a = 0xED \<and> 0x80 \<le> b \<and> b \<le> 0x9F \<or> 0xEE \<le> a \<and> a \<le> 0xEF \<and> continues b"

definition second_of_four :: "u8 \<Rightarrow> u8 \<Rightarrow> bool" where
  "second_of_four a b \<longleftrightarrow>
     a = 0xF0 \<and> 0x90 \<le> b \<and> b \<le> 0xBF \<or> 0xF1 \<le> a \<and> a \<le> 0xF3 \<and> continues b \<or>
     a = 0xF4 \<and> 0x80 \<le> b \<and> b \<le> 0x8F"

text \<open>Whether a character starts here, and the length of the character or of the invalid part.\<close>

definition utf8_head :: "bytes \<Rightarrow> bool \<times> nat" where
  "utf8_head b =
     (let a = byte_at 0 b; b1 = byte_at 1 b; b2 = byte_at 2 b; b3 = byte_at 3 b in
      if a < 0x80 then (True, 1)
      else if 0xC2 \<le> a \<and> a \<le> 0xDF then (if continues b1 then (True, 2) else (False, 1))
      else if 0xE0 \<le> a \<and> a \<le> 0xEF then
        (if \<not> second_of_three a b1 then (False, 1) else if continues b2 then (True, 3) else (False, 2))
      else if 0xF0 \<le> a \<and> a \<le> 0xF4 then
        (if \<not> second_of_four a b1 then (False, 1) else if \<not> continues b2 then (False, 2)
         else if continues b3 then (True, 4) else (False, 3))
      else (False, 1))"

lemma utf8_head_pos: "0 < snd (utf8_head b)"
  by (simp add: utf8_head_def Let_def)

function utf8_valid :: "bytes \<Rightarrow> bool" where
  "utf8_valid b =
     (if b = [] then True
      else if fst (utf8_head b) then utf8_valid (drop (snd (utf8_head b)) b)
      else False)"
  by pat_completeness auto
termination
  by (relation "measure length") (auto simp: utf8_head_pos)

function utf8_lossy :: "bytes \<Rightarrow> bytes" where
  "utf8_lossy b =
     (if b = [] then []
      else (if fst (utf8_head b) then take (snd (utf8_head b)) b else [0xEF, 0xBF, 0xBD]) @
        utf8_lossy (drop (snd (utf8_head b)) b))"
  by pat_completeness auto
termination
  by (relation "measure length") (auto simp: utf8_head_pos)

declare utf8_valid.simps [simp del] utf8_lossy.simps [simp del]

definition from_utf8 :: "bytes \<Rightarrow> string option" where
  "from_utf8 b = (if utf8_valid b then Some (bytes_str b) else None)"

definition from_utf8_lossy :: "bytes \<Rightarrow> string" where
  "from_utf8_lossy b = bytes_str (utf8_lossy b)"

lemma utf8_lossy_valid: "utf8_valid b \<Longrightarrow> utf8_lossy b = b"
proof (induction b rule: utf8_valid.induct)
  case (1 b)
  show ?case
  proof (cases "b = []")
    case True
    then show ?thesis by (simp add: utf8_lossy.simps)
  next
    case False
    then have "fst (utf8_head b)" "utf8_valid (drop (snd (utf8_head b)) b)"
      using "1.prems" by (simp_all add: utf8_valid.simps [of b] split: if_splits)
    with "1.IH" False show ?thesis by (simp add: utf8_lossy.simps [of b])
  qed
qed

text \<open>The invariant of a string value.\<close>

definition text_wf :: "string \<Rightarrow> bool" where
  "text_wf s \<longleftrightarrow> utf8_valid (str_bytes s)"

lemma from_utf8_str: "text_wf s \<Longrightarrow> from_utf8 (str_bytes s) = Some s"
  by (simp add: from_utf8_def text_wf_def)

lemma from_utf8_lossy_str: "text_wf s \<Longrightarrow> from_utf8_lossy (str_bytes s) = s"
  by (simp add: from_utf8_lossy_def utf8_lossy_valid text_wf_def)

lemma ascii_text_wf: "list_all (\<lambda>c. char_byte c < 0x80) s \<Longrightarrow> text_wf s"
proof (induction s)
  case Nil
  then show ?case by (simp add: text_wf_def str_bytes_def utf8_valid.simps)
next
  case (Cons c s)
  have "utf8_head (str_bytes (c # s)) = (True, 1)" using Cons.prems by (simp add: utf8_head_def byte_at_def str_bytes_def)
  then have "text_wf (c # s) = utf8_valid (drop 1 (str_bytes (c # s)))"
    unfolding text_wf_def by (subst utf8_valid.simps) (simp add: str_bytes_def)
  then show ?case using Cons by (simp add: text_wf_def str_bytes_def)
qed

end
