(* ===== verification/Wal_Snapshot.thy ===== *)
theory Wal_Snapshot
  imports State_Store Utf8_Text
begin

text \<open>
  The write-ahead snapshot store of \<^verbatim>\<open>ext/advisory_lock/src/wal_snapshot.rs\<close>. The
  engine behind the C interface (its codecs, rings and file) is third-party code: the record
  \<open>wal_engine\<close> holds its calls, over a state of the engine that the store threads through.
  Result codes are integers. The single-thread contract is the threading itself.
\<close>

section \<open>Sizes and codes\<close>

definition WAL_RECORD_SIZE :: nat where "WAL_RECORD_SIZE = 64"
definition DEFAULT_CAPACITY :: u32 where "DEFAULT_CAPACITY = 1024"
definition DEFAULT_CAPACITY_MARKER :: u32 where "DEFAULT_CAPACITY_MARKER = 0"
definition NS_PER_MS :: u64 where "NS_PER_MS = 1000000"

abbreviation (input) rc_OK :: int where "rc_OK \<equiv> 0"
abbreviation (input) EAGAIN :: int where "EAGAIN \<equiv> - 11"
abbreviation (input) EIO :: int where "EIO \<equiv> - 5"
abbreviation (input) EINVAL :: int where "EINVAL \<equiv> - 22"
abbreviation (input) ENOSPC :: int where "ENOSPC \<equiv> - 28"
abbreviation (input) ENOBUFS :: int where "ENOBUFS \<equiv> - 105"

definition wal_error :: "int \<Rightarrow> io_error" where
  "wal_error code =
     (if code = EINVAL then InvalidInput
      else if code = EAGAIN then WouldBlock
      else if code = ENOSPC then StorageFull
      else if code = ENOBUFS then InvalidData
      else OtherError)"

section \<open>Records and frames\<close>

record wal_record =
  wr_stamp :: u64
  wr_expiry :: u64
  wr_lock_id :: u64
  wr_lease_id :: u64
  wr_holder :: bytes
  wr_lease_ms :: u64
  wr_tag :: u32
  wr_checksum :: u32

text \<open>The byte image: little-endian fields, no padding.\<close>

definition record_as_bytes :: "wal_record \<Rightarrow> bytes" where
  "record_as_bytes r =
     le_bytes 8 (wr_stamp r) @ le_bytes 8 (wr_expiry r) @ le_bytes 8 (wr_lock_id r) @ le_bytes 8 (wr_lease_id r) @
     wr_holder r @ le_bytes 8 (wr_lease_ms r) @ le_bytes 4 (wr_tag r) @ le_bytes 4 (wr_checksum r)"

datatype record_kind = Live | Tombstone

definition KIND_LIVE :: u32 where "KIND_LIVE = 1"
definition KIND_TOMBSTONE :: u32 where "KIND_TOMBSTONE = 2"

definition kind_code :: "record_kind \<Rightarrow> u32" where
  "kind_code k = (case k of Live \<Rightarrow> KIND_LIVE | Tombstone \<Rightarrow> KIND_TOMBSTONE)"

definition kind_from_code :: "u32 \<Rightarrow> record_kind option" where
  "kind_from_code tag =
     (if tag = KIND_LIVE then Some Live else if tag = KIND_TOMBSTONE then Some Tombstone else None)"

record lock_record =
  lr_stamp :: u64
  lr_expiry :: u64
  lr_lock_id :: u64
  lr_lease_id :: u64
  lr_kind :: record_kind
  lr_holder :: bytes
  lr_lease_ms :: u64

definition record_live :: "u64 \<Rightarrow> u64 \<Rightarrow> u64 \<Rightarrow> u64 \<Rightarrow> bytes \<Rightarrow> u64 \<Rightarrow> lock_record" where
  "record_live stamp ex lk le ho ms =
     \<lparr>lr_stamp = stamp, lr_expiry = ex, lr_lock_id = lk, lr_lease_id = le, lr_kind = Live,
      lr_holder = ho, lr_lease_ms = ms\<rparr>"

definition record_tombstone :: "u64 \<Rightarrow> u64 \<Rightarrow> u64 \<Rightarrow> lock_record" where
  "record_tombstone stamp lk le =
     \<lparr>lr_stamp = stamp, lr_expiry = 0, lr_lock_id = lk, lr_lease_id = le, lr_kind = Tombstone,
      lr_holder = replicate 16 0, lr_lease_ms = 0\<rparr>"

definition FAT_FRAME_SIZE :: nat where "FAT_FRAME_SIZE = 768"
definition FAT_NAME_LEN_OFFSET :: nat where "FAT_NAME_LEN_OFFSET = 64"
definition FAT_NAME_OFFSET :: nat where "FAT_NAME_OFFSET = 66"
definition FAT_TAKEN_AT_OFFSET :: nat where "FAT_TAKEN_AT_OFFSET = 384"
definition FAT_RENEW_COUNT_OFFSET :: nat where "FAT_RENEW_COUNT_OFFSET = 392"
definition FAT_TAG_LEN_OFFSET :: nat where "FAT_TAG_LEN_OFFSET = 396"
definition FAT_TAG_BYTES_OFFSET :: nat where "FAT_TAG_BYTES_OFFSET = 398"

datatype durable_kind = DLive | DKept | DDelete

definition DKIND_LIVE :: u32 where "DKIND_LIVE = 1"
definition DKIND_KEPT :: u32 where "DKIND_KEPT = 2"
definition DKIND_DELETE :: u32 where "DKIND_DELETE = 3"

definition durable_kind_code :: "durable_kind \<Rightarrow> u32" where
  "durable_kind_code k = (case k of DLive \<Rightarrow> DKIND_LIVE | DKept \<Rightarrow> DKIND_KEPT | DDelete \<Rightarrow> DKIND_DELETE)"

definition durable_kind_from_code :: "u32 \<Rightarrow> durable_kind option" where
  "durable_kind_from_code tag =
     (if tag = DKIND_LIVE then Some DLive else if tag = DKIND_KEPT then Some DKept
      else if tag = DKIND_DELETE then Some DDelete else None)"

record fat_frame =
  ff_header :: wal_record
  ff_data :: bytes

text \<open>A field of the data area, by its offset in the frame.\<close>

definition ff_field :: "fat_frame \<Rightarrow> nat \<Rightarrow> nat \<Rightarrow> bytes" where
  "ff_field m off n = take n (drop (off - WAL_RECORD_SIZE) (ff_data m))"

definition ff_name :: "fat_frame \<Rightarrow> bytes" where
  "ff_name m = ff_field m FAT_NAME_OFFSET (unat (le_word (ff_field m FAT_NAME_LEN_OFFSET 2) :: u16))"

definition ff_taken_at_ms :: "fat_frame \<Rightarrow> u64" where
  "ff_taken_at_ms m = le_word (ff_field m FAT_TAKEN_AT_OFFSET 8)"

definition ff_renew_count :: "fat_frame \<Rightarrow> u32" where
  "ff_renew_count m = le_word (ff_field m FAT_RENEW_COUNT_OFFSET 4)"

definition ff_tag_bytes :: "fat_frame \<Rightarrow> bytes" where
  "ff_tag_bytes m = ff_field m FAT_TAG_BYTES_OFFSET (unat (le_word (ff_field m FAT_TAG_LEN_OFFSET 2) :: u16))"

definition frame_as_bytes :: "fat_frame \<Rightarrow> bytes" where
  "frame_as_bytes m = record_as_bytes (ff_header m) @ ff_data m"

record durable_frame =
  df_stamp :: u64
  df_expiry :: u64
  df_lock_id :: u64
  df_lease_id :: u64
  df_kind :: durable_kind
  df_holder :: bytes
  df_lease_ms :: u64
  df_name :: bytes
  df_taken_at_ms :: u64
  df_renew_count :: u32
  df_tag_bytes :: bytes

fun split_bytes :: "u8 \<Rightarrow> bytes \<Rightarrow> bytes list" where
  "split_bytes sep [] = [[]]"
| "split_bytes sep (b # bs) =
     (if b = sep then [] # split_bytes sep bs
      else (case split_bytes sep bs of [] \<Rightarrow> [[b]] | x # xs \<Rightarrow> (b # x) # xs))"

definition df_labels :: "durable_frame \<Rightarrow> string list" where
  "df_labels d = map from_utf8_lossy (split_bytes 10 (df_tag_bytes d))"

record durable_change =
  dc_lock_id :: u64
  dc_lease_id :: u64
  dc_holder :: bytes
  dc_expiry_ns :: u64
  dc_lease_ms :: u64
  dc_kind :: durable_kind
  dc_name_bytes :: bytes
  dc_taken_at_ms :: u64
  dc_renew_count :: u32
  dc_tag_bytes :: bytes

fun labels_to_tag_bytes :: "string list \<Rightarrow> bytes" where
  "labels_to_tag_bytes [] = []"
| "labels_to_tag_bytes [l] = str_bytes l"
| "labels_to_tag_bytes (l # ls) = str_bytes l @ 10 # labels_to_tag_bytes ls"

definition expiry_to_ns :: "u64 \<Rightarrow> u64" where
  "expiry_to_ns expiry_ms = saturating_mul expiry_ms NS_PER_MS"

definition expiry_to_ms :: "u64 \<Rightarrow> u64" where
  "expiry_to_ms expiry_ns = expiry_ns div NS_PER_MS"

section \<open>The engine\<close>

record stream_status_raw =
  sr_completed_generations :: u64
  sr_completed_records :: u64
  sr_refusals :: u64
  sr_in_flight :: u32

record status_raw =
  wsr_ephemeral :: stream_status_raw
  wsr_durable :: stream_status_raw
  wsr_last_completed_unix_ns :: u64

text \<open>
  The calls of the C interface. A load is given the size of the buffer and leaves a result
  code, the buffer and the length it reports. Opening and removing the artefact are calls on
  the same state. \<open>we_lapsed\<close> is no call: it says which expiries the engine's boot scan
  skips as past, with its allowance for clock drift.
\<close>

record 'h wal_engine =
  we_record_encode :: "wal_record \<Rightarrow> bytes option"
  we_record_decode :: "bytes \<Rightarrow> wal_record option"
  we_frame_encode :: "wal_record \<Rightarrow> bytes \<Rightarrow> u64 \<Rightarrow> u32 \<Rightarrow> bytes \<Rightarrow> bytes option"
  we_frame_decode :: "bytes \<Rightarrow> fat_frame option"
  we_open :: "path \<Rightarrow> u32 \<Rightarrow> 'h \<Rightarrow> bool \<times> 'h"
  we_close :: "'h \<Rightarrow> 'h"
  we_remove :: "path \<Rightarrow> 'h \<Rightarrow> unit io \<times> 'h"
  we_submit :: "bytes \<Rightarrow> 'h \<Rightarrow> int \<times> 'h"
  we_durable_submit :: "bytes \<Rightarrow> 'h \<Rightarrow> int \<times> 'h"
  we_pump :: "'h \<Rightarrow> int \<times> 'h"
  we_event_fd :: "'h \<Rightarrow> int"
  we_flush_sync :: "bytes \<Rightarrow> bytes \<Rightarrow> 'h \<Rightarrow> int \<times> 'h"
  we_load :: "nat \<Rightarrow> 'h \<Rightarrow> int \<times> bytes \<times> nat"
  we_load_durable :: "nat \<Rightarrow> 'h \<Rightarrow> int \<times> bytes \<times> nat"
  we_status :: "'h \<Rightarrow> int \<times> status_raw"
  we_lapsed :: "'h \<Rightarrow> u64 \<Rightarrow> bool"

definition record_encode :: "'h wal_engine \<Rightarrow> lock_record \<Rightarrow> bytes option" where
  "record_encode en r =
     we_record_encode en
       \<lparr>wr_stamp = lr_stamp r, wr_expiry = lr_expiry r, wr_lock_id = lr_lock_id r, wr_lease_id = lr_lease_id r,
        wr_holder = lr_holder r, wr_lease_ms = lr_lease_ms r, wr_tag = kind_code (lr_kind r), wr_checksum = 0\<rparr>"

definition record_decode :: "'h wal_engine \<Rightarrow> bytes \<Rightarrow> lock_record option" where
  "record_decode en b =
     Option.bind (we_record_decode en b) (\<lambda>w.
     Option.bind (kind_from_code (wr_tag w)) (\<lambda>k.
     Some \<lparr>lr_stamp = wr_stamp w, lr_expiry = wr_expiry w, lr_lock_id = wr_lock_id w, lr_lease_id = wr_lease_id w,
           lr_kind = k, lr_holder = wr_holder w, lr_lease_ms = wr_lease_ms w\<rparr>))"

definition frame_encode :: "'h wal_engine \<Rightarrow> u64 \<Rightarrow> durable_change \<Rightarrow> bytes option" where
  "frame_encode en stamp c =
     we_frame_encode en
       \<lparr>wr_stamp = stamp, wr_expiry = dc_expiry_ns c, wr_lock_id = dc_lock_id c, wr_lease_id = dc_lease_id c,
        wr_holder = dc_holder c, wr_lease_ms = dc_lease_ms c, wr_tag = durable_kind_code (dc_kind c), wr_checksum = 0\<rparr>
       (dc_name_bytes c) (dc_taken_at_ms c) (dc_renew_count c) (dc_tag_bytes c)"

definition frame_decode :: "'h wal_engine \<Rightarrow> bytes \<Rightarrow> durable_frame option" where
  "frame_decode en b =
     Option.bind (we_frame_decode en b) (\<lambda>m.
     Option.bind (durable_kind_from_code (wr_tag (ff_header m))) (\<lambda>k.
     Some \<lparr>df_stamp = wr_stamp (ff_header m), df_expiry = wr_expiry (ff_header m),
           df_lock_id = wr_lock_id (ff_header m), df_lease_id = wr_lease_id (ff_header m), df_kind = k,
           df_holder = wr_holder (ff_header m), df_lease_ms = wr_lease_ms (ff_header m), df_name = ff_name m,
           df_taken_at_ms = ff_taken_at_ms m, df_renew_count = ff_renew_count m, df_tag_bytes = ff_tag_bytes m\<rparr>))"

definition wal_encode_record :: "'h wal_engine \<Rightarrow> lock_record \<Rightarrow> bytes io" where
  "wal_encode_record en r =
     (case record_encode en r of None \<Rightarrow> Inl (wal_error EINVAL) | Some b \<Rightarrow> Inr b)"

definition wal_encode_frame :: "'h wal_engine \<Rightarrow> u64 \<Rightarrow> durable_change \<Rightarrow> bytes io" where
  "wal_encode_frame en stamp c =
     (case frame_encode en stamp c of None \<Rightarrow> Inl (wal_error EINVAL) | Some b \<Rightarrow> Inr b)"

section \<open>The store\<close>

record wal_entry =
  we_name :: string
  we_labels :: "string list"
  we_taken_at_ms :: u64
  we_renew_count :: u32
  we_lease_id :: u64
  we_kept :: bool

record wal_store =
  ws_handle :: bool
  ws_path :: path
  ws_capacity :: u32
  ws_changed :: "u64 list"
  ws_durable :: "(u64, wal_entry) btree"
  ws_dead :: bool

text \<open>A path with a NUL byte has no C string; a null handle is a refusal.\<close>

definition wal_open_handle :: "'h wal_engine \<Rightarrow> path \<Rightarrow> u32 \<Rightarrow> 'h \<Rightarrow> unit io \<times> 'h" where
  "wal_open_handle en p capacity h =
     (if list_ex (\<lambda>c. list_ex (\<lambda>x. char_byte x = 0) c) p then (Inl InvalidInput, h)
      else (case we_open en p capacity h of (ok, h') \<Rightarrow> (if ok then Inr () else Inl InvalidData, h')))"

definition wal_new_with_capacity :: "'h wal_engine \<Rightarrow> path \<Rightarrow> u32 \<Rightarrow> 'h \<Rightarrow> wal_store io \<times> 'h" where
  "wal_new_with_capacity en p capacity h =
     (case wal_open_handle en p capacity h of
        (Inl e, h') \<Rightarrow> (Inl e, h')
      | (Inr _, h') \<Rightarrow>
          (Inr \<lparr>ws_handle = True, ws_path = p,
                ws_capacity = (if capacity = DEFAULT_CAPACITY_MARKER then DEFAULT_CAPACITY else capacity),
                ws_changed = [], ws_durable = [], ws_dead = False\<rparr>, h'))"

definition wal_new :: "'h wal_engine \<Rightarrow> path \<Rightarrow> 'h \<Rightarrow> wal_store io \<times> 'h" where
  "wal_new en p = wal_new_with_capacity en p DEFAULT_CAPACITY_MARKER"

definition wal_note :: "u64 \<Rightarrow> wal_store \<Rightarrow> wal_store io" where
  "wal_note lk st =
     (if lk = 0 then Inl Panicked else Inr (st\<lparr>ws_changed := bs_insert lk (ws_changed st)\<rparr>))"

definition or_empty :: "string list option \<Rightarrow> string list" where
  "or_empty x = (case x of None \<Rightarrow> [] | Some ls \<Rightarrow> ls)"

definition entry_of_lease :: "string \<Rightarrow> lease \<Rightarrow> wal_entry" where
  "entry_of_lease nm l =
     \<lparr>we_name = nm, we_labels = or_empty (labels l), we_taken_at_ms = taken_at_ms l, we_renew_count = renew_count l,
      we_lease_id = lease_id l, we_kept = (expiry l = 0)\<rparr>"

definition change_live :: "u64 \<Rightarrow> string \<Rightarrow> lease \<Rightarrow> durable_change" where
  "change_live lk nm l =
     \<lparr>dc_lock_id = lk, dc_lease_id = lease_id l, dc_holder = be_bytes 16 (holder l),
      dc_expiry_ns = expiry_to_ns (expiry l), dc_lease_ms = lease_ms l, dc_kind = DLive, dc_name_bytes = str_bytes nm,
      dc_taken_at_ms = taken_at_ms l, dc_renew_count = renew_count l,
      dc_tag_bytes = labels_to_tag_bytes (or_empty (labels l))\<rparr>"

definition change_kept_from_lease :: "u64 \<Rightarrow> string \<Rightarrow> lease \<Rightarrow> durable_change" where
  "change_kept_from_lease lk nm l =
     \<lparr>dc_lock_id = lk, dc_lease_id = lease_id l, dc_holder = replicate 16 0, dc_expiry_ns = 0, dc_lease_ms = 0,
      dc_kind = DKept, dc_name_bytes = str_bytes nm, dc_taken_at_ms = taken_at_ms l, dc_renew_count = renew_count l,
      dc_tag_bytes = labels_to_tag_bytes (or_empty (labels l))\<rparr>"

definition change_kept :: "u64 \<Rightarrow> wal_entry \<Rightarrow> durable_change" where
  "change_kept lk e =
     \<lparr>dc_lock_id = lk, dc_lease_id = we_lease_id e, dc_holder = replicate 16 0, dc_expiry_ns = 0, dc_lease_ms = 0,
      dc_kind = DKept, dc_name_bytes = str_bytes (we_name e), dc_taken_at_ms = we_taken_at_ms e,
      dc_renew_count = we_renew_count e, dc_tag_bytes = labels_to_tag_bytes (we_labels e)\<rparr>"

definition change_of_lease :: "u64 \<Rightarrow> string \<Rightarrow> lease \<Rightarrow> durable_change" where
  "change_of_lease lk nm l =
     (if expiry l = 0 then change_kept_from_lease lk nm l else change_live lk nm l)"

definition live_record :: "u64 \<Rightarrow> u64 \<Rightarrow> lease \<Rightarrow> lock_record" where
  "live_record stamp lk l =
     record_live stamp (expiry_to_ns (expiry l)) lk (lease_id l) (be_bytes 16 (holder l)) (lease_ms l)"

subsection \<open>The tick\<close>

text \<open>One noted lock: its bytes for the two streams, and the bookkeeping, which stays
  changed when the encoding is refused.\<close>

definition submit_one ::
  "'h wal_engine \<Rightarrow> u64 \<Rightarrow> state_snapshot \<Rightarrow> u64 \<Rightarrow> (u64, wal_entry) btree \<Rightarrow>
   (bytes \<times> bytes) io \<times> (u64, wal_entry) btree" where
  "submit_one en stamp snap lk durable =
     (case bt_get (locks snap) lk of
        Some l \<Rightarrow>
          (case name l of
             Some nm \<Rightarrow>
               (try_bind (wal_encode_frame en stamp (change_of_lease lk nm l)) (\<lambda>fr. Inr ([], fr)),
                bt_insert lk (entry_of_lease nm l) durable)
           | None \<Rightarrow>
               (try_bind (wal_encode_record en (live_record stamp lk l)) (\<lambda>rec. Inr (rec, [])), durable))
      | None \<Rightarrow>
          (case bt_get durable lk of
             Some entry \<Rightarrow>
               if we_kept entry then (Inr ([], []), durable)
               else
                 (let entry' = entry\<lparr>we_kept := True\<rparr> in
                  (try_bind (wal_encode_frame en stamp (change_kept lk entry')) (\<lambda>fr. Inr ([], fr)),
                   bt_insert lk entry' durable))
           | None \<Rightarrow>
               (try_bind (wal_encode_record en (record_tombstone stamp lk 0)) (\<lambda>rec. Inr (rec, [])), durable)))"

fun submit_all ::
  "'h wal_engine \<Rightarrow> u64 \<Rightarrow> state_snapshot \<Rightarrow> u64 list \<Rightarrow> bytes \<Rightarrow> bytes \<Rightarrow> (u64, wal_entry) btree \<Rightarrow>
   (bytes \<times> bytes) io \<times> (u64, wal_entry) btree" where
  "submit_all en stamp snap [] records frames durable = (Inr (records, frames), durable)"
| "submit_all en stamp snap (lk # lks) records frames durable =
     (case submit_one en stamp snap lk durable of
        (Inl e, durable') \<Rightarrow> (Inl e, durable')
      | (Inr (rec, fr), durable') \<Rightarrow>
          submit_all en stamp snap lks (records @ rec) (frames @ fr) durable')"

definition wal_checked :: "int \<Rightarrow> unit io" where
  "wal_checked rc = (if rc = rc_OK then Inr () else Inl (wal_error rc))"

definition wal_submit ::
  "'h wal_engine \<Rightarrow> u64 \<Rightarrow> state_snapshot \<Rightarrow> wal_store \<Rightarrow> 'h \<Rightarrow> nat io \<times> wal_store \<times> 'h" where
  "wal_submit en stamp snap st h =
     (if ws_changed st = [] then (Inr 0, st, h)
      else if ws_dead st then (Inl (wal_error EIO), st, h)
      else
        (case submit_all en stamp snap (ws_changed st) [] [] (ws_durable st) of
           (Inl e, durable) \<Rightarrow> (Inl e, st\<lparr>ws_durable := durable\<rparr>, h)
         | (Inr (records, frames), durable) \<Rightarrow>
             (let st = st\<lparr>ws_durable := durable\<rparr>;
                  (rc1, h1) = (if records = [] then (rc_OK, h) else we_submit en records h) in
              case wal_checked rc1 of
                Inl e \<Rightarrow> (Inl e, st, h1)
              | Inr _ \<Rightarrow>
                  (let (rc2, h2) = (if frames = [] then (rc_OK, h1) else we_durable_submit en frames h1) in
                   case wal_checked rc2 of
                     Inl e \<Rightarrow> (Inl e, st, h2)
                   | Inr _ \<Rightarrow>
                       (Inr (length records div WAL_RECORD_SIZE + length frames div FAT_FRAME_SIZE),
                        st\<lparr>ws_changed := []\<rparr>, h2)))))"

definition wal_pump :: "'h wal_engine \<Rightarrow> wal_store \<Rightarrow> 'h \<Rightarrow> unit io \<times> 'h" where
  "wal_pump en st h =
     (if ws_dead st then (Inl (wal_error EIO), h)
      else (case we_pump en h of (rc, h') \<Rightarrow> (wal_checked rc, h')))"

subsection \<open>Forgetting the artefact\<close>

fun wal_reopen :: "'h wal_engine \<Rightarrow> nat \<Rightarrow> path \<Rightarrow> 'h \<Rightarrow> bool \<times> 'h" where
  "wal_reopen en 0 p h = (False, h)"
| "wal_reopen en (Suc n) p h =
     (case wal_open_handle en p DEFAULT_CAPACITY_MARKER h of
        (Inr _, h') \<Rightarrow> (True, h')
      | (Inl _, h') \<Rightarrow> wal_reopen en n p h')"

definition wal_forget_artifact :: "'h wal_engine \<Rightarrow> wal_store \<Rightarrow> 'h \<Rightarrow> wal_store \<times> 'h" where
  "wal_forget_artifact en st h =
     (if ws_dead st then (st, h)
      else
        (let st = st\<lparr>ws_handle := False\<rparr> in
         case we_remove en (ws_path st) (we_close en h) of
           (r, h1) \<Rightarrow>
             if r = Inr () \<or> r = Inl NotFound then
               (case wal_reopen en 3 (ws_path st) h1 of
                  (True, h2) \<Rightarrow> (st\<lparr>ws_handle := True, ws_changed := [], ws_durable := []\<rparr>, h2)
                | (False, h2) \<Rightarrow> (st\<lparr>ws_dead := True\<rparr>, h2))
             else (st\<lparr>ws_dead := True\<rparr>, h1)))"

definition wal_event_fd :: "'h wal_engine \<Rightarrow> 'h \<Rightarrow> int option" where
  "wal_event_fd en h = (if we_event_fd en h \<ge> 0 then Some (we_event_fd en h) else None)"

record stream_counters =
  sc_completed_generations :: u64
  sc_completed_records :: u64
  sc_refusals :: u64
  sc_in_flight :: u32

record store_status =
  st_ephemeral :: stream_counters
  st_durable :: stream_counters
  st_last_completed_unix_ns :: u64

definition counters_of :: "stream_status_raw \<Rightarrow> stream_counters" where
  "counters_of raw =
     \<lparr>sc_completed_generations = sr_completed_generations raw, sc_completed_records = sr_completed_records raw,
      sc_refusals = sr_refusals raw, sc_in_flight = sr_in_flight raw\<rparr>"

definition status_of_raw :: "status_raw \<Rightarrow> store_status" where
  "status_of_raw raw =
     \<lparr>st_ephemeral = counters_of (wsr_ephemeral raw), st_durable = counters_of (wsr_durable raw),
      st_last_completed_unix_ns = wsr_last_completed_unix_ns raw\<rparr>"

definition wal_status :: "'h wal_engine \<Rightarrow> wal_store \<Rightarrow> 'h \<Rightarrow> store_status io" where
  "wal_status en st h =
     (if ws_dead st then Inl (wal_error EIO)
      else (case we_status en h of (rc, raw) \<Rightarrow> if rc = rc_OK then Inr (status_of_raw raw) else Inl (wal_error rc)))"

subsection \<open>The stop's flush\<close>

fun flush_leases ::
  "'h wal_engine \<Rightarrow> u64 \<Rightarrow> (u64 \<times> lease) list \<Rightarrow> bytes \<Rightarrow> bytes \<Rightarrow> (u64, wal_entry) btree \<Rightarrow>
   (bytes \<times> bytes) io \<times> (u64, wal_entry) btree" where
  "flush_leases en stamp [] records frames durable = (Inr (records, frames), durable)"
| "flush_leases en stamp ((lk, l) # ls) records frames durable =
     (if lk = 0 then (Inl Panicked, durable)
      else
        (case name l of
           Some nm \<Rightarrow>
             (case wal_encode_frame en stamp (change_of_lease lk nm l) of
                Inl e \<Rightarrow> (Inl e, durable)
              | Inr fr \<Rightarrow>
                  flush_leases en stamp ls records (frames @ fr) (bt_insert lk (entry_of_lease nm l) durable))
         | None \<Rightarrow>
             (case wal_encode_record en (live_record stamp lk l) of
                Inl e \<Rightarrow> (Inl e, durable)
              | Inr rec \<Rightarrow> flush_leases en stamp ls (records @ rec) frames durable)))"

definition named_in_snap :: "state_snapshot \<Rightarrow> u64 \<Rightarrow> bool" where
  "named_in_snap snap lk = (case bt_get (locks snap) lk of None \<Rightarrow> False | Some l \<Rightarrow> name l \<noteq> None)"

definition mark_kept :: "state_snapshot \<Rightarrow> (u64, wal_entry) btree \<Rightarrow> (u64, wal_entry) btree" where
  "mark_kept snap durable =
     bt_map (\<lambda>lk e. if named_in_snap snap lk then e else e\<lparr>we_kept := True\<rparr>) durable"

definition kept_entries :: "state_snapshot \<Rightarrow> (u64, wal_entry) btree \<Rightarrow> (u64 \<times> wal_entry) list" where
  "kept_entries snap durable = filter (\<lambda>(lk, e). we_kept e \<and> \<not> named_in_snap snap lk) durable"

fun flush_kept :: "'h wal_engine \<Rightarrow> u64 \<Rightarrow> (u64 \<times> wal_entry) list \<Rightarrow> bytes \<Rightarrow> bytes io" where
  "flush_kept en stamp [] frames = Inr frames"
| "flush_kept en stamp ((lk, e) # es) frames =
     (case wal_encode_frame en stamp (change_kept lk e) of
        Inl err \<Rightarrow> Inl err
      | Inr fr \<Rightarrow> flush_kept en stamp es (frames @ fr))"

definition wal_flush ::
  "'h wal_engine \<Rightarrow> u64 \<Rightarrow> state_snapshot \<Rightarrow> wal_store \<times> 'h \<Rightarrow> unit io \<times> wal_store \<times> 'h" where
  "wal_flush en stamp snap = (\<lambda>(st, h).
     if ws_dead st then (Inl (wal_error EIO), st, h)
     else
       (case flush_leases en stamp (locks snap) [] [] (ws_durable st) of
          (Inl e, durable) \<Rightarrow> (Inl e, st\<lparr>ws_durable := durable\<rparr>, h)
        | (Inr (records, frames), durable) \<Rightarrow>
            (let durable = mark_kept snap durable; st = st\<lparr>ws_durable := durable\<rparr> in
             case flush_kept en stamp (kept_entries snap durable) frames of
               Inl e \<Rightarrow> (Inl e, st, h)
             | Inr frames \<Rightarrow>
                 (case we_flush_sync en records frames h of (rc, h') \<Rightarrow> (wal_checked rc, st, h')))))"

subsection \<open>The lazy load\<close>

function chunks_exact :: "nat \<Rightarrow> 'a list \<Rightarrow> 'a list list" where
  "chunks_exact n xs = (if n = 0 \<or> length xs < n then [] else take n xs # chunks_exact n (drop n xs))"
  by pat_completeness auto
termination
  by (relation "measure (\<lambda>(n, xs). length xs)") auto

declare chunks_exact.simps [simp del]

definition snapshot_of_locks :: "(u64, lease) btree \<Rightarrow> state_snapshot" where
  "snapshot_of_locks ls = \<lparr>locks = ls, generations = bt_map (\<lambda>_ l. lease_id l) ls\<rparr>"

definition lease_of_record :: "lock_record \<Rightarrow> lease" where
  "lease_of_record r =
     \<lparr>lease_id = lr_lease_id r, holder = be_word (lr_holder r), expiry = expiry_to_ms (lr_expiry r),
      lease_ms = lr_lease_ms r, name = None, labels = None, taken_at_ms = 0, renew_count = 0\<rparr>"

fun decode_record_chunks :: "'h wal_engine \<Rightarrow> bytes list \<Rightarrow> (u64, lease) btree \<Rightarrow> (u64, lease) btree option" where
  "decode_record_chunks en [] ls = Some ls"
| "decode_record_chunks en (c # cs) ls =
     (case record_decode en c of
        None \<Rightarrow> None
      | Some r \<Rightarrow>
          (case lr_kind r of
             Tombstone \<Rightarrow> None
           | Live \<Rightarrow> decode_record_chunks en cs (bt_insert (lr_lock_id r) (lease_of_record r) ls)))"

definition decode_records :: "'h wal_engine \<Rightarrow> bytes \<Rightarrow> state_snapshot option" where
  "decode_records en b =
     map_option snapshot_of_locks (decode_record_chunks en (chunks_exact WAL_RECORD_SIZE b) [])"

definition lease_of_frame :: "string \<Rightarrow> durable_frame \<Rightarrow> lease" where
  "lease_of_frame nm d =
     \<lparr>lease_id = df_lease_id d, holder = be_word (df_holder d), expiry = expiry_to_ms (df_expiry d),
      lease_ms = df_lease_ms d, name = Some nm,
      labels = (if df_tag_bytes d = [] then None else Some (df_labels d)),
      taken_at_ms = df_taken_at_ms d, renew_count = df_renew_count d\<rparr>"

fun decode_frame_chunks :: "'h wal_engine \<Rightarrow> bytes list \<Rightarrow> (u64, lease) btree \<Rightarrow> (u64, lease) btree option" where
  "decode_frame_chunks en [] ls = Some ls"
| "decode_frame_chunks en (c # cs) ls =
     (case frame_decode en c of
        None \<Rightarrow> None
      | Some d \<Rightarrow>
          if df_kind d = DDelete then None
          else
            (case from_utf8 (df_name d) of
               None \<Rightarrow> None
             | Some nm \<Rightarrow> decode_frame_chunks en cs (bt_insert (df_lock_id d) (lease_of_frame nm d) ls)))"

definition decode_frames :: "'h wal_engine \<Rightarrow> bytes \<Rightarrow> state_snapshot option" where
  "decode_frames en b =
     map_option snapshot_of_locks (decode_frame_chunks en (chunks_exact FAT_FRAME_SIZE b) [])"

text \<open>One stream's read: whether it was found, and its content when it can be trusted.\<close>

definition load_stream ::
  "(bytes \<Rightarrow> state_snapshot option) \<Rightarrow> nat \<Rightarrow> int \<times> bytes \<times> nat \<Rightarrow> (bool \<times> state_snapshot option) io" where
  "load_stream dec room answer =
     (case answer of (rc, buf, out_len) \<Rightarrow>
        if rc = rc_OK then
          (if out_len > room then Inl (wal_error ENOBUFS) else Inr (True, dec (take out_len buf)))
        else if rc = 1 then Inr (False, Some \<lparr>locks = [], generations = []\<rparr>)
        else Inl (wal_error rc))"

definition merge_streams :: "bool \<times> state_snapshot option \<Rightarrow> bool \<times> state_snapshot option \<Rightarrow> state_snapshot option" where
  "merge_streams eph dur =
     (case (eph, dur) of
        ((ef, Some e), (df, Some d)) \<Rightarrow>
          if \<not> ef \<and> \<not> df then None
          else if list_ex (\<lambda>k. bt_get (locks d) k \<noteq> None) (map fst (locks e)) then None
          else Some \<lparr>locks = bt_append (locks e) (locks d), generations = bt_append (generations e) (generations d)\<rparr>
      | _ \<Rightarrow> None)"

definition wal_load :: "'h wal_engine \<Rightarrow> wal_store \<times> 'h \<Rightarrow> state_snapshot option io \<times> wal_store \<times> 'h" where
  "wal_load en = (\<lambda>(st, h).
     (if ws_dead st then Inr None
      else
        (let n = unat (ws_capacity st) in
         try_bind (load_stream (decode_records en) (n * WAL_RECORD_SIZE) (we_load en (n * WAL_RECORD_SIZE) h)) (\<lambda>eph.
         try_bind (load_stream (decode_frames en) (n * FAT_FRAME_SIZE) (we_load_durable en (n * FAT_FRAME_SIZE) h)) (\<lambda>dur.
         Inr (merge_streams eph dur)))), st, h))"

end
