(* ===== verification/Wal_Props.thy ===== *)
theory Wal_Props
  imports Wal_Snapshot "HOL-Library.Multiset"
begin

text \<open>
  What the write-ahead snapshot store promises: a load after a reported flush finds exactly
  the view of the flushed table that the two streams can carry, the store keeps the contract
  of the state seam, a refused tick keeps the changed set, and what a refused tick does to a
  released durable lock.
\<close>

section \<open>The documented behaviour of the engine\<close>

text \<open>The codecs are exact, and stamp the checksum.\<close>

definition codec_law :: "'h wal_engine \<Rightarrow> bool" where
  "codec_law en \<longleftrightarrow>
     (\<forall>r b. we_record_encode en r = Some b \<longrightarrow>
        length b = WAL_RECORD_SIZE \<and> (\<exists>c. we_record_decode en b = Some (r\<lparr>wr_checksum := c\<rparr>))) \<and>
     (\<forall>r nm t n tg b. we_frame_encode en r nm t n tg = Some b \<longrightarrow>
        length b = FAT_FRAME_SIZE \<and>
        (\<exists>m c. we_frame_decode en b = Some m \<and> ff_header m = r\<lparr>wr_checksum := c\<rparr> \<and> ff_name m = nm \<and>
          ff_taken_at_ms m = t \<and> ff_renew_count m = n \<and> ff_tag_bytes m = tg))"

text \<open>
  The boot read of one stream: the live set, in some order, without the members that have
  lapsed; the code 1 for none; any other code is an error.
\<close>

definition stream_law :: "(bytes \<Rightarrow> bool) \<Rightarrow> nat \<Rightarrow> bytes \<Rightarrow> int \<times> bytes \<times> nat \<Rightarrow> bool" where
  "stream_law lapsed k live answer \<longleftrightarrow>
     (case answer of (rc, buf, out_len) \<Rightarrow>
        (rc = rc_OK \<longrightarrow>
           filter_mset (\<lambda>c. \<not> lapsed c) (mset (chunks_exact k live)) \<noteq> {#} \<and>
           mset (chunks_exact k (take out_len buf)) = filter_mset (\<lambda>c. \<not> lapsed c) (mset (chunks_exact k live))) \<and>
        (rc = 1 \<longrightarrow> filter_mset (\<lambda>c. \<not> lapsed c) (mset (chunks_exact k live)) = {#}))"

definition record_lapsed :: "'h wal_engine \<Rightarrow> 'h \<Rightarrow> bytes \<Rightarrow> bool" where
  "record_lapsed en h c = (case we_record_decode en c of None \<Rightarrow> False | Some r \<Rightarrow> we_lapsed en h (wr_expiry r))"

definition frame_lapsed :: "'h wal_engine \<Rightarrow> 'h \<Rightarrow> bytes \<Rightarrow> bool" where
  "frame_lapsed en h c = (case we_frame_decode en c of None \<Rightarrow> False | Some m \<Rightarrow> we_lapsed en h (wr_expiry (ff_header m)))"

definition flush_law :: "'h wal_engine \<Rightarrow> bool" where
  "flush_law en \<longleftrightarrow>
     (\<forall>records frames h h' n. we_flush_sync en records frames h = (rc_OK, h') \<longrightarrow>
        stream_law (record_lapsed en h') WAL_RECORD_SIZE records (we_load en n h') \<and>
        stream_law (frame_lapsed en h') FAT_FRAME_SIZE frames (we_load_durable en n h'))"

section \<open>Chunks\<close>

lemma chunks_exact_Nil [simp]: "0 < n \<Longrightarrow> chunks_exact n [] = []"
  by (simp add: chunks_exact.simps)

lemma chunks_exact_append:
  "length c = n \<Longrightarrow> 0 < n \<Longrightarrow> chunks_exact n (c @ xs) = c # chunks_exact n xs"
  by (subst chunks_exact.simps) simp

lemma chunks_exact_concat:
  "0 < n \<Longrightarrow> list_all (\<lambda>c. length c = n) cs \<Longrightarrow> chunks_exact n (concat cs) = cs"
  by (induction cs) (simp_all add: chunks_exact_append)

lemmas wal_sizes = WAL_RECORD_SIZE_def FAT_FRAME_SIZE_def

section \<open>Labels\<close>

definition label_wf :: "string \<Rightarrow> bool" where
  "label_wf l \<longleftrightarrow> text_wf l \<and> list_all (\<lambda>c. char_byte c \<noteq> 10) l"

lemma split_bytes_ne: "split_bytes s b \<noteq> []"
  by (induction b) (auto split: list.split)

lemma split_bytes_clean: "list_all (\<lambda>b. b \<noteq> s) b \<Longrightarrow> split_bytes s b = [b]"
  by (induction b) auto

lemma split_bytes_sep: "list_all (\<lambda>b. b \<noteq> s) a \<Longrightarrow> split_bytes s (a @ s # b) = a # split_bytes s b"
  by (induction a) auto

lemma split_tag_bytes:
  "ls \<noteq> [] \<Longrightarrow> list_all label_wf ls \<Longrightarrow> map from_utf8_lossy (split_bytes 10 (labels_to_tag_bytes ls)) = ls"
proof (induction ls rule: labels_to_tag_bytes.induct)
  case (2 l)
  then have "split_bytes 10 (str_bytes l) = [str_bytes l]"
    by (intro split_bytes_clean) (simp add: label_wf_def str_bytes_def list_all_iff)
  with 2 show ?case by (simp add: label_wf_def from_utf8_lossy_str)
next
  case (3 l l' ls)
  then have "split_bytes 10 (str_bytes l @ 10 # labels_to_tag_bytes (l' # ls)) =
      str_bytes l # split_bytes 10 (labels_to_tag_bytes (l' # ls))"
    by (intro split_bytes_sep) (simp add: label_wf_def str_bytes_def list_all_iff)
  with 3 show ?case by (simp add: label_wf_def from_utf8_lossy_str)
qed simp

lemma tag_bytes_Nil: "labels_to_tag_bytes ls = [] \<longleftrightarrow> ls = [] \<or> ls = [[]]"
  by (cases ls rule: labels_to_tag_bytes.cases) (simp_all add: str_bytes_def)

text \<open>What comes back of a label list: the empty one and the one empty label read as none.\<close>

definition labels_view :: "string list option \<Rightarrow> string list option" where
  "labels_view x = (let ls = or_empty x in if ls = [] \<or> ls = [[]] then None else Some ls)"

section \<open>The view\<close>

definition lease_view :: "lease \<Rightarrow> lease" where
  "lease_view l =
     (case name l of
        None \<Rightarrow> l\<lparr>expiry := expiry_to_ms (expiry_to_ns (expiry l)), labels := None, taken_at_ms := 0, renew_count := 0\<rparr>
      | Some _ \<Rightarrow>
          if expiry l = 0 then l\<lparr>holder := 0, lease_ms := 0, labels := labels_view (labels l)\<rparr>
          else l\<lparr>expiry := expiry_to_ms (expiry_to_ns (expiry l)), labels := labels_view (labels l)\<rparr>)"

definition kept_view :: "wal_entry \<Rightarrow> lease" where
  "kept_view e =
     \<lparr>lease_id = we_lease_id e, holder = 0, expiry = 0, lease_ms = 0, name = Some (we_name e),
      labels = labels_view (Some (we_labels e)), taken_at_ms = we_taken_at_ms e, renew_count = we_renew_count e\<rparr>"

text \<open>The unnamed leases, the named leases and the released named locks that have not lapsed.\<close>

definition eph_view :: "'h wal_engine \<Rightarrow> 'h \<Rightarrow> state_snapshot \<Rightarrow> (u64, lease) btree" where
  "eph_view en h snap =
     bt_map (\<lambda>_. lease_view)
       (filter (\<lambda>(_, l). name l = None \<and> \<not> we_lapsed en h (expiry_to_ns (expiry l))) (locks snap))"

definition named_view :: "'h wal_engine \<Rightarrow> 'h \<Rightarrow> state_snapshot \<Rightarrow> (u64, lease) btree" where
  "named_view en h snap =
     bt_map (\<lambda>_. lease_view)
       (filter (\<lambda>(_, l). name l \<noteq> None \<and> \<not> we_lapsed en h (expiry_to_ns (expiry l))) (locks snap))"

definition released_view :: "'h wal_engine \<Rightarrow> wal_store \<times> 'h \<Rightarrow> state_snapshot \<Rightarrow> (u64, lease) btree" where
  "released_view en = (\<lambda>(st, h) snap.
     bt_map (\<lambda>_. kept_view)
       (filter (\<lambda>(k, e). \<not> named_in_snap snap k \<and> \<not> we_lapsed en h 0) (ws_durable st)))"

definition dur_view :: "'h wal_engine \<Rightarrow> wal_store \<times> 'h \<Rightarrow> state_snapshot \<Rightarrow> (u64, lease) btree" where
  "dur_view en s snap = bt_append (named_view en (snd s) snap) (released_view en s snap)"

text \<open>An id in both streams is content nothing vouches for, and the whole load answers none.\<close>

definition wal_view :: "'h wal_engine \<Rightarrow> wal_store \<times> 'h \<Rightarrow> state_snapshot \<Rightarrow> state_snapshot option" where
  "wal_view en s snap =
     (let e = eph_view en (snd s) snap; d = dur_view en s snap in
      if e = [] \<and> d = [] then None
      else if list_ex (\<lambda>k. bt_get d k \<noteq> None) (map fst e) then None
      else Some (snapshot_of_locks (bt_append e d)))"

section \<open>Decoding what was encoded\<close>

definition record_pair :: "'h wal_engine \<Rightarrow> bytes \<Rightarrow> (u64 \<times> lease) option" where
  "record_pair en c =
     (case record_decode en c of
        None \<Rightarrow> None
      | Some r \<Rightarrow> (case lr_kind r of Tombstone \<Rightarrow> None | Live \<Rightarrow> Some (lr_lock_id r, lease_of_record r)))"

definition frame_pair :: "'h wal_engine \<Rightarrow> bytes \<Rightarrow> (u64 \<times> lease) option" where
  "frame_pair en c =
     (case frame_decode en c of
        None \<Rightarrow> None
      | Some d \<Rightarrow>
          if df_kind d = DDelete then None
          else map_option (\<lambda>nm. (df_lock_id d, lease_of_frame nm d)) (from_utf8 (df_name d)))"

definition insert_pairs :: "(u64 \<times> lease) list \<Rightarrow> (u64, lease) btree \<Rightarrow> (u64, lease) btree" where
  "insert_pairs ps ls = fold (\<lambda>p. bt_insert (fst p) (snd p)) ps ls"

lemma decode_record_chunks_pairs:
  "decode_record_chunks en cs ls = map_option (\<lambda>ps. insert_pairs ps ls) (those (map (record_pair en) cs))"
  by (induction cs arbitrary: ls)
    (auto simp: insert_pairs_def record_pair_def option.map_comp comp_def split: option.splits record_kind.splits)

lemma decode_frame_chunks_pairs:
  "decode_frame_chunks en cs ls = map_option (\<lambda>ps. insert_pairs ps ls) (those (map (frame_pair en) cs))"
  by (induction cs arbitrary: ls)
    (auto simp: insert_pairs_def frame_pair_def option.map_comp comp_def split: option.splits)

lemma those_Some: "list_all (\<lambda>c. f c = Some (g c)) cs \<Longrightarrow> those (map f cs) = Some (map g cs)"
  by (induction cs) auto

lemma insert_pairs_wf: "bt_wf m \<Longrightarrow> bt_wf (insert_pairs ps m)"
  unfolding insert_pairs_def by (induction ps arbitrary: m) auto

lemma insert_pairs_get:
  "distinct (map fst ps) \<Longrightarrow> bt_get (insert_pairs ps m) k = (case map_of ps k of None \<Rightarrow> bt_get m k | Some v \<Rightarrow> Some v)"
proof (induction ps arbitrary: m)
  case Nil
  then show ?case by (simp add: insert_pairs_def)
next
  case (Cons p ps)
  have "insert_pairs (p # ps) m = insert_pairs ps (bt_insert (fst p) (snd p) m)" by (simp add: insert_pairs_def)
  moreover have "map_of ps (fst p) = None" using Cons.prems by (simp add: map_of_eq_None_iff)
  ultimately show ?case using Cons by (auto simp: bt_get_insert split: option.splits)
qed

text \<open>The order in which the pairs come back does not matter.\<close>

lemma insert_pairs_btree:
  assumes "mset ps = mset m" and "bt_wf m"
  shows "insert_pairs ps [] = m"
proof (rule bt.map_extensional)
  show "bt_wf (insert_pairs ps [])" by (rule insert_pairs_wf) simp
  have "distinct (map fst m)" using assms(2) by (simp add: bt_wf_def strict_sorted_iff)
  moreover have "mset (map fst ps) = mset (map fst m)" using assms(1) by simp
  ultimately have d: "distinct (map fst ps)" "distinct (map fst m)" using mset_eq_imp_distinct_iff by blast+
  have "set ps = set m" using assms(1) by (rule mset_eq_setD)
  then have "map_of ps = map_of m" using map_of_inject_set [OF d] by simp
  then show "bt_get (insert_pairs ps []) = bt_get m"
    using insert_pairs_get [OF d(1)] by (auto simp: bt_get_def fun_eq_iff split: option.splits)
qed (rule assms(2))

lemma bt_insert_fresh_mset: "k \<notin> fst ` set m \<Longrightarrow> mset (bt_insert k v m) = add_mset (k, v) (mset m)"
  by (induction k v m rule: bt_insert.induct) auto

lemma bt_append_disjoint_mset:
  assumes "distinct (map fst n)" and "fst ` set m \<inter> fst ` set n = {}"
  shows "mset (bt_append m n) = mset m + mset n"
  using assms
proof (induction n arbitrary: m)
  case Nil
  then show ?case by (simp add: bt_append_def)
next
  case (Cons p n)
  have "bt_append m (p # n) = bt_append (bt_insert (fst p) (snd p) m) n" by (simp add: bt_append_def)
  moreover have "mset (bt_append (bt_insert (fst p) (snd p) m) n) = mset (bt_insert (fst p) (snd p) m) + mset n"
    using Cons.prems by (intro Cons.IH) (auto simp: keys_bt_insert)
  moreover have "mset (bt_insert (fst p) (snd p) m) = add_mset p (mset m)"
    using Cons.prems by (subst bt_insert_fresh_mset) auto
  ultimately show ?case by simp
qed

definition lease_ok :: "lease \<Rightarrow> bool" where
  "lease_ok l \<longleftrightarrow> (\<forall>nm. name l = Some nm \<longrightarrow> text_wf nm) \<and> list_all label_wf (or_empty (labels l))"

definition entry_ok :: "wal_entry \<Rightarrow> bool" where
  "entry_ok e \<longleftrightarrow> text_wf (we_name e) \<and> list_all label_wf (we_labels e)"

text \<open>The texts of a table are text and its labels have no newline; the store's own likewise.\<close>

definition snap_ok :: "state_snapshot \<Rightarrow> bool" where
  "snap_ok snap \<longleftrightarrow> bt_wf (locks snap) \<and> list_all (\<lambda>(_, l). lease_ok l) (locks snap)"

definition wal_ok :: "wal_store \<Rightarrow> bool" where
  "wal_ok st \<longleftrightarrow> bt_wf (ws_durable st) \<and> list_all (\<lambda>(_, e). entry_ok e) (ws_durable st)"

lemma labels_of_tag:
  "list_all label_wf (or_empty x) \<Longrightarrow>
     (if labels_to_tag_bytes (or_empty x) = [] then None
      else Some (map from_utf8_lossy (split_bytes 10 (labels_to_tag_bytes (or_empty x))))) = labels_view x"
  by (auto simp: labels_view_def Let_def tag_bytes_Nil split_tag_bytes)

lemma expiry_zero [simp]: "expiry_to_ns 0 = 0" "expiry_to_ms 0 = 0"
  by (simp_all add: expiry_to_ns_def expiry_to_ms_def saturating_mul_def)

lemma be_word_16_zeros [simp]: "be_word (replicate 16 0) = (0 :: uuid)"
proof -
  have "be_bytes 16 (0 :: uuid) = replicate 16 0" by (simp add: numeral_eq_Suc)
  then show ?thesis by (metis be_word_be_bytes_sizes(4))
qed

section \<open>One lock's bytes\<close>

lemma record_pair_live:
  assumes "codec_law en" and "wal_encode_record en (live_record stamp k l) = Inr b" and "name l = None"
  shows "record_pair en b = Some (k, lease_view l) \<and> length b = WAL_RECORD_SIZE \<and>
    record_lapsed en h b = we_lapsed en h (expiry_to_ns (expiry l))"
proof -
  obtain w where w: "we_record_encode en w = Some b" "wr_expiry w = expiry_to_ns (expiry l)" "wr_lock_id w = k"
      "wr_lease_id w = lease_id l" "wr_holder w = be_bytes 16 (holder l)" "wr_lease_ms w = lease_ms l" "wr_tag w = KIND_LIVE"
    using assms(2) by (auto simp: wal_encode_record_def record_encode_def live_record_def record_live_def kind_code_def
        split: option.splits)
  then obtain c where c: "length b = WAL_RECORD_SIZE" "we_record_decode en b = Some (w\<lparr>wr_checksum := c\<rparr>)"
    using assms(1) unfolding codec_law_def by blast
  have "record_pair en b = Some (k, lease_view l)"
    using c w assms(3) by (simp add: record_pair_def record_decode_def kind_from_code_def lease_of_record_def lease_view_def)
  with c w show ?thesis by (simp add: record_lapsed_def)
qed

lemma frame_pair_change:
  assumes "codec_law en" and "wal_encode_frame en stamp c = Inr b" and "dc_kind c \<noteq> DDelete"
    and "from_utf8 (dc_name_bytes c) = Some nm"
  shows "length b = FAT_FRAME_SIZE" and "frame_lapsed en h b = we_lapsed en h (dc_expiry_ns c)"
    and "frame_pair en b = Some (dc_lock_id c,
      \<lparr>lease_id = dc_lease_id c, holder = be_word (dc_holder c), expiry = expiry_to_ms (dc_expiry_ns c),
       lease_ms = dc_lease_ms c, name = Some nm,
       labels = (if dc_tag_bytes c = [] then None else Some (map from_utf8_lossy (split_bytes 10 (dc_tag_bytes c)))),
       taken_at_ms = dc_taken_at_ms c, renew_count = dc_renew_count c\<rparr>)"
proof -
  let ?w = "\<lparr>wr_stamp = stamp, wr_expiry = dc_expiry_ns c, wr_lock_id = dc_lock_id c, wr_lease_id = dc_lease_id c,
        wr_holder = dc_holder c, wr_lease_ms = dc_lease_ms c, wr_tag = durable_kind_code (dc_kind c), wr_checksum = 0\<rparr>"
  have "we_frame_encode en ?w (dc_name_bytes c) (dc_taken_at_ms c) (dc_renew_count c) (dc_tag_bytes c) = Some b"
    using assms(2) by (auto simp: wal_encode_frame_def frame_encode_def split: option.splits)
  then obtain m s where m: "length b = FAT_FRAME_SIZE" "we_frame_decode en b = Some m" "ff_header m = ?w\<lparr>wr_checksum := s\<rparr>"
      "ff_name m = dc_name_bytes c" "ff_taken_at_ms m = dc_taken_at_ms c" "ff_renew_count m = dc_renew_count c"
      "ff_tag_bytes m = dc_tag_bytes c"
    using assms(1) unfolding codec_law_def by blast
  have k: "durable_kind_from_code (durable_kind_code (dc_kind c)) = Some (dc_kind c)"
    by (cases "dc_kind c") (simp_all add: durable_kind_from_code_def durable_kind_code_def DKIND_LIVE_def DKIND_KEPT_def DKIND_DELETE_def)
  show "length b = FAT_FRAME_SIZE" "frame_lapsed en h b = we_lapsed en h (dc_expiry_ns c)"
    using m by (simp_all add: frame_lapsed_def)
  show "frame_pair en b = Some (dc_lock_id c,
      \<lparr>lease_id = dc_lease_id c, holder = be_word (dc_holder c), expiry = expiry_to_ms (dc_expiry_ns c),
       lease_ms = dc_lease_ms c, name = Some nm,
       labels = (if dc_tag_bytes c = [] then None else Some (map from_utf8_lossy (split_bytes 10 (dc_tag_bytes c)))),
       taken_at_ms = dc_taken_at_ms c, renew_count = dc_renew_count c\<rparr>)"
    using m k assms(3,4) by (simp add: frame_pair_def frame_decode_def lease_of_frame_def df_labels_def)
qed

lemma frame_pair_lease:
  assumes "codec_law en" and "wal_encode_frame en stamp (change_of_lease k nm l) = Inr b" and "name l = Some nm" and "lease_ok l"
  shows "frame_pair en b = Some (k, lease_view l) \<and> length b = FAT_FRAME_SIZE \<and>
    frame_lapsed en h b = we_lapsed en h (expiry_to_ns (expiry l))"
proof -
  have t: "from_utf8 (str_bytes nm) = Some nm" "list_all label_wf (or_empty (labels l))"
    using assms(3,4) by (simp_all add: lease_ok_def from_utf8_str)
  have "dc_kind (change_of_lease k nm l) \<noteq> DDelete" "from_utf8 (dc_name_bytes (change_of_lease k nm l)) = Some nm"
    using t by (simp_all add: change_of_lease_def change_live_def change_kept_from_lease_def)
  note p = frame_pair_change [OF assms(1,2) this]
  show ?thesis
    using p assms(3) labels_of_tag [OF t(2)]
    by (cases "expiry l = 0") (auto simp: change_of_lease_def change_live_def change_kept_from_lease_def lease_view_def)
qed

lemma frame_pair_kept:
  assumes "codec_law en" and "wal_encode_frame en stamp (change_kept k e) = Inr b" and "entry_ok e"
  shows "frame_pair en b = Some (k, kept_view e) \<and> length b = FAT_FRAME_SIZE \<and> frame_lapsed en h b = we_lapsed en h 0"
proof -
  have t: "from_utf8 (str_bytes (we_name e)) = Some (we_name e)" "list_all label_wf (or_empty (Some (we_labels e)))"
    using assms(3) by (simp_all add: entry_ok_def from_utf8_str or_empty_def)
  have "dc_kind (change_kept k e) \<noteq> DDelete" "from_utf8 (dc_name_bytes (change_kept k e)) = Some (we_name e)"
    using t by (simp_all add: change_kept_def)
  note p = frame_pair_change [OF assms(1,2) this]
  have "(if dc_tag_bytes (change_kept k e) = [] then None
      else Some (map from_utf8_lossy (split_bytes 10 (dc_tag_bytes (change_kept k e))))) = labels_view (Some (we_labels e))"
    using labels_of_tag [OF t(2)] by (simp add: change_kept_def or_empty_def cong: if_cong)
  with p show ?thesis by (simp add: kept_view_def cong: if_cong) (simp add: change_kept_def)
qed

section \<open>Flush, then load\<close>

lemma flush_leases_Inr:
  assumes "flush_leases en stamp ls recs frs dur = (Inr (records, frames), dur')"
  shows "\<exists>R F. records = recs @ concat R \<and> frames = frs @ concat F \<and>
    list_all2 (\<lambda>b (k, l). wal_encode_record en (live_record stamp k l) = Inr b) R (filter (\<lambda>(_, l). name l = None) ls) \<and>
    list_all2 (\<lambda>b (k, l). wal_encode_frame en stamp (change_of_lease k (the (name l)) l) = Inr b) F
      (filter (\<lambda>(_, l). name l \<noteq> None) ls) \<and>
    dur' = fold (\<lambda>(k, l). bt_insert k (entry_of_lease (the (name l)) l)) (filter (\<lambda>(_, l). name l \<noteq> None) ls) dur"
  using assms
proof (induction en stamp ls recs frs dur rule: flush_leases.induct)
  case (1 en stamp recs frs dur)
  then show ?case by (intro exI [of _ "[]"]) simp
next
  case (2 en stamp k l ls recs frs dur)
  have k: "k \<noteq> 0" using "2.prems" by (auto split: if_splits)
  show ?case
  proof (cases "name l")
    case None
    then obtain b where b: "wal_encode_record en (live_record stamp k l) = Inr b"
      using "2.prems" k by (auto split: sum.splits)
    from "2.IH"(1) [OF k None b] "2.prems" k None b obtain R F where
      "records = (recs @ b) @ concat R" "frames = frs @ concat F"
      "list_all2 (\<lambda>b (k, l). wal_encode_record en (live_record stamp k l) = Inr b) R (filter (\<lambda>(_, l). name l = None) ls)"
      "list_all2 (\<lambda>b (k, l). wal_encode_frame en stamp (change_of_lease k (the (name l)) l) = Inr b) F
        (filter (\<lambda>(_, l). name l \<noteq> None) ls)"
      "dur' = fold (\<lambda>(k, l). bt_insert k (entry_of_lease (the (name l)) l)) (filter (\<lambda>(_, l). name l \<noteq> None) ls) dur"
      by auto
    then show ?thesis using None b by (intro exI [of _ "b # R"] exI [of _ F]) simp
  next
    case (Some nm)
    then obtain b where b: "wal_encode_frame en stamp (change_of_lease k nm l) = Inr b"
      using "2.prems" k by (auto split: sum.splits)
    from "2.IH"(2) [OF k Some b] "2.prems" k Some b obtain R F where
      "records = recs @ concat R" "frames = (frs @ b) @ concat F"
      "list_all2 (\<lambda>b (k, l). wal_encode_record en (live_record stamp k l) = Inr b) R (filter (\<lambda>(_, l). name l = None) ls)"
      "list_all2 (\<lambda>b (k, l). wal_encode_frame en stamp (change_of_lease k (the (name l)) l) = Inr b) F
        (filter (\<lambda>(_, l). name l \<noteq> None) ls)"
      "dur' = fold (\<lambda>(k, l). bt_insert k (entry_of_lease (the (name l)) l)) (filter (\<lambda>(_, l). name l \<noteq> None) ls)
        (bt_insert k (entry_of_lease nm l) dur)"
      by auto
    then show ?thesis using Some b by (intro exI [of _ R] exI [of _ "b # F"]) simp
  qed
qed

lemma flush_kept_Inr:
  assumes "flush_kept en stamp es frs = Inr frames"
  shows "\<exists>K. frames = frs @ concat K \<and> list_all2 (\<lambda>b (k, e). wal_encode_frame en stamp (change_kept k e) = Inr b) K es"
  using assms
proof (induction en stamp es frs rule: flush_kept.induct)
  case (1 en stamp frs)
  then show ?case by (intro exI [of _ "[]"]) simp
next
  case (2 en stamp k e es frs)
  then obtain b where b: "wal_encode_frame en stamp (change_kept k e) = Inr b" by (auto split: sum.splits)
  from "2.IH" [OF b] "2.prems" b obtain K where "frames = (frs @ b) @ concat K"
      "list_all2 (\<lambda>b (k, e). wal_encode_frame en stamp (change_kept k e) = Inr b) K es" by auto
  then show ?case using b by (intro exI [of _ "b # K"]) simp
qed

text \<open>One stream's read after the flush: what decodes is what was encoded and has not lapsed.\<close>

lemma stream_decodes:
  assumes all: "list_all2 (\<lambda>c x. pair c = Some (g x) \<and> length c = n \<and> lapsed c = lap x) cs items" and n: "0 < n"
    and law: "stream_law lapsed n (concat cs) (rc, buf, out_len)"
  shows "rc = rc_OK \<Longrightarrow> filter (\<lambda>x. \<not> lap x) items \<noteq> [] \<and>
      (\<exists>ps. those (map pair (chunks_exact n (take out_len buf))) = Some ps \<and> mset ps = mset (map g (filter (\<lambda>x. \<not> lap x) items)))"
    and "rc = 1 \<Longrightarrow> filter (\<lambda>x. \<not> lap x) items = []"
proof -
  let ?live = "filter (\<lambda>c. \<not> lapsed c) cs"
  have "list_all (\<lambda>c. length c = n) cs" using all by (induction rule: list_all2_induct) simp_all
  then have cs: "chunks_exact n (concat cs) = cs" using n by (simp add: chunks_exact_concat)
  have map: "map (the \<circ> pair) ?live = map g (filter (\<lambda>x. \<not> lap x) items)"
    using all by (induction rule: list_all2_induct) auto
  have some: "list_all (\<lambda>c. pair c = Some ((the \<circ> pair) c)) cs"
    using all by (induction rule: list_all2_induct) auto
  have law': "rc = rc_OK \<Longrightarrow> mset ?live \<noteq> {#} \<and> mset (chunks_exact n (take out_len buf)) = mset ?live"
      "rc = 1 \<Longrightarrow> mset ?live = {#}"
    using law cs by (simp_all add: stream_law_def)
  show "filter (\<lambda>x. \<not> lap x) items = []" if "rc = 1"
    using law'(2) [OF that] map by (metis list.map_disc_iff mset_zero_iff)
  show "filter (\<lambda>x. \<not> lap x) items \<noteq> [] \<and>
      (\<exists>ps. those (map pair (chunks_exact n (take out_len buf))) = Some ps \<and> mset ps = mset (map g (filter (\<lambda>x. \<not> lap x) items)))"
    if "rc = rc_OK"
  proof
    note l = law'(1) [OF that]
    show "filter (\<lambda>x. \<not> lap x) items \<noteq> []" using l map by (metis list.map_disc_iff mset_zero_iff)
    let ?out = "chunks_exact n (take out_len buf)"
    have "set ?out \<subseteq> set cs" using l by (metis filter_is_subset mset_eq_setD)
    then have "list_all (\<lambda>c. pair c = Some ((the \<circ> pair) c)) ?out" using some by (auto simp: list_all_iff)
    from those_Some [OF this] have "those (map pair ?out) = Some (map (the \<circ> pair) ?out)" .
    moreover have "mset (map (the \<circ> pair) ?out) = mset (map g (filter (\<lambda>x. \<not> lap x) items))"
      using l map by (metis mset_map)
    ultimately show "\<exists>ps. those (map pair ?out) = Some ps \<and> mset ps = mset (map g (filter (\<lambda>x. \<not> lap x) items))"
      by blast
  qed
qed

text \<open>The bookkeeping after the leases: the named ones are entered, the rest is as it was.\<close>

lemma entered_ok:
  fixes ls :: "(u64 \<times> lease) list"
  assumes "bt_wf dur" and "list_all (\<lambda>(_, e). entry_ok e) dur" and "list_all (\<lambda>(_, l). lease_ok l \<and> name l \<noteq> None) ls"
  shows "bt_wf (fold (\<lambda>(k, l). bt_insert k (entry_of_lease (the (name l)) l)) ls dur) \<and>
    list_all (\<lambda>(_, e). entry_ok e) (fold (\<lambda>(k, l). bt_insert k (entry_of_lease (the (name l)) l)) ls dur)"
  using assms
proof (induction ls arbitrary: dur)
  case Nil
  then show ?case by simp
next
  case (Cons p ls)
  obtain k l where p: "p = (k, l)" by (cases p)
  have "entry_ok (entry_of_lease (the (name l)) l)"
    using Cons.prems(3) p by (auto simp: entry_ok_def entry_of_lease_def lease_ok_def)
  moreover have "set (bt_insert k v m) \<subseteq> insert (k, v) (set m)" for v and m :: "(u64, wal_entry) btree"
    by (induction k v m rule: bt_insert.induct) auto
  ultimately have "list_all (\<lambda>(_, e). entry_ok e) (bt_insert k (entry_of_lease (the (name l)) l) dur)"
    using Cons.prems(2) by (fastforce simp: list_all_iff)
  with Cons show ?case by (simp add: p)
qed

lemma wal_flush_Inr:
  assumes "wal_flush en stamp snap (st, h) = (Inr (), st', h')" and "wal_ok st" and "snap_ok snap"
  shows "wal_ok st'" and "ws_dead st' = False" and "\<exists>R F K.
    list_all2 (\<lambda>b (k, l). wal_encode_record en (live_record stamp k l) = Inr b) R (filter (\<lambda>(_, l). name l = None) (locks snap)) \<and>
    list_all2 (\<lambda>b (k, l). wal_encode_frame en stamp (change_of_lease k (the (name l)) l) = Inr b) F
      (filter (\<lambda>(_, l). name l \<noteq> None) (locks snap)) \<and>
    list_all2 (\<lambda>b (k, e). wal_encode_frame en stamp (change_kept k e) = Inr b) K
      (filter (\<lambda>(k, e). \<not> named_in_snap snap k) (ws_durable st')) \<and>
    we_flush_sync en (concat R) (concat (F @ K)) h = (rc_OK, h')"
proof -
  obtain records frames dur where 1: "flush_leases en stamp (locks snap) [] [] (ws_durable st) = (Inr (records, frames), dur)"
      "\<not> ws_dead st"
    using assms(1) by (auto simp: wal_flush_def split: if_splits prod.splits sum.splits)
  then obtain frames' where 2: "flush_kept en stamp (kept_entries snap (mark_kept snap dur)) frames = Inr frames'"
      "we_flush_sync en records frames' h = (rc_OK, h')" "st' = st\<lparr>ws_durable := mark_kept snap dur\<rparr>"
    using assms(1) by (auto simp: wal_flush_def Let_def wal_checked_def split: prod.splits sum.splits if_splits)
  obtain R F where rf: "records = concat R" "frames = concat F"
    "list_all2 (\<lambda>b (k, l). wal_encode_record en (live_record stamp k l) = Inr b) R (filter (\<lambda>(_, l). name l = None) (locks snap))"
    "list_all2 (\<lambda>b (k, l). wal_encode_frame en stamp (change_of_lease k (the (name l)) l) = Inr b) F
      (filter (\<lambda>(_, l). name l \<noteq> None) (locks snap))"
    "dur = fold (\<lambda>(k, l). bt_insert k (entry_of_lease (the (name l)) l)) (filter (\<lambda>(_, l). name l \<noteq> None) (locks snap)) (ws_durable st)"
    using flush_leases_Inr [OF 1(1)] by auto
  have "list_all (\<lambda>(_, l). lease_ok l \<and> name l \<noteq> None) (filter (\<lambda>(_, l). name l \<noteq> None) (locks snap))"
    using assms(3) by (auto simp: snap_ok_def list_all_iff)
  then have dur: "bt_wf dur" "list_all (\<lambda>(_, e). entry_ok e) dur"
    using entered_ok [of "ws_durable st"] assms(2) rf(5) by (simp_all add: wal_ok_def)
  then show "wal_ok st'" "ws_dead st' = False"
    using 1(2) by (auto simp: 2(3) wal_ok_def mark_kept_def bt_map_def list_all_iff entry_ok_def bt_wf_def comp_def case_prod_beta)
  have "kept_entries snap (mark_kept snap dur) = filter (\<lambda>(k, e). \<not> named_in_snap snap k) (ws_durable st')"
    unfolding kept_entries_def 2(3) by (rule filter_cong) (auto simp: mark_kept_def bt_map_def)
  with flush_kept_Inr [OF 2(1)] rf 2(2) show "\<exists>R F K.
    list_all2 (\<lambda>b (k, l). wal_encode_record en (live_record stamp k l) = Inr b) R (filter (\<lambda>(_, l). name l = None) (locks snap)) \<and>
    list_all2 (\<lambda>b (k, l). wal_encode_frame en stamp (change_of_lease k (the (name l)) l) = Inr b) F
      (filter (\<lambda>(_, l). name l \<noteq> None) (locks snap)) \<and>
    list_all2 (\<lambda>b (k, e). wal_encode_frame en stamp (change_kept k e) = Inr b) K
      (filter (\<lambda>(k, e). \<not> named_in_snap snap k) (ws_durable st')) \<and>
    we_flush_sync en (concat R) (concat (F @ K)) h = (rc_OK, h')"
    by auto
qed

lemma eph_view_wf: "bt_wf (locks snap) \<Longrightarrow> bt_wf (eph_view en h snap)"
  by (simp add: eph_view_def) (simp add: bt_wf_def sorted_wrt_map sorted_wrt_filter)

lemma named_view_wf: "bt_wf (locks snap) \<Longrightarrow> bt_wf (named_view en h snap)"
  by (simp add: named_view_def) (simp add: bt_wf_def sorted_wrt_map sorted_wrt_filter)

lemma released_view_wf: "bt_wf (ws_durable st) \<Longrightarrow> bt_wf (released_view en (st, h) snap)"
  by (simp add: released_view_def) (simp add: bt_wf_def sorted_wrt_map sorted_wrt_filter)

lemma dur_view_mset:
  assumes "bt_wf (locks snap)" and "bt_wf (ws_durable st)"
  shows "mset (dur_view en (st, h) snap) = mset (named_view en h snap @ released_view en (st, h) snap)"
proof -
  have "distinct (map fst (released_view en (st, h) snap))"
    using released_view_wf [OF assms(2), of en h snap] by (simp add: bt_wf_def strict_sorted_iff)
  moreover have "named_in_snap snap k" if "k \<in> fst ` set (named_view en h snap)" for k
    using that assms(1) by (auto simp: named_view_def bt_map_def named_in_snap_def bt_get_mem)
  then have "fst ` set (named_view en h snap) \<inter> fst ` set (released_view en (st, h) snap) = {}"
    by (force simp: released_view_def bt_map_def)
  ultimately show ?thesis by (simp add: dur_view_def bt_append_disjoint_mset)
qed

text \<open>What one stream contributes to the load.\<close>

lemma load_stream_view:
  assumes "list_all2 (\<lambda>c x. pair c = Some (g x) \<and> length c = n \<and> lapsed c = lap x) cs items" and "0 < n"
    and "stream_law lapsed n (concat cs) answer"
    and "\<And>b. dec b = map_option snapshot_of_locks (map_option (\<lambda>ps. insert_pairs ps []) (those (map pair (chunks_exact n b))))"
    and "load_stream dec room answer = Inr r" and "bt_wf m" and "mset m = mset (map g (filter (\<lambda>x. \<not> lap x) items))"
  shows "r = (m \<noteq> [], Some (snapshot_of_locks m))"
proof -
  obtain rc buf out_len where a: "answer = (rc, buf, out_len)" by (cases answer)
  note st = stream_decodes [OF assms(1,2) assms(3) [unfolded a]]
  consider "rc = rc_OK" "r = (True, dec (take out_len buf))" | "rc = 1" "r = (False, Some \<lparr>locks = [], generations = []\<rparr>)"
    using assms(5) a by (auto simp: load_stream_def split: if_splits)
  then show ?thesis
  proof cases
    case 1
    obtain ps where ps: "those (map pair (chunks_exact n (take out_len buf))) = Some ps"
        "mset ps = mset m" "filter (\<lambda>x. \<not> lap x) items \<noteq> []"
      using st(1) [OF 1(1)] assms(7) by auto
    have "m \<noteq> []" using ps(3) assms(7) by auto
    with 1(2) ps(1) insert_pairs_btree [OF ps(2) assms(6)] show ?thesis by (simp add: assms(4))
  next
    case 2
    then have "m = []" using st(2) assms(7) by simp
    with 2(2) show ?thesis by (simp add: snapshot_of_locks_def bt_map_def)
  qed
qed

lemma gens_append:
  assumes "bt_wf e" and "bt_wf d"
  shows "\<lparr>locks = bt_append (locks (snapshot_of_locks e)) (locks (snapshot_of_locks d)),
      generations = bt_append (generations (snapshot_of_locks e)) (generations (snapshot_of_locks d))\<rparr> =
    snapshot_of_locks (bt_append e d)"
proof -
  have "bt_append (bt_map (\<lambda>_. lease_id) e) (bt_map (\<lambda>_. lease_id) d) = bt_map (\<lambda>_. lease_id) (bt_append e d)"
    by (rule bt.map_extensional)
      (use assms in \<open>auto simp: bt_get_append fun_eq_iff split: option.splits\<close>)
  then show ?thesis by (simp add: snapshot_of_locks_def)
qed

lemma wal_flush_load:
  assumes "codec_law en" and "flush_law en" and "wal_ok st" and "snap_ok snap"
    and "wal_flush en stamp snap (st, h) = (Inr (), st', h')" and "fst (wal_load en (st', h')) = Inr r"
  shows "r = wal_view en (st', h') snap"
proof -
  let ?U = "filter (\<lambda>(_, l). name l = None) (locks snap)" and ?N = "filter (\<lambda>(_, l). name l \<noteq> None) (locks snap)"
  let ?K = "filter (\<lambda>(k, e). \<not> named_in_snap snap k) (ws_durable st')"
  note fl = wal_flush_Inr [OF assms(5,3,4)]
  obtain R F K where
    R: "list_all2 (\<lambda>b (k, l). wal_encode_record en (live_record stamp k l) = Inr b) R ?U"
    and F: "list_all2 (\<lambda>b (k, l). wal_encode_frame en stamp (change_of_lease k (the (name l)) l) = Inr b) F ?N"
    and K: "list_all2 (\<lambda>b (k, e). wal_encode_frame en stamp (change_kept k e) = Inr b) K ?K"
    and sync: "we_flush_sync en (concat R) (concat (F @ K)) h = (rc_OK, h')"
    using fl(3) by blast
  let ?gl = "\<lambda>(k, l). (k, lease_view l)" and ?ll = "\<lambda>(k, l). we_lapsed en h' (expiry_to_ns (expiry l))"
  have R': "list_all2 (\<lambda>c x. record_pair en c = Some (?gl x) \<and> length c = WAL_RECORD_SIZE \<and> record_lapsed en h' c = ?ll x) R ?U"
    by (rule list.rel_mono_strong [OF R]) (use record_pair_live [OF assms(1)] in auto)
  let ?g = "case_sum ?gl (\<lambda>(k, e). (k, kept_view e))" and ?lap = "case_sum ?ll (\<lambda>_. we_lapsed en h' 0)"
  let ?fits = "\<lambda>c x. frame_pair en c = Some (?g x) \<and> length c = FAT_FRAME_SIZE \<and> frame_lapsed en h' c = ?lap x"
  have "list_all2 (\<lambda>c x. ?fits c (Inl x)) F ?N"
    by (rule list.rel_mono_strong [OF F])
      (use assms(4) frame_pair_lease [OF assms(1)] in \<open>auto simp: snap_ok_def list_all_iff\<close>)
  moreover have "list_all2 (\<lambda>c x. ?fits c (Inr x)) K ?K"
    by (rule list.rel_mono_strong [OF K])
      (use fl(1) frame_pair_kept [OF assms(1)] in \<open>auto simp: wal_ok_def list_all_iff\<close>)
  ultimately have FK: "list_all2 ?fits (F @ K) (map Inl ?N @ map Inr ?K)"
    by (auto intro!: list_all2_appendI simp: list.rel_map)
  have law: "stream_law (record_lapsed en h') WAL_RECORD_SIZE (concat R) (we_load en m h')"
      "stream_law (frame_lapsed en h') FAT_FRAME_SIZE (concat (F @ K)) (we_load_durable en m h')" for m
    using assms(2) sync by (auto simp: flush_law_def)
  obtain e d where e: "load_stream (decode_records en) (unat (ws_capacity st') * WAL_RECORD_SIZE)
      (we_load en (unat (ws_capacity st') * WAL_RECORD_SIZE) h') = Inr e"
    and d: "load_stream (decode_frames en) (unat (ws_capacity st') * FAT_FRAME_SIZE)
      (we_load_durable en (unat (ws_capacity st') * FAT_FRAME_SIZE) h') = Inr d"
    and r: "r = merge_streams e d"
    using assms(6) fl(2) by (auto simp: wal_load_def Let_def try_bind_Inr_iff)
  have wf: "bt_wf (locks snap)" "bt_wf (ws_durable st')" using assms(4) fl(1) by (simp_all add: snap_ok_def wal_ok_def)
  let ?E = "eph_view en h' snap" and ?D = "dur_view en (st', h') snap"
  have "mset ?E = mset (map ?gl (filter (\<lambda>x. \<not> ?ll x) ?U))"
    by (simp add: eph_view_def bt_map_def filter_filter case_prod_beta conj_commute)
  then have e': "e = (?E \<noteq> [], Some (snapshot_of_locks ?E))"
    by (intro load_stream_view [OF R' _ law(1) _ e eph_view_wf [OF wf(1)]])
      (simp_all add: wal_sizes decode_records_def decode_record_chunks_pairs)
  have D: "bt_wf ?D" using named_view_wf [OF wf(1), of en h'] by (simp add: dur_view_def)
  have "mset ?D = mset (map ?g (filter (\<lambda>x. \<not> ?lap x) (map Inl ?N @ map Inr ?K)))"
    by (simp add: dur_view_mset [OF wf] named_view_def released_view_def bt_map_def filter_map comp_def filter_filter
        case_prod_unfold conj_commute)
  then have d': "d = (?D \<noteq> [], Some (snapshot_of_locks ?D))"
    by (intro load_stream_view [OF FK _ law(2) _ d D])
      (simp_all add: wal_sizes decode_frames_def decode_frame_chunks_pairs)
  show ?thesis
    using gens_append [OF eph_view_wf [OF wf(1), of en h'] D]
    by (simp add: r e' d' merge_streams_def wal_view_def Let_def) (simp add: snapshot_of_locks_def)
qed

section \<open>The store keeps the contract of the state seam\<close>

lemma bt_insert_entries:
  fixes dur :: "(u64, wal_entry) btree"
  assumes "list_all (\<lambda>(_, e). entry_ok e) dur" and "entry_ok v"
  shows "list_all (\<lambda>(_, e). entry_ok e) (bt_insert k v dur)"
  using assms by (induction k v dur rule: bt_insert.induct) auto

lemma flush_leases_ok:
  assumes "flush_leases en stamp ls recs frs dur = (r, dur')" and "bt_wf dur" and "list_all (\<lambda>(_, e). entry_ok e) dur"
    and "list_all (\<lambda>(_, l). lease_ok l) ls"
  shows "bt_wf dur' \<and> list_all (\<lambda>(_, e). entry_ok e) dur'"
  using assms
proof (induction en stamp ls recs frs dur rule: flush_leases.induct)
  case (2 en stamp k l ls recs frs dur)
  have "entry_ok (entry_of_lease nm l)" if "name l = Some nm" for nm
    using "2.prems"(4) that by (simp add: entry_ok_def entry_of_lease_def lease_ok_def)
  with 2 show ?case by (auto simp: bt_insert_entries split: if_splits option.splits sum.splits)
qed simp

lemma mark_kept_ok:
  "bt_wf dur \<Longrightarrow> list_all (\<lambda>(_, e). entry_ok e) dur \<Longrightarrow>
     bt_wf (mark_kept snap dur) \<and> list_all (\<lambda>(_, e). entry_ok e) (mark_kept snap dur)"
  by (auto simp: mark_kept_def list_all_iff entry_ok_def) (auto simp: bt_map_def entry_ok_def split: if_splits)

lemma wal_flush_ok:
  assumes "wal_ok st" and "snap_ok snap"
  shows "wal_ok (fst (snd (wal_flush en stamp snap (st, h))))"
proof -
  obtain r dur where fl: "flush_leases en stamp (locks snap) [] [] (ws_durable st) = (r, dur)" by fastforce
  have "bt_wf dur \<and> list_all (\<lambda>(_, e). entry_ok e) dur"
    using flush_leases_ok [OF fl] assms by (simp add: wal_ok_def snap_ok_def)
  with fl assms(1) mark_kept_ok [of dur snap] show ?thesis
    by (auto simp: wal_flush_def Let_def wal_ok_def split: prod.splits sum.splits)
qed

interpretation wal_seam: state_store "\<lambda>(st, h). codec_law en \<and> flush_law en \<and> wal_ok st" snap_ok
  "wal_flush en" "wal_load en" "wal_view en" for en
proof unfold_locales
  fix s s' :: "wal_store \<times> 'a" and snap stamp r
  assume inv: "case s of (st, h) \<Rightarrow> codec_law en \<and> flush_law en \<and> wal_ok st" and ok: "snap_ok snap"
  obtain st h where s: "s = (st, h)" by (cases s)
  show "case snd (wal_flush en stamp snap s) of (st, h) \<Rightarrow> codec_law en \<and> flush_law en \<and> wal_ok st"
    using inv ok wal_flush_ok [of st snap en stamp h] by (auto simp: s)
  show "r = wal_view en s' snap" if "wal_flush en stamp snap s = (Inr (), s')" "fst (wal_load en s') = Inr r"
    using that inv ok wal_flush_load [of en st snap stamp h "fst s'" "snd s'" r] by (simp add: s)
qed

section \<open>A reference engine\<close>

definition record_of_bytes :: "bytes \<Rightarrow> wal_record" where
  "record_of_bytes b =
     \<lparr>wr_stamp = le_word (slice 0 8 b), wr_expiry = le_word (slice 8 16 b), wr_lock_id = le_word (slice 16 24 b),
      wr_lease_id = le_word (slice 24 32 b), wr_holder = slice 32 48 b, wr_lease_ms = le_word (slice 48 56 b),
      wr_tag = le_word (slice 56 60 b), wr_checksum = le_word (slice 60 64 b)\<rparr>"

definition frame_data :: "bytes \<Rightarrow> u64 \<Rightarrow> u32 \<Rightarrow> bytes \<Rightarrow> bytes" where
  "frame_data nm t n tg =
     le_bytes 2 (of_nat (length nm) :: u16) @ nm @ replicate (318 - length nm) 0 @ le_bytes 8 t @ le_bytes 4 n @
     le_bytes 2 (of_nat (length tg) :: u16) @ tg @ replicate (370 - length tg) 0"

text \<open>An engine that holds the two live sets in memory, with the layout of the frame's accessors.\<close>

definition ref_engine :: "(bytes \<times> bytes) wal_engine" where
  "ref_engine =
     \<lparr>we_record_encode = (\<lambda>r. if length (wr_holder r) = 16 then Some (record_as_bytes r) else None),
      we_record_decode = (\<lambda>b. if length b = 64 then Some (record_of_bytes b) else None),
      we_frame_encode = (\<lambda>r nm t n tg.
        if length (wr_holder r) = 16 \<and> length nm \<le> 318 \<and> length tg \<le> 370
        then Some (record_as_bytes r @ frame_data nm t n tg) else None),
      we_frame_decode = (\<lambda>b.
        if length b = 768 then Some \<lparr>ff_header = record_of_bytes (take 64 b), ff_data = drop 64 b\<rparr> else None),
      we_open = (\<lambda>_ _ h. (True, h)), we_close = (\<lambda>h. h), we_remove = (\<lambda>_ _. (Inr (), ([], []))),
      we_submit = (\<lambda>_ h. (0, h)), we_durable_submit = (\<lambda>_ h. (- 11, h)), we_pump = (\<lambda>h. (0, h)), we_event_fd = (\<lambda>_. - 1),
      we_flush_sync = (\<lambda>rs fs _. (0, (rs, fs))),
      we_load = (\<lambda>_ (rs, _). if chunks_exact 64 rs = [] then (1, [], 0) else (0, rs, length rs)),
      we_load_durable = (\<lambda>_ (_, fs). if chunks_exact 768 fs = [] then (1, [], 0) else (0, fs, length fs)),
      we_status = (\<lambda>_. (- 5, undefined)), we_lapsed = (\<lambda>_ _. False)\<rparr>"

lemma record_of_as_bytes:
  assumes "length (wr_holder r) = 16"
  shows "length (record_as_bytes r) = 64" and "record_of_bytes (record_as_bytes r) = r"
  using assms by (simp_all add: record_as_bytes_def record_of_bytes_def slice_def)

lemma length_frame_data:
  "length nm \<le> 318 \<Longrightarrow> length tg \<le> 370 \<Longrightarrow> length (frame_data nm t n tg) = 704"
  by (simp add: frame_data_def)

lemma frame_data_fields:
  assumes "length nm \<le> 318" and "length tg \<le> 370" and "ff_data m = frame_data nm t n tg"
  shows "ff_name m = nm" and "ff_taken_at_ms m = t" and "ff_renew_count m = n" and "ff_tag_bytes m = tg"
proof -
  have l: "unat (of_nat (length nm) :: u16) = length nm" "unat (of_nat (length tg) :: u16) = length tg"
    using assms(1,2) by (simp_all add: unat_of_nat take_bit_nat_eq_self)
  have d: "drop 320 (frame_data nm t n tg) =
      le_bytes 8 t @ le_bytes 4 n @ le_bytes 2 (of_nat (length tg) :: u16) @ tg @ replicate (370 - length tg) 0"
    using assms(1) by (simp add: frame_data_def)
  have "ff_field m FAT_NAME_LEN_OFFSET 2 = le_bytes 2 (of_nat (length nm) :: u16)"
    by (simp add: ff_field_def FAT_NAME_LEN_OFFSET_def wal_sizes assms(3) frame_data_def)
  then show "ff_name m = nm"
    using l(1) by (simp add: ff_name_def ff_field_def FAT_NAME_OFFSET_def wal_sizes assms(3)) (simp add: frame_data_def)
  show "ff_taken_at_ms m = t"
    using d by (simp add: ff_taken_at_ms_def ff_field_def FAT_TAKEN_AT_OFFSET_def wal_sizes assms(3))
  have e: "drop (320 + k) (frame_data nm t n tg) = drop k (drop 320 (frame_data nm t n tg))" for k by (simp add: add.commute)
  show "ff_renew_count m = n"
    using d e [of 8] by (simp add: ff_renew_count_def ff_field_def FAT_RENEW_COUNT_OFFSET_def wal_sizes assms(3))
  have "ff_field m FAT_TAG_LEN_OFFSET 2 = le_bytes 2 (of_nat (length tg) :: u16)"
    using d e [of 12] by (simp add: ff_field_def FAT_TAG_LEN_OFFSET_def wal_sizes assms(3))
  then show "ff_tag_bytes m = tg"
    using d e [of 14] l(2) by (simp add: ff_tag_bytes_def ff_field_def FAT_TAG_BYTES_OFFSET_def wal_sizes assms(3))
qed

lemma ref_codec: "codec_law ref_engine"
proof -
  have "\<exists>c. (r :: wal_record) = r\<lparr>wr_checksum := c\<rparr>" for r by (rule exI [of _ "wr_checksum r"]) simp
  then show ?thesis
    by (auto simp: codec_law_def ref_engine_def record_of_as_bytes wal_sizes length_frame_data frame_data_fields split: if_splits)
qed

lemma ref_flush: "flush_law ref_engine"
  by (auto simp: flush_law_def ref_engine_def stream_law_def wal_sizes record_lapsed_def frame_lapsed_def
      neq_Nil_conv split: option.splits)

section \<open>What survives a stop\<close>

text \<open>
  C13: a boot finds exactly the view of the table that the last stop flushed. After a flush of
  the write-ahead store that reported success, the guarded load yields a table only at a
  clean boot with an empty table, and then it is, lock for lock, what the two streams carry
  of the flushed table and of the released named locks: nothing lost, nothing invented,
  whatever order the engine returns the records in and whichever have lapsed meanwhile.
\<close>

theorem wal_boot_loads_view:
  assumes "codec_law en" and "flush_law en" and "wal_ok st" and "snap_ok snap"
    and "wal_flush en stamp snap (st, h) = (Inr (), s')"
    and "fst (lazy_load (wal_load en) clean vacant s') = Inr (Some x)"
  shows "clean \<and> vacant \<and> wal_view en s' snap = Some x"
  using wal_seam.stop_then_boot [where en = en and s = "(st, h)", OF _ assms(4-6)] assms(1-3) by simp

text \<open>The expiries that the nanosecond clock of the records can carry.\<close>

lemma expiry_exact: "unat e * 1000000 < 2 ^ 64 \<Longrightarrow> expiry_to_ms (expiry_to_ns e) = e"
proof -
  assume small: "unat e * 1000000 < 2 ^ 64"
  then have "unat (expiry_to_ns e) = unat e * 1000000"
    by (simp add: expiry_to_ns_def unat_saturating_mul NS_PER_MS_def)
  then have "unat (expiry_to_ms (expiry_to_ns e)) = unat e"
    by (simp add: expiry_to_ms_def unat_div NS_PER_MS_def)
  then show ?thesis by (simp add: word_unat_eq_iff)
qed

lemma bt_map_filter_keys: "fst ` set (bt_map f (filter P m)) \<subseteq> fst ` set m"
  by (force simp: bt_map_def)

lemma view_keys:
  "fst ` set (eph_view en h snap) \<subseteq> fst ` set (locks snap)"
  "fst ` set (named_view en h snap) \<subseteq> fst ` set (locks snap)"
  "fst ` set (released_view en (st, h) snap) \<subseteq> fst ` set (ws_durable st)"
  by (simp_all only: eph_view_def named_view_def released_view_def bt_map_filter_keys prod.case)

lemma named_view_get:
  assumes "bt_wf (locks snap)" and "bt_get (locks snap) k = Some l" and "name l = Some nm"
    and "\<not> we_lapsed en h (expiry_to_ns (expiry l))"
  shows "bt_get (named_view en h snap) k = Some (lease_view l)"
proof -
  have "(k, lease_view l) \<in> set (named_view en h snap)"
    using assms by (force simp: named_view_def bt_map_def bt_get_mem [symmetric])
  then show ?thesis by (rule iffD1 [OF bt_get_mem [OF named_view_wf [OF assms(1)]]])
qed

lemma dur_view_get_named:
  assumes "bt_wf (locks snap)" and "bt_wf (ws_durable st)" and "named_in_snap snap k"
  shows "bt_get (dur_view en (st, h) snap) k = bt_get (named_view en h snap) k"
proof -
  have "bt_get (released_view en (st, h) snap) k = None"
    using assms(3) by (auto simp: bt_get_eq_None released_view_def bt_map_def)
  then show ?thesis by (simp add: dur_view_def bt_get_append released_view_wf [OF assms(2)])
qed

text \<open>
  A held named lock comes back unchanged. When a stop's flush was reported and the boot's
  load finds a table, every named lock that was held and has not lapsed is in it with the same
  lease: token, holder, expiry, window, name, labels and counters, as long as its expiry fits
  the nanosecond clock of the records and its labels are not the empty list.
\<close>

theorem wal_named_lease_survives:
  assumes "codec_law en" and "flush_law en" and "wal_ok st" and "snap_ok snap"
    and "wal_flush en stamp snap (st, h) = (Inr (), st', h')" and "fst (wal_load en (st', h')) = Inr (Some s)"
    and "bt_get (locks snap) k = Some l" and "name l = Some nm" and "expiry l \<noteq> 0"
    and "unat (expiry l) * 1000000 < 2 ^ 64" and "labels_view (labels l) = labels l"
    and "\<not> we_lapsed en h' (expiry_to_ns (expiry l))"
  shows "bt_get (locks s) k = Some l \<and> bt_get (generations s) k = Some (lease_id l)"
proof -
  have wf: "bt_wf (locks snap)" "bt_wf (ws_durable st')"
    using assms(4) wal_flush_Inr(1) [OF assms(5,3,4)] by (simp_all add: snap_ok_def wal_ok_def)
  let ?E = "eph_view en h' snap" and ?D = "dur_view en (st', h') snap"
  have s: "s = snapshot_of_locks (bt_append ?E ?D)"
    using wal_flush_load [OF assms(1-6)] by (auto simp: wal_view_def Let_def split: if_splits)
  have "bt_get ?D k = Some (lease_view l)"
    using dur_view_get_named [OF wf, of k en h'] named_view_get [OF wf(1) assms(7,8,12)] assms(7,8)
    by (simp add: named_in_snap_def)
  moreover have "bt_wf ?D" using named_view_wf [OF wf(1), of en h'] by (simp add: dur_view_def)
  ultimately have "bt_get (bt_append ?E ?D) k = Some (lease_view l)" by (simp add: bt_get_append)
  moreover have "lease_view l = l" using assms(8-11) by (simp add: lease_view_def expiry_exact)
  ultimately show ?thesis by (simp add: s snapshot_of_locks_def)
qed

text \<open>
  C14: the write-ahead store forgets the token watermark of every released unnamed lock. A
  lock that has left the table and never had a name has no generation in any table a later
  load finds, although the flushed snapshot carried one, so its next holder can be given a
  fencing token that was already handed out.
\<close>

theorem wal_forgets_released_tokens:
  assumes "codec_law en" and "flush_law en" and "wal_ok st" and "snap_ok snap"
    and "wal_flush en stamp snap (st, h) = (Inr (), st', h')" and "fst (wal_load en (st', h')) = Inr (Some s)"
    and "bt_get (locks snap) k = None" and "bt_get (ws_durable st') k = None"
  shows "bt_get (generations s) k = None"
proof -
  let ?E = "eph_view en h' snap" and ?D = "dur_view en (st', h') snap"
  have wf: "bt_wf (locks snap)" "bt_wf (ws_durable st')"
    using assms(4) wal_flush_Inr(1) [OF assms(5,3,4)] by (simp_all add: snap_ok_def wal_ok_def)
  have s: "s = snapshot_of_locks (bt_append ?E ?D)"
    using wal_flush_load [OF assms(1-6)] by (auto simp: wal_view_def Let_def split: if_splits)
  have "k \<notin> fst ` set (locks snap)" "k \<notin> fst ` set (ws_durable st')" using assms(7,8) by (simp_all add: bt_get_eq_None)
  then have "bt_get ?E k = None" "bt_get (named_view en h' snap) k = None" "bt_get (released_view en (st', h') snap) k = None"
    using view_keys(1,2) [of en h' snap] view_keys(3) [of en st' h' snap] by (simp_all add: bt_get_eq_None) blast+
  moreover have "bt_wf ?D" using named_view_wf [OF wf(1), of en h'] by (simp add: dur_view_def)
  ultimately show ?thesis
    by (simp add: s snapshot_of_locks_def bt_get_append dur_view_def released_view_wf [OF wf(2)])
qed

section \<open>The tick\<close>

text \<open>
  A refused tick is retried. Whenever a submit is refused, by the codec, by either ring or
  by a dead store, the set of changed locks is the same as before, so the next tick carries
  them again; and a submit that reports success leaves no lock noted.
\<close>

theorem wal_refusal_keeps_changed:
  "case wal_submit en stamp snap st h of (r, st', h') \<Rightarrow>
     (case r of Inl _ \<Rightarrow> ws_changed st' = ws_changed st | Inr _ \<Rightarrow> ws_changed st' = [])"
proof -
  obtain r dur where s: "submit_all en stamp snap (ws_changed st) [] [] (ws_durable st) = (r, dur)" by fastforce
  show ?thesis by (auto simp: wal_submit_def s Let_def split: prod.splits sum.splits)
qed

text \<open>
  C15: the tick after a refused one skips the release of a named lock. Where one lock has changed, its entry is not marked as kept and the
  snapshot no longer holds it, the store marks the lock as kept
  before the durable ring is asked; when the ring refuses the frame (a batch is still
  outstanding), the next tick finds the mark, skips the lock, submits nothing to the engine,
  reports a clean tick and empties the changed set. So the ticks are done with the release while the
  engine has not taken it.
\<close>

theorem wal_retry_skips_release:
  assumes "ws_changed st = [k]" and "\<not> ws_dead st" and "bt_get (locks snap) k = None"
    and "bt_get (ws_durable st) k = Some e" and "\<not> we_kept e"
    and "frame_encode en stamp (change_kept k (e\<lparr>we_kept := True\<rparr>)) = Some b" and "b \<noteq> []"
    and "we_durable_submit en b h = (rc, h1)" and "rc \<noteq> rc_OK"
  shows "\<exists>st1. wal_submit en stamp snap st h = (Inl (wal_error rc), st1, h1) \<and> ws_changed st1 = [k] \<and>
    wal_submit en stamp2 snap st1 h2 = (Inr 0, st1\<lparr>ws_changed := []\<rparr>, h2)"
proof -
  let ?st = "st\<lparr>ws_durable := bt_insert k (e\<lparr>we_kept := True\<rparr>) (ws_durable st)\<rparr>"
  have "submit_all en stamp snap [k] [] [] (ws_durable st) = (Inr ([], b), ws_durable ?st)"
    using assms by (simp add: submit_one_def Let_def wal_encode_frame_def)
  then have "wal_submit en stamp snap st h = (Inl (wal_error rc), ?st, h1)"
    using assms by (simp add: wal_submit_def wal_checked_def)
  moreover have "submit_all en stamp2 snap [k] [] [] (ws_durable ?st) = (Inr ([], []), ws_durable ?st)"
    using assms(3) by (simp add: submit_one_def)
  then have "wal_submit en stamp2 snap ?st h2 = (Inr 0, ?st\<lparr>ws_changed := []\<rparr>, h2)"
    using assms(1,2) by (simp add: wal_submit_def wal_checked_def)
  ultimately show ?thesis using assms(1) by auto
qed

section \<open>Instances\<close>

definition wal_demo_lease :: lease where
  "wal_demo_lease = \<lparr>lease_id = 3, holder = 9, expiry = 100, lease_ms = 50, name = Some ''a'', labels = None,
     taken_at_ms = 40, renew_count = 2\<rparr>"

definition wal_demo_snap :: state_snapshot where
  "wal_demo_snap = \<lparr>locks = [(5, wal_demo_lease)], generations = [(5, 3), (6, 8)]\<rparr>"

definition wal_demo_store :: wal_store where
  "wal_demo_store = \<lparr>ws_handle = True, ws_path = [], ws_capacity = 16, ws_changed = [], ws_durable = [], ws_dead = False\<rparr>"

definition wal_demo_frame :: bytes where
  "wal_demo_frame = the (frame_encode ref_engine 1 (change_of_lease 5 ''a'' wal_demo_lease))"

lemma wal_demo_ok: "wal_ok wal_demo_store" "snap_ok wal_demo_snap"
  by (simp_all add: wal_ok_def wal_demo_store_def snap_ok_def wal_demo_snap_def bt_wf_def lease_ok_def wal_demo_lease_def
      or_empty_def ascii_text_wf char_byte_def)

lemma wal_demo_frame_Some:
  "wal_encode_frame ref_engine 1 (change_of_lease 5 ''a'' wal_demo_lease) = Inr wal_demo_frame"
  by (simp add: wal_encode_frame_def wal_demo_frame_def frame_encode_def ref_engine_def change_of_lease_def change_live_def
      wal_demo_lease_def str_bytes_def or_empty_def)

lemma wal_demo_frame_len: "length wal_demo_frame = 768"
  using frame_pair_lease [OF ref_codec wal_demo_frame_Some] by (simp add: wal_demo_lease_def lease_ok_def or_empty_def
      ascii_text_wf char_byte_def wal_sizes)

lemma wal_demo_run:
  "\<exists>st'. wal_flush ref_engine 1 wal_demo_snap (wal_demo_store, ([], [])) = (Inr (), st', [], wal_demo_frame) \<and>
     ws_capacity st' = 16 \<and> \<not> ws_dead st' \<and> bt_get (ws_durable st') 6 = None"
proof -
  let ?e = "entry_of_lease ''a'' wal_demo_lease"
  have nm: "name wal_demo_lease = Some ''a''" by (simp add: wal_demo_lease_def)
  have "flush_leases ref_engine 1 (locks wal_demo_snap) [] [] [] = (Inr ([], wal_demo_frame), [(5, ?e)])"
    using wal_demo_frame_Some nm by (simp add: wal_demo_snap_def)
  moreover have named: "named_in_snap wal_demo_snap 5" using nm by (simp add: named_in_snap_def bt_get_def wal_demo_snap_def)
  then have "mark_kept wal_demo_snap [(5, ?e)] = [(5, ?e)]" "kept_entries wal_demo_snap [(5, ?e)] = []"
    by (simp_all add: mark_kept_def bt_map_def kept_entries_def)
  moreover have "we_flush_sync ref_engine [] wal_demo_frame ([], []) = (0, ([], wal_demo_frame))" by (simp add: ref_engine_def)
  ultimately show ?thesis
    by (simp add: wal_flush_def wal_demo_store_def Let_def wal_checked_def bt_get_def)
qed

lemma wal_demo_load:
  assumes "ws_capacity st' = 16" and "\<not> ws_dead st'"
  shows "\<exists>x. fst (wal_load ref_engine (st', [], wal_demo_frame)) = Inr (Some x)"
proof -
  have c: "chunks_exact 768 wal_demo_frame = [wal_demo_frame]"
    using chunks_exact_append [of wal_demo_frame 768 "[]"] wal_demo_frame_len by simp
  have p: "frame_pair ref_engine wal_demo_frame = Some (5, lease_view wal_demo_lease)"
    using frame_pair_lease [OF ref_codec wal_demo_frame_Some]
    by (simp add: wal_demo_lease_def lease_ok_def or_empty_def ascii_text_wf char_byte_def)
  have "we_load ref_engine n ([], wal_demo_frame) = (1, [], 0)"
    "we_load_durable ref_engine n ([], wal_demo_frame) = (0, wal_demo_frame, 768)" for n
    using c wal_demo_frame_len by (simp_all add: ref_engine_def)
  moreover have "decode_frames ref_engine wal_demo_frame = Some (snapshot_of_locks [(5, lease_view wal_demo_lease)])"
    using c p by (simp add: decode_frames_def decode_frame_chunks_pairs wal_sizes insert_pairs_def)
  ultimately show ?thesis
    using assms wal_demo_frame_len
    by (simp add: wal_load_def Let_def load_stream_def wal_sizes merge_streams_def)
qed

theorem wal_boot_loads_view_witness:
  "\<exists>s' x. wal_flush ref_engine 1 wal_demo_snap (wal_demo_store, ([], [])) = (Inr (), s') \<and>
     fst (lazy_load (wal_load ref_engine) True True s') = Inr (Some x) \<and> wal_view ref_engine s' wal_demo_snap = Some x"
proof -
  obtain st' where r: "wal_flush ref_engine 1 wal_demo_snap (wal_demo_store, ([], [])) = (Inr (), st', [], wal_demo_frame)"
      "ws_capacity st' = 16" "\<not> ws_dead st'" using wal_demo_run by blast
  obtain x where x: "fst (lazy_load (wal_load ref_engine) True True (st', [], wal_demo_frame)) = Inr (Some x)"
    using wal_demo_load [OF r(2,3)] by (auto simp: lazy_load_def)
  from wal_boot_loads_view [OF ref_codec ref_flush wal_demo_ok r(1) x] r(1) x show ?thesis by blast
qed

theorem wal_named_lease_survives_witness:
  "\<exists>s' s. wal_flush ref_engine 1 wal_demo_snap (wal_demo_store, ([], [])) = (Inr (), s') \<and>
     fst (wal_load ref_engine s') = Inr (Some s) \<and> bt_get (locks s) 5 = Some wal_demo_lease"
proof -
  obtain st' where r: "wal_flush ref_engine 1 wal_demo_snap (wal_demo_store, ([], [])) = (Inr (), st', [], wal_demo_frame)"
      "ws_capacity st' = 16" "\<not> ws_dead st'" using wal_demo_run by blast
  obtain s where s: "fst (wal_load ref_engine (st', [], wal_demo_frame)) = Inr (Some s)" using wal_demo_load [OF r(2,3)] by blast
  have "bt_get (locks s) 5 = Some wal_demo_lease \<and> bt_get (generations s) 5 = Some (lease_id wal_demo_lease)"
    by (rule wal_named_lease_survives [OF ref_codec ref_flush wal_demo_ok r(1) s, where nm = "''a''"])
      (simp_all add: wal_demo_snap_def bt_get_def wal_demo_lease_def labels_view_def or_empty_def ref_engine_def)
  with r(1) s show ?thesis by blast
qed

theorem wal_forgets_released_tokens_witness:
  "bt_get (generations wal_demo_snap) 6 = Some 8 \<and>
   (\<exists>s' s. wal_flush ref_engine 1 wal_demo_snap (wal_demo_store, ([], [])) = (Inr (), s') \<and>
     fst (wal_load ref_engine s') = Inr (Some s) \<and> bt_get (generations s) 6 = None)"
proof -
  obtain st' where r: "wal_flush ref_engine 1 wal_demo_snap (wal_demo_store, ([], [])) = (Inr (), st', [], wal_demo_frame)"
      "ws_capacity st' = 16" "\<not> ws_dead st'" "bt_get (ws_durable st') 6 = None" using wal_demo_run by blast
  obtain s where s: "fst (wal_load ref_engine (st', [], wal_demo_frame)) = Inr (Some s)" using wal_demo_load [OF r(2,3)] by blast
  have "bt_get (generations s) 6 = None"
    by (rule wal_forgets_released_tokens [OF ref_codec ref_flush wal_demo_ok r(1) s _ r(4)])
      (simp add: wal_demo_snap_def bt_get_def)
  with r(1) s show ?thesis by (auto simp: wal_demo_snap_def bt_get_def)
qed

theorem wal_retry_skips_release_witness:
  "\<exists>st1. wal_submit ref_engine 1 \<lparr>locks = [], generations = []\<rparr>
       (wal_demo_store\<lparr>ws_changed := [5], ws_durable := [(5, entry_of_lease ''a'' wal_demo_lease)]\<rparr>) ([], []) =
       (Inl WouldBlock, st1, ([], [])) \<and>
     wal_submit ref_engine 2 \<lparr>locks = [], generations = []\<rparr> st1 ([], []) = (Inr 0, st1\<lparr>ws_changed := []\<rparr>, ([], []))"
proof -
  let ?e = "entry_of_lease ''a'' wal_demo_lease"
  obtain b where b: "frame_encode ref_engine 1 (change_kept 5 (?e\<lparr>we_kept := True\<rparr>)) = Some b" "b \<noteq> []"
    by (simp add: frame_encode_def ref_engine_def change_kept_def entry_of_lease_def wal_demo_lease_def str_bytes_def
        or_empty_def record_as_bytes_def le_bytes_def)
  from wal_retry_skips_release [OF _ _ _ _ _ b, of "wal_demo_store\<lparr>ws_changed := [5], ws_durable := [(5, ?e)]\<rparr>"
      "\<lparr>locks = [], generations = []\<rparr>" "([], [])" "- 11" "([], [])" 2 "([], [])"]
  show ?thesis
    by (auto simp: wal_demo_store_def bt_get_def entry_of_lease_def wal_demo_lease_def ref_engine_def wal_error_def)
qed

end
