(* ===== verification/Witness_Marks.thy ===== *)
theory Witness_Marks
  imports Prelude_Locks
begin

text \<open>
  The witness's watermarks of \<^verbatim>\<open>ext/advisory_lock/src/witness/mod.rs\<close>: the frontier
  order, the two high-watermarks with the held-open sync points, the operations on them, and
  the sequences of operations a driver may run as a step relation.
\<close>

section \<open>The frontier\<close>

datatype frontier = Frontier (fr_era: u32) (fr_view: u32) (fr_slot: u64)

text \<open>The derived order: by era, then view, then slot.\<close>

instantiation frontier :: linorder
begin

definition less_frontier :: "frontier \<Rightarrow> frontier \<Rightarrow> bool" where
  "a < b \<longleftrightarrow> fr_era a < fr_era b \<or>
     fr_era a = fr_era b \<and> (fr_view a < fr_view b \<or> fr_view a = fr_view b \<and> fr_slot a < fr_slot b)"

definition less_eq_frontier :: "frontier \<Rightarrow> frontier \<Rightarrow> bool" where
  "a \<le> b \<longleftrightarrow> a < b \<or> a = (b :: frontier)"

instance
proof
  fix a b c :: frontier
  show "(a < b) = (a \<le> b \<and> \<not> b \<le> a)" by (cases a; cases b) (auto simp: less_eq_frontier_def less_frontier_def)
  show "a \<le> a" by (simp add: less_eq_frontier_def)
  show "a \<le> c" if "a \<le> b" "b \<le> c" using that
    by (cases a; cases b; cases c) (auto simp: less_eq_frontier_def less_frontier_def)
  show "a = b" if "a \<le> b" "b \<le> a" using that
    by (cases a; cases b) (auto simp: less_eq_frontier_def less_frontier_def)
  show "a \<le> b \<or> b \<le> a"
    by (cases a; cases b) (auto simp: less_eq_frontier_def less_frontier_def)
qed

end

section \<open>The watermarks\<close>

datatype sync_outcome = Acked | ForceFlush | Held

record watermarks =
  wm_buffered :: "frontier option"
  wm_flushed :: "frontier option"
  wm_held :: "frontier list"

definition wm_new :: watermarks where
  "wm_new = \<lparr>wm_buffered = None, wm_flushed = None, wm_held = []\<rparr>"

definition wm_observe :: "frontier \<Rightarrow> watermarks \<Rightarrow> watermarks" where
  "wm_observe frontier m =
     (if (case wm_buffered m of None \<Rightarrow> True | Some h \<Rightarrow> h < frontier)
      then m\<lparr>wm_buffered := Some frontier\<rparr> else m)"

definition wm_resolve_held :: "watermarks \<Rightarrow> frontier list \<times> watermarks" where
  "wm_resolve_held m =
     (case wm_flushed m of
        None \<Rightarrow> ([], m)
      | Some fl \<Rightarrow>
          (filter (\<lambda>point. point \<le> fl) (wm_held m),
           m\<lparr>wm_held := filter (\<lambda>point. \<not> point \<le> fl) (wm_held m)\<rparr>))"

definition wm_flushed_through_buffer :: "watermarks \<Rightarrow> frontier list \<times> watermarks" where
  "wm_flushed_through_buffer m =
     wm_resolve_held
       (case wm_buffered m of
          None \<Rightarrow> m
        | Some b \<Rightarrow>
            (if (case wm_flushed m of None \<Rightarrow> True | Some fl \<Rightarrow> fl < b) then m\<lparr>wm_flushed := Some b\<rparr> else m))"

definition wm_sync_point :: "frontier \<Rightarrow> watermarks \<Rightarrow> sync_outcome \<times> watermarks" where
  "wm_sync_point frontier m =
     (if (case wm_flushed m of None \<Rightarrow> False | Some fl \<Rightarrow> fl \<ge> frontier) then (Acked, m)
      else if (case wm_buffered m of None \<Rightarrow> False | Some b \<Rightarrow> b \<ge> frontier) then (ForceFlush, m)
      else (Held, if frontier \<in> set (wm_held m) then m else m\<lparr>wm_held := wm_held m @ [frontier]\<rparr>))"

section \<open>Sequences of operations\<close>

datatype wm_event = Observed frontier | Flushed "frontier list" | Synced frontier sync_outcome

inductive wm_step :: "watermarks \<Rightarrow> wm_event \<Rightarrow> watermarks \<Rightarrow> bool" where
  step_observe: "wm_step m (Observed x) (wm_observe x m)"
| step_flush: "wm_flushed_through_buffer m = (acks, m') \<Longrightarrow> wm_step m (Flushed acks) m'"
| step_sync: "wm_sync_point x m = (out, m') \<Longrightarrow> wm_step m (Synced x out) m'"

inductive_cases wm_step_Observed: "wm_step m (Observed x) m'"
inductive_cases wm_step_Flushed: "wm_step m (Flushed acks) m'"
inductive_cases wm_step_Synced: "wm_step m (Synced x out) m'"

inductive wm_trace :: "wm_event list \<Rightarrow> watermarks \<Rightarrow> bool" where
  trace_start: "wm_trace [] wm_new"
| trace_step: "wm_trace es m \<Longrightarrow> wm_step m e m' \<Longrightarrow> wm_trace (es @ [e]) m'"

fun acks_of :: "wm_event \<Rightarrow> frontier list" where
  "acks_of (Flushed acks) = acks"
| "acks_of _ = []"

text \<open>The acknowledgements owed by the flushes, and the points that were held open.\<close>

definition acknowledged :: "wm_event list \<Rightarrow> frontier list" where
  "acknowledged es = concat (map acks_of es)"

definition held_open :: "wm_event list \<Rightarrow> frontier set" where
  "held_open es = {x. Synced x Held \<in> set es}"

definition observed :: "wm_event list \<Rightarrow> frontier set" where
  "observed es = {x. Observed x \<in> set es}"

definition covers :: "frontier option \<Rightarrow> frontier \<Rightarrow> bool" where
  "covers mark x \<longleftrightarrow> (\<exists>m. mark = Some m \<and> x \<le> m)"

lemmas wm_simps = wm_observe_def wm_resolve_held_def wm_flushed_through_buffer_def wm_sync_point_def covers_def

text \<open>What every sequence of operations keeps.\<close>

definition wm_inv :: "wm_event list \<Rightarrow> watermarks \<Rightarrow> bool" where
  "wm_inv es m \<longleftrightarrow>
     (\<forall>x. covers (wm_flushed m) x \<longrightarrow> covers (wm_buffered m) x) \<and>
     (\<forall>x. covers (wm_buffered m) x \<longleftrightarrow> (\<exists>y \<in> observed es. x \<le> y)) \<and>
     (\<forall>x \<in> set (wm_held m). \<not> covers (wm_flushed m) x) \<and>
     (\<forall>x \<in> set (acknowledged es). covers (wm_flushed m) x) \<and>
     distinct (acknowledged es @ wm_held m) \<and>
     set (acknowledged es) \<union> set (wm_held m) = held_open es"

lemma covers_observe: "covers (wm_buffered (wm_observe x m)) y \<longleftrightarrow> covers (wm_buffered m) y \<or> y \<le> x"
  by (auto simp: wm_simps split: option.splits)

lemma observe_others [simp]: "wm_flushed (wm_observe x m) = wm_flushed m" "wm_held (wm_observe x m) = wm_held m"
  by (simp_all add: wm_observe_def)

lemma observe_inv: "wm_inv es m \<Longrightarrow> wm_inv (es @ [Observed x]) (wm_observe x m)"
  by (auto simp: wm_inv_def covers_observe observed_def acknowledged_def held_open_def)

lemma flush_effect:
  assumes "wm_flushed_through_buffer m = (acks, m')"
    and "\<forall>x. covers (wm_flushed m) x \<longrightarrow> covers (wm_buffered m) x"
  shows "wm_buffered m' = wm_buffered m"
    and "covers (wm_flushed m') x \<longleftrightarrow> covers (wm_buffered m) x"
    and "acks = filter (covers (wm_buffered m)) (wm_held m)"
    and "wm_held m' = filter (\<lambda>x. \<not> covers (wm_buffered m) x) (wm_held m)"
proof -
  have "wm_flushed m = None" if "wm_buffered m = None"
    using assms(2) that by (cases "wm_flushed m") (auto simp: covers_def)
  moreover have "fl \<le> b" if "wm_flushed m = Some fl" "wm_buffered m = Some b" for fl b
    using assms(2) that by (auto simp: covers_def)
  ultimately have "wm_buffered m' = wm_buffered m \<and> wm_flushed m' = wm_buffered m \<and>
      acks = filter (covers (wm_buffered m)) (wm_held m) \<and> wm_held m' = filter (\<lambda>x. \<not> covers (wm_buffered m) x) (wm_held m)"
    using assms(1) by (fastforce simp: wm_simps cong: filter_cong split: option.splits if_splits)
  then show "wm_buffered m' = wm_buffered m" "covers (wm_flushed m') x \<longleftrightarrow> covers (wm_buffered m) x"
    "acks = filter (covers (wm_buffered m)) (wm_held m)" "wm_held m' = filter (\<lambda>x. \<not> covers (wm_buffered m) x) (wm_held m)"
    by simp_all
qed

lemma flush_inv:
  assumes "wm_inv es m" and "wm_flushed_through_buffer m = (acks, m')"
  shows "wm_inv (es @ [Flushed acks]) m'"
proof -
  note fl = flush_effect [OF assms(2)]
  from assms(1) fl show ?thesis
    by (auto simp: wm_inv_def observed_def acknowledged_def held_open_def)
qed

lemma sync_effect:
  "wm_sync_point x m =
     (if covers (wm_flushed m) x then (Acked, m)
      else if covers (wm_buffered m) x then (ForceFlush, m)
      else (Held, m\<lparr>wm_held := (if x \<in> set (wm_held m) then wm_held m else wm_held m @ [x])\<rparr>))"
  by (cases m; cases "wm_flushed m"; cases "wm_buffered m") (auto simp: wm_sync_point_def covers_def)

lemma sync_inv:
  assumes "wm_inv es m" and "wm_sync_point x m = (out, m')"
  shows "wm_inv (es @ [Synced x out]) m'"
proof -
  have same: "observed (es @ [Synced x o']) = observed es" "acknowledged (es @ [Synced x o']) = acknowledged es"
    "held_open (es @ [Synced x o']) = (if o' = Held then insert x (held_open es) else held_open es)" for o'
    by (auto simp: observed_def acknowledged_def held_open_def)
  consider "out \<noteq> Held" "m' = m" | "out = Held" "\<not> covers (wm_flushed m) x" "wm_flushed m' = wm_flushed m"
    "wm_buffered m' = wm_buffered m" "wm_held m' = (if x \<in> set (wm_held m) then wm_held m else wm_held m @ [x])"
    using assms(2) by (auto simp: sync_effect split: if_splits)
  then show ?thesis
  proof cases
    case 1
    then show ?thesis using assms(1) by (auto simp: wm_inv_def same)
  next
    case 2
    then have "x \<notin> set (acknowledged es)" using assms(1) by (auto simp: wm_inv_def)
    then have "distinct (acknowledged es @ wm_held m')" "set (wm_held m') = insert x (set (wm_held m))"
      using assms(1) 2(5) by (auto simp: wm_inv_def)
    then show ?thesis using assms(1) 2(1-4) by (auto simp: wm_inv_def same)
  qed
qed

lemma wm_trace_inv: "wm_trace es m \<Longrightarrow> wm_inv es m"
proof (induction rule: wm_trace.induct)
  case trace_start
  show ?case by (auto simp: wm_inv_def wm_new_def covers_def observed_def acknowledged_def held_open_def)
next
  case (trace_step es m e m')
  from trace_step.hyps(2) trace_step.IH show ?case
    by cases (auto intro: observe_inv flush_inv sync_inv)
qed

text \<open>
  No sync point is lost and none is acknowledged early. After any sequence of stream
  records, flushes and sync points, the points that were ever held open are exactly those
  whose acknowledgement a flush has handed out and those still held, each of them once; every
  acknowledged point is covered by the flushed watermark and no held one is; and the flushed
  watermark never covers more than the stream has delivered.
\<close>

theorem held_points_accounted:
  assumes "wm_trace es m"
  shows "set (acknowledged es) \<union> set (wm_held m) = held_open es \<and> distinct (acknowledged es @ wm_held m) \<and>
    (\<forall>x. x \<in> set (acknowledged es) \<longrightarrow> covers (wm_flushed m) x) \<and>
    (\<forall>x. x \<in> set (wm_held m) \<longrightarrow> \<not> covers (wm_flushed m) x) \<and>
    (\<forall>x. covers (wm_flushed m) x \<longrightarrow> (\<exists>y. y \<in> observed es \<and> x \<le> y))"
  using wm_trace_inv [OF assms] by (auto simp: wm_inv_def)

text \<open>
  A held sync point is acknowledged as soon as the stream covers it. Once some stream
  record at or beyond the point has been observed, the next flush hands out the
  acknowledgement of the point, and a repeated request for it is then answered at once.
\<close>

theorem held_point_resolves:
  assumes "wm_trace es m" and "x \<in> set (wm_held m)" and "y \<in> observed es" and "x \<le> y"
    and "wm_flushed_through_buffer m = (acks, m')"
  shows "x \<in> set acks \<and> wm_sync_point x m' = (Acked, m')"
proof -
  have inv: "\<forall>z. covers (wm_flushed m) z \<longrightarrow> covers (wm_buffered m) z" "covers (wm_buffered m) x"
    using wm_trace_inv [OF assms(1)] assms(3,4) by (auto simp: wm_inv_def)
  note fl = flush_effect [OF assms(5) inv(1)]
  have "covers (wm_flushed m') x" using fl(2) inv(2) by blast
  then have "wm_sync_point x m' = (Acked, m')" by (auto simp: wm_sync_point_def covers_def)
  moreover have "x \<in> set acks" using fl(3) inv(2) assms(2) by simp
  ultimately show ?thesis by blast
qed

definition wm_demo :: watermarks where
  "wm_demo = wm_observe (Frontier 1 2 9) (snd (wm_sync_point (Frontier 1 2 7) wm_new))"

lemma wm_demo_trace: "wm_trace ([] @ [Synced (Frontier 1 2 7) Held] @ [Observed (Frontier 1 2 9)]) wm_demo"
proof -
  have "wm_trace ([] @ [Synced (Frontier 1 2 7) Held]) (snd (wm_sync_point (Frontier 1 2 7) wm_new))"
    by (intro trace_step [OF trace_start] step_sync) (simp add: wm_sync_point_def wm_new_def)
  from trace_step [OF this step_observe] show ?thesis by (simp add: wm_demo_def)
qed

theorem held_points_accounted_witness:
  "held_open [Synced (Frontier 1 2 7) Held, Observed (Frontier 1 2 9)] = {Frontier 1 2 7} \<and>
   set (wm_held wm_demo) = {Frontier 1 2 7}"
proof -
  have "held_open [Synced (Frontier 1 2 7) Held, Observed (Frontier 1 2 9)] = {Frontier 1 2 7}"
    by (auto simp: held_open_def)
  with held_points_accounted [OF wm_demo_trace] show ?thesis by (simp add: acknowledged_def)
qed

theorem held_point_resolves_witness:
  "Frontier 1 2 7 \<in> set (fst (wm_flushed_through_buffer wm_demo))"
proof -
  have "Frontier 1 2 7 \<in> set (wm_held wm_demo)" by (simp add: wm_demo_def wm_sync_point_def wm_new_def)
  moreover have "Frontier 1 2 9 \<in> observed ([] @ [Synced (Frontier 1 2 7) Held] @ [Observed (Frontier 1 2 9)])"
    by (simp add: observed_def)
  moreover have "Frontier 1 2 7 \<le> Frontier 1 2 9" by (simp add: less_eq_frontier_def less_frontier_def)
  ultimately show ?thesis
    using held_point_resolves [OF wm_demo_trace] by (cases "wm_flushed_through_buffer wm_demo") auto
qed

end
