(* ===== verification/Recovery_Flush.thy ===== *)
theory Recovery_Flush
  imports Staged_Write
begin

text \<open>
  The recovery-boundary flush of \<^verbatim>\<open>ext/advisory_lock/src/recovery_flush.rs\<close>: the
  variants, the ring header and its checksum, the fake payloads, and the flush itself on the
  disk seam; that a reported flush is on the medium in the promised layout. The measured
  latency is an argument.
\<close>

unbundle bit_operations_syntax

section \<open>Variants and layout\<close>

datatype recovery_flush = Diskless | SingleBlock | DoubleRing

definition rf_parse :: "string \<Rightarrow> recovery_flush option" where
  "rf_parse s =
     (if s = ''diskless'' then Some Diskless
      else if s = ''single'' then Some SingleBlock
      else if s = ''double-ring'' then Some DoubleRing
      else None)"

definition rf_label :: "recovery_flush \<Rightarrow> string" where
  "rf_label v = (case v of Diskless \<Rightarrow> ''diskless'' | SingleBlock \<Rightarrow> ''single'' | DoubleRing \<Rightarrow> ''double-ring'')"

definition BLOCK_BYTES :: nat where "BLOCK_BYTES = 4096"
definition DATA_LINE_BYTES :: nat where "DATA_LINE_BYTES = 64"
definition HEADER_BYTES :: nat where "HEADER_BYTES = 64"
definition RING_SPACING_BYTES :: nat where "RING_SPACING_BYTES = 1024 * 1024"

definition RING_MAGIC :: bytes where
  "RING_MAGIC = [0x4C, 0x56, 0x52, 0x52, 0x46, 0x4C, 0x53, 0x48]"

record flush_outcome =
  fo_variant :: string
  fo_bytes_written :: nat
  fo_latency :: nat

definition ring_header :: "u64 \<Rightarrow> u64 \<Rightarrow> u64 \<Rightarrow> bytes" where
  "ring_header checksum sequence data_len =
     RING_MAGIC @ be_bytes 8 checksum @ be_bytes 8 sequence @ be_bytes 8 data_len @ replicate 32 0"

definition fnv1a :: "bytes \<Rightarrow> u64" where
  "fnv1a bs = fold (\<lambda>byte hash. (hash XOR ucast byte) * 0x100000001b3) bs 0xcbf29ce484222325"

definition xorshift :: "u64 \<Rightarrow> u64" where
  "xorshift state =
     (let a = state XOR push_bit 13 state; b = a XOR drop_bit 7 a in b XOR push_bit 17 b)"

primrec fake_tail :: "nat \<Rightarrow> u64 \<Rightarrow> bytes" where
  "fake_tail 0 state = []"
| "fake_tail (Suc n) state =
     (let state = xorshift state in ucast (drop_bit 24 state) # fake_tail n state)"

definition fake_line :: "u64 \<Rightarrow> bytes" where
  "fake_line seed = be_bytes 8 seed @ fake_tail (DATA_LINE_BYTES - 8) (seed OR 1)"

primrec fake_chunks :: "nat \<Rightarrow> u64 \<Rightarrow> bytes" where
  "fake_chunks 0 state = []"
| "fake_chunks (Suc n) state = (let state = xorshift state in be_bytes 8 state @ fake_chunks n state)"

definition fake_block :: "u64 \<Rightarrow> bytes" where
  "fake_block seed = fake_chunks (BLOCK_BYTES div 8) (seed OR 1)"

definition ring_one :: "bytes \<Rightarrow> bytes \<Rightarrow> bytes" where
  "ring_one header line = header @ line @ replicate (BLOCK_BYTES - HEADER_BYTES - DATA_LINE_BYTES) 0"

definition ring_two :: "bytes \<Rightarrow> bytes" where
  "ring_two header = header @ replicate (BLOCK_BYTES - HEADER_BYTES) 0"

definition rf_execute_on :: "path \<Rightarrow> recovery_flush \<Rightarrow> u64 \<Rightarrow> nat \<Rightarrow> flush_outcome disk" where
  "rf_execute_on dir variant sequence elapsed =
     (case variant of
        Diskless \<Rightarrow> dret \<lparr>fo_variant = rf_label variant, fo_bytes_written = 0, fo_latency = 0\<rparr>
      | SingleBlock \<Rightarrow>
          dbind (create_dir_all dir) (\<lambda>_.
          dbind (open_or_create_write (dir @ [''recovery-flush-single.bin''])) (\<lambda>h.
          dbind (seek_start 0 h) (\<lambda>h.
          dbind (write_all h (fake_block sequence)) (\<lambda>h.
          dbind (sync_all h) (\<lambda>_.
          dret \<lparr>fo_variant = rf_label variant, fo_bytes_written = BLOCK_BYTES, fo_latency = elapsed\<rparr>)))))
      | DoubleRing \<Rightarrow>
          dbind (create_dir_all dir) (\<lambda>_.
          dbind (open_or_create_write (dir @ [''recovery-flush-double.bin''])) (\<lambda>h.
          let line = fake_line sequence;
              header = ring_header (fnv1a line) sequence (of_nat DATA_LINE_BYTES) in
          dbind (seek_start 0 h) (\<lambda>h.
          dbind (write_all h (ring_one header line)) (\<lambda>h.
          dbind (seek_start RING_SPACING_BYTES h) (\<lambda>h.
          dbind (write_all h (ring_two header)) (\<lambda>h.
          dbind (sync_all h) (\<lambda>_.
          dret \<lparr>fo_variant = rf_label variant, fo_bytes_written = 2 * BLOCK_BYTES, fo_latency = elapsed\<rparr>))))))))"

section \<open>What a reported flush leaves\<close>

lemma length_fake_tail [simp]: "length (fake_tail n s) = n"
  by (induction n arbitrary: s) (simp_all add: Let_def)

lemma length_fake_chunks [simp]: "length (fake_chunks n s) = 8 * n"
  by (induction n arbitrary: s) (simp_all add: Let_def)

lemma length_fake_line [simp]: "length (fake_line s) = 64"
  by (simp add: fake_line_def DATA_LINE_BYTES_def)

lemma length_fake_block [simp]: "length (fake_block s) = BLOCK_BYTES"
  by (simp add: fake_block_def BLOCK_BYTES_def)

lemma length_ring_header [simp]: "length (ring_header c s n) = 64"
  by (simp add: ring_header_def RING_MAGIC_def)

lemma length_rings [simp]:
  "length h = 64 \<Longrightarrow> length l = 64 \<Longrightarrow> length (ring_one h l) = BLOCK_BYTES"
  "length h = 64 \<Longrightarrow> length (ring_two h) = BLOCK_BYTES"
  by (simp_all add: ring_one_def ring_two_def BLOCK_BYTES_def HEADER_BYTES_def DATA_LINE_BYTES_def)

lemma ring_one_fields:
  assumes "length l = 64"
  shows "slice 0 64 (ring_one (ring_header c s n) l) = ring_header c s n"
    and "slice 64 128 (ring_one (ring_header c s n) l) = l"
    and "slice 0 8 (ring_one (ring_header c s n) l) = RING_MAGIC"
    and "be_word (slice 8 16 (ring_one (ring_header c s n) l)) = c"
    and "be_word (slice 16 24 (ring_one (ring_header c s n) l)) = s"
  using assms by (simp_all add: ring_one_def HEADER_BYTES_def DATA_LINE_BYTES_def slice_def ring_header_def RING_MAGIC_def)

lemma open_create_Inr:
  assumes "open_or_create_write p f = (Inr h, f')"
  shows "lookup f' p = Some (inode h) \<and> \<not> appends h \<and>
    (lookup f p = Some (inode h) \<and> cached f' = cached f \<or> cached f' (inode h) = [])"
  using assms by (auto simp: open_or_create_write_def open_or_create_def guarded_def make_file_def Let_def lookup_def
      split: fault.splits option.splits if_splits)

lemma seek_Inr: "seek_start n h f = (Inr h', f') \<Longrightarrow> h' = h\<lparr>cursor := n\<rparr> \<and> f' = take_fault f"
  by (auto simp: seek_start_def guarded_def split: fault.splits)

lemma write_Inr:
  assumes "write_all h bs f = (Inr h', f')" and "\<not> appends h"
  shows "h' = h\<lparr>cursor := cursor h + length bs\<rparr> \<and> f' = write_at (inode h) (cursor h) bs (take_fault f)"
  using assms by (elim write_all_effect) auto

lemma overwrite_slice_at: "slice off (off + length bs) (overwrite off bs old) = bs"
proof -
  have "length (take off old @ replicate (off - length old) 0) = off" by simp
  from slice_field [OF this, of bs "off + length bs"] show ?thesis by (simp add: overwrite_def)
qed

lemma overwrite_slice_before:
  assumes "b \<le> off" and "b \<le> length old"
  shows "slice a b (overwrite off bs old) = slice a b old"
proof -
  have "slice a b (overwrite off bs old) = slice a b (take off old)"
    unfolding overwrite_def by (rule slice_append_left) (use assms in simp)
  then show ?thesis using assms(1) by (simp add: slice_def drop_take min_def)
qed

lemma length_overwrite: "length (overwrite off bs old) = max (length old) (off + length bs)"
  by (auto simp: overwrite_def max_def)

text \<open>The two rings written over any file.\<close>

lemma rings_written:
  fixes old :: bytes
  assumes "length hdr = 64" and "length line = 64" and "hdr = ring_header c s n"
  defines "b \<equiv> overwrite RING_SPACING_BYTES (ring_two hdr) (overwrite 0 (ring_one hdr line) old)"
  shows "slice RING_SPACING_BYTES (RING_SPACING_BYTES + HEADER_BYTES) b = hdr" and "slice 0 HEADER_BYTES b = hdr"
    and "slice HEADER_BYTES (HEADER_BYTES + DATA_LINE_BYTES) b = line" and "slice 0 8 b = RING_MAGIC"
    and "be_word (slice 8 16 b) = c" and "be_word (slice 16 24 b) = s"
proof -
  let ?b1 = "overwrite 0 (ring_one hdr line) old"
  have far: "128 \<le> RING_SPACING_BYTES" and len1: "128 \<le> length ?b1"
    using assms(1,2) by (simp_all add: RING_SPACING_BYTES_def length_overwrite BLOCK_BYTES_def)
  have "slice 0 (0 + length (ring_one hdr line)) ?b1 = ring_one hdr line" by (rule overwrite_slice_at)
  then have "take BLOCK_BYTES ?b1 = ring_one hdr line" using assms(1,2) by (simp add: slice_def)
  moreover have "slice u v ?b1 = slice u v (take BLOCK_BYTES ?b1)" if "v \<le> 128" for u v
    using that by (simp add: slice_def BLOCK_BYTES_def take_drop [symmetric] drop_take min_def)
  ultimately have one: "slice u v b = slice u v (ring_one hdr line)" if "v \<le> 128" for u v
    using overwrite_slice_before [of v RING_SPACING_BYTES ?b1 u "ring_two hdr"] that far len1 by (simp add: b_def)
  show "slice 0 HEADER_BYTES b = hdr" "slice HEADER_BYTES (HEADER_BYTES + DATA_LINE_BYTES) b = line"
    "slice 0 8 b = RING_MAGIC" "be_word (slice 8 16 b) = c" "be_word (slice 16 24 b) = s"
    using one [of 64 0] one [of 128 64] one [of 8 0] one [of 16 8] one [of 24 16] assms(2,3)
    by (simp_all add: HEADER_BYTES_def DATA_LINE_BYTES_def ring_one_fields)
  have "slice RING_SPACING_BYTES (RING_SPACING_BYTES + length (ring_two hdr)) b = ring_two hdr"
    unfolding b_def by (rule overwrite_slice_at)
  then have "take BLOCK_BYTES (drop RING_SPACING_BYTES b) = ring_two hdr" using assms(1) by (simp add: slice_def)
  then have "take HEADER_BYTES (take BLOCK_BYTES (drop RING_SPACING_BYTES b)) = hdr"
    using assms(1) by (simp add: ring_two_def HEADER_BYTES_def)
  then show "slice RING_SPACING_BYTES (RING_SPACING_BYTES + HEADER_BYTES) b = hdr"
    by (simp add: slice_def HEADER_BYTES_def BLOCK_BYTES_def min_def)
qed

text \<open>
  The double-ring flush is on the medium in two places. Whatever the file held and
  whichever operations fail, a flush that reports success leaves a synced file in which the
  header at the start of ring one is the header one megabyte further, it names the sequence
  of this flush, and its checksum is that of the data line behind it in ring one.
\<close>

theorem double_ring_on_medium:
  assumes "rf_execute_on dir DoubleRing sequence elapsed f = (Inr out, f')"
  shows "\<exists>i b. lookup f' (dir @ [''recovery-flush-double.bin'']) = Some i \<and> cached f' i = b \<and> kept f' i = b \<and>
    slice RING_SPACING_BYTES (RING_SPACING_BYTES + HEADER_BYTES) b = slice 0 HEADER_BYTES b \<and>
    slice 0 8 b = RING_MAGIC \<and> be_word (slice 16 24 b) = sequence \<and>
    be_word (slice 8 16 b) = fnv1a (slice HEADER_BYTES (HEADER_BYTES + DATA_LINE_BYTES) b) \<and>
    fo_bytes_written out = 2 * BLOCK_BYTES"
proof -
  let ?p = "dir @ [''recovery-flush-double.bin'']" and ?line = "fake_line sequence"
  let ?hd = "ring_header (fnv1a ?line) sequence (of_nat DATA_LINE_BYTES)"
  obtain f1 h f2 h3 f3 h4 f4 h5 f5 h6 f6 where
    o: "open_or_create_write ?p f1 = (Inr h, f2)" and s1: "seek_start 0 h f2 = (Inr h3, f3)"
    and w1: "write_all h3 (ring_one ?hd ?line) f3 = (Inr h4, f4)"
    and s2: "seek_start RING_SPACING_BYTES h4 f4 = (Inr h5, f5)"
    and w2: "write_all h5 (ring_two ?hd) f5 = (Inr h6, f6)" and y: "sync_all h6 f6 = (Inr (), f')"
    and out: "fo_bytes_written out = 2 * BLOCK_BYTES"
    using assms by (auto simp: rf_execute_on_def dbind_Inr Let_def dret_def)
  let ?i = "inode h" let ?b1 = "overwrite 0 (ring_one ?hd ?line) (cached f2 ?i)"
  let ?b = "overwrite RING_SPACING_BYTES (ring_two ?hd) ?b1"
  have h: "lookup f2 ?p = Some ?i" "\<not> appends h" using open_create_Inr [OF o] by simp_all
  have h3: "h3 = h\<lparr>cursor := 0\<rparr>" "f3 = take_fault f2" using seek_Inr [OF s1] by simp_all
  then have f4: "f4 = write_at ?i 0 (ring_one ?hd ?line) (take_fault f3)" "inode h4 = ?i" "\<not> appends h4"
    using write_Inr [OF w1] h(2) by simp_all
  have h5: "h5 = h4\<lparr>cursor := RING_SPACING_BYTES\<rparr>" "f5 = take_fault f4" using seek_Inr [OF s2] by simp_all
  then have f6: "f6 = write_at ?i RING_SPACING_BYTES (ring_two ?hd) (take_fault f5)" "inode h6 = ?i"
    using write_Inr [OF w2] f4 by simp_all
  have b: "lookup f' ?p = Some ?i" "cached f' ?i = ?b" "kept f' ?i = ?b"
    using sync_all_Inr [OF y] f6 h5(2) f4(1) h3(2) h(1) by (simp_all add: lookup_def)
  note rings = rings_written [of ?hd ?line "fnv1a ?line" sequence "of_nat DATA_LINE_BYTES" "cached f2 ?i"]
  show ?thesis
    by (rule exI [of _ ?i], rule exI [of _ ?b]) (use b out rings in simp)
qed

text \<open>
  The single-block flush stays one block. A flush that reports success leaves the whole
  fake block of its sequence at the start of the file, synced; and the file, when it was at
  most one block before, is exactly one block however many boots wrote it.
\<close>

theorem single_block_stays_one_block:
  assumes "rf_execute_on dir SingleBlock sequence elapsed f = (Inr out, f')" and "fs_wf f"
    and "\<forall>c. content f (dir @ [''recovery-flush-single.bin'']) = Some c \<longrightarrow> length c \<le> BLOCK_BYTES"
  shows "content f' (dir @ [''recovery-flush-single.bin'']) = Some (fake_block sequence) \<and>
    (\<exists>i. lookup f' (dir @ [''recovery-flush-single.bin'']) = Some i \<and> kept f' i = fake_block sequence) \<and>
    length (fake_block sequence) = BLOCK_BYTES"
proof -
  let ?p = "dir @ [''recovery-flush-single.bin'']"
  obtain f1 h f2 h3 f3 h4 f4 where m: "create_dir_all dir f = (Inr (), f1)"
    and o: "open_or_create_write ?p f1 = (Inr h, f2)" and s1: "seek_start 0 h f2 = (Inr h3, f3)"
    and w1: "write_all h3 (fake_block sequence) f3 = (Inr h4, f4)" and y: "sync_all h4 f4 = (Inr (), f')"
    using assms(1) by (auto simp: rf_execute_on_def dbind_Inr Let_def dret_def)
  let ?i = "inode h"
  have f1: "lookup f1 = lookup f" "cached f1 = cached f"
    using m by (auto simp: create_dir_all_def guarded_def lookup_def fun_eq_iff split: fault.splits if_splits)
  have h: "lookup f2 ?p = Some ?i" "\<not> appends h"
      "lookup f1 ?p = Some ?i \<and> cached f2 = cached f1 \<or> cached f2 ?i = []"
    using open_create_Inr [OF o] by simp_all
  then have small: "length (cached f2 ?i) \<le> BLOCK_BYTES"
    using assms(3) f1 by (auto simp: content_def)
  have h3: "h3 = h\<lparr>cursor := 0\<rparr>" "f3 = take_fault f2" using seek_Inr [OF s1] by simp_all
  then have f4: "f4 = write_at ?i 0 (fake_block sequence) (take_fault f3)" "inode h4 = ?i"
    using write_Inr [OF w1] h(2) by simp_all
  have "overwrite 0 (fake_block sequence) (cached f2 ?i) = fake_block sequence"
    using small by (simp add: overwrite_def)
  then have "lookup f' ?p = Some ?i" "cached f' ?i = fake_block sequence" "kept f' ?i = fake_block sequence"
    using sync_all_Inr [OF y] f4 h3(2) h(1) by (simp_all add: lookup_def)
  then show ?thesis by (simp add: content_def)
qed

definition rf_disk :: fs where
  "rf_disk = \<lparr>names = [], names_kept = Map.empty, cached = (\<lambda>_. []), kept = (\<lambda>_. []), next_inode = 0,
     dirs = [[''/'']], faults = []\<rparr>"

lemma rf_disk_flushes:
  "\<exists>out f'. rf_execute_on [''/'', ''r''] DoubleRing 3 9 rf_disk = (Inr out, f')"
  "\<exists>out f'. rf_execute_on [''/'', ''r''] SingleBlock 3 9 rf_disk = (Inr out, f')"
  by (simp_all add: rf_execute_on_def dbind_def dret_def create_dir_all_def rf_disk_def guarded_def next_fault_def
      take_fault_def lookup_def is_dir_def open_or_create_write_def open_or_create_def has_parent_dir_def make_file_def
      Let_def seek_start_def write_all_def write_all_at_def write_at_def sync_all_def link_def)

theorem double_ring_on_medium_witness:
  "\<exists>out f' i b. rf_execute_on [''/'', ''r''] DoubleRing 3 9 rf_disk = (Inr out, f') \<and>
     lookup f' [''/'', ''r'', ''recovery-flush-double.bin''] = Some i \<and> kept f' i = b \<and>
     be_word (slice 16 24 b) = (3 :: u64) \<and>
     slice RING_SPACING_BYTES (RING_SPACING_BYTES + HEADER_BYTES) b = slice 0 HEADER_BYTES b"
proof -
  obtain out f' where r: "rf_execute_on [''/'', ''r''] DoubleRing 3 9 rf_disk = (Inr out, f')"
    using rf_disk_flushes(1) by blast
  with double_ring_on_medium [OF r] show ?thesis by auto
qed

theorem single_block_stays_one_block_witness:
  "\<exists>out f'. rf_execute_on [''/'', ''r''] SingleBlock 3 9 rf_disk = (Inr out, f') \<and>
     content f' [''/'', ''r'', ''recovery-flush-single.bin''] = Some (fake_block 3)"
proof -
  obtain out f' where r: "rf_execute_on [''/'', ''r''] SingleBlock 3 9 rf_disk = (Inr out, f')"
    using rf_disk_flushes(2) by blast
  have "content rf_disk p = None" "fs_wf rf_disk" for p
    by (simp_all add: content_def rf_disk_def lookup_def fs_wf_def is_dir_def)
  with single_block_stays_one_block [OF r] r show ?thesis by auto
qed

end
