(* ===== verification/Boot_Gate.thy ===== *)
theory Boot_Gate
  imports State_Store Utf8_Text Recovery_Flush Aof_Writer
begin

text \<open>
  The boot gate: the marker line and the view record of
  \<^verbatim>\<open>ext/advisory_lock/src/ffi.rs\<close>, the routed marker store of
  \<^verbatim>\<open>marker_store.rs\<close> over its durable backend, and the gate's decision at a
  start. The quorum store of superblock copies and the replication library's lifecycle
  machine are third-party code: the records \<open>marker_engine\<close> and \<open>lifecycle\<close>
  hold their calls, and a backend carries the embedder's fence or the harness's socket.
\<close>

section \<open>Markers and their words\<close>

datatype marker = Stopping | Stopped | Restarting | Joining

datatype zig_marker = ZUnflushed | ZStopped | ZFlushed

definition zig_state :: "marker \<Rightarrow> zig_marker" where
  "zig_state m =
     (case m of Stopping \<Rightarrow> ZStopped | Stopped \<Rightarrow> ZFlushed | Restarting \<Rightarrow> ZUnflushed | Joining \<Rightarrow> ZUnflushed)"

definition engine_marker :: "zig_marker \<Rightarrow> marker" where
  "engine_marker z = (case z of ZUnflushed \<Rightarrow> Joining | ZStopped \<Rightarrow> Stopping | ZFlushed \<Rightarrow> Stopped)"

definition projection_word :: "marker \<Rightarrow> string" where
  "projection_word m =
     (case m of Stopping \<Rightarrow> ''stopped'' | Stopped \<Rightarrow> ''flushed'' | Restarting \<Rightarrow> ''unflushed'' | Joining \<Rightarrow> ''unflushed'')"

definition machine_word :: "marker \<Rightarrow> string" where
  "machine_word m =
     (case m of Stopping \<Rightarrow> ''Stopping'' | Stopped \<Rightarrow> ''Stopped'' | Restarting \<Rightarrow> ''Restarting'' | Joining \<Rightarrow> ''Joining'')"

definition marker_word :: "marker \<Rightarrow> string" where
  "marker_word m =
     (case m of Stopping \<Rightarrow> ''stopping'' | Stopped \<Rightarrow> ''stopped'' | Restarting \<Rightarrow> ''restarting'' | Joining \<Rightarrow> ''joining'')"

definition word_marker :: "string \<Rightarrow> marker option" where
  "word_marker w =
     (if w = ''joining'' \<or> w = ''restarting'' then Some Joining
      else if w = ''stopping'' then Some Stopping
      else if w = ''stopped'' then Some Stopped
      else None)"

record copy_state =
  cp_identity :: u32
  cp_marker :: marker

type_synonym superblock_copies = "copy_state list"

definition uniform :: "u32 \<Rightarrow> marker \<Rightarrow> superblock_copies" where
  "uniform i m = replicate 4 \<lparr>cp_identity = i, cp_marker = m\<rparr>"

definition superblock_path :: "path \<Rightarrow> path" where
  "superblock_path state = with_suffix state ''.superblock''"

section \<open>The marker line\<close>

definition marker_line :: "u16 \<Rightarrow> u16 \<Rightarrow> marker \<Rightarrow> string" where
  "marker_line sys crash m =
     show_dec (unat sys) @ '' '' @ show_dec (unat crash) @ '' '' @ projection_word m @ [CHR 0x0A]"

definition parse_marker :: "string \<Rightarrow> (u16 \<times> u16 \<times> marker) option" where
  "parse_marker text =
     Option.bind (split_once (CHR '' '') (trim text)) (\<lambda>(system_text, rest).
     Option.bind (split_once (CHR '' '') rest) (\<lambda>(crash_text, marker_text).
     Option.bind (parse_u16 system_text) (\<lambda>sys.
     Option.bind (parse_u16 crash_text) (\<lambda>crash.
     if sys = 0 \<or> crash = 0 then None
     else if marker_text = ''flushed'' then Some (sys, crash, Stopped)
     else if marker_text = ''stopped'' then Some (sys, crash, Stopping)
     else if marker_text = ''unflushed'' then Some (sys, crash, Joining)
     else None))))"

text \<open>Reading a file as text: bytes that are not UTF-8 are invalid data.\<close>

definition read_to_string :: "path \<Rightarrow> string disk" where
  "read_to_string p =
     dbind (disk_read p) (\<lambda>b. case from_utf8 b of None \<Rightarrow> dfail InvalidData | Some s \<Rightarrow> dret s)"

definition read_marker :: "path \<Rightarrow> (u16 \<times> u16 \<times> marker) disk" where
  "read_marker p =
     dbind (read_to_string p) (\<lambda>s. case parse_marker s of None \<Rightarrow> dfail InvalidData | Some x \<Rightarrow> dret x)"

definition marker_tmp :: "path \<Rightarrow> nat \<times> nat \<Rightarrow> path" where
  "marker_tmp p u =
     parent_or_dot p @ [''.'' @ file_name p @ ''.tmp-'' @ show_dec (fst u) @ ''-'' @ show_dec (snd u)]"

definition write_marker :: "path \<Rightarrow> nat \<times> nat \<Rightarrow> u16 \<Rightarrow> u16 \<Rightarrow> marker \<Rightarrow> unit disk" where
  "write_marker p u sys crash m = created_write (marker_tmp p u) p p (str_bytes (marker_line sys crash m))"

section \<open>The view record\<close>

record view_record =
  vr_era :: u32
  vr_view :: u32

definition view_line :: "view_record \<Rightarrow> string" where
  "view_line r = show_dec (unat (vr_era r)) @ '' '' @ show_dec (unat (vr_view r)) @ [CHR 0x0A]"

definition view_parse :: "string \<Rightarrow> view_record option" where
  "view_parse text =
     (case split_on (CHR '' '') (trim text) of
        [] \<Rightarrow> None
      | e # es \<Rightarrow>
          Option.bind (parse_u32 e) (\<lambda>era.
          case es of
            [] \<Rightarrow> None
          | v # vs \<Rightarrow>
              Option.bind (parse_u32 v) (\<lambda>vw.
              if vs \<noteq> [] then None else Some \<lparr>vr_era = era, vr_view = vw\<rparr>)))"

definition view_record_path :: "path \<Rightarrow> path" where
  "view_record_path state = with_suffix state ''.view''"

definition view_tmp :: "path \<Rightarrow> nat \<times> nat \<Rightarrow> path" where
  "view_tmp p u =
     parent_or_dot p @ [''.'' @ file_name p @ ''.view-tmp-'' @ show_dec (fst u) @ ''-'' @ show_dec (snd u)]"

definition write_view_record :: "path \<Rightarrow> nat \<times> nat \<Rightarrow> view_record \<Rightarrow> unit disk" where
  "write_view_record p u r = staged_write (view_tmp p u) (view_record_path p) p (str_bytes (view_line r))"

definition read_view_record :: "path \<Rightarrow> view_record option disk" where
  "read_view_record p f =
     (let q = view_record_path p in
      if \<not> disk_exists q f then (Inr None, f)
      else dbind (read_to_string q) (\<lambda>s. case view_parse s of None \<Rightarrow> dfail InvalidData | Some r \<Rightarrow> dret (Some r)) f)"

section \<open>The routed store\<close>

text \<open>The quorum store of the superblock copies.\<close>

record 'm marker_engine =
  me_exists :: "path \<Rightarrow> 'm \<Rightarrow> bool"
  me_classify :: "path \<Rightarrow> 'm \<Rightarrow> int + (u32 \<times> zig_marker)"
  me_write :: "path \<Rightarrow> u32 \<Rightarrow> zig_marker \<Rightarrow> 'm \<Rightarrow> (int + unit) \<times> 'm"
  me_pack :: "u16 \<Rightarrow> u16 \<Rightarrow> u32"
  me_unpack :: "u32 \<Rightarrow> (u16 \<times> u16) option"
  me_CORRUPT :: int

text \<open>The embedder's fence, and the harness's reply with the fields the store reads.\<close>

record 'm fence =
  fn_read :: "'m \<Rightarrow> superblock_copies option io \<times> 'm"
  fn_commit :: "superblock_copies \<Rightarrow> 'm \<Rightarrow> unit io \<times> 'm"
  fn_drain :: "'m \<Rightarrow> unit io \<times> 'm"

datatype rpc_request = RpcRead | RpcCommit u32 string | RpcDrain

record rpc_reply =
  rp_ok :: "bool option"
  rp_verdict :: "string option"
  rp_incarnation :: "u64 option"

datatype 'm backend =
    BackDisk path
  | BackMem "rpc_request \<Rightarrow> 'm \<Rightarrow> rpc_reply io \<times> 'm"
  | BackMounted "'m fence"

datatype journal_sink = SinkBlocking journal | SinkAof aof_queue

text \<open>
  The store with its world: what the backends reach outside the filesystem, the
  filesystem, the log of marker rounds, and the sink the halt drains.
\<close>

record 'm gate =
  g_backend :: "'m backend"
  g_system :: u16
  g_world :: 'm
  g_fs :: fs
  g_ops :: "string list"
  g_sink :: "journal_sink option"

definition on_disk :: "'a disk \<Rightarrow> 'm gate \<Rightarrow> 'a io \<times> 'm gate" where
  "on_disk op g = (case op (g_fs g) of (r, f) \<Rightarrow> (r, g\<lparr>g_fs := f\<rparr>))"

definition on_world :: "('m \<Rightarrow> 'a io \<times> 'm) \<Rightarrow> 'm gate \<Rightarrow> 'a io \<times> 'm gate" where
  "on_world op g = (case op (g_world g) of (r, w) \<Rightarrow> (r, g\<lparr>g_world := w\<rparr>))"

definition rpc_ack :: "rpc_reply \<Rightarrow> unit io" where
  "rpc_ack reply = (if rp_ok reply = Some True then Inr () else Inl OtherError)"

definition rpc_acked :: "(rpc_request \<Rightarrow> 'm \<Rightarrow> rpc_reply io \<times> 'm) \<Rightarrow> rpc_request \<Rightarrow> 'm gate \<Rightarrow> unit io \<times> 'm gate" where
  "rpc_acked rpc req g =
     (case on_world (rpc req) g of (Inl e, g') \<Rightarrow> (Inl e, g') | (Inr reply, g') \<Rightarrow> (rpc_ack reply, g'))"

text \<open>A bad checksum panics, every other refusal of the quorum store is an error.\<close>

definition marker_failure :: "'m marker_engine \<Rightarrow> int \<Rightarrow> io_error" where
  "marker_failure en code = (if code = me_CORRUPT en then Panicked else OtherError)"

definition read_copies_disk :: "'m marker_engine \<Rightarrow> path \<Rightarrow> 'm gate \<Rightarrow> superblock_copies option io \<times> 'm gate" where
  "read_copies_disk en state g =
     (let superblock = superblock_path state in
      if \<not> me_exists en superblock (g_world g) then
        (if \<not> disk_exists state (g_fs g) then (Inr None, g)
         else
           (case on_disk (read_marker state) g of
              (Inl e, g') \<Rightarrow> (Inl e, g')
            | (Inr (file_system, crash, m), g') \<Rightarrow>
                if file_system \<noteq> g_system g then (Inl OtherError, g')
                else (Inr (Some (uniform (me_pack en file_system crash) m)), g')))
      else
        (case me_classify en superblock (g_world g) of
           Inl code \<Rightarrow> (Inl (marker_failure en code), g)
         | Inr (i, z) \<Rightarrow> (Inr (Some (uniform i (engine_marker z))), g)))"

text \<open>The quorum write, then the projection mirror.\<close>

definition quorum_then_mirror ::
  "'m marker_engine \<Rightarrow> nat \<times> nat \<Rightarrow> path \<Rightarrow> u32 \<Rightarrow> u16 \<times> u16 \<Rightarrow> zig_marker \<Rightarrow> marker \<Rightarrow> 'm gate \<Rightarrow> unit io \<times> 'm gate" where
  "quorum_then_mirror en u state i halves z m g =
     (case me_write en (superblock_path state) i z (g_world g) of
        (Inl code, w) \<Rightarrow> (Inl (marker_failure en code), g\<lparr>g_world := w\<rparr>)
      | (Inr _, w) \<Rightarrow> on_disk (write_marker state u (fst halves) (snd halves) m) (g\<lparr>g_world := w\<rparr>))"

definition commit_disk :: "'m marker_engine \<Rightarrow> nat \<times> nat \<Rightarrow> path \<Rightarrow> copy_state \<Rightarrow> 'm gate \<Rightarrow> unit io \<times> 'm gate" where
  "commit_disk en u state cp g =
     (case me_unpack en (cp_identity cp) of
        None \<Rightarrow> (Inl OtherError, g)
      | Some halves \<Rightarrow>
          quorum_then_mirror en u state (cp_identity cp) halves (zig_state (cp_marker cp)) (cp_marker cp) g)"

definition write_round ::
  "'m marker_engine \<Rightarrow> nat \<times> nat \<Rightarrow> path \<Rightarrow> u32 \<Rightarrow> u16 \<times> u16 \<Rightarrow> zig_marker \<Rightarrow> 'm gate \<Rightarrow> unit io \<times> 'm gate" where
  "write_round en u state i halves round g =
     quorum_then_mirror en u state i halves round (engine_marker round) g"

definition emission_gate :: "'m marker_engine \<Rightarrow> nat \<times> nat \<Rightarrow> u32 \<Rightarrow> 'm gate \<Rightarrow> unit io \<times> 'm gate" where
  "emission_gate en u i g =
     (case g_backend g of
        BackDisk state \<Rightarrow>
          (case me_unpack en i of
             None \<Rightarrow> (Inl OtherError, g)
           | Some halves \<Rightarrow> write_round en u state i halves ZUnflushed g)
      | BackMem rpc \<Rightarrow> rpc_acked rpc (RpcCommit i ''joining'') g
      | BackMounted fence \<Rightarrow> on_world (fn_commit fence (uniform i Joining)) g)"

definition gate_view_record :: "'m gate \<Rightarrow> view_record option io \<times> 'm gate" where
  "gate_view_record g =
     (case g_backend g of
        BackDisk state \<Rightarrow> on_disk (read_view_record state) g
      | BackMem _ \<Rightarrow> (Inr None, g)
      | BackMounted _ \<Rightarrow> (Inr None, g))"

text \<open>The verdict a harness's reply spells.\<close>

definition rpc_verdict :: "rpc_reply \<Rightarrow> superblock_copies option io" where
  "rpc_verdict reply =
     (case rp_verdict reply of
        None \<Rightarrow> Inl OtherError
      | Some word \<Rightarrow>
          if word = ''none'' then Inr None
          else
            (case word_marker word of
               None \<Rightarrow> Inl OtherError
             | Some m \<Rightarrow>
                 (case rp_incarnation reply of
                    None \<Rightarrow> Inl OtherError
                  | Some packed \<Rightarrow>
                      if unat packed < 2 ^ 32 then Inr (Some (uniform (ucast packed) m)) else Inl OtherError)))"

definition read_copies :: "'m marker_engine \<Rightarrow> 'm gate \<Rightarrow> superblock_copies option io \<times> 'm gate" where
  "read_copies en g =
     (case g_backend g of
        BackDisk state \<Rightarrow> read_copies_disk en state g
      | BackMounted fence \<Rightarrow> on_world (fn_read fence) g
      | BackMem rpc \<Rightarrow>
          (case on_world (rpc RpcRead) g of
             (Inl e, g') \<Rightarrow> (Inl e, g')
           | (Inr reply, g') \<Rightarrow> (rpc_verdict reply, g')))"

text \<open>A commit writes uniform copies, and logs the round it wrote.\<close>

definition gate_commit :: "'m marker_engine \<Rightarrow> nat \<times> nat \<Rightarrow> superblock_copies \<Rightarrow> 'm gate \<Rightarrow> unit io \<times> 'm gate" where
  "gate_commit en u copies g =
     (let cp = hd copies in
      if \<not> list_all (\<lambda>one. one = cp) copies then (Inl Panicked, g)
      else
        (case (case g_backend g of
                 BackDisk state \<Rightarrow> commit_disk en u state cp g
               | BackMem rpc \<Rightarrow> rpc_acked rpc (RpcCommit (cp_identity cp) (marker_word (cp_marker cp))) g
               | BackMounted fence \<Rightarrow> on_world (fn_commit fence copies) g) of
           (Inl e, g') \<Rightarrow> (Inl e, g')
         | (Inr _, g') \<Rightarrow>
             (Inr (), g'\<lparr>g_ops := g_ops g' @
                [''commit:'' @ machine_word (cp_marker cp) @ ''@'' @ show_dec (unat (cp_identity cp))]\<rparr>)))"

text \<open>
  The sink's drain: the blocking journal is fsynced. A write-behind writer that is gone fails the drain;
  otherwise its answer is an argument.
\<close>

definition drain_sink :: "unit io \<Rightarrow> journal_sink option \<Rightarrow> unit disk" where
  "drain_sink writer_answer sink =
     (case sink of
        None \<Rightarrow> dret ()
      | Some (SinkAof q) \<Rightarrow> (\<lambda>f. (if q_writer q then writer_answer else Inl OtherError, f))
      | Some (SinkBlocking j) \<Rightarrow> journal_flush j)"

definition gate_drain :: "unit io \<Rightarrow> 'm gate \<Rightarrow> unit io \<times> 'm gate" where
  "gate_drain writer_answer g =
     (case on_disk (drain_sink writer_answer (g_sink g)) g of
        (Inl e, g1) \<Rightarrow> (Inl e, g1)
      | (Inr _, g1) \<Rightarrow>
          (case (case g_backend g of
                   BackMounted fence \<Rightarrow> on_world (fn_drain fence) g1
                 | BackDisk _ \<Rightarrow> (Inr (), g1)
                 | BackMem rpc \<Rightarrow> rpc_acked rpc RpcDrain g1) of
             (Inl e, g2) \<Rightarrow> (Inl e, g2)
           | (Inr _, g2) \<Rightarrow> (Inr (), g2\<lparr>g_ops := g_ops g2 @ [''drain'']\<rparr>)))"

section \<open>The decision at a start\<close>

datatype boot_outcome = First | Clean u32 | Crashed u32

text \<open>
  The lifecycle machine: its verdict on a read (\<open>None\<close> is a lost quorum or an identity
  that cannot be bumped), the marker each latch and each round of the halt writes, and the pair of the old and
  the next identity.
\<close>

record lifecycle =
  lc_boot :: "superblock_copies option \<Rightarrow> boot_outcome option"
  lc_first_latch :: marker
  lc_clean_latch :: marker
  lc_seated_latch :: marker
  lc_seated :: "u32 \<Rightarrow> u32"
  lc_halt_first :: marker
  lc_halt_second :: marker
  lc_pair :: "u32 \<Rightarrow> (u32 \<times> u32) option"

record boot_decision =
  bd_session :: bool
  bd_deferred :: "u32 option"
  bd_identity :: u32
  bd_vouched :: bool
  bd_pair :: "(u32 \<times> u32) option"
  bd_flush :: "flush_outcome option"
  bd_restored :: "view_record option"

text \<open>A boot that does not decide refuses with the configuration code, or panics.\<close>

datatype boot_stop = Refuses int | Panics

definition CONFIG :: int where "CONFIG = - 2"

definition refuse :: "io_error \<Rightarrow> boot_stop" where
  "refuse e = (if e = Panicked then Panics else Refuses CONFIG)"

definition boot_first ::
  "lifecycle \<Rightarrow> 'm marker_engine \<Rightarrow> nat \<times> nat \<Rightarrow> u16 \<Rightarrow> 'm gate \<Rightarrow> (boot_stop + boot_decision) \<times> 'm gate" where
  "boot_first lc en u sys g =
     (let genesis = me_pack en sys 1 in
      case gate_commit en u (uniform genesis (lc_first_latch lc)) g of
        (Inl e, g') \<Rightarrow> (Inl (refuse e), g')
      | (Inr _, g') \<Rightarrow>
          (Inr \<lparr>bd_session = True, bd_deferred = None, bd_identity = genesis, bd_vouched = False, bd_pair = None,
                bd_flush = None, bd_restored = None\<rparr>, g'))"

definition boot_clean ::
  "lifecycle \<Rightarrow> 'm marker_engine \<Rightarrow> nat \<times> nat \<Rightarrow> u32 \<Rightarrow> 'm gate \<Rightarrow> (boot_stop + boot_decision) \<times> 'm gate" where
  "boot_clean lc en u i g =
     (case gate_view_record g of
        (Inl e, g1) \<Rightarrow> (Inl (refuse e), g1)
      | (Inr restored, g1) \<Rightarrow>
          (case gate_commit en u (uniform i (lc_clean_latch lc)) g1 of
             (Inl e, g2) \<Rightarrow> (Inl (refuse e), g2)
           | (Inr _, g2) \<Rightarrow>
               (Inr \<lparr>bd_session = True, bd_deferred = None, bd_identity = i, bd_vouched = True, bd_pair = None,
                     bd_flush = None, bd_restored = restored\<rparr>, g2)))"

definition boot_crashed ::
  "lifecycle \<Rightarrow> 'm marker_engine \<Rightarrow> nat \<times> nat \<Rightarrow> nat \<Rightarrow> (recovery_flush \<times> path) option \<Rightarrow> u32 \<Rightarrow> 'm gate \<Rightarrow>
   (boot_stop + boot_decision) \<times> 'm gate" where
  "boot_crashed lc en u elapsed recovery i g =
     (case lc_pair lc i of
        None \<Rightarrow> (Inl (Refuses CONFIG), g)
      | Some pair \<Rightarrow>
          (case emission_gate en u (snd pair) g of
             (Inl e, g1) \<Rightarrow> (Inl (refuse e), g1)
           | (Inr _, g1) \<Rightarrow>
               (let decide = (\<lambda>flush. \<lparr>bd_session = False, bd_deferred = Some i, bd_identity = snd pair,
                      bd_vouched = False, bd_pair = Some pair, bd_flush = flush, bd_restored = None\<rparr>) in
                case recovery of
                  None \<Rightarrow> (Inr (decide None), g1)
                | Some (variant, scratch) \<Rightarrow>
                    if variant = Diskless then (Inr (decide None), g1)
                    else
                      (case on_disk (rf_execute_on scratch variant (ucast (snd pair)) elapsed) g1 of
                         (Inl e, g2) \<Rightarrow> (Inl (refuse e), g2)
                       | (Inr out, g2) \<Rightarrow> (Inr (decide (Some out)), g2)))))"

definition boot_gate ::
  "lifecycle \<Rightarrow> 'm marker_engine \<Rightarrow> nat \<times> nat \<Rightarrow> nat \<Rightarrow> u16 \<Rightarrow> (recovery_flush \<times> path) option \<Rightarrow> 'm gate \<Rightarrow>
   (boot_stop + boot_decision) \<times> 'm gate" where
  "boot_gate lc en u elapsed sys recovery g =
     (case read_copies en g of
        (Inl e, g1) \<Rightarrow> (Inl (refuse e), g1)
      | (Inr copies, g1) \<Rightarrow>
          (case lc_boot lc copies of
             None \<Rightarrow> (Inl (Refuses CONFIG), g1)
           | Some First \<Rightarrow> boot_first lc en u sys g1
           | Some (Clean i) \<Rightarrow> boot_clean lc en u i g1
           | Some (Crashed i) \<Rightarrow> boot_crashed lc en u elapsed recovery i g1))"

end
