(* ===== verification/Node_State.thy ===== *)
theory Node_State
  imports Lock_Service Boot_Gate
begin

text \<open>
  The state of the node of \<^verbatim>\<open>ext/advisory_lock/src/ffi.rs\<close>: its codes, its
  identifiers, what it is built over and what it holds.

  The replica, its wire messages and its configuration arithmetic belong to the replication library: they
  are the record \<open>replica_ops\<close>. The clock, the process's unique names and its random identifiers are
  streams the node reads from.
\<close>

section \<open>Codes\<close>

definition NODE_OK :: int where "NODE_OK = 0"
definition INVALID :: int where "INVALID = - 1"
definition CLIENT_JSON :: int where "CLIENT_JSON = - 4"
definition VRR_MESSAGE :: int where "VRR_MESSAGE = - 5"
definition TOO_LARGE :: int where "TOO_LARGE = - 6"
definition SERVICE :: int where "SERVICE = - 7"
definition NOT_LEADER :: int where "NOT_LEADER = - 8"
definition FAULTED :: int where "FAULTED = - 9"
definition STOPPED :: int where "STOPPED = - 10"

definition OUTPUT_SEND :: u32 where "OUTPUT_SEND = 1"
definition OUTPUT_REPLY :: u32 where "OUTPUT_REPLY = 2"

definition output_kind_name :: "u32 \<Rightarrow> string" where
  "output_kind_name k = (if k = OUTPUT_SEND then ''send'' else if k = OUTPUT_REPLY then ''reply'' else ''unknown'')"

definition MAX_DATAGRAM :: nat where "MAX_DATAGRAM = 65507"
definition LEADER_UNKNOWN :: u32 where "LEADER_UNKNOWN = - 1"
definition PREPARE_OVERHEAD :: nat where "PREPARE_OVERHEAD = 20 + 1 + 8 + 4 + 1 + 16 + 4 + 8"

definition RECONFIGURE_JOIN :: u32 where "RECONFIGURE_JOIN = 1"
definition RECONFIGURE_INCREMENT :: u32 where "RECONFIGURE_INCREMENT = 2"
definition RECONFIGURE_LEAVE :: u32 where "RECONFIGURE_LEAVE = 3"
definition RECONFIGURE_DECREMENT :: u32 where "RECONFIGURE_DECREMENT = 4"
definition POSITION_APPEND :: u32 where "POSITION_APPEND = - 1"

section \<open>Operation identifiers\<close>

record operation_id =
  oid_msb :: u64
  oid_lsb :: u64

definition operation_id_of :: "uuid \<Rightarrow> operation_id" where
  "operation_id_of m =
     (let b = be_bytes 16 m in \<lparr>oid_msb = be_word (slice 0 8 b), oid_lsb = be_word (slice 8 16 b)\<rparr>)"

definition operation_id_bytes :: "operation_id \<Rightarrow> uuid" where
  "operation_id_bytes i = be_word (be_bytes 8 (oid_msb i) @ be_bytes 8 (oid_lsb i))"

section \<open>The replica as a parameter\<close>

datatype system_operation = OpJoin u32 u32 | OpIncrement u32 | OpDecrement u32 | OpLeave u32

datatype ('g, 'v) input =
    Peer u32 'g
  | Propose operation_id bytes
  | TickInput
  | Applied u64
  | Reconfigure system_operation "'v option"
  | AdminForceView u32 u32
  | Reincarnate u32

datatype 'g effect = Send u32 'g | Apply u64 operation_id bytes | Persist | AdminResponse

datatype plan_refusal = NotPrimary | PlanFaulted | PlanRefused

datatype 'g publish =
    Published "'g effect list"
  | Parked
  | IllegalCandidate
  | JournalRefused
  | PublishRefused

datatype log_payload = OperationEntry operation_id bytes | SystemEntry

datatype message_body =
    Prepare log_payload
  | DoViewChange "log_payload list"
  | StartView "log_payload list"
  | NewState "log_payload list"
  | OtherBody

record header =
  hd_era :: u32
  hd_view :: u32
  hd_slot :: u64

record observation =
  ob_status :: u32
  ob_era :: u32
  ob_view :: u32
  ob_accepted :: u64
  ob_committed :: u64
  ob_applied :: u64

text \<open>A plan or a publish that panics is \<open>None\<close>.\<close>

record ('r, 'p, 'g, 'v, 'e) replica_ops =
  rp_plan :: "u64 \<Rightarrow> ('g, 'v) input \<Rightarrow> 'r \<Rightarrow> (plan_refusal + 'p) option"
  rp_publish :: "'p \<Rightarrow> 'r \<Rightarrow> ('g publish \<times> 'r) option"
  rp_own :: "'r \<Rightarrow> u32"
  rp_current :: "'r \<Rightarrow> u32 \<times> u32"
  rp_observe :: "'r \<Rightarrow> observation"
  rp_record :: "'r \<Rightarrow> u32 \<Rightarrow> (u32 \<Rightarrow> u32 option) option"
  rp_config_era :: "'r \<Rightarrow> u32"
  rp_order :: "'r \<Rightarrow> (u32 \<times> u32) list"
  rp_rejoined :: "'r \<Rightarrow> bool"
  rp_next_slot :: "'r \<Rightarrow> u64 option"
  rp_extend :: "'r \<Rightarrow> system_operation \<Rightarrow> u64 \<Rightarrow> 'e option"
  rp_construct_pivot :: "'r \<Rightarrow> 'e \<Rightarrow> 'v option"
  ms_packed_len :: "'g \<Rightarrow> nat"
  ms_pack :: "'g \<Rightarrow> bytes option"
  ms_unpack :: "bytes \<Rightarrow> 'g option"
  ms_header :: "'g \<Rightarrow> header"
  ms_body :: "'g \<Rightarrow> message_body"

text \<open>The mounted state store, over its own state and the filesystem.\<close>

record 's store_ops =
  ss_note :: "u64 \<Rightarrow> 's \<Rightarrow> 's"
  ss_tick :: "state_snapshot \<Rightarrow> 's \<times> fs \<Rightarrow> unit io \<times> 's \<times> fs"
  ss_pump :: "'s \<times> fs \<Rightarrow> unit io \<times> 's \<times> fs"
  ss_flush :: "state_snapshot \<Rightarrow> 's \<times> fs \<Rightarrow> unit io \<times> 's \<times> fs"
  ss_load :: "'s \<times> fs \<Rightarrow> state_snapshot option io \<times> 's \<times> fs"
  ss_forget :: "'s \<Rightarrow> 's"

text \<open>Everything a node is built over.\<close>

record ('r, 'p, 'g, 'v, 'e, 'c, 's, 'h, 'm) host =
  ho_replica :: "('r, 'p, 'g, 'v, 'e) replica_ops"
  ho_core :: "'c core_ops"
  ho_parse :: "bytes \<Rightarrow> request option"
  ho_encode :: "response \<Rightarrow> bytes option"
  ho_break_json :: "uuid \<Rightarrow> u64 \<Rightarrow> u64 \<Rightarrow> bytes"
  ho_store :: "'s store_ops"
  ho_hook :: "u64 \<Rightarrow> 'h \<Rightarrow> 'h"
  ho_marks :: "'m marker_engine"
  ho_life :: lifecycle

section \<open>The node\<close>

record queued =
  qd_kind :: u32
  qd_to :: u32
  qd_era :: u32
  qd_view :: u32
  qd_slot :: u64
  qd_message_id :: uuid
  qd_bytes :: bytes

datatype fault_note = StickyFault | PublishParked | GateRefused | JournalRefusedMutation

record ('r, 'c, 's, 'h, 'm) node =
  n_replica :: 'r
  n_outputs :: "queued list"
  n_service :: "'c service"
  n_replies :: "uuid \<Rightarrow> bytes option"
  n_pending :: "operation_id \<Rightarrow> uuid option"
  n_last_tick :: u64
  n_poisoned :: bool
  n_sweep_seq :: u64
  n_fault_note :: "fault_note option"
  n_reincarnate_from :: "u32 option"
  n_known_ids :: "u32 list"
  n_last_view :: "(u32 \<times> u32) option"
  n_last_leader :: "u32 option"
  n_last_config_era :: "u32 option"
  n_gate :: "'m gate"
  n_state_path :: path
  n_store :: 's
  n_clean_boot :: bool
  n_state_loaded :: bool
  n_hook :: 'h
  n_session :: "u32 option"
  n_deferred :: "u32 option"
  n_stopped :: bool
  n_clock :: "nat \<Rightarrow> u64 option"
  n_fresh :: "nat \<Rightarrow> nat \<times> nat"
  n_uuids :: "nat \<Rightarrow> uuid"
  n_reads :: nat

text \<open>An entry returns a code, or the process dies.\<close>

datatype 'a exit = Ret 'a | Aborted

text \<open>The wall clock; a reading before the epoch or past 64 bits is \<open>None\<close>.\<close>

definition unix_millis :: "('r, 'c, 's, 'h, 'm) node \<Rightarrow> u64 option \<times> ('r, 'c, 's, 'h, 'm) node" where
  "unix_millis n = (n_clock n (n_reads n), n\<lparr>n_reads := Suc (n_reads n)\<rparr>)"

definition unique_name :: "('r, 'c, 's, 'h, 'm) node \<Rightarrow> (nat \<times> nat) \<times> ('r, 'c, 's, 'h, 'm) node" where
  "unique_name n = (n_fresh n (n_reads n), n\<lparr>n_reads := Suc (n_reads n)\<rparr>)"

definition new_uuid :: "('r, 'c, 's, 'h, 'm) node \<Rightarrow> uuid \<times> ('r, 'c, 's, 'h, 'm) node" where
  "new_uuid n = (n_uuids n (n_reads n), n\<lparr>n_reads := Suc (n_reads n)\<rparr>)"

text \<open>A disk operation and a store operation in the node's world.\<close>

definition node_disk :: "'a disk \<Rightarrow> ('r, 'c, 's, 'h, 'm) node \<Rightarrow> 'a io \<times> ('r, 'c, 's, 'h, 'm) node" where
  "node_disk op n = (case op (g_fs (n_gate n)) of (r, f) \<Rightarrow> (r, n\<lparr>n_gate := (n_gate n)\<lparr>g_fs := f\<rparr>\<rparr>))"

definition node_store ::
  "('s \<times> fs \<Rightarrow> 'a io \<times> 's \<times> fs) \<Rightarrow> ('r, 'c, 's, 'h, 'm) node \<Rightarrow> 'a io \<times> ('r, 'c, 's, 'h, 'm) node" where
  "node_store op n =
     (case op (n_store n, g_fs (n_gate n)) of
        (r, s, f) \<Rightarrow> (r, n\<lparr>n_store := s, n_gate := (n_gate n)\<lparr>g_fs := f\<rparr>\<rparr>))"

definition node_gate ::
  "('m gate \<Rightarrow> 'a io \<times> 'm gate) \<Rightarrow> ('r, 'c, 's, 'h, 'm) node \<Rightarrow> 'a io \<times> ('r, 'c, 's, 'h, 'm) node" where
  "node_gate op n = (case op (n_gate n) of (r, g) \<Rightarrow> (r, n\<lparr>n_gate := g\<rparr>))"

definition tick :: "('r, 'c, 's, 'h, 'm) node \<Rightarrow> (int + u64) \<times> ('r, 'c, 's, 'h, 'm) node" where
  "tick n =
     (case unix_millis n of
        (None, n') \<Rightarrow> (Inl SERVICE, n')
      | (Some now, n') \<Rightarrow>
          (let next = max (n_last_tick n') now in (Inr next, n'\<lparr>n_last_tick := next\<rparr>)))"

definition record_fault :: "fault_note \<Rightarrow> ('r, 'c, 's, 'h, 'm) node \<Rightarrow> ('r, 'c, 's, 'h, 'm) node" where
  "record_fault note n = (if n_fault_note n = None then n\<lparr>n_fault_note := Some note\<rparr> else n)"

definition plan_error :: "plan_refusal \<Rightarrow> int" where
  "plan_error r = (case r of NotPrimary \<Rightarrow> NOT_LEADER | PlanFaulted \<Rightarrow> FAULTED | PlanRefused \<Rightarrow> SERVICE)"

definition leader_for :: "('r, 'p, 'g, 'v, 'e) replica_ops \<Rightarrow> u32 \<Rightarrow> u32 \<Rightarrow> 'r \<Rightarrow> u32" where
  "leader_for rp era vw r =
     (case rp_record rp r era of
        None \<Rightarrow> LEADER_UNKNOWN
      | Some primary \<Rightarrow> (case primary vw of None \<Rightarrow> LEADER_UNKNOWN | Some node \<Rightarrow> node))"

definition primary_index :: "('r, 'p, 'g, 'v, 'e) replica_ops \<Rightarrow> 'r \<Rightarrow> u32" where
  "primary_index rp r = (case rp_current rp r of (era, vw) \<Rightarrow> leader_for rp era vw r)"

definition folded_era_regressed :: "u32 option \<Rightarrow> u32 \<Rightarrow> bool" where
  "folded_era_regressed previous current = (case previous of None \<Rightarrow> False | Some p \<Rightarrow> current < p)"

end
