(* ===== verification/Lock_Node.thy ===== *)
theory Lock_Node
  imports Node_State
begin

text \<open>
  The entry points of the node of \<^verbatim>\<open>ext/advisory_lock/src/ffi.rs\<close> and the drive loop they
  share: one definition per function of the source. Log lines and the flight recorder are left out: they read
  the state and do not change it.
\<close>

section \<open>Reporting\<close>

text \<open>The invariant on the folded era dies in every build.\<close>

definition report ::
  "('r, 'p, 'g, 'v, 'e) replica_ops \<Rightarrow> ('r, 'c, 's, 'h, 'm) node \<Rightarrow> unit exit \<times> ('r, 'c, 's, 'h, 'm) node" where
  "report rp n =
     (let ob = rp_observe rp (n_replica n);
          n1 = n\<lparr>n_last_view := Some (ob_era ob, ob_view ob), n_last_leader := Some (primary_index rp (n_replica n))\<rparr>;
          config_era = rp_config_era rp (n_replica n) in
      if folded_era_regressed (n_last_config_era n1) config_era then (Aborted, n1)
      else (Ret (), n1\<lparr>n_last_config_era := Some config_era\<rparr>))"

section \<open>Effects\<close>

text \<open>The table materialises from the clean stop's artefact, once.\<close>

definition load_state_on_demand ::
  "('r, 'p, 'g, 'v, 'e, 'c, 's, 'h, 'm) host \<Rightarrow> ('r, 'c, 's, 'h, 'm) node \<Rightarrow> ('r, 'c, 's, 'h, 'm) node" where
  "load_state_on_demand ho n =
     (if n_state_loaded n then n
      else
        (let n1 = n\<lparr>n_state_loaded := True\<rparr> in
         case node_store (lazy_load (ss_load (ho_store ho)) (n_clean_boot n1)
                (service_is_empty (ho_core ho) (n_service n1))) n1 of
           (Inr (Some snap), n2) \<Rightarrow>
             n2\<lparr>n_store := fold (ss_note (ho_store ho)) (map fst (locks snap)) (n_store n2),
                n_service := service_restore (ho_core ho) snap (n_service n2)\<rparr>
         | (_, n2) \<Rightarrow> n2))"

definition transition_event :: "u64 \<Rightarrow> transition \<Rightarrow> journal_event" where
  "transition_event ts tr =
     (case tr of
        Hold l lid h ex \<Rightarrow> \<lparr>ev_kind = KIND_HOLD, ev_ts = ts, ev_lock_id = l, ev_lease_id = lid, ev_holder = h, ev_expiry = ex\<rparr>
      | Renew l lid h ex \<Rightarrow> \<lparr>ev_kind = KIND_RENEW, ev_ts = ts, ev_lock_id = l, ev_lease_id = lid, ev_holder = h, ev_expiry = ex\<rparr>
      | Release l lid h ex \<Rightarrow> \<lparr>ev_kind = KIND_RELEASE, ev_ts = ts, ev_lock_id = l, ev_lease_id = lid, ev_holder = h, ev_expiry = ex\<rparr>
      | Break l lid h ex \<Rightarrow> \<lparr>ev_kind = KIND_BREAK, ev_ts = ts, ev_lock_id = l, ev_lease_id = lid, ev_holder = h, ev_expiry = ex\<rparr>)"

text \<open>A failed append, and a full queue, kill the process.\<close>

definition sink_event ::
  "journal_event \<Rightarrow> ('r, 'c, 's, 'h, 'm) node \<Rightarrow> unit exit \<times> ('r, 'c, 's, 'h, 'm) node" where
  "sink_event event n =
     (case g_sink (n_gate n) of
        None \<Rightarrow> (Ret (), n)
      | Some (SinkBlocking j) \<Rightarrow>
          (case unique_name n of (u, n1) \<Rightarrow>
           case unix_millis n1 of (now, n2) \<Rightarrow>
           case node_disk (journal_append (snd u) (case now of None \<Rightarrow> 0 | Some t \<Rightarrow> unat t) event j) n2 of
             (Inl _, n3) \<Rightarrow> (Aborted, n3)
           | (Inr j', n3) \<Rightarrow> (Ret (), n3\<lparr>n_gate := (n_gate n3)\<lparr>g_sink := Some (SinkBlocking j')\<rparr>\<rparr>))
      | Some (SinkAof q) \<Rightarrow>
          (case aof_enqueue event q of
             Inl _ \<Rightarrow> (Aborted, n)
           | Inr q' \<Rightarrow> (Ret (), n\<lparr>n_gate := (n_gate n)\<lparr>g_sink := Some (SinkAof q')\<rparr>\<rparr>)))"

definition note_transition ::
  "('r, 'p, 'g, 'v, 'e, 'c, 's, 'h, 'm) host \<Rightarrow> transition option \<Rightarrow> ('r, 'c, 's, 'h, 'm) node \<Rightarrow>
   unit exit \<times> ('r, 'c, 's, 'h, 'm) node" where
  "note_transition ho tr n =
     (case tr of
        None \<Rightarrow> (Ret (), n)
      | Some t \<Rightarrow>
          (case unix_millis (n\<lparr>n_store := ss_note (ho_store ho) (transition_lock_id t) (n_store n)\<rparr>) of
             (ts, n1) \<Rightarrow> sink_event (transition_event (case ts of None \<Rightarrow> 0 | Some x \<Rightarrow> x) t) n1))"

text \<open>The cached reply, or one execution of the service.\<close>

definition execute_once ::
  "('r, 'p, 'g, 'v, 'e, 'c, 's, 'h, 'm) host \<Rightarrow> uuid \<Rightarrow> bytes \<Rightarrow> ('r, 'c, 's, 'h, 'm) node \<Rightarrow>
   (int + bytes \<times> transition option) \<times> ('r, 'c, 's, 'h, 'm) node" where
  "execute_once ho m payload n =
     (case n_replies n m of
        Some bs \<Rightarrow> (Inr (bs, None), n)
      | None \<Rightarrow>
          (case decode (ho_parse ho) payload of
             Inl _ \<Rightarrow> (Inl SERVICE, n)
           | Inr req \<Rightarrow>
               (case ids req of (i, c, num) \<Rightarrow>
                if i \<noteq> m then (Inl SERVICE, n)
                else
                  (case unix_millis n of
                     (None, n1) \<Rightarrow> (Inl SERVICE, n1)
                   | (Some execution_time, n1) \<Rightarrow>
                       (let n2 = load_state_on_demand ho n1 in
                        case service_execute (ho_core ho) (ho_parse ho) i c num execution_time payload (n_service n2) of
                          Inl _ \<Rightarrow> (Inl SERVICE, n2)
                        | Inr ((resp, tr), s) \<Rightarrow>
                            (case ho_encode ho resp of
                               None \<Rightarrow> (Inl SERVICE, n2\<lparr>n_service := s\<rparr>)
                             | Some b \<Rightarrow>
                                 (Inr (b, tr), n2\<lparr>n_service := s, n_replies := (n_replies n2)(m \<mapsto> b)\<rparr>)))))))"

definition queue_reply :: "uuid \<Rightarrow> bytes \<Rightarrow> ('r, 'c, 's, 'h, 'm) node \<Rightarrow> ('r, 'c, 's, 'h, 'm) node" where
  "queue_reply m b n =
     n\<lparr>n_outputs := n_outputs n @
        [\<lparr>qd_kind = OUTPUT_REPLY, qd_to = 0, qd_era = 0, qd_view = 0, qd_slot = 0, qd_message_id = m, qd_bytes = b\<rparr>]\<rparr>"

definition answer_pending ::
  "operation_id \<Rightarrow> bytes \<Rightarrow> ('r, 'c, 's, 'h, 'm) node \<Rightarrow> (int + unit) \<times> ('r, 'c, 's, 'h, 'm) node" where
  "answer_pending oid b n =
     (case n_pending n oid of
        None \<Rightarrow> (Inr (), n)
      | Some m \<Rightarrow>
          (let n1 = n\<lparr>n_pending := (n_pending n)(oid := None)\<rparr> in
           if length b > MAX_DATAGRAM then (Inl TOO_LARGE, n1) else (Inr (), queue_reply m b n1)))"

definition apply_commit ::
  "('r, 'p, 'g, 'v, 'e, 'c, 's, 'h, 'm) host \<Rightarrow> u64 \<Rightarrow> operation_id \<Rightarrow> bytes \<Rightarrow> ('r, 'c, 's, 'h, 'm) node \<Rightarrow>
   (int + (u64 \<times> ('g, 'v) input) list) exit \<times> ('r, 'c, 's, 'h, 'm) node" where
  "apply_commit ho slot oid payload n =
     (let n0 = n\<lparr>n_hook := ho_hook ho slot (n_hook n)\<rparr> in
      case execute_once ho (operation_id_bytes oid) payload n0 of
        (Inl e, n1) \<Rightarrow> (Ret (Inl e), n1)
      | (Inr (response, tr), n1) \<Rightarrow>
          (case note_transition ho tr n1 of
             (Aborted, n2) \<Rightarrow> (Aborted, n2)
           | (Ret _, n2) \<Rightarrow>
               (case answer_pending oid response n2 of
                  (Inl e, n3) \<Rightarrow> (Ret (Inl e), n3)
                | (Inr _, n3) \<Rightarrow>
                    (case tick n3 of
                       (Inl e, n4) \<Rightarrow> (Ret (Inl e), n4)
                     | (Inr at, n4) \<Rightarrow> (Ret (Inr [(at, Applied slot)]), n4)))))"

definition send_effect ::
  "('r, 'p, 'g, 'v, 'e) replica_ops \<Rightarrow> u32 \<Rightarrow> 'g \<Rightarrow> ('r, 'c, 's, 'h, 'm) node \<Rightarrow>
   (int + unit) \<times> ('r, 'c, 's, 'h, 'm) node" where
  "send_effect rp target msg n =
     (if ms_packed_len rp msg > MAX_DATAGRAM then (Inl TOO_LARGE, n)
      else
        (case ms_pack rp msg of
           None \<Rightarrow> (Inl VRR_MESSAGE, n)
         | Some b \<Rightarrow>
             (let h = ms_header rp msg in
              (Inr (), n\<lparr>n_outputs := n_outputs n @
                [\<lparr>qd_kind = OUTPUT_SEND, qd_to = target, qd_era = hd_era h, qd_view = hd_view h, qd_slot = hd_slot h,
                  qd_message_id = 0, qd_bytes = b\<rparr>]\<rparr>))))"

definition apply_effect ::
  "('r, 'p, 'g, 'v, 'e, 'c, 's, 'h, 'm) host \<Rightarrow> 'g effect \<Rightarrow> ('r, 'c, 's, 'h, 'm) node \<Rightarrow>
   (int + (u64 \<times> ('g, 'v) input) list) exit \<times> ('r, 'c, 's, 'h, 'm) node" where
  "apply_effect ho ef n =
     (case ef of
        Send target msg \<Rightarrow>
          (case send_effect (ho_replica ho) target msg n of
             (Inl e, n') \<Rightarrow> (Ret (Inl e), n')
           | (Inr _, n') \<Rightarrow> (Ret (Inr []), n'))
      | Apply slot oid payload \<Rightarrow> apply_commit ho slot oid payload n
      | Persist \<Rightarrow> (Ret (Inl FAULTED), n)
      | AdminResponse \<Rightarrow> (Ret (Inl FAULTED), n))"

fun apply_effects ::
  "('r, 'p, 'g, 'v, 'e, 'c, 's, 'h, 'm) host \<Rightarrow> 'g effect list \<Rightarrow> ('r, 'c, 's, 'h, 'm) node \<Rightarrow>
   (int + (u64 \<times> ('g, 'v) input) list) exit \<times> ('r, 'c, 's, 'h, 'm) node" where
  "apply_effects ho [] n = (Ret (Inr []), n)"
| "apply_effects ho (ef # efs) n =
     (case apply_effect ho ef n of
        (Aborted, n1) \<Rightarrow> (Aborted, n1)
      | (Ret (Inl e), n1) \<Rightarrow> (Ret (Inl e), n1)
      | (Ret (Inr fed), n1) \<Rightarrow>
          (case apply_effects ho efs n1 of
             (Ret (Inr rest), n2) \<Rightarrow> (Ret (Inr (fed @ rest)), n2)
           | other \<Rightarrow> other))"

section \<open>The drive loop\<close>

definition arrest :: "('r, 'c, 's, 'h, 'm) node \<Rightarrow> ('r, 'c, 's, 'h, 'm) node" where
  "arrest n = n\<lparr>n_poisoned := True, n_outputs := []\<rparr>"

text \<open>One planned and published transition: its effects, a code, or the death of the process.\<close>

definition plan_and_publish ::
  "('r, 'p, 'g, 'v, 'e) replica_ops \<Rightarrow> u64 \<Rightarrow> ('g, 'v) input \<Rightarrow> ('r, 'c, 's, 'h, 'm) node \<Rightarrow>
   (int + 'g effect list) exit \<times> ('r, 'c, 's, 'h, 'm) node" where
  "plan_and_publish rp at event n =
     (case rp_plan rp at event (n_replica n) of
        None \<Rightarrow> (Aborted, n)
      | Some (Inl refusal) \<Rightarrow>
          (Ret (Inl (plan_error refusal)), if refusal = PlanFaulted then record_fault StickyFault n else n)
      | Some (Inr planned) \<Rightarrow>
          (case rp_publish rp planned (n_replica n) of
             None \<Rightarrow> (Aborted, n)
           | Some (outcome, r) \<Rightarrow>
               (let n1 = n\<lparr>n_replica := r\<rparr> in
                case outcome of
                  Published effects \<Rightarrow> (Ret (Inr effects), n1)
                | Parked \<Rightarrow> (Ret (Inl FAULTED), record_fault PublishParked n1)
                | IllegalCandidate \<Rightarrow> (Ret (Inl SERVICE), record_fault GateRefused n1)
                | JournalRefused \<Rightarrow> (Ret (Inl SERVICE), record_fault JournalRefusedMutation n1)
                | PublishRefused \<Rightarrow> (Ret (Inl SERVICE), n1))))"

definition drive_one ::
  "('r, 'p, 'g, 'v, 'e, 'c, 's, 'h, 'm) host \<Rightarrow> u64 \<Rightarrow> ('g, 'v) input \<Rightarrow> ('r, 'c, 's, 'h, 'm) node \<Rightarrow>
   (int + (u64 \<times> ('g, 'v) input) list) exit \<times> ('r, 'c, 's, 'h, 'm) node" where
  "drive_one ho at event n =
     (case plan_and_publish (ho_replica ho) at event n of
        (Aborted, n1) \<Rightarrow> (Aborted, n1)
      | (Ret (Inl e), n1) \<Rightarrow> if e = FAULTED then (Ret (Inl SERVICE), arrest n1) else (Ret (Inl e), n1)
      | (Ret (Inr effects), n1) \<Rightarrow>
          (case apply_effects ho effects n1 of
             (Ret (Inl e), n2) \<Rightarrow> if e = FAULTED then (Ret (Inl SERVICE), arrest n2) else (Ret (Inl e), n2)
           | other \<Rightarrow> other))"

text \<open>The loop returns when the inputs it feeds itself run out.\<close>

partial_function (option) drive_loop ::
  "('r, 'p, 'g, 'v, 'e, 'c, 's, 'h, 'm) host \<Rightarrow> (u64 \<times> ('g, 'v) input) list \<Rightarrow> ('r, 'c, 's, 'h, 'm) node \<Rightarrow>
   (int exit \<times> ('r, 'c, 's, 'h, 'm) node) option" where
  "drive_loop ho q n =
     (case q of
        [] \<Rightarrow>
          (case report (ho_replica ho) n of
             (Aborted, n1) \<Rightarrow> Some (Aborted, n1)
           | (Ret _, n1) \<Rightarrow> Some (Ret NODE_OK, n1))
      | (at, event) # rest \<Rightarrow>
          if n_poisoned n then Some (Ret SERVICE, n)
          else
            (case drive_one ho at event n of
               (Aborted, n1) \<Rightarrow> Some (Aborted, n1)
             | (Ret (Inl e), n1) \<Rightarrow> Some (Ret e, n1)
             | (Ret (Inr fed), n1) \<Rightarrow> drive_loop ho (rest @ fed) n1))"

definition settle_deferred_latch ::
  "('r, 'p, 'g, 'v, 'e, 'c, 's, 'h, 'm) host \<Rightarrow> ('r, 'c, 's, 'h, 'm) node \<Rightarrow> unit exit \<times> ('r, 'c, 's, 'h, 'm) node" where
  "settle_deferred_latch ho n =
     (if n_poisoned n \<or> n_stopped n then (Ret (), n)
      else
        (case n_deferred n of
           None \<Rightarrow> (Ret (), n)
         | Some crashed \<Rightarrow>
             if \<not> rp_rejoined (ho_replica ho) (n_replica n) then (Ret (), n)
             else
               (let seated = lc_seated (ho_life ho) crashed in
                case unique_name n of (u, n1) \<Rightarrow>
                case node_gate (gate_commit (ho_marks ho) u (uniform seated (lc_seated_latch (ho_life ho)))) n1 of
                  (Inl e, n2) \<Rightarrow> (if e = Panicked then Aborted else Ret (), n2)
                | (Inr _, n2) \<Rightarrow> (Ret (), n2\<lparr>n_session := Some seated, n_deferred := None\<rparr>))))"

definition drive_at ::
  "('r, 'p, 'g, 'v, 'e, 'c, 's, 'h, 'm) host \<Rightarrow> u64 \<Rightarrow> ('g, 'v) input \<Rightarrow> ('r, 'c, 's, 'h, 'm) node \<Rightarrow>
   (int exit \<times> ('r, 'c, 's, 'h, 'm) node) option" where
  "drive_at ho at event n =
     (case (if n_poisoned n then Some (Ret SERVICE, n) else drive_loop ho [(at, event)] n) of
        None \<Rightarrow> None
      | Some (Aborted, n1) \<Rightarrow> Some (Aborted, n1)
      | Some (Ret code, n1) \<Rightarrow>
          (case settle_deferred_latch ho n1 of
             (Aborted, n2) \<Rightarrow> Some (Aborted, n2)
           | (Ret _, n2) \<Rightarrow> Some (Ret code, n2)))"

definition drive ::
  "('r, 'p, 'g, 'v, 'e, 'c, 's, 'h, 'm) host \<Rightarrow> ('g, 'v) input \<Rightarrow> ('r, 'c, 's, 'h, 'm) node \<Rightarrow>
   (int exit \<times> ('r, 'c, 's, 'h, 'm) node) option" where
  "drive ho event n =
     (case tick n of
        (Inl e, n1) \<Rightarrow> Some (Ret e, n1)
      | (Inr at, n1) \<Rightarrow> drive_at ho at event n1)"

section \<open>Client and peer entries\<close>

definition node_request ::
  "('r, 'p, 'g, 'v, 'e, 'c, 's, 'h, 'm) host \<Rightarrow> bytes \<Rightarrow> ('r, 'c, 's, 'h, 'm) node \<Rightarrow>
   (int exit \<times> ('r, 'c, 's, 'h, 'm) node) option" where
  "node_request ho json n =
     (if n_stopped n then Some (Ret STOPPED, n)
      else if length json > MAX_DATAGRAM then Some (Ret TOO_LARGE, n)
      else
        (case decode (ho_parse ho) json of
           Inl _ \<Rightarrow> Some (Ret CLIENT_JSON, n)
         | Inr req \<Rightarrow>
             (let m = fst (ids req) in
              case n_replies n m of
                Some bs \<Rightarrow> Some (Ret NODE_OK, queue_reply m bs n)
              | None \<Rightarrow>
                  if length json + PREPARE_OVERHEAD > MAX_DATAGRAM then Some (Ret TOO_LARGE, n)
                  else
                    (let oid = operation_id_of m in
                     case drive ho (Propose oid json) (n\<lparr>n_pending := (n_pending n)(oid \<mapsto> m)\<rparr>) of
                       None \<Rightarrow> None
                     | Some (Aborted, n1) \<Rightarrow> Some (Aborted, n1)
                     | Some (Ret code, n1) \<Rightarrow>
                         Some (Ret code, if code \<noteq> NODE_OK then n1\<lparr>n_pending := (n_pending n1)(oid := None)\<rparr> else n1)))))"

definition valid_entry :: "(bytes \<Rightarrow> request option) \<Rightarrow> log_payload \<Rightarrow> bool" where
  "valid_entry parse entry =
     (case entry of
        SystemEntry \<Rightarrow> True
      | OperationEntry i payload \<Rightarrow>
          (case decode parse payload of
             Inl _ \<Rightarrow> False
           | Inr req \<Rightarrow>
               (case ids req of (m, c, num) \<Rightarrow> m = operation_id_bytes i \<and> validate_payload parse m c num payload)))"

definition valid_message_payloads :: "(bytes \<Rightarrow> request option) \<Rightarrow> message_body \<Rightarrow> bool" where
  "valid_message_payloads parse body =
     (case body of
        Prepare entry \<Rightarrow> valid_entry parse entry
      | DoViewChange entries \<Rightarrow> list_all (valid_entry parse) entries
      | StartView entries \<Rightarrow> list_all (valid_entry parse) entries
      | NewState entries \<Rightarrow> list_all (valid_entry parse) entries
      | OtherBody \<Rightarrow> True)"

definition SYSTEM_HALF_SHIFT :: nat where "SYSTEM_HALF_SHIFT = 16"

definition known_peer :: "u32 list \<Rightarrow> u32 \<Rightarrow> bool" where
  "known_peer known sender \<longleftrightarrow>
     sender \<in> set known \<or>
     list_ex (\<lambda>k. drop_bit SYSTEM_HALF_SHIFT k = drop_bit SYSTEM_HALF_SHIFT sender) known"

text \<open>A datagram from a system outside the descriptor kills the process: the host authenticates the source.\<close>

definition receive ::
  "('r, 'p, 'g, 'v, 'e, 'c, 's, 'h, 'm) host \<Rightarrow> u32 \<Rightarrow> bytes \<Rightarrow> ('r, 'c, 's, 'h, 'm) node \<Rightarrow>
   (int exit \<times> ('r, 'c, 's, 'h, 'm) node) option" where
  "receive ho sender data n =
     (if n_stopped n then Some (Ret STOPPED, n)
      else if length data > MAX_DATAGRAM then Some (Ret TOO_LARGE, n)
      else if \<not> known_peer (n_known_ids n) sender then Some (Aborted, n)
      else
        (case ms_unpack (ho_replica ho) data of
           None \<Rightarrow> Some (Ret VRR_MESSAGE, n)
         | Some msg \<Rightarrow>
             if \<not> valid_message_payloads (ho_parse ho) (ms_body (ho_replica ho) msg) then Some (Ret VRR_MESSAGE, n)
             else drive ho (Peer sender msg) n))"

definition idle ::
  "('r, 'p, 'g, 'v, 'e, 'c, 's, 'h, 'm) host \<Rightarrow> ('r, 'c, 's, 'h, 'm) node \<Rightarrow>
   (int exit \<times> ('r, 'c, 's, 'h, 'm) node) option" where
  "idle ho n = (if n_stopped n then Some (Ret STOPPED, n) else drive ho TickInput n)"

definition leader_timeout ::
  "('r, 'p, 'g, 'v, 'e, 'c, 's, 'h, 'm) host \<Rightarrow> ('r, 'c, 's, 'h, 'm) node \<Rightarrow>
   (int exit \<times> ('r, 'c, 's, 'h, 'm) node) option" where
  "leader_timeout ho n = (if n_stopped n then Some (Ret STOPPED, n) else drive ho TickInput n)"

definition force_view ::
  "('r, 'p, 'g, 'v, 'e, 'c, 's, 'h, 'm) host \<Rightarrow> u32 \<Rightarrow> u32 \<Rightarrow> ('r, 'c, 's, 'h, 'm) node \<Rightarrow>
   (int exit \<times> ('r, 'c, 's, 'h, 'm) node) option" where
  "force_view ho era vw n = (if n_stopped n then Some (Ret STOPPED, n) else drive ho (AdminForceView era vw) n)"

definition recover ::
  "('r, 'p, 'g, 'v, 'e, 'c, 's, 'h, 'm) host \<Rightarrow> ('r, 'c, 's, 'h, 'm) node \<Rightarrow>
   (int exit \<times> ('r, 'c, 's, 'h, 'm) node) option" where
  "recover ho n =
     (if n_poisoned n then Some (Ret SERVICE, n)
      else if n_stopped n then Some (Ret STOPPED, n)
      else
        (case n_reincarnate_from n of
           None \<Rightarrow> drive ho TickInput n
         | Some old \<Rightarrow>
             (case drive ho (Reincarnate old) n of
                Some (Ret code, n1) \<Rightarrow> if code \<noteq> NODE_OK then Some (Ret code, n1) else drive ho TickInput n1
              | other \<Rightarrow> other)))"

section \<open>Reconfiguration\<close>

definition derived_pivot ::
  "('r, 'p, 'g, 'v, 'e) replica_ops \<Rightarrow> 'r \<Rightarrow> system_operation \<Rightarrow> 'v option" where
  "derived_pivot rp r op =
     Option.bind (rp_next_slot rp r) (\<lambda>slot.
     Option.bind (rp_extend rp r op slot) (\<lambda>table. rp_construct_pivot rp r table))"

definition membership :: "('r, 'p, 'g, 'v, 'e) replica_ops \<Rightarrow> 'r \<Rightarrow> (u32 list \<times> u32 list) option" where
  "membership rp r = Some (map fst (rp_order rp r), map snd (rp_order rp r))"

definition reconfigure_operation :: "u32 \<Rightarrow> u32 \<Rightarrow> u32 \<Rightarrow> system_operation option" where
  "reconfigure_operation op member position =
     (if op = RECONFIGURE_JOIN then Some (OpJoin member position)
      else if op = RECONFIGURE_INCREMENT then Some (OpIncrement member)
      else if op = RECONFIGURE_DECREMENT then Some (OpDecrement member)
      else if op = RECONFIGURE_LEAVE then Some (OpLeave member)
      else None)"

text \<open>The last three voters can neither be decremented nor leave.\<close>

definition drops_voter :: "('r, 'p, 'g, 'v, 'e) replica_ops \<Rightarrow> 'r \<Rightarrow> u32 \<Rightarrow> u32 \<Rightarrow> bool" where
  "drops_voter rp r op member =
     ((op = RECONFIGURE_DECREMENT \<or> op = RECONFIGURE_LEAVE) \<and>
      (case membership rp r of
         None \<Rightarrow> False
       | Some (nodes, weights) \<Rightarrow>
           list_ex (\<lambda>(i, w). i = member \<and> w > 0) (zip nodes weights) \<and> length (filter (\<lambda>w. w > 0) weights) \<le> 3))"

definition reconfigure ::
  "('r, 'p, 'g, 'v, 'e, 'c, 's, 'h, 'm) host \<Rightarrow> u32 \<Rightarrow> u32 \<Rightarrow> u32 \<Rightarrow> ('r, 'c, 's, 'h, 'm) node \<Rightarrow>
   (int exit \<times> ('r, 'c, 's, 'h, 'm) node) option" where
  "reconfigure ho op member position n =
     (let rp = ho_replica ho; len = length (rp_order rp (n_replica n)) in
      if n_stopped n then Some (Ret STOPPED, n)
      else if op = RECONFIGURE_JOIN \<and> position = POSITION_APPEND \<and> len \<ge> 2 ^ 32 then Some (Ret SERVICE, n)
      else
        (let position' = (if op = RECONFIGURE_JOIN \<and> position = POSITION_APPEND then word_of_nat len else position) in
         case reconfigure_operation op member position' of
           None \<Rightarrow> Some (Ret INVALID, n)
         | Some system \<Rightarrow>
             if drops_voter rp (n_replica n) op member then Some (Ret CONFIG, n)
             else
               (let pivot = (if op = RECONFIGURE_JOIN \<or> op = RECONFIGURE_LEAVE then None
                             else derived_pivot rp (n_replica n) system) in
                drive ho (Reconfigure system pivot) n)))"

section \<open>The steady tick\<close>

definition SWEEP_BUDGET :: nat where "SWEEP_BUDGET = 8"

text \<open>One system-issued break per expired lock.\<close>

primrec sweep_locks ::
  "('r, 'p, 'g, 'v, 'e, 'c, 's, 'h, 'm) host \<Rightarrow> u64 list \<Rightarrow> ('r, 'c, 's, 'h, 'm) node \<Rightarrow>
   (unit exit \<times> ('r, 'c, 's, 'h, 'm) node) option" where
  "sweep_locks ho [] n = Some (Ret (), n)"
| "sweep_locks ho (l # ls) n =
     (let n1 = n\<lparr>n_sweep_seq := n_sweep_seq n + 1\<rparr> in
      case new_uuid n1 of (u, n2) \<Rightarrow>
      (let payload = ho_break_json ho u (n_sweep_seq n2) l in
       if payload = [] then sweep_locks ho ls n2
       else
         (case node_request ho payload n2 of
            None \<Rightarrow> None
          | Some (Aborted, n3) \<Rightarrow> Some (Aborted, n3)
          | Some (Ret _, n3) \<Rightarrow> sweep_locks ho ls n3)))"

definition expired_locks :: "u64 \<Rightarrow> state_snapshot \<Rightarrow> u64 list" where
  "expired_locks now snap = take SWEEP_BUDGET (map fst (filter (\<lambda>(_, le). expiry le \<le> now) (locks snap)))"

definition sweep_expired ::
  "('r, 'p, 'g, 'v, 'e, 'c, 's, 'h, 'm) host \<Rightarrow> ('r, 'c, 's, 'h, 'm) node \<Rightarrow>
   (unit exit \<times> ('r, 'c, 's, 'h, 'm) node) option" where
  "sweep_expired ho n =
     (if primary_index (ho_replica ho) (n_replica n) \<noteq> rp_own (ho_replica ho) (n_replica n) then Some (Ret (), n)
      else
        (case unix_millis n of
           (None, n1) \<Rightarrow> Some (Ret (), n1)
         | (Some now, n1) \<Rightarrow>
             sweep_locks ho (expired_locks now (service_snapshot (ho_core ho) (n_service n1))) n1))"

definition state_tick_path ::
  "('r, 'p, 'g, 'v, 'e, 'c, 's, 'h, 'm) host \<Rightarrow> ('r, 'c, 's, 'h, 'm) node \<Rightarrow> unit io \<times> ('r, 'c, 's, 'h, 'm) node" where
  "state_tick_path ho n =
     (case node_store (ss_pump (ho_store ho)) n of
        (Inl e, n1) \<Rightarrow> (Inl e, n1)
      | (Inr _, n1) \<Rightarrow>
          (case node_store (ss_tick (ho_store ho) (service_snapshot (ho_core ho) (n_service n1))) n1 of
             (Inl e, n2) \<Rightarrow> (Inl e, n2)
           | (Inr _, n2) \<Rightarrow> node_store (ss_pump (ho_store ho)) n2))"

text \<open>A refused tick path is left to the next tick.\<close>

definition state_tick ::
  "('r, 'p, 'g, 'v, 'e, 'c, 's, 'h, 'm) host \<Rightarrow> ('r, 'c, 's, 'h, 'm) node \<Rightarrow>
   (int exit \<times> ('r, 'c, 's, 'h, 'm) node) option" where
  "state_tick ho n =
     (if n_stopped n then Some (Ret STOPPED, n)
      else
        (case sweep_expired ho n of
           None \<Rightarrow> None
         | Some (Aborted, n1) \<Rightarrow> Some (Aborted, n1)
         | Some (Ret _, n1) \<Rightarrow> Some (Ret NODE_OK, snd (state_tick_path ho n1))))"

section \<open>The graceful stop\<close>

text \<open>A marker round of the halt; a bad checksum under it kills the process.\<close>

definition halt_round ::
  "('r, 'p, 'g, 'v, 'e, 'c, 's, 'h, 'm) host \<Rightarrow> u32 \<Rightarrow> marker \<Rightarrow> ('r, 'c, 's, 'h, 'm) node \<Rightarrow>
   unit io \<times> ('r, 'c, 's, 'h, 'm) node" where
  "halt_round ho i m n =
     (case unique_name n of (u, n1) \<Rightarrow> node_gate (gate_commit (ho_marks ho) u (uniform i m)) n1)"

definition stop_unseated :: "unit io \<Rightarrow> ('r, 'c, 's, 'h, 'm) node \<Rightarrow> int exit \<times> ('r, 'c, 's, 'h, 'm) node" where
  "stop_unseated answer n =
     (case node_disk (drain_sink answer (g_sink (n_gate n))) n of
        (Inl _, n1) \<Rightarrow> (Ret SERVICE, n1)
      | (Inr _, n1) \<Rightarrow> (Ret NODE_OK, n1))"

text \<open>The drained part of the stop: the table's tick path and flush, then the second round.\<close>

definition stop_drained ::
  "('r, 'p, 'g, 'v, 'e, 'c, 's, 'h, 'm) host \<Rightarrow> u32 \<Rightarrow> ('r, 'c, 's, 'h, 'm) node \<Rightarrow>
   int exit \<times> ('r, 'c, 's, 'h, 'm) node" where
  "stop_drained ho identity n =
     (case state_tick_path ho (load_state_on_demand ho n) of
        (Inl _, n1) \<Rightarrow> (Ret SERVICE, n1)
      | (Inr _, n1) \<Rightarrow>
          (case node_store (ss_flush (ho_store ho) (service_snapshot (ho_core ho) (n_service n1))) n1 of
             (Inl _, n2) \<Rightarrow> (Ret SERVICE, n2)
           | (Inr _, n2) \<Rightarrow>
               (case halt_round ho identity (lc_halt_second (ho_life ho)) n2 of
                  (Inl e, n3) \<Rightarrow> (if e = Panicked then Aborted else Ret SERVICE, n3)
                | (Inr _, n3) \<Rightarrow> (Ret NODE_OK, n3))))"

definition stop_seated ::
  "('r, 'p, 'g, 'v, 'e, 'c, 's, 'h, 'm) host \<Rightarrow> unit io \<Rightarrow> u32 \<Rightarrow> ('r, 'c, 's, 'h, 'm) node \<Rightarrow>
   int exit \<times> ('r, 'c, 's, 'h, 'm) node" where
  "stop_seated ho answer identity n =
     (case halt_round ho identity (lc_halt_first (ho_life ho)) n of
        (Inl e, n1) \<Rightarrow> (if e = Panicked then Aborted else Ret SERVICE, n1)
      | (Inr _, n1) \<Rightarrow>
          (let ob = rp_observe (ho_replica ho) (n_replica n1) in
           case unique_name n1 of (u, n2) \<Rightarrow>
           case node_disk (write_view_record (n_state_path n2) u \<lparr>vr_era = ob_era ob, vr_view = ob_view ob\<rparr>) n2 of
             (Inl _, n3) \<Rightarrow> (Aborted, n3)
           | (Inr _, n3) \<Rightarrow>
               (case node_gate (gate_drain answer) n3 of
                  (Inl _, n4) \<Rightarrow> (Aborted, n4)
                | (Inr _, n4) \<Rightarrow> stop_drained ho identity n4)))"

definition stop ::
  "('r, 'p, 'g, 'v, 'e, 'c, 's, 'h, 'm) host \<Rightarrow> unit io \<Rightarrow> ('r, 'c, 's, 'h, 'm) node \<Rightarrow>
   int exit \<times> ('r, 'c, 's, 'h, 'm) node" where
  "stop ho answer n =
     (if n_stopped n then (Ret NODE_OK, n)
      else
        (let n1 = n\<lparr>n_stopped := True\<rparr> in
         case n_session n1 of
           None \<Rightarrow> stop_unseated answer n1
         | Some identity \<Rightarrow> stop_seated ho answer identity (n1\<lparr>n_session := None\<rparr>)))"

section \<open>Reading the node\<close>

record node_status =
  ns_state :: u32
  ns_leader :: u32
  ns_era :: u32
  ns_view :: u32
  ns_config_era :: u32
  ns_poisoned :: bool
  ns_fault_note :: "fault_note option"

definition status :: "('r, 'p, 'g, 'v, 'e) replica_ops \<Rightarrow> ('r, 'c, 's, 'h, 'm) node \<Rightarrow> node_status" where
  "status rp n =
     (let ob = rp_observe rp (n_replica n) in
      \<lparr>ns_state = ob_status ob, ns_leader = primary_index rp (n_replica n), ns_era = ob_era ob, ns_view = ob_view ob,
       ns_config_era = rp_config_era rp (n_replica n), ns_poisoned = n_poisoned n, ns_fault_note = n_fault_note n\<rparr>)"

definition frontiers :: "('r, 'p, 'g, 'v, 'e) replica_ops \<Rightarrow> ('r, 'c, 's, 'h, 'm) node \<Rightarrow> u64 \<times> u64 \<times> u64" where
  "frontiers rp n = (let ob = rp_observe rp (n_replica n) in (ob_accepted ob, ob_committed ob, ob_applied ob))"

text \<open>An output of an unknown kind is a violated invariant.\<close>

definition next_output :: "('r, 'c, 's, 'h, 'm) node \<Rightarrow> queued option exit \<times> ('r, 'c, 's, 'h, 'm) node" where
  "next_output n =
     (case n_outputs n of
        [] \<Rightarrow> (Ret None, n)
      | q # qs \<Rightarrow>
          (let n1 = n\<lparr>n_outputs := qs\<rparr> in
           if qd_kind q = OUTPUT_SEND \<or> qd_kind q = OUTPUT_REPLY then (Ret (Some q), n1) else (Aborted, n1)))"

definition propose_opaque ::
  "('r, 'p, 'g, 'v, 'e, 'c, 's, 'h, 'm) host \<Rightarrow> operation_id \<Rightarrow> bytes \<Rightarrow> ('r, 'c, 's, 'h, 'm) node \<Rightarrow>
   (int exit \<times> ('r, 'c, 's, 'h, 'm) node) option" where
  "propose_opaque ho i payload n = drive ho (Propose i payload) n"

definition reconfigure_opaque ::
  "('r, 'p, 'g, 'v, 'e, 'c, 's, 'h, 'm) host \<Rightarrow> system_operation \<Rightarrow> ('r, 'c, 's, 'h, 'm) node \<Rightarrow>
   (int exit \<times> ('r, 'c, 's, 'h, 'm) node) option" where
  "reconfigure_opaque ho op n = drive ho (Reconfigure op None) n"

end
