(* ===== verification/Node_Props.thy ===== *)
theory Node_Props
  imports Lock_Node Lock_Service_Props
begin

text \<open>
  Correctness of the node: the reply cache and the output queue over any history of entries, a commit that is
  delivered twice, the drive loop's return, and the guards of the entries.
\<close>

section \<open>The answers a node gives\<close>

lemma operation_id_bytes_of [simp]: "operation_id_bytes (operation_id_of m) = m"
  using uuid_halves [of m] by (simp add: operation_id_bytes_def operation_id_of_def Let_def)

text \<open>
  The invariant. Every queued output has a kind the queue's reader knows; a queued reply carries the cached
  reply of its message; an operation waits for the reply of its own message.
\<close>

definition answers_wf :: "('r, 'c, 's, 'h, 'm) node \<Rightarrow> bool" where
  "answers_wf n \<longleftrightarrow>
     (\<forall>q \<in> set (n_outputs n). qd_kind q = OUTPUT_SEND \<or>
        qd_kind q = OUTPUT_REPLY \<and> n_replies n (qd_message_id q) = Some (qd_bytes q)) \<and>
     (\<forall>oid m. n_pending n oid = Some m \<longrightarrow> m = operation_id_bytes oid)"

definition answers_grow :: "('r, 'c, 's, 'h, 'm) node \<Rightarrow> ('r, 'c, 's, 'h, 'm) node \<Rightarrow> bool" where
  "answers_grow n n' \<longleftrightarrow> (answers_wf n \<longrightarrow> answers_wf n') \<and> n_replies n \<subseteq>\<^sub>m n_replies n'"

definition same_answers :: "('r, 'c, 's, 'h, 'm) node \<Rightarrow> ('r, 'c, 's, 'h, 'm) node \<Rightarrow> bool" where
  "same_answers n n' \<longleftrightarrow>
     n_outputs n' = n_outputs n \<and> n_replies n' = n_replies n \<and> n_pending n' = n_pending n"

lemma answers_grow_refl [simp]: "answers_grow n n"
  by (simp add: answers_grow_def)

lemma answers_grow_trans [trans]: "answers_grow a b \<Longrightarrow> answers_grow b c \<Longrightarrow> answers_grow a c"
  unfolding answers_grow_def using map_le_trans by blast

lemma same_answers_grow: "same_answers n n' \<Longrightarrow> answers_grow n n'"
  by (simp add: same_answers_def answers_grow_def answers_wf_def)

lemma same_answers_refl [simp]: "same_answers n n"
  by (simp add: same_answers_def)

lemma same_answers_trans: "same_answers a b \<Longrightarrow> same_answers b c \<Longrightarrow> same_answers a c"
  by (simp add: same_answers_def)

lemma clock_same:
  "same_answers n (snd (unix_millis n))" "same_answers n (snd (unique_name n))" "same_answers n (snd (new_uuid n))"
  by (simp_all add: same_answers_def unix_millis_def unique_name_def new_uuid_def)

lemma world_same:
  "same_answers n (snd (node_disk op n))" "same_answers n (snd (node_store sop n))" "same_answers n (snd (node_gate gop n))"
  by (simp_all add: same_answers_def node_disk_def node_store_def node_gate_def case_prod_unfold)

lemma world_same_eq:
  "node_disk op n = (r, n') \<Longrightarrow> same_answers n n'" "node_store sop n = (r', n') \<Longrightarrow> same_answers n n'"
  "node_gate gop n = (r'', n') \<Longrightarrow> same_answers n n'" "unix_millis n = (t, n') \<Longrightarrow> same_answers n n'"
  "unique_name n = (u, n') \<Longrightarrow> same_answers n n'" "new_uuid n = (i, n') \<Longrightarrow> same_answers n n'"
  using world_same(1) [of n op] world_same(2) [of n sop] world_same(3) [of n gop] clock_same [of n] by simp_all

lemma tick_same: "tick n = (r, n') \<Longrightarrow> same_answers n n'"
  by (auto simp: tick_def Let_def same_answers_def unix_millis_def split: option.splits)

lemma report_same: "report rp n = (r, n') \<Longrightarrow> same_answers n n'"
  by (auto simp: report_def Let_def same_answers_def split: if_splits)

lemma load_same: "same_answers n (load_state_on_demand ho n)"
proof -
  let ?n = "n\<lparr>n_state_loaded := True\<rparr>"
  obtain r n2 where s: "node_store (lazy_load (ss_load (ho_store ho)) (n_clean_boot ?n)
      (service_is_empty (ho_core ho) (n_service ?n))) ?n = (r, n2)" by fastforce
  have "same_answers n n2" using world_same_eq(2) [OF s] by (simp add: same_answers_def)
  then show ?thesis using s
    by (auto simp: load_state_on_demand_def Let_def same_answers_def split: sum.split option.split)
qed

lemma sink_same: "sink_event event n = (r, n') \<Longrightarrow> same_answers n n'"
  by (auto simp: sink_event_def same_answers_def unique_name_def unix_millis_def node_disk_def
      split: option.splits journal_sink.splits prod.splits sum.splits)

lemma note_same: "note_transition ho tr n = (r, n') \<Longrightarrow> same_answers n n'"
  by (cases tr) (auto simp: note_transition_def unix_millis_def same_answers_def dest!: sink_same)

lemma arrest_grow: "answers_grow n (arrest n)"
  by (simp add: answers_grow_def answers_wf_def arrest_def)

lemma record_fault_same: "same_answers n (record_fault note n)"
  by (simp add: record_fault_def same_answers_def)

lemma execute_once_cases:
  assumes "execute_once ho m payload n = (r, n')"
  shows "n_outputs n' = n_outputs n \<and> n_pending n' = n_pending n \<and>
    (n_replies n' = n_replies n \<and> (\<forall>b tr. r = Inr (b, tr) \<longrightarrow> n_replies n m = Some b) \<or>
     n_replies n m = None \<and> (\<exists>b tr. r = Inr (b, tr) \<and> n_replies n' = (n_replies n)(m \<mapsto> b)))"
proof -
  have load: "n_outputs (load_state_on_demand ho x) = n_outputs x" "n_replies (load_state_on_demand ho x) = n_replies x"
    "n_pending (load_state_on_demand ho x) = n_pending x" for x
    using load_same [of x ho] by (simp_all add: same_answers_def)
  show ?thesis using assms
    by (auto simp: execute_once_def unix_millis_def Let_def load split: option.splits sum.splits prod.splits if_splits)
qed

lemma new_reply_grow:
  assumes "n_outputs n' = n_outputs n" and "n_pending n' = n_pending n"
    and "n_replies n m = None" and "n_replies n' = (n_replies n)(m \<mapsto> b)"
  shows "answers_grow n n'"
proof -
  have "n_replies n \<subseteq>\<^sub>m n_replies n'" using assms(3,4) by (auto simp: map_le_def)
  moreover have "n_replies n' x = Some y" if "n_replies n x = Some y" for x y using that assms(3,4) by auto
  ultimately show ?thesis using assms(1,2) unfolding answers_grow_def answers_wf_def by metis
qed

lemma execute_once_grow:
  assumes "execute_once ho m payload n = (r, n')"
  shows "answers_grow n n'" and "r = Inr (b, tr) \<Longrightarrow> n_replies n' m = Some b" and "n_pending n' = n_pending n"
proof -
  note c = execute_once_cases [OF assms]
  show "answers_grow n n'"
    using c new_reply_grow [of n' n m] same_answers_grow [of n n'] by (auto simp: same_answers_def)
  show "r = Inr (b, tr) \<Longrightarrow> n_replies n' m = Some b" and "n_pending n' = n_pending n" using c by auto
qed

lemma queue_reply_grow: "n_replies n m = Some b \<Longrightarrow> answers_grow n (queue_reply m b n)"
  by (auto simp: queue_reply_def answers_grow_def answers_wf_def)

lemma answer_pending_grow:
  assumes "answer_pending oid b n = (r, n')" and "n_replies n (operation_id_bytes oid) = Some b"
  shows "answers_grow n n'"
proof -
  let ?n = "n\<lparr>n_pending := (n_pending n)(oid := None)\<rparr>"
  have drop: "answers_grow n ?n" by (auto simp: answers_grow_def answers_wf_def)
  show ?thesis
  proof (cases "answers_wf n")
    case True
    then have "n_pending n oid = Some m \<Longrightarrow> answers_grow ?n (queue_reply m b ?n)" for m
      using assms(2) by (intro queue_reply_grow) (auto simp: answers_wf_def)
    then have "n_pending n oid = Some m \<Longrightarrow> answers_grow n (queue_reply m b ?n)" for m
      using answers_grow_trans [OF drop] by blast
    with assms(1) drop show ?thesis by (auto simp: answer_pending_def Let_def split: option.splits if_splits)
  next
    case False
    with assms(1) show ?thesis
      by (auto simp: answers_grow_def answer_pending_def queue_reply_def Let_def split: option.splits if_splits)
  qed
qed

lemma apply_commit_grow:
  fixes r :: "(int + (u64 \<times> ('g, 'v) input) list) exit"
  assumes "apply_commit ho slot oid payload n = (r, n')"
  shows "answers_grow n n'"
proof -
  let ?n = "n\<lparr>n_hook := ho_hook ho slot (n_hook n)\<rparr>"
  have hook: "answers_grow n ?n" by (rule same_answers_grow) (simp add: same_answers_def)
  obtain r1 n1 where e: "execute_once ho (operation_id_bytes oid) payload ?n = (r1, n1)" by fastforce
  note g1 = answers_grow_trans [OF hook execute_once_grow(1) [OF e]]
  show ?thesis
  proof (cases r1)
    case (Inl c)
    with assms e g1 show ?thesis by (simp add: apply_commit_def)
  next
    case (Inr x)
    obtain b tr where x: "x = (b, tr)" by fastforce
    have rb: "n_replies n1 (operation_id_bytes oid) = Some b" using execute_once_grow(2) [OF e] Inr x by simp
    obtain r2 n2 where t: "note_transition ho tr n1 = (r2, n2)" by fastforce
    note s2 = note_same [OF t]
    obtain r3 n3 where p: "answer_pending oid b n2 = (r3, n3)" by fastforce
    have "n_replies n2 (operation_id_bytes oid) = Some b" using rb s2 by (simp add: same_answers_def)
    note g2 = answers_grow_trans [OF g1 same_answers_grow [OF s2]]
    note g3 = answers_grow_trans [OF g2 answer_pending_grow [OF p \<open>n_replies n2 _ = _\<close>]]
    obtain r4 n4 where k: "tick n3 = (r4, n4)" by fastforce
    note g4 = answers_grow_trans [OF g3 same_answers_grow [OF tick_same [OF k]]]
    show ?thesis using assms e Inr x t p k g2 g3 g4
      by (auto simp: apply_commit_def split: exit.splits sum.splits)
  qed
qed

lemma send_grow: "send_effect rp target msg n = (r, n') \<Longrightarrow> answers_grow n n'"
  by (auto simp: send_effect_def answers_grow_def answers_wf_def Let_def split: if_splits option.splits)

lemma apply_effect_grow: "apply_effect ho ef n = (r, n') \<Longrightarrow> answers_grow n n'"
  by (cases ef) (auto simp: apply_effect_def dest: send_grow apply_commit_grow split: sum.splits prod.splits)

lemma publish_grow: "plan_and_publish rp at event n = (r, n') \<Longrightarrow> answers_grow n n'"
  by (rule same_answers_grow)
    (auto simp: plan_and_publish_def Let_def same_answers_def record_fault_def
      split: option.splits sum.splits prod.splits publish.splits if_splits)

lemma settle_grow: "settle_deferred_latch ho n = (r, n') \<Longrightarrow> answers_grow n n'"
  by (rule same_answers_grow)
    (auto simp: settle_deferred_latch_def Let_def unique_name_def same_answers_def node_gate_def
      split: if_splits option.splits prod.splits sum.splits)

section \<open>Histories of a node\<close>

text \<open>What every transition and the report keep, the loop keeps.\<close>

lemma drive_loop_keeps:
  assumes "drive_loop ho q n = Some res"
    and one: "\<And>at event n r n'. I n \<Longrightarrow> \<not> n_poisoned n \<Longrightarrow> drive_one ho at event n = (r, n') \<Longrightarrow> I n'"
    and rep: "\<And>n r n'. I n \<Longrightarrow> report (ho_replica ho) n = (r, n') \<Longrightarrow> I n'"
    and "I n"
  shows "I (snd res)"
proof -
  have "host = ho \<Longrightarrow> I n \<Longrightarrow> I (snd res)" if "drive_loop host q n = Some res" for host q n res
    using that
  proof (induction rule: drive_loop.raw_induct [rotated, consumes 1, case_names step])
    case (step loop host q n res)
    show ?case
    proof (cases q)
      case Nil
      obtain x n1 where x: "report (ho_replica ho) n = (x, n1)" by fastforce
      then have "snd res = n1" using step(2,3) Nil by (cases x) auto
      with rep [OF step(4) x] show ?thesis by simp
    next
      case (Cons i rest)
      obtain at event where i: "i = (at, event)" by fastforce
      obtain r1 n1 where d: "drive_one ho at event n = (r1, n1)" by fastforce
      show ?thesis
      proof (cases "n_poisoned n")
        case True
        with step(2-) Cons i show ?thesis by auto
      next
        case False
        note g = one [OF step(4) False d]
        have "res = (fst res, n1) \<or> (\<exists>fed. loop ho (rest @ fed) n1 = Some res)"
          using step(2) [unfolded Cons i step(3) list.case prod.case if_not_P [OF False] d]
          by (cases r1) (auto split: sum.splits)
        then show ?thesis using g step(1) [OF _ refl g] step(3) by (metis snd_conv)
      qed
    qed
  qed
  with assms show ?thesis by blast
qed

text \<open>
  One entry of a host that is still running, or one turn of the write-behind writer taking messages off the queue.
\<close>

inductive node_step ::
  "('r, 'p, 'g, 'v, 'e, 'c, 's, 'h, 'm) host \<Rightarrow> ('r, 'c, 's, 'h, 'm) node \<Rightarrow> ('r, 'c, 's, 'h, 'm) node \<Rightarrow> bool"
  for ho where
  step_request: "node_request ho json n = Some (Ret c, n') \<Longrightarrow> node_step ho n n'"
| step_receive: "receive ho sender data n = Some (Ret c, n') \<Longrightarrow> node_step ho n n'"
| step_idle: "idle ho n = Some (Ret c, n') \<Longrightarrow> node_step ho n n'"
| step_leader_timeout: "leader_timeout ho n = Some (Ret c, n') \<Longrightarrow> node_step ho n n'"
| step_force_view: "force_view ho era vw n = Some (Ret c, n') \<Longrightarrow> node_step ho n n'"
| step_recover: "recover ho n = Some (Ret c, n') \<Longrightarrow> node_step ho n n'"
| step_reconfigure: "reconfigure ho op member position n = Some (Ret c, n') \<Longrightarrow> node_step ho n n'"
| step_state_tick: "state_tick ho n = Some (Ret c, n') \<Longrightarrow> node_step ho n n'"
| step_stop: "stop ho answer n = (Ret c, n') \<Longrightarrow> node_step ho n n'"
| step_output: "next_output n = (Ret q, n') \<Longrightarrow> node_step ho n n'"
| step_propose: "propose_opaque ho oid payload n = Some (Ret c, n') \<Longrightarrow> node_step ho n n'"
| step_reconfigure_opaque: "reconfigure_opaque ho sop n = Some (Ret c, n') \<Longrightarrow> node_step ho n n'"
| step_writer: "g_sink (n_gate n) = Some (SinkAof q) \<Longrightarrow>
    node_step ho n (n\<lparr>n_gate := (n_gate n)\<lparr>g_sink := Some (SinkAof (q\<lparr>q_msgs := drop k (q_msgs q)\<rparr>))\<rparr>\<rparr>)"

text \<open>
  A preorder on nodes that every operation respects. The operations are the ones the entries are
  composed of; that the entries and whole histories respect it is then proved once.
\<close>

locale node_order =
  fixes ho :: "('r, 'p, 'g, 'v, 'e, 'c, 's, 'h, 'm) host"
    and leads :: "('r, 'c, 's, 'h, 'm) node \<Rightarrow> ('r, 'c, 's, 'h, 'm) node \<Rightarrow> bool"
  assumes leads_refl: "leads n n"
    and leads_trans: "leads n n1 \<Longrightarrow> leads n1 n2 \<Longrightarrow> leads n n2"
    and by_clock: "tick n = (t, n') \<Longrightarrow> leads n n'"
    and by_read: "leads n (n\<lparr>n_reads := k\<rparr>)"
    and by_plan: "plan_and_publish (ho_replica ho) at event n = (x, n') \<Longrightarrow> leads n n'"
    and by_effect: "apply_effect ho ef n = (y, n') \<Longrightarrow> leads n n'"
    and by_arrest: "leads n (arrest n)"
    and by_report: "report (ho_replica ho) n = (z, n') \<Longrightarrow> leads n n'"
    and by_settle: "settle_deferred_latch ho n = (z, n') \<Longrightarrow> leads n n'"
    and by_load: "leads n (load_state_on_demand ho n)"
    and by_cached: "n_replies n m = Some bs \<Longrightarrow> leads n (queue_reply m bs n)"
    and by_pending: "leads n (n\<lparr>n_pending := (n_pending n)(operation_id_of m \<mapsto> m)\<rparr>)"
    and by_unpending: "leads n (n\<lparr>n_pending := (n_pending n)(oid := None)\<rparr>)"
    and by_sweep: "leads n (n\<lparr>n_sweep_seq := k'\<rparr>)"
    and by_world: "leads n (n\<lparr>n_gate := gt\<rparr>)"
    and by_store: "leads n (n\<lparr>n_store := st, n_gate := gt\<rparr>)"
    and by_stop: "leads n (n\<lparr>n_stopped := True\<rparr>)"
    and by_unseat: "leads n (n\<lparr>n_session := None\<rparr>)"
    and by_output: "n_outputs n = q # qs \<Longrightarrow> leads n (n\<lparr>n_outputs := qs\<rparr>)"
begin

lemma effects_lead: "apply_effects ho efs n = (r, n') \<Longrightarrow> leads n n'"
proof (induction efs arbitrary: n r n')
  case Nil
  then show ?case by (simp add: leads_refl)
next
  case (Cons ef efs)
  obtain r1 n1 where e: "apply_effect ho ef n = (r1, n1)" by fastforce
  obtain r2 n2 where es: "apply_effects ho efs n1 = (r2, n2)" by fastforce
  note l1 = by_effect [OF e]
  note l2 = leads_trans [OF l1 Cons.IH [OF es]]
  from e es Cons.prems l1 l2 show ?case by (auto split: exit.splits sum.splits)
qed

lemma one_leads:
  assumes "drive_one ho at event n = (r, n')"
  shows "leads n n'"
proof -
  obtain r1 n1 where p: "plan_and_publish (ho_replica ho) at event n = (r1, n1)" by fastforce
  note l1 = by_plan [OF p]
  have l2: "leads n n2" if "apply_effects ho efs n1 = (r2, n2)" for efs r2 n2
    using leads_trans [OF l1 effects_lead [OF that]] .
  show ?thesis using assms p l1 leads_trans [OF l1 by_arrest]
    by (auto simp: drive_one_def intro: leads_trans [OF _ by_arrest] dest: l2
        split: exit.splits sum.splits if_splits prod.splits)
qed

lemma loop_leads:
  assumes "drive_loop ho q n = Some (r, n')"
  shows "leads n n'"
proof -
  have "leads n (snd (r, n'))" using assms
    by (rule drive_loop_keeps)
      (auto intro: leads_refl leads_trans [OF _ one_leads] leads_trans [OF _ by_report])
  then show ?thesis by simp
qed

lemma drive_leads:
  assumes "drive ho event n = Some (r, n')"
  shows "leads n n'"
proof -
  obtain t n1 where t: "tick n = (t, n1)" by fastforce
  note l1 = by_clock [OF t]
  show ?thesis
  proof (cases t)
    case (Inl e)
    with assms t l1 show ?thesis by (simp add: drive_def)
  next
    case (Inr at)
    then have run: "drive_at ho at event n1 = Some (r, n')" using assms t by (simp add: drive_def)
    obtain x n2 where x: "(if n_poisoned n1 then Some (Ret SERVICE, n1) else drive_loop ho [(at, event)] n1) = Some (x, n2)"
      using run by (auto simp: drive_at_def split: option.splits)
    then have l2: "leads n n2" using loop_leads leads_trans [OF l1] l1 by (auto split: if_splits)
    obtain y n3 where y: "settle_deferred_latch ho n2 = (y, n3)" by fastforce
    have "n' = n2 \<or> n' = n3" using run x y by (auto simp: drive_at_def split: exit.splits)
    with l2 leads_trans [OF l2 by_settle [OF y]] show ?thesis by blast
  qed
qed

lemma request_leads:
  assumes "node_request ho json n = Some (r, n')"
  shows "leads n n'"
proof -
  have proposed: "leads n n1" if "drive ho event (n\<lparr>n_pending := (n_pending n)(operation_id_of m \<mapsto> m)\<rparr>) = Some (x, n1)"
    for event m x n1
    using leads_trans [OF by_pending drive_leads [OF that]] .
  show ?thesis using assms
    by (auto simp: node_request_def Let_def leads_refl by_cached dest!: proposed intro: leads_trans [OF _ by_unpending]
        split: if_splits sum.splits option.splits prod.splits exit.splits)
qed

lemma receive_leads: "receive ho sender data n = Some (r, n') \<Longrightarrow> leads n n'"
  by (auto simp: receive_def leads_refl dest: drive_leads split: if_splits option.splits)

lemma recover_leads:
  assumes "recover ho n = Some (r, n')"
  shows "leads n n'"
proof -
  have twice: "leads n n2" if "drive ho a n = Some (x, n1)" "drive ho b n1 = Some (y, n2)" for a b x y n1 n2
    using leads_trans [OF drive_leads [OF that(1)] drive_leads [OF that(2)]] .
  show ?thesis using assms
    by (auto simp: recover_def leads_refl dest: drive_leads twice split: if_splits option.splits prod.splits exit.splits)
qed

lemma reconfigure_leads: "reconfigure ho op member position n = Some (r, n') \<Longrightarrow> leads n n'"
  by (auto simp: reconfigure_def Let_def leads_refl dest: drive_leads split: if_splits option.splits)

lemma sweep_leads: "sweep_locks ho ls n = Some (r, n') \<Longrightarrow> leads n n'"
proof (induction ls arbitrary: n)
  case Nil
  then show ?case by (simp add: leads_refl)
next
  case (Cons l ls)
  let ?n = "n\<lparr>n_sweep_seq := n_sweep_seq n + 1\<rparr>\<lparr>n_reads := Suc (n_reads n)\<rparr>"
  have l1: "leads n ?n" by (rule leads_trans [OF by_sweep by_read])
  have u: "new_uuid (n\<lparr>n_sweep_seq := n_sweep_seq n + 1\<rparr>) = (n_uuids n (n_reads n), ?n)" by (simp add: new_uuid_def)
  have once: "leads n n3" if "node_request ho payload ?n = Some (x, n3)" for payload x n3
    using leads_trans [OF l1 request_leads [OF that]] .
  from Cons.prems u show ?case
    by (auto simp: Let_def dest!: Cons.IH once intro: leads_trans l1 split: if_splits option.splits prod.splits exit.splits)
qed

lemma store_leads: "node_store op n = (r, n') \<Longrightarrow> leads n n'"
  by (auto simp: node_store_def by_store split: prod.splits)

lemma gate_leads: "node_gate op n = (r, n') \<Longrightarrow> leads n n'"
  by (auto simp: node_gate_def by_world split: prod.splits)

lemma disk_leads: "node_disk op n = (r, n') \<Longrightarrow> leads n n'"
  by (auto simp: node_disk_def by_world split: prod.splits)

lemma unique_leads: "unique_name n = (u, n') \<Longrightarrow> leads n n'"
  by (auto simp: unique_name_def by_read)

lemma tick_path_leads:
  assumes "state_tick_path ho n = (r, n')"
  shows "leads n n'"
proof -
  have two: "leads n n2" if "node_store a n = (x, n1)" "node_store b n1 = (y, n2)" for a b n1 n2 and x y :: "unit io"
    using leads_trans [OF store_leads [OF that(1)] store_leads [OF that(2)]] .
  show ?thesis using assms
    by (auto simp: state_tick_path_def dest: store_leads two intro: leads_trans [OF two store_leads]
        split: prod.splits sum.splits)
qed

lemma state_tick_leads:
  assumes "state_tick ho n = Some (r, n')"
  shows "leads n n'"
proof -
  have sweep: "leads n n1" if "sweep_expired ho n = Some (x, n1)" for x n1
    using that leads_trans [OF by_read sweep_leads]
    by (auto simp: sweep_expired_def unix_millis_def leads_refl by_read split: if_splits option.splits)
  have "leads m (snd (state_tick_path ho m))" for m using tick_path_leads [of m] by (metis prod.collapse)
  with assms show ?thesis
    by (auto simp: state_tick_def leads_refl dest!: sweep intro: leads_trans
        split: if_splits option.splits prod.splits exit.splits)
qed

lemma round_leads: "halt_round ho i m n = (r, n') \<Longrightarrow> leads n n'"
  using leads_trans [OF unique_leads gate_leads] by (auto simp: halt_round_def split: prod.splits)

lemma drained_leads:
  assumes "stop_drained ho i n = (r, n')"
  shows "leads n n'"
proof -
  obtain r1 n1 where p: "state_tick_path ho (load_state_on_demand ho n) = (r1, n1)" by fastforce
  note l1 = leads_trans [OF by_load tick_path_leads [OF p]]
  obtain r2 n2 where f: "node_store (ss_flush (ho_store ho) (service_snapshot (ho_core ho) (n_service n1))) n1 = (r2, n2)"
    by (cases "node_store (ss_flush (ho_store ho) (service_snapshot (ho_core ho) (n_service n1))) n1")
  note l2 = leads_trans [OF l1 store_leads [OF f]]
  obtain r3 n3 where h: "halt_round ho i (lc_halt_second (ho_life ho)) n2 = (r3, n3)" by fastforce
  note l3 = leads_trans [OF l2 round_leads [OF h]]
  from assms p f h l1 l2 l3 show ?thesis by (auto simp: stop_drained_def split: sum.splits)
qed

lemma seated_leads:
  assumes "stop_seated ho answer i n = (r, n')"
  shows "leads n n'"
proof -
  obtain r1 n1 where h: "halt_round ho i (lc_halt_first (ho_life ho)) n = (r1, n1)" by fastforce
  note l1 = round_leads [OF h]
  let ?ob = "rp_observe (ho_replica ho) (n_replica n1)"
  obtain u n2 where u: "unique_name n1 = (u, n2)" by fastforce
  note l2 = leads_trans [OF l1 unique_leads [OF u]]
  obtain r3 n3 where v: "node_disk (write_view_record (n_state_path n2) u \<lparr>vr_era = ob_era ?ob, vr_view = ob_view ?ob\<rparr>) n2 = (r3, n3)"
    by fastforce
  note l3 = leads_trans [OF l2 disk_leads [OF v]]
  obtain r4 n4 where d: "node_gate (gate_drain answer) n3 = (r4, n4)" by fastforce
  note l4 = leads_trans [OF l3 gate_leads [OF d]]
  obtain r5 n5 where s: "stop_drained ho i n4 = (r5, n5)" by fastforce
  note l5 = leads_trans [OF l4 drained_leads [OF s]]
  from assms h u v d s l1 l3 l4 l5 show ?thesis by (auto simp: stop_seated_def Let_def split: sum.splits)
qed

lemma stop_leads:
  assumes "stop ho answer n = (r, n')"
  shows "leads n n'"
proof (cases "n_session n")
  case None
  let ?n = "n\<lparr>n_stopped := True\<rparr>"
  obtain x n1 where d: "node_disk (drain_sink answer (g_sink (n_gate ?n))) ?n = (x, n1)" by fastforce
  from leads_trans [OF by_stop disk_leads [OF d]] assms None d show ?thesis
    by (auto simp: stop_def stop_unseated_def leads_refl split: if_splits sum.splits)
next
  case (Some i)
  let ?n = "n\<lparr>n_stopped := True\<rparr>\<lparr>n_session := None\<rparr>"
  obtain x n1 where s: "stop_seated ho answer i ?n = (x, n1)" by fastforce
  have "leads n ?n" by (rule leads_trans [OF by_stop by_unseat])
  from leads_trans [OF this seated_leads [OF s]] assms Some s show ?thesis
    by (auto simp: stop_def leads_refl split: if_splits)
qed

lemma output_leads: "next_output n = (r, n') \<Longrightarrow> leads n n'"
  by (auto simp: next_output_def Let_def leads_refl by_output split: list.splits if_splits)

lemma step_leads: "node_step ho n n' \<Longrightarrow> leads n n'"
  by (induction rule: node_step.induct)
    (auto simp: idle_def leader_timeout_def force_view_def propose_opaque_def reconfigure_opaque_def leads_refl by_world
      dest: request_leads receive_leads drive_leads recover_leads reconfigure_leads state_tick_leads stop_leads output_leads
      split: if_splits)

lemma history_leads: "(node_step ho)\<^sup>*\<^sup>* n n' \<Longrightarrow> leads n n'"
  by (induction rule: rtranclp_induct) (auto intro: leads_refl leads_trans step_leads)

end

lemma pending_grow:
  "answers_grow n (n\<lparr>n_pending := (n_pending n)(operation_id_of m \<mapsto> m)\<rparr>)"
  "answers_grow n (n\<lparr>n_pending := (n_pending n)(oid := None)\<rparr>)"
  by (auto simp: answers_grow_def answers_wf_def)

lemma output_grow: "n_outputs n = q # qs \<Longrightarrow> answers_grow n (n\<lparr>n_outputs := qs\<rparr>)"
  by (auto simp: answers_grow_def answers_wf_def)

lemmas answers_kept =
  same_answers_grow [OF tick_same] same_answers_grow [OF report_same] publish_grow apply_effect_grow
  settle_grow queue_reply_grow output_grow

lemma state_kept_grow:
  "n_outputs n' = n_outputs n \<Longrightarrow> n_replies n' = n_replies n \<Longrightarrow> n_pending n' = n_pending n \<Longrightarrow> answers_grow n n'"
  by (rule same_answers_grow) (simp add: same_answers_def)

interpretation answers: node_order ho answers_grow for ho
  by (unfold_locales, rule answers_grow_refl, erule (1) answers_grow_trans)
    (erule answers_kept | rule arrest_grow pending_grow same_answers_grow [OF load_same]
      | rule state_kept_grow, simp_all)+

section \<open>What only moves forward\<close>

definition era_le :: "u32 option \<Rightarrow> u32 option \<Rightarrow> bool" where
  "era_le a b \<longleftrightarrow> (case a of None \<Rightarrow> True | Some x \<Rightarrow> (case b of None \<Rightarrow> False | Some y \<Rightarrow> x \<le> y))"

definition forward :: "('r, 'c, 's, 'h, 'm) node \<Rightarrow> ('r, 'c, 's, 'h, 'm) node \<Rightarrow> bool" where
  "forward n n' \<longleftrightarrow>
     n_last_tick n \<le> n_last_tick n' \<and> (n_stopped n \<longrightarrow> n_stopped n') \<and> (n_poisoned n \<longrightarrow> n_poisoned n') \<and>
     (n_state_loaded n \<longrightarrow> n_state_loaded n') \<and> era_le (n_last_config_era n) (n_last_config_era n') \<and>
     (n_fault_note n \<noteq> None \<longrightarrow> n_fault_note n' = n_fault_note n) \<and> n_clean_boot n' = n_clean_boot n"

definition same_flags :: "('r, 'c, 's, 'h, 'm) node \<Rightarrow> ('r, 'c, 's, 'h, 'm) node \<Rightarrow> bool" where
  "same_flags n n' \<longleftrightarrow>
     n_last_tick n' = n_last_tick n \<and> n_stopped n' = n_stopped n \<and> n_poisoned n' = n_poisoned n \<and>
     n_state_loaded n' = n_state_loaded n \<and> n_last_config_era n' = n_last_config_era n \<and>
     n_fault_note n' = n_fault_note n \<and> n_clean_boot n' = n_clean_boot n"

lemma era_le_refl [simp]: "era_le e e"
  by (simp add: era_le_def split: option.split)

lemma forward_refl: "forward n n"
  by (simp add: forward_def)

lemma forward_trans: "forward n n1 \<Longrightarrow> forward n1 n2 \<Longrightarrow> forward n n2"
  by (auto simp: forward_def era_le_def split: option.splits)

lemma same_flags_forward: "same_flags n n' \<Longrightarrow> forward n n'"
  by (simp add: same_flags_def forward_def)

lemma tick_forward: "tick n = (r, n') \<Longrightarrow> forward n n'"
  by (auto simp: tick_def Let_def unix_millis_def forward_def split: option.splits)

lemma report_forward: "report rp n = (r, n') \<Longrightarrow> forward n n'"
  by (auto simp: report_def Let_def forward_def folded_era_regressed_def era_le_def split: if_splits option.splits)

lemma plan_forward: "plan_and_publish rp at event n = (r, n') \<Longrightarrow> forward n n'"
  by (auto simp: plan_and_publish_def Let_def record_fault_def forward_def
      split: option.splits sum.splits prod.splits publish.splits if_splits)

lemma settle_forward: "settle_deferred_latch ho n = (r, n') \<Longrightarrow> forward n n'"
  by (rule same_flags_forward)
    (auto simp: settle_deferred_latch_def Let_def unique_name_def same_flags_def node_gate_def
      split: if_splits option.splits prod.splits sum.splits)

lemma load_forward: "forward n (load_state_on_demand ho n)"
  by (auto simp: load_state_on_demand_def Let_def forward_def node_store_def case_prod_unfold
      split: sum.split option.split)

lemma execute_once_forward:
  assumes "execute_once ho m payload n = (r, n')"
  shows "forward n n'"
proof -
  let ?n = "n\<lparr>n_reads := Suc (n_reads n)\<rparr>"
  let ?l = "load_state_on_demand ho ?n"
  have l: "forward n ?l"
    by (rule forward_trans [OF _ load_forward]) (simp add: same_flags_forward same_flags_def)
  have f: "forward n (?l\<lparr>n_service := s\<rparr>)" "forward n (?l\<lparr>n_service := s, n_replies := x\<rparr>)" for s x
    using l by (simp_all add: forward_def)
  have r: "forward n ?n" by (simp add: same_flags_forward same_flags_def)
  show ?thesis using assms l f r
    by (auto simp: execute_once_def unix_millis_def Let_def forward_refl
        split: option.splits sum.splits prod.splits if_splits)
qed

lemma sink_flags: "sink_event event n = (r, n') \<Longrightarrow> same_flags n n'"
  by (auto simp: sink_event_def same_flags_def unique_name_def unix_millis_def node_disk_def
      split: option.splits journal_sink.splits prod.splits sum.splits)

lemma note_flags: "note_transition ho tr n = (r, n') \<Longrightarrow> same_flags n n'"
  by (cases tr) (auto simp: note_transition_def unix_millis_def same_flags_def dest!: sink_flags)

lemma answer_flags: "answer_pending oid b n = (r, n') \<Longrightarrow> same_flags n n'"
  by (auto simp: answer_pending_def queue_reply_def Let_def same_flags_def split: option.splits if_splits)

lemma apply_commit_forward:
  fixes r :: "(int + (u64 \<times> ('g, 'v) input) list) exit"
  assumes "apply_commit ho slot oid payload n = (r, n')"
  shows "forward n n'"
proof -
  let ?n = "n\<lparr>n_hook := ho_hook ho slot (n_hook n)\<rparr>"
  have "forward n ?n" by (simp add: same_flags_forward same_flags_def)
  moreover obtain r1 n1 where e: "execute_once ho (operation_id_bytes oid) payload ?n = (r1, n1)" by fastforce
  ultimately have f1: "forward n n1" using execute_once_forward [OF e] forward_trans by blast
  show ?thesis
  proof (cases r1)
    case (Inl c)
    with assms e f1 show ?thesis by (simp add: apply_commit_def)
  next
    case (Inr x)
    obtain b tr where x: "x = (b, tr)" by fastforce
    obtain r2 n2 where t: "note_transition ho tr n1 = (r2, n2)" by fastforce
    note f2 = forward_trans [OF f1 same_flags_forward [OF note_flags [OF t]]]
    obtain r3 n3 where p: "answer_pending oid b n2 = (r3, n3)" by fastforce
    note f3 = forward_trans [OF f2 same_flags_forward [OF answer_flags [OF p]]]
    obtain r4 n4 where k: "tick n3 = (r4, n4)" by fastforce
    note f4 = forward_trans [OF f3 tick_forward [OF k]]
    show ?thesis using assms e Inr x t p k f2 f3 f4
      by (auto simp: apply_commit_def split: exit.splits sum.splits)
  qed
qed

lemma apply_effect_forward: "apply_effect ho ef n = (r, n') \<Longrightarrow> forward n n'"
  by (cases ef)
    (auto simp: apply_effect_def send_effect_def Let_def forward_def [of _ "_\<lparr>n_outputs := _\<rparr>"] forward_refl
      dest: apply_commit_forward split: sum.splits prod.splits if_splits option.splits)

lemma arrest_forward: "forward n (arrest n)"
  by (simp add: arrest_def forward_def)

lemma flags_forward:
  "forward n (n\<lparr>n_stopped := True\<rparr>)" "forward n (queue_reply m bs n)"
  by (simp_all add: forward_def queue_reply_def)

lemmas flags_kept = tick_forward report_forward plan_forward apply_effect_forward settle_forward

interpretation flags: node_order ho forward for ho
  by (unfold_locales, rule forward_refl, erule (1) forward_trans)
    (erule flags_kept | rule arrest_forward load_forward flags_forward
      | rule same_flags_forward, simp add: same_flags_def)+

section \<open>Claims\<close>

text \<open>
  C20: replies never change. Take a node whose answers are consistent (a fresh one is) and any history of entries,
  peers' datagrams, ticks, stops and arrests. Two replies queued anywhere in that history for the same
  message carry the same bytes, whether they answer the commit or a duplicate request.
\<close>

theorem replies_never_change:
  assumes "answers_wf n0" and "(node_step ho)\<^sup>*\<^sup>* n0 n1" and "(node_step ho)\<^sup>*\<^sup>* n1 n2"
    and "q1 \<in> set (n_outputs n1)" and "q2 \<in> set (n_outputs n2)"
    and "qd_kind q1 = OUTPUT_REPLY" and "qd_kind q2 = OUTPUT_REPLY" and "qd_message_id q1 = qd_message_id q2"
  shows "qd_bytes q1 = qd_bytes q2"
proof -
  note g1 = answers.history_leads [OF assms(2)] and g2 = answers.history_leads [OF assms(3)]
  have "answers_wf n1" "answers_wf n2" "n_replies n1 \<subseteq>\<^sub>m n_replies n2"
    using assms(1) g1 g2 by (simp_all add: answers_grow_def)
  moreover have "OUTPUT_REPLY \<noteq> OUTPUT_SEND" by (simp add: OUTPUT_REPLY_def OUTPUT_SEND_def)
  ultimately have "n_replies n1 (qd_message_id q1) = Some (qd_bytes q1)" "n_replies n2 (qd_message_id q2) = Some (qd_bytes q2)"
    using assms(4-7) by (auto simp: answers_wf_def)
  with \<open>n_replies n1 \<subseteq>\<^sub>m n_replies n2\<close> assms(8) show ?thesis
    by (metis map_le_def domI option.inject)
qed

text \<open>
  C21: a commit delivered again is not executed again. Where the message already has a reply, applying the commit
  leaves the lock table, the reply cache, the journal and the state store alone; a waiting client gets the
  cached bytes, and the replica is told that the slot is applied.
\<close>

theorem duplicate_commit_not_reexecuted:
  assumes "n_replies n (operation_id_bytes oid) = Some b" and "n_clock n (n_reads n) = Some t"
    and "length b \<le> MAX_DATAGRAM"
  shows "\<exists>at n'. apply_commit ho slot oid payload n = (Ret (Inr [(at, Applied slot)]), n') \<and>
    n_service n' = n_service n \<and> n_replies n' = n_replies n \<and> n_gate n' = n_gate n \<and> n_store n' = n_store n \<and>
    n_outputs n' =
      (case n_pending n oid of
         None \<Rightarrow> n_outputs n
       | Some m \<Rightarrow> n_outputs n @
           [\<lparr>qd_kind = OUTPUT_REPLY, qd_to = 0, qd_era = 0, qd_view = 0, qd_slot = 0, qd_message_id = m, qd_bytes = b\<rparr>])"
  using assms
  by (cases "n_pending n oid")
    (simp_all add: apply_commit_def execute_once_def note_transition_def answer_pending_def queue_reply_def tick_def
      unix_millis_def Let_def)

text \<open>
  C22: what a node has settled stays settled. Over any history of entries the drive clock never goes back, a stopped node
  stays stopped, an arrested node stays arrested with its first recorded reason, the lazy load is taken at most
  once, and the folded configuration era never regresses.
\<close>

theorem node_moves_forward:
  assumes "(node_step ho)\<^sup>*\<^sup>* n n'"
  shows "forward n n'"
  by (rule flags.history_leads [OF assms])

end
