(* ===== verification/Boot_Props.thy ===== *)
theory Boot_Props
  imports Boot_Gate
begin

text \<open>
  Correctness of the boot gate: the lines of the marker and of the view record, the
  agreement of the quorum store with its compatibility projection, and the identities a
  replica announces over any history of crashes.
\<close>

section \<open>Lines\<close>

lemma show_dec_no_blank [simp]: "CHR '' '' \<notin> set (show_dec n)"
  using show_dec_plain by blast

lemma show_dec_ends: "\<not> is_space (hd (show_dec n)) \<and> \<not> is_space (last (show_dec n))"
  using show_dec_plain [of "hd (show_dec n)" n] show_dec_plain [of "last (show_dec n)" n] by simp

lemma plain_word: "w \<in> {''stopped'', ''flushed'', ''unflushed''} \<Longrightarrow> w \<noteq> [] \<and> \<not> is_space (last w)"
  by (auto dest!: is_space_code)

lemma projection_word_cases: "projection_word m \<in> {''stopped'', ''flushed'', ''unflushed''}"
  by (cases m) (simp_all add: projection_word_def)

lemma trim_marker_line:
  "trim (marker_line s c m) = show_dec (unat s) @ CHR '' '' # show_dec (unat c) @ CHR '' '' # projection_word m"
proof -
  let ?l = "show_dec (unat s) @ CHR '' '' # show_dec (unat c) @ CHR '' '' # projection_word m"
  have "trim (?l @ [CHR 0x0A]) = ?l"
    by (rule trim_line) (use show_dec_ends [of "unat s"] plain_word [OF projection_word_cases, of m] in simp_all)
  then show ?thesis by (simp add: marker_line_def)
qed

lemma parse_word: 
  "(if projection_word m = ''flushed'' then Some (s, c, Stopped)
    else if projection_word m = ''stopped'' then Some (s, c, Stopping)
    else if projection_word m = ''unflushed'' then Some (s, c, Joining) else None) = Some (s, c, engine_marker (zig_state m))"
  by (cases m) (simp_all add: projection_word_def engine_marker_def zig_state_def)

lemma parse_marker_line:
  "parse_marker (marker_line s c m) = (if s = 0 \<or> c = 0 then None else Some (s, c, engine_marker (zig_state m)))"
  unfolding parse_marker_def trim_marker_line by (simp add: split_once_free parse_word)

lemma view_parse_line: "view_parse (view_line r) = Some r"
proof -
  let ?l = "show_dec (unat (vr_era r)) @ CHR '' '' # show_dec (unat (vr_view r))"
  have "trim (?l @ [CHR 0x0A]) = ?l"
    by (rule trim_line)
      (use show_dec_ends [of "unat (vr_era r)"] show_dec_ends [of "unat (vr_view r)"] in simp_all)
  then have "trim (view_line r) = ?l" by (simp add: view_line_def)
  then show ?thesis by (simp add: view_parse_def split_on_cons split_on_free)
qed

lemma show_dec_ascii: "list_all (\<lambda>c. char_byte c < 0x80) (show_dec n)"
proof -
  have "char_byte (digit_char d) < 0x80" if "d < 10" for d
    using that by (simp add: word_less_nat_alt digit_char_def)
  then show ?thesis using show_dec_digits [of _ n] by (auto simp: list_all_iff)
qed

lemma marker_line_wf: "text_wf (marker_line s c m)"
  by (rule ascii_text_wf)
    (use show_dec_ascii in \<open>cases m; simp add: marker_line_def projection_word_def char_byte_def\<close>)

lemma view_line_wf: "text_wf (view_line r)"
  by (rule ascii_text_wf) (use show_dec_ascii in \<open>simp add: view_line_def char_byte_def\<close>)

text \<open>
  The marker line reads back. A line written for a system and a crash counter parses to the same two
  halves and to the marker its on-disk word stands for; the two running sentinels share a word. A line with a
  zero half is refused, whatever its word.
\<close>

theorem marker_line_roundtrip:
  "parse_marker (marker_line s c m) = (if s = 0 \<or> c = 0 then None else Some (s, c, engine_marker (zig_state m)))"
  by (rule parse_marker_line)

section \<open>The two files\<close>

lemma marker_place: "stage_place (marker_tmp (in_dir root ds n) u) (in_dir root ds n) (in_dir root ds n)"
  unfolding marker_tmp_def file_name_in_dir
  by (rule in_dir_place) (rule notI, drule arg_cong [where f = length], simp)

lemma view_path_in_dir: "view_record_path (in_dir root ds n) = in_dir root ds (n @ ''.view'')"
  by (simp add: view_record_path_def with_suffix_def)

lemma view_place:
  "stage_place (view_tmp (in_dir root ds n) u) (view_record_path (in_dir root ds n)) (in_dir root ds n)"
proof -
  have "''.'' @ n @ ''.view-tmp-'' @ x \<noteq> n @ ''.view''" for x by (rule notI, drule arg_cong [where f = length], simp)
  then show ?thesis
    by (simp add: view_path_in_dir view_tmp_def stage_place_def parent_def parent_or_dot_def)
qed

interpretation marker_file: crash_atomic "\<lambda>u. created_write (marker_tmp (in_dir root ds n) u) (in_dir root ds n) (in_dir root ds n)"
  "in_dir root ds n" for root ds n
  by (rule crash_atomicI) (simp add: created_write_atomic marker_place)

interpretation view_file: crash_atomic
  "\<lambda>u. staged_write (view_tmp (in_dir root ds n) u) (view_record_path (in_dir root ds n)) (in_dir root ds n)"
  "view_record_path (in_dir root ds n)" for root ds n
  by (rule crash_atomicI) (simp add: staged_write_atomic view_place)

lemma content_exists: "content f p = Some b \<Longrightarrow> disk_exists p f"
  by (auto simp: content_def disk_exists_def)

lemma read_content:
  "content f p = Some b \<Longrightarrow> faults f = [] \<Longrightarrow> disk_read p f = (Inr b, f)"
  by (auto simp: content_def disk_read_def guarded_ok)

lemma read_content_done: "content f p = Some b \<Longrightarrow> disk_read p f = (Inr b', f') \<Longrightarrow> b' = b"
  by (auto simp: content_def disk_read_def guarded_def split: fault.splits)

lemma read_marker_content:
  assumes "content f p = Some (str_bytes (marker_line s c m))" and "faults f = []" and "s \<noteq> 0" and "c \<noteq> 0"
  shows "read_marker p f = (Inr (s, c, engine_marker (zig_state m)), f)"
  using read_content [OF assms(1,2)] assms(3,4)
  by (simp add: read_marker_def read_to_string_def dbind_def dret_def from_utf8_str [OF marker_line_wf] parse_marker_line)

lemma read_view_content:
  assumes "content f (view_record_path p) = Some (str_bytes (view_line r))"
    and "read_view_record p f = (Inr x, f')"
  shows "x = Some r"
proof -
  have "dbind (read_to_string (view_record_path p))
      (\<lambda>s. case view_parse s of None \<Rightarrow> dfail InvalidData | Some r \<Rightarrow> dret (Some r)) f = (Inr x, f')"
    using assms content_exists [OF assms(1)] by (simp add: read_view_record_def Let_def)
  then show ?thesis using read_content_done [OF assms(1)]
    by (fastforce simp: read_to_string_def dbind_Inr dret_def dfail_def from_utf8_str [OF view_line_wf] view_parse_line
        split: option.splits)
qed

section \<open>What the outside code promises\<close>

text \<open>
  The documented behaviour of the quorum store. A write that reports success is what the next read
  classifies. A write that is refused never removes the copies, and a read after it classifies what it would
  have classified before, or the refused write, if it reached its quorum after all.
\<close>

definition quorum_law :: "'m marker_engine \<Rightarrow> bool" where
  "quorum_law en \<longleftrightarrow>
     (\<forall>p i z w w'. me_write en p i z w = (Inr (), w') \<longrightarrow>
        me_exists en p w' \<and> me_classify en p w' = Inr (i, z)) \<and>
     (\<forall>p i z w c w'. me_write en p i z w = (Inl c, w') \<longrightarrow>
        (me_exists en p w \<longrightarrow> me_exists en p w') \<and>
        (\<forall>v. me_exists en p w' \<longrightarrow> me_classify en p w' = Inr v \<longrightarrow>
           v = (i, z) \<or> me_exists en p w \<and> me_classify en p w = Inr v))"

text \<open>The packing of an identity from its two non-zero halves.\<close>

definition identity_law :: "'m marker_engine \<Rightarrow> bool" where
  "identity_law en \<longleftrightarrow>
     (\<forall>s c. s \<noteq> 0 \<longrightarrow> c \<noteq> 0 \<longrightarrow> me_unpack en (me_pack en s c) = Some (s, c)) \<and>
     (\<forall>i s c. me_unpack en i = Some (s, c) \<longrightarrow> s \<noteq> 0 \<and> c \<noteq> 0 \<and> me_pack en s c = i)"

text \<open>
  The lifecycle machine. Without copies it is the first life. Copies at the running
  sentinel are a crash of their identity, if it boots at all. The replacement keeps the system half and
  takes the next crash counter, and is refused where the counter would wrap; a crashed replica seats under it. The latches
  write a running sentinel, the halt writes first that it began and then that it is proven.
\<close>

definition lifecycle_law :: "lifecycle \<Rightarrow> 'm marker_engine \<Rightarrow> bool" where
  "lifecycle_law lc en \<longleftrightarrow>
     lc_boot lc None = Some First \<and>
     (\<forall>i. lc_boot lc (Some (uniform i Joining)) \<in> {None, Some (Crashed i)}) \<and>
     (\<forall>i pair. lc_pair lc i = Some pair \<longrightarrow> fst pair = i \<and>
        (\<forall>s c. me_unpack en i = Some (s, c) \<longrightarrow> c < c + 1 \<and> me_unpack en (snd pair) = Some (s, c + 1)) \<and>
        lc_seated lc i = snd pair) \<and>
     lc_first_latch lc \<in> {Restarting, Joining} \<and> lc_clean_latch lc \<in> {Restarting, Joining} \<and>
     lc_seated_latch lc \<in> {Restarting, Joining} \<and> lc_halt_first lc = Stopping \<and> lc_halt_second lc = Stopped"

section \<open>The quorum and its projection\<close>

lemma uniform_all [simp]: "list_all (\<lambda>one. one = \<lparr>cp_identity = i, cp_marker = m\<rparr>) (uniform i m)"
  by (simp add: uniform_def eval_nat_numeral)

lemma hd_uniform [simp]: "hd (uniform i m) = \<lparr>cp_identity = i, cp_marker = m\<rparr>"
  by (simp add: uniform_def eval_nat_numeral)

lemma on_disk_sel [simp]:
  "g_world (snd (on_disk op g)) = g_world g" "g_backend (snd (on_disk op g)) = g_backend g"
  "g_system (snd (on_disk op g)) = g_system g"
  by (simp_all add: on_disk_def case_prod_unfold)

lemma on_disk_fst: "on_disk op g = (r, g') \<Longrightarrow> op (g_fs g) = (r, g_fs g') \<and> g' = g\<lparr>g_fs := g_fs g'\<rparr>"
  by (auto simp: on_disk_def split: prod.splits)

lemma mirror_cases:
  assumes "quorum_then_mirror en u state i halves z m g = (r, g')"
  obtains (no_quorum) c w where "me_write en (superblock_path state) i z (g_world g) = (Inl c, w)"
      "r = Inl (marker_failure en c)" "g' = g\<lparr>g_world := w\<rparr>"
    | (mirror) w f where "me_write en (superblock_path state) i z (g_world g) = (Inr (), w)"
      "write_marker state u (fst halves) (snd halves) m (g_fs g) = (r, f)" "g' = g\<lparr>g_world := w, g_fs := f\<rparr>"
  using assms
  by (cases "me_write en (superblock_path state) i z (g_world g)"; cases "fst (me_write en (superblock_path state) i z (g_world g))")
    (auto simp: quorum_then_mirror_def on_disk_def split: prod.splits)

lemma commit_on_disk:
  assumes "g_backend g = BackDisk state" and "gate_commit en u (uniform i m) g = (r, g')"
  obtains (unspellable) "me_unpack en i = None" "r = Inl OtherError" "g' = g"
    | (written) halves g1 where "me_unpack en i = Some halves"
      "quorum_then_mirror en u state i halves (zig_state m) m g = (r, g1)"
      "g_world g' = g_world g1" "g_fs g' = g_fs g1" "g_backend g' = g_backend g" "g_system g' = g_system g"
proof (cases "me_unpack en i")
  case None
  with assms show thesis by (intro unspellable) (auto simp: gate_commit_def commit_disk_def Let_def)
next
  case (Some halves)
  obtain r1 g1 where q: "quorum_then_mirror en u state i halves (zig_state m) m g = (r1, g1)" by fastforce
  then have keep: "g_backend g1 = g_backend g" "g_system g1 = g_system g"
    by (cases rule: mirror_cases; simp)+
  have "r = r1" "g_world g' = g_world g1" "g_fs g' = g_fs g1" "g_backend g' = g_backend g1" "g_system g' = g_system g1"
    using assms q Some by (cases r1; auto simp: gate_commit_def commit_disk_def Let_def)+
  with Some q keep show thesis by (intro written) simp_all
qed

lemma superblock_written:
  assumes "quorum_law en" and "me_write en p i z w = (Inr (), w')"
  shows "me_exists en p w'" and "me_classify en p w' = Inr (i, z)"
  using assms unfolding quorum_law_def by blast+

lemma read_quorum:
  assumes "g_backend g = BackDisk state" and "me_exists en (superblock_path state) (g_world g)"
  shows "read_copies en g =
    (case me_classify en (superblock_path state) (g_world g) of
       Inl code \<Rightarrow> (Inl (marker_failure en code), g)
     | Inr (i, z) \<Rightarrow> (Inr (Some (uniform i (engine_marker z))), g))"
  using assms by (simp add: read_copies_def read_copies_disk_def Let_def)

text \<open>
  A committed marker reads back, twice over. After a commit that reported success, the boot read finds four
  uniform copies of the committed identity with the marker the on-disk state stands for. And if
  the copies are deleted, as the recovery path prescribes, then after any crash of the filesystem the read of
  the compatibility projection finds the same four copies.
\<close>

theorem commit_reads_back:
  assumes "quorum_law en" and "identity_law en" and "fs_wf (g_fs g)" and "g_backend g = BackDisk (in_dir root ds n)"
    and "gate_commit en u (uniform i m) g = (Inr (), g')" and "me_unpack en i = Some (g_system g, c)"
    and "crash_to (g_fs g') h" and "faults h = []" and "\<not> me_exists en (superblock_path (in_dir root ds n)) w"
  shows "fst (read_copies en g') = Inr (Some (uniform i (engine_marker (zig_state m)))) \<and>
    fst (read_copies en (g'\<lparr>g_world := w, g_fs := h\<rparr>)) = Inr (Some (uniform i (engine_marker (zig_state m))))"
  using assms(4,5)
proof (cases rule: commit_on_disk)
  case (written halves g1)
  let ?p = "in_dir root ds n"
  have halves: "halves = (g_system g, c)" using written(1) assms(6) by simp
  have nz: "g_system g \<noteq> 0" "c \<noteq> 0" "me_pack en (g_system g) c = i"
    using assms(2,6) unfolding identity_law_def by blast+
  from written(2) show ?thesis
  proof (cases rule: mirror_cases)
    case (mirror w1 f)
    note q = superblock_written [OF assms(1) mirror(1)]
    have "created_write (marker_tmp ?p u) ?p ?p (str_bytes (marker_line (g_system g) c m)) (g_fs g) = (Inr (), f)"
      using mirror(2) by (simp add: halves write_marker_def)
    then have "survivors f ?p = {Some (str_bytes (marker_line (g_system g) c m))}"
      using marker_file.put_done [OF assms(3)] by simp
    then have h: "content h ?p = Some (str_bytes (marker_line (g_system g) c m))"
      using survivors_view [OF assms(7), of ?p] written mirror(3) by simp
    have "read_copies en (g'\<lparr>g_world := w, g_fs := h\<rparr>) =
        (Inr (Some (uniform i (engine_marker (zig_state m)))), g'\<lparr>g_world := w, g_fs := h\<rparr>)"
      using written(5,6) assms(4,9) content_exists [OF h] read_marker_content [OF h assms(8) nz(1,2)] nz(3)
      by (simp add: read_copies_def read_copies_disk_def Let_def on_disk_def)
    moreover have "fst (read_copies en g') = Inr (Some (uniform i (engine_marker (zig_state m))))"
      using written(3,5) mirror(3) assms(4) q read_quorum [of g' ?p en] by simp
    ultimately show ?thesis by simp
  qed simp
qed simp

text \<open>
  The compatibility projection never runs ahead of the quorum. Whatever a commit reports, and whatever the
  disk loses in a crash during or after it: the projection reads as it could have read before the commit, or it
  reads as the committed line and the quorum store already classifies the committed identity and state.
\<close>

theorem projection_follows_quorum:
  assumes "quorum_law en" and "fs_wf (g_fs g)" and "g_backend g = BackDisk (in_dir root ds n)"
    and "gate_commit en u (uniform i m) g = (r, g')" and "crash_to (g_fs g') h"
  shows "(\<exists>h0. crash_to (g_fs g) h0 \<and> content h (in_dir root ds n) = content h0 (in_dir root ds n)) \<or>
    (\<exists>s c. me_unpack en i = Some (s, c) \<and>
       content h (in_dir root ds n) = Some (str_bytes (marker_line s c m)) \<and>
       me_classify en (superblock_path (in_dir root ds n)) (g_world g') = Inr (i, zig_state m))"
  using assms(3,4)
proof (cases rule: commit_on_disk)
  case unspellable
  with assms(5) show ?thesis by blast
next
  case (written halves g1)
  let ?p = "in_dir root ds n"
  have before: ?thesis if "content h ?p \<in> survivors (g_fs g) ?p"
    using that by (auto simp: survivors_def)
  from written(2) show ?thesis
  proof (cases rule: mirror_cases)
    case (no_quorum c w)
    with written(4) survivors_view [OF assms(5), of ?p] show ?thesis by (intro before) simp
  next
    case (mirror w1 f)
    note q = superblock_written [OF assms(1) mirror(1)]
    let ?b = "str_bytes (marker_line (fst halves) (snd halves) m)"
    have "survivors (snd (created_write (marker_tmp ?p u) ?p ?p ?b (g_fs g))) ?p \<subseteq> insert (Some ?b) (survivors (g_fs g) ?p)"
      by (rule marker_file.put_any [OF assms(2)])
    then have "content h ?p \<in> insert (Some ?b) (survivors (g_fs g) ?p)"
      using survivors_view [OF assms(5), of ?p] mirror(2,3) written(4) by (auto simp: write_marker_def)
    then show ?thesis
    proof
      assume "content h ?p = Some ?b"
      with written(1,3) q(2) mirror(3) show ?thesis by (cases halves) simp
    qed (rule before)
  qed
qed

section \<open>The lives a replica announces\<close>

text \<open>The same system with a later crash counter.\<close>

definition later_life :: "'m marker_engine \<Rightarrow> u32 \<Rightarrow> u32 \<Rightarrow> bool" where
  "later_life en i j \<longleftrightarrow>
     (\<exists>s c d. me_unpack en i = Some (s, c) \<and> me_unpack en j = Some (s, d) \<and> c < d)"

text \<open>One start: its clock readings, its recovery flush, and the filesystem it finds.\<close>

record start =
  st_unique :: "nat \<times> nat"
  st_elapsed :: nat
  st_recovery :: "(recovery_flush \<times> path) option"
  st_fs :: fs

text \<open>The identities announced over a sequence of starts, each ended by a crash.\<close>

primrec announced :: "lifecycle \<Rightarrow> 'm marker_engine \<Rightarrow> u16 \<Rightarrow> start list \<Rightarrow> 'm gate \<Rightarrow> u32 list" where
  "announced lc en sys [] g = []"
| "announced lc en sys (x # xs) g =
     (case boot_gate lc en (st_unique x) (st_elapsed x) sys (st_recovery x) (g\<lparr>g_fs := st_fs x\<rparr>) of
        (Inl _, g') \<Rightarrow> announced lc en sys xs g'
      | (Inr d, g') \<Rightarrow> bd_identity d # announced lc en sys xs g')"

definition past :: "'m marker_engine \<Rightarrow> path \<Rightarrow> u32 \<Rightarrow> 'm gate \<Rightarrow> bool" where
  "past en state latest g \<longleftrightarrow>
     me_unpack en latest \<noteq> None \<and> g_backend g = BackDisk state \<and> me_exists en (superblock_path state) (g_world g) \<and>
     (\<forall>i z. me_classify en (superblock_path state) (g_world g) = Inr (i, z) \<longrightarrow>
        z = ZUnflushed \<and> (i = latest \<or> later_life en latest i))"

lemma later_life_trans: "later_life en i j \<Longrightarrow> later_life en j k \<Longrightarrow> later_life en i k"
  by (fastforce simp: later_life_def)

lemma past_fs [simp]: "past en state latest (g\<lparr>g_fs := f\<rparr>) = past en state latest g"
  by (simp add: past_def)

lemma past_on_disk [simp]: "on_disk op g = (r, g') \<Longrightarrow> past en state latest g' = past en state latest g"
  by (drule on_disk_fst) (metis past_fs)

lemma quorum_past:
  assumes "quorum_law en" and "g_backend g = BackDisk state" and "me_unpack en i \<noteq> None"
    and "quorum_then_mirror en u state i halves ZUnflushed m g = (r, g')"
  shows "r = Inr x \<Longrightarrow> past en state i g'"
    and "past en state latest g \<Longrightarrow> later_life en latest i \<Longrightarrow> past en state latest g'"
proof -
  show "past en state i g'" if "r = Inr x"
    using assms(4)
  proof (cases rule: mirror_cases)
    case (mirror w f)
    with superblock_written [OF assms(1) mirror(1)] assms(2,3) show ?thesis by (simp add: past_def)
  qed (use that in simp)
  show "past en state latest g'" if p: "past en state latest g" "later_life en latest i"
    using assms(4)
  proof (cases rule: mirror_cases)
    case (mirror w f)
    with superblock_written [OF assms(1) mirror(1)] p show ?thesis by (simp add: past_def)
  next
    case (no_quorum c w)
    then have "me_exists en (superblock_path state) w"
      "\<And>v. me_classify en (superblock_path state) w = Inr v \<Longrightarrow>
         v = (i, ZUnflushed) \<or> me_classify en (superblock_path state) (g_world g) = Inr v"
      using assms(1) p(1) unfolding quorum_law_def past_def by blast+
    with no_quorum(3) p show ?thesis by (auto simp: past_def)
  qed
qed

lemma emission_past:
  assumes "quorum_law en" and "g_backend g = BackDisk state" and "emission_gate en u i g = (r, g')"
  shows "r = Inr x \<Longrightarrow> past en state i g'"
    and "past en state latest g \<Longrightarrow> later_life en latest i \<Longrightarrow> past en state latest g'"
  using quorum_past [OF assms(1,2), of i u _ "engine_marker ZUnflushed" r g'] assms(2,3)
  by (auto simp: emission_gate_def write_round_def split: option.splits)

lemma latch_past:
  assumes "quorum_law en" and "g_backend g = BackDisk state" and "m \<in> {Restarting, Joining}"
    and "gate_commit en u (uniform i m) g = (Inr x, g')"
  shows "past en state i g'"
  using assms(2,4)
proof (cases rule: commit_on_disk)
  case (written halves g1)
  have "zig_state m = ZUnflushed" using assms(3) by (auto simp: zig_state_def)
  with quorum_past(1) [OF assms(1,2), of i u halves m "Inr x" g1] written assms(2) show ?thesis by (simp add: past_def)
qed simp

lemma crashed_past:
  assumes "quorum_law en" and "g_backend g = BackDisk state"
    and "boot_crashed lc en u elapsed recovery i g = (r, g')"
  shows "r = Inr d \<Longrightarrow> past en state (bd_identity d) g' \<and> lc_pair lc i = Some (the (bd_pair d)) \<and>
      bd_identity d = snd (the (bd_pair d))"
    and "past en state latest g \<Longrightarrow> (\<And>pair. lc_pair lc i = Some pair \<Longrightarrow> later_life en latest (snd pair)) \<Longrightarrow>
      past en state latest g'"
proof -
  have cases: thesis if "lc_pair lc i = None \<Longrightarrow> r = Inl (Refuses CONFIG) \<Longrightarrow> g' = g \<Longrightarrow> thesis"
    and "\<And>pair r1 g1. lc_pair lc i = Some pair \<Longrightarrow> emission_gate en u (snd pair) g = (r1, g1) \<Longrightarrow>
        g' = g1\<lparr>g_fs := g_fs g'\<rparr> \<Longrightarrow>
        (\<And>d. r = Inr d \<Longrightarrow> r1 = Inr () \<and> bd_identity d = snd pair \<and> bd_pair d = Some pair) \<Longrightarrow> thesis" for thesis
    using that assms(3)
    by (auto simp: boot_crashed_def Let_def dest!: on_disk_fst split: option.splits prod.splits sum.splits if_splits)
  show "past en state (bd_identity d) g' \<and> lc_pair lc i = Some (the (bd_pair d)) \<and>
      bd_identity d = snd (the (bd_pair d))" if "r = Inr d"
    by (rule cases) (use that emission_past(1) [OF assms(1,2)] past_fs in \<open>auto, metis past_fs\<close>)
  show "past en state latest g'" if "past en state latest g"
    "\<And>pair. lc_pair lc i = Some pair \<Longrightarrow> later_life en latest (snd pair)"
    by (rule cases) (use that emission_past(2) [OF assms(1,2)] in \<open>auto, metis past_fs\<close>)
qed

lemma read_copies_fs:
  assumes "g_backend g = BackDisk state" and "read_copies en g = (r, g1)"
  shows "g1 = g\<lparr>g_fs := g_fs g1\<rparr>"
  using assms
  by (auto simp: read_copies_def read_copies_disk_def Let_def dest!: on_disk_fst split: if_splits prod.splits sum.splits)

lemma view_record_fs: "gate_view_record g = (r, g1) \<Longrightarrow> g1 = g\<lparr>g_fs := g_fs g1\<rparr>"
  by (auto simp: gate_view_record_def dest!: on_disk_fst split: backend.splits)

lemma fs_backend: "g1 = g\<lparr>g_fs := f\<rparr> \<Longrightarrow> g_backend g1 = g_backend g"
  by simp

lemma on_disk_backend: "on_disk op g = (r, g') \<Longrightarrow> g_backend g' = g_backend g"
  by (auto simp: on_disk_def split: prod.splits)

lemma on_world_backend: "on_world op g = (r, g') \<Longrightarrow> g_backend g' = g_backend g"
  by (auto simp: on_world_def split: prod.splits)

lemma quorum_backend: "quorum_then_mirror en u state i halves z m g = (r, g') \<Longrightarrow> g_backend g' = g_backend g"
  by (erule mirror_cases) simp_all

lemma acked_backend: "rpc_acked rpc req g = (r, g') \<Longrightarrow> g_backend g' = g_backend g"
  by (auto simp: rpc_acked_def dest: on_world_backend split: prod.splits sum.splits)

lemmas kept_backend = on_disk_backend on_world_backend quorum_backend acked_backend

lemma commit_backend: "gate_commit en u copies g = (r, g') \<Longrightarrow> g_backend g' = g_backend g"
  by (auto simp: gate_commit_def commit_disk_def Let_def dest!: kept_backend
      split: if_splits prod.splits sum.splits backend.splits option.splits)

lemma emission_backend: "emission_gate en u i g = (r, g') \<Longrightarrow> g_backend g' = g_backend g"
  by (auto simp: emission_gate_def write_round_def dest: kept_backend split: backend.splits option.splits)

lemma read_backend: "read_copies en g = (r, g') \<Longrightarrow> g_backend g' = g_backend g"
  by (auto simp: read_copies_def read_copies_disk_def Let_def dest: kept_backend
      split: if_splits prod.splits sum.splits backend.splits)

lemma boot_backend:
  "boot_gate lc en u elapsed sys recovery g = (r, g') \<Longrightarrow> g_backend g' = g_backend g"
  by (auto simp: boot_gate_def boot_first_def boot_clean_def boot_crashed_def Let_def
      dest!: read_backend commit_backend emission_backend on_disk_backend fs_backend [OF view_record_fs]
      split: prod.splits sum.splits option.splits boot_outcome.splits if_splits)

lemma boot_decides:
  assumes "quorum_law en" and "lifecycle_law lc en" and "g_backend g = BackDisk state"
    and "boot_gate lc en u elapsed sys recovery g = (Inr d, g')"
  shows "past en state (bd_identity d) g'"
proof -
  obtain copies g1 where r: "read_copies en g = (Inr copies, g1)"
    using assms(4) by (auto simp: boot_gate_def split: prod.splits sum.splits)
  have g1: "g_backend g1 = BackDisk state"
    using fs_backend [OF read_copies_fs [OF assms(3) r]] assms(3) by simp
  consider "boot_first lc en u sys g1 = (Inr d, g')"
    | i where "boot_clean lc en u i g1 = (Inr d, g')"
    | i where "boot_crashed lc en u elapsed recovery i g1 = (Inr d, g')"
    using assms(4) r by (auto simp: boot_gate_def split: option.splits boot_outcome.splits)
  then show ?thesis
  proof cases
    case 1
    then show ?thesis using assms(2) latch_past [OF assms(1) g1, of "lc_first_latch lc" u "me_pack en sys 1"]
      by (auto simp: boot_first_def lifecycle_law_def Let_def split: prod.splits sum.splits)
  next
    case (2 i)
    then obtain v g2 g3 where v: "gate_view_record g1 = (Inr v, g2)"
        "gate_commit en u (uniform i (lc_clean_latch lc)) g2 = (Inr (), g3)" "g' = g3" "bd_identity d = i"
      by (auto simp: boot_clean_def split: prod.splits sum.splits)
    have "g_backend g2 = BackDisk state" using fs_backend [OF view_record_fs [OF v(1)]] g1 by simp
    with v latch_past [OF assms(1), of g2 state "lc_clean_latch lc" u i] assms(2) show ?thesis
      by (auto simp: lifecycle_law_def)
  next
    case (3 i)
    with crashed_past(1) [OF assms(1) g1] show ?thesis by blast
  qed
qed

lemma later_pair:
  assumes "lifecycle_law lc en" and "lc_pair lc i = Some pair" and "i = latest \<or> later_life en latest i"
    and "me_unpack en latest \<noteq> None"
  shows "later_life en latest (snd pair)"
proof -
  obtain s c where i: "me_unpack en i = Some (s, c)" using assms(3,4) by (auto simp: later_life_def)
  then have "later_life en i (snd pair)"
    using assms(1,2) unfolding lifecycle_law_def later_life_def by blast
  with assms(3) later_life_trans show ?thesis by blast
qed

lemma boot_after:
  assumes "quorum_law en" and "lifecycle_law lc en" and "past en state latest g"
    and "boot_gate lc en u elapsed sys recovery g = (r, g')"
  shows "past en state latest g' \<and> (\<forall>d. r = Inr d \<longrightarrow> later_life en latest (bd_identity d))"
proof (cases "me_classify en (superblock_path state) (g_world g)")
  case (Inl code)
  with assms(3,4) read_quorum [of g state en] show ?thesis by (auto simp: past_def boot_gate_def)
next
  case (Inr v)
  then obtain i where v: "v = (i, ZUnflushed)" and ordered: "i = latest \<or> later_life en latest i"
    using assms(3) by (cases v) (auto simp: past_def)
  have at: "g_backend g = BackDisk state" "me_unpack en latest \<noteq> None" using assms(3) by (auto simp: past_def)
  have read: "read_copies en g = (Inr (Some (uniform i Joining)), g)"
    using Inr v assms(3) read_quorum [of g state en] by (simp add: past_def engine_marker_def)
  have pairs: "\<And>pair. lc_pair lc i = Some pair \<Longrightarrow> later_life en latest (snd pair)"
    using later_pair [OF assms(2) _ ordered at(2)] by blast
  have "lc_boot lc (Some (uniform i Joining)) = None \<or> lc_boot lc (Some (uniform i Joining)) = Some (Crashed i)"
    using assms(2) unfolding lifecycle_law_def by blast
  then show ?thesis
  proof
    assume "lc_boot lc (Some (uniform i Joining)) = None"
    with assms(3,4) read show ?thesis by (auto simp: boot_gate_def)
  next
    assume "lc_boot lc (Some (uniform i Joining)) = Some (Crashed i)"
    then have c: "boot_crashed lc en u elapsed recovery i g = (r, g')"
      using assms(4) read by (simp add: boot_gate_def)
    from crashed_past(2) [OF assms(1) at(1) c assms(3)] pairs have "past en state latest g'" by blast
    moreover have "later_life en latest (bd_identity d)" if "r = Inr d" for d
      using crashed_past(1) [OF assms(1) at(1) c that] pairs by metis
    ultimately show ?thesis by blast
  qed
qed

lemma announced_after:
  assumes "quorum_law en" and "lifecycle_law lc en" and "past en state latest g"
  shows "sorted_wrt (later_life en) (latest # announced lc en sys xs g)"
  using assms(3)
proof (induction xs arbitrary: latest g)
  case (Cons x xs)
  obtain r g' where b: "boot_gate lc en (st_unique x) (st_elapsed x) sys (st_recovery x) (g\<lparr>g_fs := st_fs x\<rparr>) = (r, g')"
    by fastforce
  have p: "past en state latest (g\<lparr>g_fs := st_fs x\<rparr>)" using Cons.prems by simp
  note after = boot_after [OF assms(1,2) p b]
  show ?case
  proof (cases r)
    case (Inl e)
    with b after Cons.IH show ?thesis by simp
  next
    case (Inr d)
    have "past en state (bd_identity d) g'"
      using boot_decides [OF assms(1,2) _ b [unfolded Inr]] p by (simp add: past_def)
    then have "sorted_wrt (later_life en) (bd_identity d # announced lc en sys xs g')" by (rule Cons.IH)
    with b Inr after show ?thesis by (auto intro: later_life_trans)
  qed
qed simp

text \<open>
  C16: no identity is ever announced twice across crashes. Take any sequence of starts of a replica over the
  durable backend, each ended by a crash, with any failures of the quorum store and of the disk and any
  filesystem found at each start. The identities the boot gate decides on keep the system half and
  strictly advance the crash counter, from the first to the last.
\<close>

theorem crashed_lives_advance:
  assumes "quorum_law en" and "lifecycle_law lc en" and "g_backend g = BackDisk state"
  shows "sorted_wrt (later_life en) (announced lc en sys xs g)"
  using assms(3)
proof (induction xs arbitrary: g)
  case (Cons x xs)
  obtain r g' where b: "boot_gate lc en (st_unique x) (st_elapsed x) sys (st_recovery x) (g\<lparr>g_fs := st_fs x\<rparr>) = (r, g')"
    by fastforce
  show ?case
  proof (cases r)
    case (Inl e)
    have "g_backend g' = BackDisk state" using Cons.prems b boot_backend [OF b] by simp
    with b Inl Cons.IH show ?thesis by simp
  next
    case (Inr d)
    have "past en state (bd_identity d) g'"
      using boot_decides [OF assms(1,2) _ b [unfolded Inr]] Cons.prems by simp
    from announced_after [OF assms(1,2) this, of sys xs] b Inr show ?thesis by simp
  qed
qed simp

section \<open>The view record and the refusals\<close>

text \<open>
  A clean start resumes the view the stop recorded. If the stop's write of the view record reported
  success, then after any crash of the filesystem a boot that decides on the same vouched identity carries exactly
  the recorded era and view.
\<close>

theorem clean_boot_restores_view:
  assumes "fs_wf f" and "write_view_record (in_dir root ds n) u r f = (Inr (), f')" and "crash_to f' (g_fs g)"
    and "g_backend g = BackDisk (in_dir root ds n)"
    and "me_exists en (superblock_path (in_dir root ds n)) (g_world g)"
    and "boot_gate lc en u' elapsed sys recovery g = (Inr d, g')" and "bd_vouched d"
  shows "bd_restored d = Some r"
proof -
  let ?p = "in_dir root ds n"
  have "survivors f' (view_record_path ?p) = {Some (str_bytes (view_line r))}"
    using view_file.put_done [OF assms(1)] assms(2) by (simp add: write_view_record_def)
  then have view: "content (g_fs g) (view_record_path ?p) = Some (str_bytes (view_line r))"
    using survivors_view [OF assms(3)] by blast
  obtain i where i: "boot_clean lc en u' i g = (Inr d, g')"
    using assms(5-7) read_quorum [OF assms(4,5)]
    by (auto simp: boot_gate_def boot_first_def boot_crashed_def Let_def
        split: prod.splits sum.splits option.splits boot_outcome.splits if_splits)
  obtain v g1 where v: "gate_view_record g = (Inr v, g1)" "bd_restored d = v"
    using i by (auto simp: boot_clean_def split: prod.splits sum.splits)
  have "read_view_record ?p (g_fs g) = (Inr v, g_fs g1)"
    using v(1) assms(4) on_disk_fst [of "read_view_record ?p" g] by (simp add: gate_view_record_def)
  with read_view_content [OF view] v(2) show ?thesis by blast
qed

text \<open>
  The boot-read safety law. Where the copies exist and the quorum read refuses, the boot does not decide: a bad
  checksum panics, any other refusal is the configuration code. Nothing is cleared, repaired or fallen
  back from: the store and the filesystem are exactly as they were, the projection is not consulted.
\<close>

theorem refused_read_touches_nothing:
  assumes "g_backend g = BackDisk state" and "me_exists en (superblock_path state) (g_world g)"
    and "me_classify en (superblock_path state) (g_world g) = Inl code"
  shows "boot_gate lc en u elapsed sys recovery g =
    (Inl (if code = me_CORRUPT en then Panics else Refuses CONFIG), g)"
  using read_quorum [OF assms(1,2)] assms(3)
  by (simp add: boot_gate_def refuse_def marker_failure_def)

section \<open>Closed instances\<close>

text \<open>A quorum store that always reaches its quorum, and the lifecycle machine over its packing.\<close>

definition pack_halves :: "u16 \<Rightarrow> u16 \<Rightarrow> u32" where
  "pack_halves s c = word_of_nat (unat s * 65536 + unat c)"

definition unpack_halves :: "u32 \<Rightarrow> (u16 \<times> u16) option" where
  "unpack_halves i =
     (let s = word_of_nat (unat i div 65536); c = word_of_nat (unat i mod 65536) in
      if s = 0 \<or> c = 0 then None else Some (s, c))"

definition demo_quorum :: "(path \<Rightarrow> (u32 \<times> zig_marker) option) marker_engine" where
  "demo_quorum =
     \<lparr>me_exists = (\<lambda>p w. w p \<noteq> None),
      me_classify = (\<lambda>p w. case w p of None \<Rightarrow> Inl 1 | Some v \<Rightarrow> if v = (0, ZUnflushed) then Inl 2 else Inr v),
      me_write = (\<lambda>p i z w. if i = 0 then (Inl 1, w) else (Inr (), w(p := Some (i, z)))),
      me_pack = pack_halves, me_unpack = unpack_halves, me_CORRUPT = 2\<rparr>"

definition demo_lifecycle :: lifecycle where
  "demo_lifecycle =
     \<lparr>lc_boot = (\<lambda>copies. case copies of
          None \<Rightarrow> Some First
        | Some cs \<Rightarrow> Some (if cp_marker (hd cs) = Stopped then Clean (cp_identity (hd cs)) else Crashed (cp_identity (hd cs)))),
      lc_first_latch = Restarting, lc_clean_latch = Restarting, lc_seated_latch = Restarting,
      lc_seated = (\<lambda>i. case unpack_halves i of None \<Rightarrow> i | Some (s, c) \<Rightarrow> pack_halves s (c + 1)),
      lc_halt_first = Stopping, lc_halt_second = Stopped,
      lc_pair = (\<lambda>i. case unpack_halves i of
          None \<Rightarrow> None
        | Some (s, c) \<Rightarrow> if c < c + 1 then Some (i, pack_halves s (c + 1)) else None)\<rparr>"

lemma unat_pack: "unat (pack_halves s c) = unat s * 65536 + unat c"
proof -
  have "unat s < 65536" "unat c < 65536" using unsigned_less [of s] unsigned_less [of c] by simp_all
  then have "unat s * 65536 + unat c < 2 ^ 32" by simp
  then show ?thesis unfolding pack_halves_def by (subst unsigned_of_nat) (simp add: take_bit_nat_eq_self)
qed

lemma unpack_pack: "s \<noteq> 0 \<Longrightarrow> c \<noteq> 0 \<Longrightarrow> unpack_halves (pack_halves s c) = Some (s, c)"
  using unsigned_less [of c, where 'a = nat] by (simp add: unpack_halves_def unat_pack Let_def)

lemma unpack_halves_Some:
  "unpack_halves i = Some (s, c) \<Longrightarrow> s \<noteq> 0 \<and> c \<noteq> 0 \<and> pack_halves s c = i"
proof -
  assume a: "unpack_halves i = Some (s, c)"
  then have sc: "s = word_of_nat (unat i div 65536)" "c = word_of_nat (unat i mod 65536)" "s \<noteq> 0" "c \<noteq> 0"
    by (simp_all add: unpack_halves_def Let_def split: if_splits)
  have "unat i < 2 ^ 32" using unsigned_less [of i] by simp
  then have "unat s = unat i div 65536" "unat c = unat i mod 65536"
    by (simp_all add: sc(1,2) unat_of_nat take_bit_nat_eq_self)
  then have "unat (pack_halves s c) = unat i" by (simp add: unat_pack)
  then show ?thesis using sc(3,4) word_unat_eq_iff by blast
qed

lemma demo_quorum_law: "quorum_law demo_quorum"
  by (auto simp: quorum_law_def demo_quorum_def split: if_splits)

lemma demo_identity_law: "identity_law demo_quorum"
  by (auto simp: identity_law_def demo_quorum_def unpack_pack dest: unpack_halves_Some)

lemma demo_lifecycle_law: "lifecycle_law demo_lifecycle demo_quorum"
  by (auto simp: lifecycle_law_def demo_lifecycle_def demo_quorum_def intro!: unpack_pack
      dest: unpack_halves_Some split: option.splits if_splits)

definition demo_gate :: "(path \<Rightarrow> (u32 \<times> zig_marker) option) gate" where
  "demo_gate =
     \<lparr>g_backend = BackDisk (in_dir ''/'' [''s''] ''n''), g_system = 42, g_world = Map.empty, g_fs = state_disk,
      g_ops = [], g_sink = None\<rparr>"

abbreviation demo_path :: path where
  "demo_path \<equiv> in_dir ''/'' [''s''] ''n''"

text \<open>A disk on which the marker's staged write goes through.\<close>

definition roomy :: "nat \<times> nat \<Rightarrow> fs \<Rightarrow> bool" where
  "roomy u f \<longleftrightarrow>
     faults f = [] \<and> fs_wf f \<and> \<not> disk_exists (marker_tmp demo_path u) f \<and> is_dir f [''/'', ''s''] \<and> \<not> is_dir f demo_path"

lemma demo_mirror:
  assumes "roomy u f"
  shows "\<exists>f'. write_marker demo_path u sys c m f = (Inr (), f') \<and> faults f' = []"
proof -
  have "\<exists>f'. created_write (marker_tmp demo_path u) demo_path demo_path (str_bytes (marker_line sys c m)) f = (Inr (), f') \<and>
      elsewhere_same (marker_tmp demo_path u) demo_path f f' \<and>
      content f' demo_path = Some (str_bytes (marker_line sys c m)) \<and> fs_wf f'"
    by (rule created_write_ok [OF _ _ marker_place])
      (use assms in \<open>simp_all add: roomy_def parent_or_dot_def parent_def\<close>)
  then show ?thesis by (auto simp: write_marker_def elsewhere_same_def)
qed

lemma state_disk_roomy: "roomy u state_disk"
  using state_disk_wf
  by (simp add: roomy_def state_disk_def disk_exists_def lookup_def is_dir_def marker_tmp_def parent_or_dot_def parent_def)

lemma demo_round:
  assumes "roomy u (g_fs g)" and "g_backend g = BackDisk demo_path" and "sys \<noteq> 0" and "c \<noteq> 0"
  shows "\<exists>g'. quorum_then_mirror demo_quorum u demo_path (pack_halves sys c) (sys, c) z m g = (Inr (), g') \<and>
    faults (g_fs g') = [] \<and> g_world g' = (g_world g)(superblock_path demo_path := Some (pack_halves sys c, z)) \<and>
    g_backend g' = BackDisk demo_path"
proof -
  have "unat (pack_halves sys c) \<noteq> 0" using assms(4) by (simp add: unat_pack unat_eq_zero)
  then have "pack_halves sys c \<noteq> 0" by (metis unat_0)
  moreover obtain f' where "write_marker demo_path u sys c m (g_fs g) = (Inr (), f')" "faults f' = []"
    using demo_mirror [OF assms(1)] by blast
  ultimately show ?thesis using assms(2) by (simp add: quorum_then_mirror_def demo_quorum_def on_disk_def)
qed

lemma demo_commit:
  assumes "roomy u (g_fs g)" and "g_backend g = BackDisk demo_path" and "sys \<noteq> 0" and "c \<noteq> 0"
  shows "\<exists>g'. gate_commit demo_quorum u (uniform (pack_halves sys c) m) g = (Inr (), g') \<and> faults (g_fs g') = [] \<and>
    g_world g' = (g_world g)(superblock_path demo_path := Some (pack_halves sys c, zig_state m)) \<and>
    g_backend g' = BackDisk demo_path"
proof -
  have "me_unpack demo_quorum (pack_halves sys c) = Some (sys, c)"
    using assms(3,4) by (simp add: demo_quorum_def unpack_pack)
  then show ?thesis using demo_round [OF assms, of "zig_state m" m] assms(2)
    by (auto simp: gate_commit_def commit_disk_def Let_def)
qed

lemma demo_gate_room: "roomy u (g_fs demo_gate)" "g_backend demo_gate = BackDisk demo_path" "fs_wf (g_fs demo_gate)"
  using state_disk_roomy state_disk_wf by (simp_all add: demo_gate_def)

theorem commit_reads_back_witness:
  "\<exists>g'. gate_commit demo_quorum (1, 2) (uniform (pack_halves 42 7) Stopped) demo_gate = (Inr (), g') \<and>
     fst (read_copies demo_quorum g') = Inr (Some (uniform (pack_halves 42 7) (engine_marker (zig_state Stopped)))) \<and>
     fst (read_copies demo_quorum (g'\<lparr>g_world := Map.empty, g_fs := g_fs g'\<rparr>)) =
       Inr (Some (uniform (pack_halves 42 7) (engine_marker (zig_state Stopped))))"
proof -
  obtain g' where g': "gate_commit demo_quorum (1, 2) (uniform (pack_halves 42 7) Stopped) demo_gate = (Inr (), g')"
      "faults (g_fs g') = []"
    using demo_commit [OF demo_gate_room(1,2), of 42 7 "(1, 2)" Stopped] by auto
  have "me_unpack demo_quorum (pack_halves 42 7) = Some (g_system demo_gate, 7)"
    by (simp add: demo_quorum_def demo_gate_def unpack_pack)
  moreover have "\<not> me_exists demo_quorum (superblock_path demo_path) Map.empty" by (simp add: demo_quorum_def)
  ultimately show ?thesis
    using commit_reads_back [OF demo_quorum_law demo_identity_law demo_gate_room(3,2) g'(1) _ crash_to_refl g'(2)] g'(1)
    by blast
qed

theorem projection_follows_quorum_witness:
  "\<exists>g'. gate_commit demo_quorum (1, 2) (uniform (pack_halves 42 7) Stopped) demo_gate = (Inr (), g') \<and>
     ((\<exists>h0. crash_to (g_fs demo_gate) h0 \<and> content (g_fs g') demo_path = content h0 demo_path) \<or>
      (\<exists>s c. me_unpack demo_quorum (pack_halves 42 7) = Some (s, c) \<and>
         content (g_fs g') demo_path = Some (str_bytes (marker_line s c Stopped)) \<and>
         me_classify demo_quorum (superblock_path demo_path) (g_world g') = Inr (pack_halves 42 7, zig_state Stopped)))"
proof -
  obtain g' where g': "gate_commit demo_quorum (1, 2) (uniform (pack_halves 42 7) Stopped) demo_gate = (Inr (), g')"
    using demo_commit [OF demo_gate_room(1,2), of 42 7 "(1, 2)" Stopped] by auto
  from projection_follows_quorum [OF demo_quorum_law demo_gate_room(3,2) g' crash_to_refl] g' show ?thesis by blast
qed

definition demo_start :: start where
  "demo_start = \<lparr>st_unique = (1, 2), st_elapsed = 5, st_recovery = None, st_fs = state_disk\<rparr>"

lemma demo_two_lives:
  "announced demo_lifecycle demo_quorum 42 [demo_start, demo_start] demo_gate = [pack_halves 42 1, pack_halves 42 2]"
proof -
  let ?s = "superblock_path demo_path"
  obtain g1 where g1: "gate_commit demo_quorum (1, 2) (uniform (pack_halves 42 1) Restarting) demo_gate = (Inr (), g1)"
      "g_world g1 = Map.empty(?s := Some (pack_halves 42 1, ZUnflushed))" "g_backend g1 = BackDisk demo_path"
    using demo_commit [OF demo_gate_room(1,2), of 42 1 "(1, 2)" Restarting] by (auto simp: zig_state_def demo_gate_def)
  let ?g = "g1\<lparr>g_fs := state_disk\<rparr>"
  have nz: "(pack_halves 42 1, ZUnflushed) \<noteq> (0, ZUnflushed)"
    using unat_pack [of 42 1] by auto
  have "boot_gate demo_lifecycle demo_quorum (1, 2) 5 42 None (demo_gate\<lparr>g_fs := state_disk\<rparr>) =
      (Inr \<lparr>bd_session = True, bd_deferred = None, bd_identity = pack_halves 42 1, bd_vouched = False, bd_pair = None,
         bd_flush = None, bd_restored = None\<rparr>, g1)"
  proof -
    have "demo_gate\<lparr>g_fs := state_disk\<rparr> = demo_gate" by (simp add: demo_gate_def)
    moreover have "read_copies demo_quorum demo_gate = (Inr None, demo_gate)"
      by (simp add: read_copies_def read_copies_disk_def demo_gate_def demo_quorum_def state_disk_def disk_exists_def
          lookup_def is_dir_def Let_def)
    moreover have "lc_boot demo_lifecycle None = Some First" "lc_first_latch demo_lifecycle = Restarting"
      "me_pack demo_quorum 42 1 = pack_halves 42 1"
      by (simp_all add: demo_lifecycle_def demo_quorum_def)
    ultimately show ?thesis using g1(1) by (simp add: boot_gate_def boot_first_def Let_def)
  qed
  moreover obtain g2 where
    "quorum_then_mirror demo_quorum (1, 2) demo_path (pack_halves 42 2) (42, 2) ZUnflushed (engine_marker ZUnflushed) ?g =
       (Inr (), g2)"
    using demo_round [of "(1, 2)" ?g 42 2 ZUnflushed "engine_marker ZUnflushed"] state_disk_roomy g1(3) by auto
  moreover have "read_copies demo_quorum ?g = (Inr (Some (uniform (pack_halves 42 1) Joining)), ?g)"
    using read_quorum [of ?g demo_path demo_quorum] g1(2,3) nz by (simp add: demo_quorum_def engine_marker_def)
  moreover have "lc_boot demo_lifecycle (Some (uniform (pack_halves 42 1) Joining)) = Some (Crashed (pack_halves 42 1))"
    "lc_pair demo_lifecycle (pack_halves 42 1) = Some (pack_halves 42 1, pack_halves 42 2)"
    "me_unpack demo_quorum (pack_halves 42 2) = Some (42, 2)"
    by (simp_all add: demo_lifecycle_def demo_quorum_def unpack_pack)
  ultimately show ?thesis using g1(3)
    by (simp add: demo_start_def boot_gate_def [of _ _ _ _ _ _ ?g] boot_crashed_def emission_gate_def write_round_def)
qed

theorem crashed_lives_advance_witness:
  "announced demo_lifecycle demo_quorum 42 [demo_start, demo_start] demo_gate = [pack_halves 42 1, pack_halves 42 2] \<and>
   sorted_wrt (later_life demo_quorum) (announced demo_lifecycle demo_quorum 42 [demo_start, demo_start] demo_gate)"
  using crashed_lives_advance [OF demo_quorum_law demo_lifecycle_law demo_gate_room(2)] demo_two_lives by blast

theorem refused_read_touches_nothing_witness:
  "boot_gate demo_lifecycle demo_quorum (1, 2) 5 42 None (demo_gate\<lparr>g_world := (\<lambda>_. Some (0, ZUnflushed))\<rparr>) =
     (Inl Panics, demo_gate\<lparr>g_world := (\<lambda>_. Some (0, ZUnflushed))\<rparr>)"
  using refused_read_touches_nothing [of "demo_gate\<lparr>g_world := (\<lambda>_. Some (0, ZUnflushed))\<rparr>" demo_path demo_quorum 2]
  by (simp add: demo_gate_def demo_quorum_def)

theorem clean_boot_restores_view_witness:
  "\<exists>f' g' d. write_view_record demo_path (1, 2) \<lparr>vr_era = 3, vr_view = 9\<rparr> state_disk = (Inr (), f') \<and>
     boot_gate demo_lifecycle demo_quorum (1, 2) 5 42 None
       (demo_gate\<lparr>g_fs := f', g_world := Map.empty(superblock_path demo_path := Some (pack_halves 42 7, ZFlushed))\<rparr>) =
       (Inr d, g') \<and> bd_vouched d \<and> bd_restored d = Some \<lparr>vr_era = 3, vr_view = 9\<rparr>"
proof -
  let ?r = "\<lparr>vr_era = 3, vr_view = 9\<rparr>" and ?v = "view_record_path demo_path"
  have "\<exists>f'. staged_write (view_tmp demo_path (1, 2)) ?v demo_path (str_bytes (view_line ?r)) state_disk = (Inr (), f') \<and>
      elsewhere_same (view_tmp demo_path (1, 2)) ?v state_disk f' \<and> content f' ?v = Some (str_bytes (view_line ?r)) \<and> fs_wf f'"
    by (rule staged_write_ok [OF _ state_disk_wf view_place])
      (simp_all add: state_disk_def disk_exists_def lookup_def is_dir_def parent_or_dot_def parent_def view_tmp_def
        view_record_path_def with_suffix_def)
  then obtain f' where w: "write_view_record demo_path (1, 2) ?r state_disk = (Inr (), f')"
      and f': "elsewhere_same (view_tmp demo_path (1, 2)) ?v state_disk f'" "content f' ?v = Some (str_bytes (view_line ?r))"
        "fs_wf f'"
    by (auto simp: write_view_record_def)
  let ?g = "demo_gate\<lparr>g_fs := f', g_world := Map.empty(superblock_path demo_path := Some (pack_halves 42 7, ZFlushed))\<rparr>"
  have room: "roomy (1, 2) (g_fs ?g)"
    using f' state_disk_roomy [of "(1, 2)"]
    by (simp add: roomy_def elsewhere_same_def disk_exists_def is_dir_def view_record_path_def with_suffix_def marker_tmp_def view_tmp_def
        parent_or_dot_def parent_def)
  have read: "read_view_record demo_path f' = (Inr (Some ?r), f')"
    using read_content [OF f'(2)] f'(1) content_exists [OF f'(2)]
    by (simp add: read_view_record_def elsewhere_same_def Let_def read_to_string_def dbind_def dret_def
        from_utf8_str [OF view_line_wf] view_parse_line)
  obtain g' where c: "gate_commit demo_quorum (1, 2) (uniform (pack_halves 42 7) Restarting) ?g = (Inr (), g')"
    using demo_commit [OF room, of 42 7 Restarting] by (auto simp: demo_gate_def)
  have at: "g_backend ?g = BackDisk demo_path" "me_exists demo_quorum (superblock_path demo_path) (g_world ?g)"
    by (simp_all add: demo_gate_def demo_quorum_def)
  have "read_copies demo_quorum ?g = (Inr (Some (uniform (pack_halves 42 7) Stopped)), ?g)"
    using read_quorum [OF at] by (simp add: demo_quorum_def engine_marker_def)
  moreover have "lc_boot demo_lifecycle (Some (uniform (pack_halves 42 7) Stopped)) = Some (Clean (pack_halves 42 7))"
    "lc_clean_latch demo_lifecycle = Restarting"
    by (simp_all add: demo_lifecycle_def)
  moreover have "gate_view_record ?g = (Inr (Some ?r), ?g)" using read at(1) by (simp add: gate_view_record_def on_disk_def)
  ultimately obtain d where d: "boot_gate demo_lifecycle demo_quorum (1, 2) 5 42 None ?g = (Inr d, g')" "bd_vouched d"
    using c by (simp add: boot_gate_def boot_clean_def)
  have "crash_to f' (g_fs ?g)" by (simp add: crash_to_refl)
  from clean_boot_restores_view [OF state_disk_wf w this at d] w d show ?thesis by blast
qed

end
