(* ===== verification/Node_Claims.thy ===== *)
theory Node_Claims
  imports Node_Props Lock_Exclusion Boot_Props
begin

text \<open>
  The drive loop returns, what a refused duplicate does to a waiting client, and what the sweep of expired locks
  selects; then a small host on which the node's guarantees are instantiated.
\<close>

section \<open>The drive loop returns\<close>

fun is_apply :: "'g effect \<Rightarrow> bool" where
  "is_apply (Apply _ _ _) = True"
| "is_apply _ = False"

fun is_applied :: "('g, 'v) input \<Rightarrow> bool" where
  "is_applied (Applied _) = True"
| "is_applied _ = False"

definition applies :: "'g effect list \<Rightarrow> nat" where
  "applies efs = length (filter is_apply efs)"

text \<open>
  The replica hands out each committed slot once: acknowledging an applied slot hands out at most as many further
  slots as its backlog of committed slots shrinks by.
\<close>

definition settles :: "('r, 'p, 'g, 'v, 'e) replica_ops \<Rightarrow> ('r \<Rightarrow> nat) \<Rightarrow> bool" where
  "settles rp backlog \<longleftrightarrow>
     (\<forall>at slot r p efs r'. rp_plan rp at (Applied slot) r = Some (Inr p) \<longrightarrow>
        rp_publish rp p r = Some (Published efs, r') \<longrightarrow> applies efs + backlog r' \<le> backlog r)"

lemma load_replica [simp]: "n_replica (load_state_on_demand ho n) = n_replica n"
  by (auto simp: load_state_on_demand_def Let_def node_store_def case_prod_unfold split: sum.split option.split)

lemma execute_replica: "execute_once ho m payload n = (r, n') \<Longrightarrow> n_replica n' = n_replica n"
  by (auto simp: execute_once_def unix_millis_def Let_def split: option.splits sum.splits prod.splits if_splits)

lemma sink_replica: "sink_event event n = (r, n') \<Longrightarrow> n_replica n' = n_replica n"
  by (auto simp: sink_event_def unique_name_def unix_millis_def node_disk_def
      split: option.splits journal_sink.splits prod.splits sum.splits)

lemma note_replica: "note_transition ho tr n = (r, n') \<Longrightarrow> n_replica n' = n_replica n"
  by (cases tr) (auto simp: note_transition_def unix_millis_def dest!: sink_replica)

lemma answer_replica: "answer_pending oid b n = (r, n') \<Longrightarrow> n_replica n' = n_replica n"
  by (auto simp: answer_pending_def queue_reply_def Let_def split: option.splits if_splits)

lemma tick_replica: "tick n = (r, n') \<Longrightarrow> n_replica n' = n_replica n"
  by (auto simp: tick_def Let_def unix_millis_def split: option.splits)

lemma commit_fed:
  fixes r :: "(int + (u64 \<times> ('g, 'v) input) list) exit"
  assumes "apply_commit ho slot oid payload n = (r, n')"
  shows "n_replica n' = n_replica n \<and> (\<forall>fed. r = Ret (Inr fed) \<longrightarrow> (\<exists>at. fed = [(at, Applied slot)]))"
  using assms
  by (auto simp: apply_commit_def Let_def dest!: execute_replica note_replica answer_replica tick_replica
      split: prod.splits sum.splits exit.splits)

lemma effect_fed:
  assumes "apply_effect ho ef n = (r, n')"
  shows "n_replica n' = n_replica n \<and>
    (\<forall>fed. r = Ret (Inr fed) \<longrightarrow> length fed = (if is_apply ef then 1 else 0) \<and> list_all (\<lambda>x. is_applied (snd x)) fed)"
proof (cases ef)
  case (Apply slot oid payload)
  with assms commit_fed [of ho slot oid payload n r n'] show ?thesis by (auto simp: apply_effect_def)
qed (use assms in \<open>auto simp: apply_effect_def send_effect_def Let_def split: if_splits option.splits sum.splits prod.splits\<close>)

lemma effects_fed:
  "apply_effects ho efs n = (r, n') \<Longrightarrow> n_replica n' = n_replica n \<and>
     (\<forall>fed. r = Ret (Inr fed) \<longrightarrow> length fed = applies efs \<and> list_all (\<lambda>x. is_applied (snd x)) fed)"
proof (induction efs arbitrary: n r n')
  case (Cons ef efs)
  obtain r1 n1 where e: "apply_effect ho ef n = (r1, n1)" by fastforce
  obtain r2 n2 where es: "apply_effects ho efs n1 = (r2, n2)" by fastforce
  note f = effect_fed [OF e] and fs = Cons.IH [OF es]
  have "applies (ef # efs) = (if is_apply ef then 1 else 0) + applies efs" by (simp add: applies_def)
  with e es f fs Cons.prems show ?case by (auto split: exit.splits sum.splits)
qed (simp add: applies_def)

lemma one_fed:
  assumes "drive_one ho at event n = (Ret (Inr fed), n')"
  obtains p efs where "rp_plan (ho_replica ho) at event (n_replica n) = Some (Inr p)"
    and "rp_publish (ho_replica ho) p (n_replica n) = Some (Published efs, n_replica n')"
    and "length fed = applies efs" and "list_all (\<lambda>x. is_applied (snd x)) fed"
proof -
  obtain r1 n1 where pp: "plan_and_publish (ho_replica ho) at event n = (r1, n1)" by fastforce
  with assms obtain efs where efs: "r1 = Ret (Inr efs)" "apply_effects ho efs n1 = (Ret (Inr fed), n')"
    by (auto simp: drive_one_def split: exit.splits sum.splits prod.splits if_splits)
  from pp efs(1) obtain p where "rp_plan (ho_replica ho) at event (n_replica n) = Some (Inr p)"
      "rp_publish (ho_replica ho) p (n_replica n) = Some (Published efs, n_replica n1)"
    by (auto simp: plan_and_publish_def Let_def split: option.splits sum.splits prod.splits publish.splits)
  with effects_fed [OF efs(2)] that show thesis by auto
qed

lemma loop_returns:
  assumes "settles (ho_replica ho) backlog" and "list_all (\<lambda>x. is_applied (snd x)) q"
  shows "\<exists>res. drive_loop ho q n = Some res"
  using assms(2)
proof (induction "length q + backlog (n_replica n)" arbitrary: q n rule: less_induct)
  case less
  show ?case
  proof (cases q)
    case Nil
    then show ?thesis by (subst drive_loop.simps) (simp split: prod.split exit.split)
  next
    case (Cons i rest)
    obtain at slot where i: "i = (at, Applied slot)"
      using less.prems Cons by (cases i; cases "snd i") auto
    obtain r1 n1 where d: "drive_one ho at (Applied slot) n = (r1, n1)" by fastforce
    have "\<exists>res. drive_loop ho (rest @ fed) n1 = Some res" if "r1 = Ret (Inr fed)" for fed
    proof (rule less.hyps)
      from d that obtain p efs where "rp_plan (ho_replica ho) at (Applied slot) (n_replica n) = Some (Inr p)"
          "rp_publish (ho_replica ho) p (n_replica n) = Some (Published efs, n_replica n1)" "length fed = applies efs"
          "list_all (\<lambda>x. is_applied (snd x)) fed"
        by (auto elim!: one_fed)
      moreover from this have "applies efs + backlog (n_replica n1) \<le> backlog (n_replica n)"
        using assms(1) unfolding settles_def by blast
      ultimately show "length (rest @ fed) + backlog (n_replica n1) < length q + backlog (n_replica n)"
        "list_all (\<lambda>x. is_applied (snd x)) (rest @ fed)"
        using Cons less.prems by simp_all
    qed
    then show ?thesis using Cons i d by (subst drive_loop.simps) (auto split: exit.splits sum.splits)
  qed
qed

lemma drive_settles:
  "m = Some (x, n2) \<Longrightarrow> \<exists>res.
     (case m of
        None \<Rightarrow> None
      | Some (Aborted, n1) \<Rightarrow> Some (Aborted, n1)
      | Some (Ret code, n1) \<Rightarrow>
          (case settle_deferred_latch ho n1 of
             (Aborted, n2) \<Rightarrow> Some (Aborted, n2)
           | (Ret _, n2) \<Rightarrow> Some (Ret code, n2))) = Some res"
  by (cases x) (auto split: prod.split exit.split)

text \<open>
  C23: a drive always returns. Over a replica that hands out each committed slot once, every input driven into
  the node, whatever slots it commits and however many acknowledgements they feed back, ends with a code or with
  the death of the process.
\<close>

theorem drive_returns:
  assumes "settles (ho_replica ho) backlog"
  shows "\<exists>res. drive ho event n = Some res"
proof -
  have "\<exists>res. drive_loop ho [(at, event)] n = Some res" for at n
  proof (cases "drive_one ho at event n")
    case (Pair r1 n1)
    have "\<exists>res. drive_loop ho fed n1 = Some res" if "r1 = Ret (Inr fed)" for fed
      using loop_returns [OF assms] that Pair by (auto elim!: one_fed)
    then show ?thesis using Pair by (subst drive_loop.simps) (auto split: exit.splits sum.splits)
  qed
  then have "\<exists>x n2. (if n_poisoned n then Some (Ret SERVICE, n) else drive_loop ho [(at, event)] n) = Some (x, n2)" for at n
    by (cases "n_poisoned n") auto
  then have "\<exists>res. drive_at ho at event n = Some res" for at n
    unfolding drive_at_def using drive_settles by fast
  then show ?thesis by (auto simp: drive_def split: prod.split sum.split)
qed

section \<open>A refused duplicate\<close>

text \<open>
  C24: a refused duplicate drops the first request's reply. Where a client's request is still in flight and the
  client sends it again, and the second proposal is refused, the node forgets that a client waits: when the first
  request then commits, it is executed and no reply is queued.
\<close>

theorem refused_duplicate_drops_reply:
  assumes "n_pending n (operation_id_of m) = Some m" and "n_replies n m = None"
    and "decode (ho_parse ho) json = Inr req" and "fst (ids req) = m"
    and "node_request ho json n = Some (Ret code, n1)" and "code \<noteq> NODE_OK" and "code \<notin> {STOPPED, TOO_LARGE}"
    and "apply_commit ho slot (operation_id_of m) json n1 = (Ret (Inr fed), n2)"
  shows "n_outputs n2 = n_outputs n1"
proof -
  have "n_pending n1 (operation_id_of m) = None"
    using assms(2-7)
    by (auto simp: node_request_def Let_def split: if_splits option.splits prod.splits exit.splits)
  moreover obtain x n' where e: "execute_once ho m json (n1\<lparr>n_hook := ho_hook ho slot (n_hook n1)\<rparr>) = (x, n')" by fastforce
  ultimately have p: "n_pending n' (operation_id_of m) = None" "n_outputs n' = n_outputs n1"
    using execute_once_cases [OF e] by auto
  show ?thesis using assms(8) e p
    by (auto simp: apply_commit_def Let_def answer_pending_def same_answers_def dest!: note_same tick_same
        split: sum.splits prod.splits exit.splits option.splits if_splits)
qed

section \<open>The sweep of expired locks\<close>

lemma take_skips:
  fixes xs :: "'a::linorder list"
  assumes "sorted_wrt (<) xs" and "distinct ks" and "set ks \<subseteq> set xs" and "\<forall>k \<in> set ks. k < l"
  shows "l \<notin> set (take (length ks) xs)"
proof
  assume "l \<in> set (take (length ks) xs)"
  then obtain i where i: "i < length ks" "i < length xs" "xs ! i = l" by (auto simp: in_set_conv_nth)
  have "set ks \<subseteq> set (take i xs)"
  proof
    fix k assume "k \<in> set ks"
    then have "k \<in> set xs" "k < l" using assms(3,4) by auto
    then obtain j where j: "j < length xs" "xs ! j = k" "k < l" by (auto simp: in_set_conv_nth)
    have "j < i" using sorted_wrt_nth_less [OF assms(1), of i j] i j by (cases "i < j"; cases "i = j") auto
    with j show "k \<in> set (take i xs)" by (auto simp: in_set_conv_nth)
  qed
  then have "card (set ks) \<le> card (set (take i xs))" by (rule card_mono [OF finite_set])
  also have "\<dots> \<le> i" using card_length [of "take i xs"] by simp
  finally show False using i(1) distinct_card [OF assms(2)] by simp
qed

definition keeps_expired :: "'c core_ops \<Rightarrow> 'c service \<Rightarrow> u64 \<Rightarrow> bool" where
  "keeps_expired co s k \<longleftrightarrow> (\<exists>g. table co s k = Some g \<and> expiry g = 0)"

lemma break_keeps_expired:
  assumes "core_documented co" and "decode parse (op_payload op) = Inr (ReqBreak m c n l)" and "keeps_expired co s k"
  shows "keeps_expired co (service_step co parse op s) k"
proof (cases "service_execute co parse (op_message op) (op_client op) (op_request op) (op_time op) (op_payload op) s")
  case (Inl e)
  with assms(3) show ?thesis by (simp add: service_step_def)
next
  case (Inr x)
  then have ids: "op_message op = m" "op_client op = c" "op_request op = n"
    using assms(2) by (auto simp: service_execute_def try_bind_def split: if_splits)
  from assms(1,2) show ?thesis
  proof (cases rule: execute_break [of co parse "op_payload op" m c n l s "op_time op"])
    case (absent c')
    then show ?thesis using assms(3) snapshot_core_cong [of co c' s]
      by (simp add: service_step_def ids keeps_expired_def table_def)
  next
    case (hit x y c')
    then show ?thesis using assms(3)
      by (auto simp: service_step_def ids keeps_expired_def table_eq reply_break_def Let_def keeper_of_def compose_def)
  qed
qed

text \<open>
  C25: broken locks crowd out expired ones. A break leaves a keeper record with expiry zero, which the sweep selects
  again on every tick. As soon as eight locks below a lock are such records, that lock is never selected for the
  sweep, at whatever time, and however many breaks the sweep or anyone else commits: its expired lease is never broken.
\<close>

theorem sweep_starves_expired_lock:
  assumes "core_documented co" and "distinct ks" and "length ks = SWEEP_BUDGET"
    and "\<forall>k \<in> set ks. k < l \<and> keeps_expired co s k"
    and "\<forall>op \<in> set ops. \<exists>m c n k. decode parse (op_payload op) = Inr (ReqBreak m c n k)"
    and "bt_wf (locks (service_snapshot co (run_ops co parse ops s)))"
  shows "l \<notin> set (expired_locks now (service_snapshot co (run_ops co parse ops s)))"
proof -
  let ?s = "run_ops co parse ops s"
  let ?es = "filter (\<lambda>(_, le). expiry le \<le> now) (locks (service_snapshot co ?s))"
  have kept: "keeps_expired co ?s k" if "keeps_expired co s k" for k
    using assms(5) that unfolding run_ops_def
    by (induction ops arbitrary: s) (auto intro: break_keeps_expired [OF assms(1)])
  have "set ks \<subseteq> set (map fst ?es)"
  proof
    fix k assume "k \<in> set ks"
    then obtain g where "bt_get (locks (service_snapshot co ?s)) k = Some g" "expiry g = 0"
      using assms(4) kept by (auto simp: keeps_expired_def table_def)
    then have "(k, g) \<in> set ?es" using bt_get_mem [OF assms(6)] by simp
    then show "k \<in> set (map fst ?es)" by force
  qed
  moreover have "sorted_wrt (<) (map fst ?es)"
    using assms(6) unfolding bt_wf_def by (simp add: sorted_wrt_map sorted_wrt_filter)
  ultimately show ?thesis
    using take_skips [of "map fst ?es" ks l] assms(2-4) by (simp add: expired_locks_def)
qed

section \<open>A small host\<close>

text \<open>
  A replica that commits every proposal at once while it is the primary, and refuses it otherwise; the documented lock
  machinery; a store without counters.
\<close>

definition demo_replica :: "(u64 \<times> bool, (operation_id \<times> bytes) option, unit, unit, unit) replica_ops" where
  "demo_replica =
     \<lparr>rp_plan = (\<lambda>at i r. case i of
          Propose oid b \<Rightarrow> Some (if snd r then Inr (Some (oid, b)) else Inl NotPrimary)
        | _ \<Rightarrow> Some (Inr None)),
      rp_publish = (\<lambda>p r. Some (Published (case p of None \<Rightarrow> [] | Some (oid, b) \<Rightarrow> [Apply (fst r) oid b]), (fst r + 1, snd r))),
      rp_own = (\<lambda>_. 1), rp_current = (\<lambda>_. (2, 0)),
      rp_observe = (\<lambda>r. \<lparr>ob_status = 0, ob_era = 2, ob_view = 0, ob_accepted = fst r, ob_committed = fst r, ob_applied = fst r\<rparr>),
      rp_record = (\<lambda>_ _. Some (\<lambda>_. Some 1)), rp_config_era = (\<lambda>_. 2), rp_order = (\<lambda>_. [(1, 1)]), rp_rejoined = (\<lambda>_. False),
      rp_next_slot = (\<lambda>r. Some (fst r)), rp_extend = (\<lambda>_ _ _. Some ()), rp_construct_pivot = (\<lambda>_ _. None),
      ms_packed_len = (\<lambda>_. 0), ms_pack = (\<lambda>_. Some []), ms_unpack = (\<lambda>_. None),
      ms_header = (\<lambda>_. \<lparr>hd_era = 0, hd_view = 0, hd_slot = 0\<rparr>), ms_body = (\<lambda>_. OtherBody)\<rparr>"

definition demo_store :: "unit store_ops" where
  "demo_store =
     \<lparr>ss_note = (\<lambda>_ s. s), ss_tick = (\<lambda>_ w. (Inr (), w)), ss_pump = (\<lambda>w. (Inr (), w)), ss_flush = (\<lambda>_ w. (Inr (), w)),
      ss_load = (\<lambda>w. (Inr None, w)), ss_forget = (\<lambda>s. s)\<rparr>"

definition demo_host ::
  "(u64 \<times> bool, (operation_id \<times> bytes) option, unit, unit, unit, core_snap, unit, unit, path \<Rightarrow> (u32 \<times> zig_marker) option) host" where
  "demo_host =
     \<lparr>ho_replica = demo_replica, ho_core = doc_core, ho_parse = demo_parse, ho_encode = (\<lambda>_. Some [9]),
      ho_break_json = (\<lambda>_ _ _. []), ho_store = demo_store, ho_hook = (\<lambda>_ h. h), ho_marks = demo_quorum,
      ho_life = demo_lifecycle\<rparr>"

definition demo_node ::
  "bool \<Rightarrow> (u64 \<times> bool, core_snap, unit, unit, path \<Rightarrow> (u32 \<times> zig_marker) option) node" where
  "demo_node primary =
     \<lparr>n_replica = (1, primary), n_outputs = [], n_service = doc_empty, n_replies = Map.empty, n_pending = Map.empty,
      n_last_tick = 0, n_poisoned = False, n_sweep_seq = 0, n_fault_note = None, n_reincarnate_from = None,
      n_known_ids = [1], n_last_view = None, n_last_leader = None, n_last_config_era = None, n_gate = demo_gate,
      n_state_path = demo_path, n_store = (), n_clean_boot = False, n_state_loaded = False, n_hook = (),
      n_session = None, n_deferred = None, n_stopped = False, n_clock = (\<lambda>_. Some 10), n_fresh = (\<lambda>k. (1, k)),
      n_uuids = (\<lambda>_. 3), n_reads = 0\<rparr>"

definition demo_reply :: queued where
  "demo_reply =
     \<lparr>qd_kind = OUTPUT_REPLY, qd_to = 0, qd_era = 0, qd_view = 0, qd_slot = 0, qd_message_id = 9, qd_bytes = [9]\<rparr>"

lemmas drive_eval = drive_def drive_at_def drive_one_def plan_and_publish_def apply_effect_def apply_commit_def
  execute_once_def load_state_on_demand_def lazy_load_def node_store_def note_transition_def sink_event_def
  answer_pending_def queue_reply_def tick_def unix_millis_def report_def folded_era_regressed_def
  settle_deferred_latch_def Let_def

lemma demo_settles: "settles (ho_replica demo_host) (\<lambda>_. 0)"
  by (simp add: settles_def demo_host_def demo_replica_def applies_def)

lemmas demo_eval = node_request_def demo_host_def demo_node_def demo_decode demo_grant drive_eval drive_loop.simps
  demo_replica_def demo_store_def demo_gate_def demo_reply_def MAX_DATAGRAM_def PREPARE_OVERHEAD_def

lemma demo_answered:
  "\<exists>n1. node_request demo_host [1] (demo_node True) = Some (Ret NODE_OK, n1) \<and> n_outputs n1 = [demo_reply] \<and>
     n_replies n1 9 = Some [9] \<and> \<not> n_stopped n1"
  by (simp add: demo_eval)

lemma demo_node_wf: "answers_wf (demo_node b)"
  by (simp add: answers_wf_def demo_node_def)

theorem replies_never_change_witness:
  "\<exists>n1 n2. (node_step demo_host)\<^sup>*\<^sup>* (demo_node True) n1 \<and> (node_step demo_host)\<^sup>*\<^sup>* n1 n2 \<and>
     n_outputs n1 = [demo_reply] \<and> n_outputs n2 = [demo_reply, demo_reply] \<and>
     qd_bytes (n_outputs n1 ! 0) = qd_bytes (n_outputs n2 ! 1)"
proof -
  obtain n1 where n1: "node_request demo_host [1] (demo_node True) = Some (Ret NODE_OK, n1)" "n_outputs n1 = [demo_reply]"
      "n_replies n1 9 = Some [9]" "\<not> n_stopped n1"
    using demo_answered by blast
  let ?n2 = "queue_reply 9 [9] n1"
  have "node_request demo_host [1] n1 = Some (Ret NODE_OK, ?n2)"
    using n1(3,4) by (simp add: node_request_def demo_host_def demo_decode MAX_DATAGRAM_def Let_def)
  then have steps: "(node_step demo_host)\<^sup>*\<^sup>* (demo_node True) n1" "(node_step demo_host)\<^sup>*\<^sup>* n1 ?n2"
    using n1(1) by (blast intro: step_request)+
  have two: "n_outputs ?n2 = [demo_reply, demo_reply]" using n1(2) by (simp add: queue_reply_def demo_reply_def)
  have "qd_kind demo_reply = OUTPUT_REPLY" by (simp add: demo_reply_def)
  then have "qd_bytes (n_outputs n1 ! 0) = qd_bytes (n_outputs ?n2 ! 1)"
    using replies_never_change [OF demo_node_wf steps, of "n_outputs n1 ! 0" "n_outputs ?n2 ! 1"] n1(2) two by simp
  with steps n1(2) two show ?thesis by blast
qed

theorem duplicate_commit_not_reexecuted_witness:
  "\<exists>at n'. apply_commit demo_host 4 (operation_id_of 9) [1]
       ((demo_node True)\<lparr>n_replies := [9 \<mapsto> [9]], n_pending := [operation_id_of 9 \<mapsto> 9]\<rparr>) =
     (Ret (Inr [(at, Applied 4)]), n') \<and> n_service n' = doc_empty \<and> n_outputs n' = [demo_reply]"
  using duplicate_commit_not_reexecuted [where n = "(demo_node True)\<lparr>n_replies := [9 \<mapsto> [9]], n_pending := [operation_id_of 9 \<mapsto> 9]\<rparr>"
      and oid = "operation_id_of 9" and b = "[9]" and t = 10 and ho = demo_host and slot = 4 and payload = "[1]"]
  by (auto simp: demo_node_def MAX_DATAGRAM_def demo_reply_def)

theorem node_moves_forward_witness:
  "\<exists>n'. node_step demo_host (demo_node True) n' \<and> forward (demo_node True) n'"
proof -
  obtain n1 where "node_request demo_host [1] (demo_node True) = Some (Ret NODE_OK, n1)" using demo_answered by blast
  then have "node_step demo_host (demo_node True) n1" by (rule step_request)
  with node_moves_forward [OF r_into_rtranclp [of "node_step demo_host", OF this]] show ?thesis by blast
qed

theorem drive_returns_witness:
  "\<exists>res. drive demo_host (Propose (operation_id_of 9) [1]) (demo_node True) = Some res"
  by (rule drive_returns [OF demo_settles])

theorem refused_duplicate_drops_reply_witness:
  "\<exists>n1 n2 fed. node_request demo_host [1] ((demo_node False)\<lparr>n_pending := [operation_id_of 9 \<mapsto> 9]\<rparr>) = Some (Ret NOT_LEADER, n1) \<and>
     apply_commit demo_host 4 (operation_id_of 9) [1] n1 = (Ret (Inr fed), n2) \<and>
     n_service n2 = demo_held \<and> n_outputs n2 = n_outputs n1"
proof -
  let ?n = "(demo_node False)\<lparr>n_pending := [operation_id_of 9 \<mapsto> 9]\<rparr>"
  obtain n1 where n1: "node_request demo_host [1] ?n = Some (Ret NOT_LEADER, n1)"
      "n_clock n1 = (\<lambda>_. Some 10)" "n_replies n1 = Map.empty" "n_service n1 = doc_empty" "\<not> n_clean_boot n1" "\<not> n_state_loaded n1"
      "g_sink (n_gate n1) = None" "n_pending n1 (operation_id_of 9) = None"
    by (simp add: demo_eval plan_error_def NOT_LEADER_def NODE_OK_def FAULTED_def)
  obtain n2 fed where n2: "apply_commit demo_host 4 (operation_id_of 9) [1] n1 = (Ret (Inr fed), n2)" "n_service n2 = demo_held"
    using n1(2-) by (simp add: demo_eval)
  have "n_pending ?n (operation_id_of 9) = Some 9" "n_replies ?n 9 = None" "NOT_LEADER \<noteq> NODE_OK"
    "NOT_LEADER \<notin> {STOPPED, TOO_LARGE}"
    by (simp_all add: demo_node_def NOT_LEADER_def NODE_OK_def STOPPED_def TOO_LARGE_def)
  moreover have "decode (ho_parse demo_host) [1] = Inr (ReqSet 9 7 1 5 \<lparr>cand_lease_id = 0, cand_holder = 21, cand_lease_ms = 100\<rparr>
      (Some ''/db'') None (Some 10))"
    by (simp add: demo_host_def demo_decode)
  ultimately have "n_outputs n2 = n_outputs n1"
    using refused_duplicate_drops_reply [of ?n 9 demo_host "[1]"] n1(1) n2(1) by fastforce
  with n1(1) n2 show ?thesis by blast
qed

text \<open>Eight broken locks below a lock whose lease ended long ago.\<close>

definition crowded :: "core_snap service" where
  "crowded =
     \<lparr>svc_core = \<lparr>cs_locks = map (\<lambda>k. (k, \<lparr>cl_lease_id = 2, cl_holder = core_nil_client, cl_expiry = 0, cl_window = 0\<rparr>))
          [1, 2, 3, 4, 5, 6, 7, 8] @ [(9, \<lparr>cl_lease_id = 1, cl_holder = \<lparr>msb = 0, lsb = 1\<rparr>, cl_expiry = 5, cl_window = 4\<rparr>)],
        cs_generations = []\<rparr>,
      svc_durable = []\<rparr>"

theorem sweep_starves_expired_lock_witness:
  "(\<exists>g. table doc_core crowded 9 = Some g \<and> expiry g = 5) \<and>
   9 \<notin> set (expired_locks 1000 (service_snapshot doc_core (run_ops doc_core demo_parse [] crowded)))"
proof
  show "\<exists>g. table doc_core crowded 9 = Some g \<and> expiry g = 5"
    by (simp add: table_eq doc_stored crowded_def bt_get_def compose_def)
  show "9 \<notin> set (expired_locks 1000 (service_snapshot doc_core (run_ops doc_core demo_parse [] crowded)))"
  proof (rule sweep_starves_expired_lock [OF doc_core_documented, where ks = "[1, 2, 3, 4, 5, 6, 7, 8]"])
    show "\<forall>k\<in>set [1, 2, 3, 4, 5, 6, 7, 8]. k < 9 \<and> keeps_expired doc_core crowded k"
      by (simp add: keeps_expired_def table_eq doc_stored crowded_def bt_get_def compose_def)
    show "bt_wf (locks (service_snapshot doc_core (run_ops doc_core demo_parse [] crowded)))"
      by (simp add: run_ops_def service_snapshot_def crowded_def bt_wf_def)
  qed (simp_all add: SWEEP_BUDGET_def)
qed

end
