(* ===== verification/Node_Boot.thy ===== *)
theory Node_Boot
  imports Node_State
begin

text \<open>
  The construction of a node in \<^verbatim>\<open>ext/advisory_lock/src/ffi.rs\<close>: the descriptor's
  grammar, the genesis of a joiner's log, the boot gate's decision turned into a replica, and the constructors the
  hosts call. The era table, the log and the replica's constructors belong to the replication library: they
  are the record \<open>birth\<close>.
\<close>

unbundle bit_operations_syntax

section \<open>The descriptor\<close>

record member_entry =
  mb_id :: u32
  mb_name :: string
  mb_joined :: bool

definition parse_member_entry :: "bytes \<Rightarrow> member_entry option" where
  "parse_member_entry entry =
     Option.bind (from_utf8 entry) (\<lambda>text.
     Option.bind (split_once (CHR '':'') text) (\<lambda>(id_text, rest).
     Option.bind (parse_u32 id_text) (\<lambda>i.
     case split_once (CHR '':'') rest of
       Some (nm, tag) \<Rightarrow> if tag = ''j'' then Some \<lparr>mb_id = i, mb_name = nm, mb_joined = True\<rparr> else None
     | None \<Rightarrow> Some \<lparr>mb_id = i, mb_name = rest, mb_joined = False\<rparr>)))"

fun split_zero :: "bytes \<Rightarrow> bytes list" where
  "split_zero [] = [[]]"
| "split_zero (b # bs) =
     (if b = 0 then [] # split_zero bs
      else (case split_zero bs of [] \<Rightarrow> [[b]] | w # ws \<Rightarrow> (b # w) # ws))"

fun parse_members :: "bytes list \<Rightarrow> member_entry list option" where
  "parse_members [] = Some []"
| "parse_members (e # es) =
     (case parse_member_entry e of
        None \<Rightarrow> None
      | Some m \<Rightarrow> map_option (Cons m) (parse_members es))"

text \<open>\<^verbatim>\<open>PathBuf::from\<close>: the components of a path text.\<close>

definition path_of :: "string \<Rightarrow> path" where
  "path_of s =
     (let parts = filter (\<lambda>c. c \<noteq> []) (split_on (CHR ''/'') s) in
      (if take 1 s = ''/'' then [''/''] else take 1 parts) @
      filter (\<lambda>c. c \<noteq> ''.'') (if take 1 s = ''/'' then parts else drop 1 parts))"

section \<open>The replication library's constructors\<close>

datatype genesis_operation = OpVoid | OpInit "u32 list"

record genesis_entry =
  ge_slot :: u64
  ge_era :: u32
  ge_operation :: genesis_operation

record persisted_progress =
  pp_current :: "u32 \<times> u32"
  pp_retained :: "u32 \<times> u32"
  pp_joining :: bool
  pp_accepted :: u64
  pp_committed :: u64
  pp_applied :: u64
  pp_checkpoint :: u64
  pp_revision :: u64
  pp_faulted :: bool

record knobs =
  kn_primary_timeout :: u64
  kn_view_change_budget :: nat

record ('r, 't, 'j, 'm, 'c) birth =
  bi_max_members :: nat
  bi_is_lawful :: "u32 \<Rightarrow> bool"
  bi_system_id :: "u32 \<Rightarrow> u16 option"
  bi_next_life :: "u32 \<Rightarrow> u32 option"
  bi_table :: 't
  bi_extend :: "'t \<Rightarrow> genesis_operation \<Rightarrow> u64 \<Rightarrow> 't option"
  bi_table_era :: "'t \<Rightarrow> u32"
  bi_VOID_SLOT :: u64
  bi_INIT_SLOT :: u64
  bi_SLOT_NONE :: u64
  bi_ERA_INITIAL :: u32
  bi_VIEW_INITIAL :: u32
  bi_log :: 'j
  bi_install_suffix :: "'j \<Rightarrow> u64 \<Rightarrow> genesis_entry list \<Rightarrow> 'j option"
  bi_reincarnate :: "u32 \<times> u32 \<Rightarrow> u32 \<Rightarrow> 'j \<Rightarrow> persisted_progress \<Rightarrow> 't \<Rightarrow> knobs \<Rightarrow> 'r option"
  bi_resume :: "u32 \<Rightarrow> 'j \<Rightarrow> persisted_progress \<Rightarrow> 't \<Rightarrow> knobs \<Rightarrow> 'r option"
  bi_join :: "u32 \<Rightarrow> 'j \<Rightarrow> persisted_progress \<Rightarrow> 't \<Rightarrow> knobs \<Rightarrow> 'r option"
  bi_provision :: "u32 \<Rightarrow> u32 list \<Rightarrow> 'j \<Rightarrow> knobs \<Rightarrow> 'r option"
  bi_connect :: "string \<Rightarrow> (rpc_request \<Rightarrow> 'm \<Rightarrow> rpc_reply io \<times> 'm) option"
  bi_service :: "'c service"

definition provisioned_identity :: "('r, 't, 'j, 'm, 'c) birth \<Rightarrow> u32 \<Rightarrow> bool" where
  "provisioned_identity bi i \<longleftrightarrow> bi_system_id bi i \<noteq> None \<and> i AND 0xFFFF = 1"

definition joiner_parts ::
  "('r, 't, 'j, 'm, 'c) birth \<Rightarrow> u32 list \<Rightarrow> ('j \<times> persisted_progress \<times> 't) option" where
  "joiner_parts bi order =
     Option.bind (bi_extend bi (bi_table bi) OpVoid (bi_VOID_SLOT bi)) (\<lambda>void.
     Option.bind (bi_extend bi void (OpInit order) (bi_INIT_SLOT bi)) (\<lambda>t.
     let era = bi_table_era bi t;
         genesis = [\<lparr>ge_slot = bi_VOID_SLOT bi, ge_era = bi_ERA_INITIAL bi, ge_operation = OpVoid\<rparr>,
                    \<lparr>ge_slot = bi_INIT_SLOT bi, ge_era = era, ge_operation = OpInit order\<rparr>];
         ballot = (era, bi_VIEW_INITIAL bi) in
     Option.bind (bi_install_suffix bi (bi_log bi) (bi_VOID_SLOT bi) genesis) (\<lambda>j.
     Some (j, \<lparr>pp_current = ballot, pp_retained = ballot, pp_joining = True, pp_accepted = bi_INIT_SLOT bi,
               pp_committed = bi_INIT_SLOT bi, pp_applied = bi_INIT_SLOT bi, pp_checkpoint = bi_SLOT_NONE bi,
               pp_revision = 0, pp_faulted = False\<rparr>, t))))"

section \<open>From the decision to the replica\<close>

text \<open>The members, the local one, the state path and the local system, or a refused descriptor.\<close>

definition descriptor ::
  "('r, 't, 'j, 'm, 'c) birth \<Rightarrow> bytes \<Rightarrow> bytes \<Rightarrow> bytes \<Rightarrow> (member_entry list \<times> member_entry \<times> path \<times> u16) option" where
  "descriptor bi members_data own_data state_data =
     Option.bind (parse_members (split_zero members_data)) (\<lambda>members.
     Option.bind (from_utf8 own_data) (\<lambda>own.
     Option.bind (from_utf8 state_data) (\<lambda>state.
     if state = [] \<or> members = [] \<or> length members > bi_max_members bi \<or>
        list_ex (\<lambda>m. mb_name m = [] \<or> \<not> provisioned_identity bi (mb_id m)) members then None
     else if \<not> distinct (map mb_id members) \<or> \<not> distinct (map mb_name members) then None
     else
       Option.bind (find (\<lambda>m. mb_name m = own) members) (\<lambda>own_member.
       let sys = ucast (drop_bit 16 (mb_id own_member)) in
       if sys = 0 then None else Some (members, own_member, path_of state, sys)))))"

definition genesis_order :: "member_entry list \<Rightarrow> u32 list" where
  "genesis_order members = map mb_id (filter (\<lambda>m. \<not> mb_joined m) members)"

text \<open>The store of the boot gate: a mounted fence, the bench driver, or the durable one.\<close>

definition select_backend ::
  "('r, 't, 'j, 'm, 'c) birth \<Rightarrow> 'm fence option \<Rightarrow> string option \<Rightarrow> path \<Rightarrow> u16 \<Rightarrow> ('m backend \<times> u16) option" where
  "select_backend bi fence ctl state sys =
     (case fence of
        Some f \<Rightarrow> Some (BackMounted f, 0)
      | None \<Rightarrow>
          (case ctl of
             Some c \<Rightarrow> map_option (\<lambda>rpc. (BackMem rpc, 0)) (bi_connect bi c)
           | None \<Rightarrow> Some (BackDisk state, sys)))"

text \<open>The announced identity follows the marker pair.\<close>

definition identity_follows ::
  "('r, 't, 'j, 'm, 'c) birth \<Rightarrow> u16 \<Rightarrow> u32 \<Rightarrow> boot_decision \<Rightarrow> bool" where
  "identity_follows bi sys own_member_id d \<longleftrightarrow>
     bi_is_lawful bi (bd_identity d) \<and> bi_system_id bi (bd_identity d) = Some sys \<and>
     (case bd_pair d of
        None \<Rightarrow> bd_identity d = own_member_id
      | Some pair \<Rightarrow> bi_next_life bi (fst pair) = Some (bd_identity d))"

definition replica_of ::
  "('r, 't, 'j, 'm, 'c) birth \<Rightarrow> knobs \<Rightarrow> u32 list \<Rightarrow> bool \<Rightarrow> boot_decision \<Rightarrow> 'r option" where
  "replica_of bi kn order joined d =
     (case bd_pair d of
        Some pair \<Rightarrow>
          Option.bind (joiner_parts bi order) (\<lambda>(j, pp, t). bi_reincarnate bi pair (bd_identity d) j pp t kn)
      | None \<Rightarrow>
          if bd_vouched d then
            Option.bind (joiner_parts bi order) (\<lambda>(j, pp, t).
            case bd_restored d of
              None \<Rightarrow> bi_resume bi (bd_identity d) j pp t kn
            | Some r \<Rightarrow>
                if vr_era r \<noteq> bi_table_era bi t then None
                else bi_resume bi (bd_identity d) j
                       (pp\<lparr>pp_current := (vr_era r, vr_view r), pp_retained := (vr_era r, vr_view r)\<rparr>) t kn)
          else if joined then
            Option.bind (joiner_parts bi order) (\<lambda>(j, pp, t). bi_join bi (bd_identity d) j pp t kn)
          else bi_provision bi (bd_identity d) order (bi_log bi) kn)"

definition EVIDENCE_BUDGET :: nat where "EVIDENCE_BUDGET = 8192"
definition PRIMARY_TIMEOUT_MS :: u64 where "PRIMARY_TIMEOUT_MS = 5000"

text \<open>What the process finds around it.\<close>

record 'm world =
  wd_marks :: 'm
  wd_fs :: fs
  wd_clock :: "nat \<Rightarrow> u64 option"
  wd_fresh :: "nat \<Rightarrow> nat \<times> nat"
  wd_uuids :: "nat \<Rightarrow> uuid"

definition fresh_node ::
  "('r, 't, 'j, 'm, 'c) birth \<Rightarrow> 'm world \<Rightarrow> 'm gate \<Rightarrow> path \<Rightarrow> member_entry list \<Rightarrow> boot_decision \<Rightarrow> 'r \<Rightarrow> 's \<Rightarrow> 'h \<Rightarrow>
   ('r, 'c, 's, 'h, 'm) node" where
  "fresh_node bi w g state members d r s h =
     \<lparr>n_replica = r, n_outputs = [], n_service = bi_service bi, n_replies = Map.empty, n_pending = Map.empty,
      n_last_tick = 0, n_poisoned = False, n_sweep_seq = 0, n_fault_note = None,
      n_reincarnate_from = map_option fst (bd_pair d), n_known_ids = map mb_id members, n_last_view = None,
      n_last_leader = None, n_last_config_era = None, n_gate = g, n_state_path = state, n_store = s,
      n_clean_boot = bd_vouched d, n_state_loaded = False, n_hook = h,
      n_session = (if bd_session d then Some (bd_identity d) else None), n_deferred = bd_deferred d,
      n_stopped = False, n_clock = wd_clock w, n_fresh = wd_fresh w, n_uuids = wd_uuids w, n_reads = 0\<rparr>"

definition node_from_sink ::
  "('r, 't, 'j, 'm, 'c) birth \<Rightarrow> lifecycle \<Rightarrow> 'm marker_engine \<Rightarrow> 's store_ops \<Rightarrow> nat \<times> nat \<Rightarrow> nat \<Rightarrow>
   bytes \<Rightarrow> bytes \<Rightarrow> bytes \<Rightarrow> journal_sink option \<Rightarrow> (recovery_flush \<times> path) option \<Rightarrow> string option \<Rightarrow> u64 \<Rightarrow>
   's \<Rightarrow> 'h \<Rightarrow> 'm fence option \<Rightarrow> 'm world \<Rightarrow> (boot_stop + ('r, 'c, 's, 'h, 'm) node) \<times> 'm world" where
  "node_from_sink bi lc en so u elapsed members_data own_data state_data sink recovery ctl timeout s h fence w =
     (case descriptor bi members_data own_data state_data of
        None \<Rightarrow> (Inl (Refuses CONFIG), w)
      | Some (members, own_member, state, sys) \<Rightarrow>
          (case select_backend bi fence ctl state sys of
             None \<Rightarrow> (Inl (Refuses CONFIG), w)
           | Some (be, gate_sys) \<Rightarrow>
               (case boot_gate lc en u elapsed sys recovery
                       \<lparr>g_backend = be, g_system = gate_sys, g_world = wd_marks w, g_fs = wd_fs w, g_ops = [], g_sink = sink\<rparr> of
                  (Inl e, g) \<Rightarrow> (Inl e, w\<lparr>wd_marks := g_world g, wd_fs := g_fs g\<rparr>)
                | (Inr d, g) \<Rightarrow>
                    (let w' = w\<lparr>wd_marks := g_world g, wd_fs := g_fs g\<rparr>;
                         s' = (if \<not> bd_vouched d then ss_forget so s else s) in
                     if \<not> identity_follows bi sys (mb_id own_member) d then (Inl Panics, w')
                     else
                       (case replica_of bi \<lparr>kn_primary_timeout = timeout, kn_view_change_budget = EVIDENCE_BUDGET\<rparr>
                               (genesis_order members) (mb_joined own_member) d of
                          None \<Rightarrow> (Inl (Refuses CONFIG), w')
                        | Some r \<Rightarrow> (Inr (fresh_node bi w' g state members d r s' h), w'))))))"

section \<open>The default state store\<close>

text \<open>
  The file store at the node's seam: its path and the names of its staged files. What it does not define keeps
  the contract's defaults.
\<close>

record file_store =
  fst_path :: path
  fst_names :: "nat \<Rightarrow> nat \<times> nat"
  fst_used :: nat

definition default_state_store :: "(nat \<Rightarrow> nat \<times> nat) \<Rightarrow> string \<Rightarrow> file_store" where
  "default_state_store fresh state = \<lparr>fst_path = state_file_path (path_of state), fst_names = fresh, fst_used = 0\<rparr>"

definition file_store_ops ::
  "(state_snapshot \<Rightarrow> bytes option) \<Rightarrow> (bytes \<Rightarrow> state_snapshot option) \<Rightarrow> file_store store_ops" where
  "file_store_ops to_vec from_slice =
     \<lparr>ss_note = (\<lambda>_ s. s), ss_tick = (\<lambda>_ w. (Inr (), w)), ss_pump = (\<lambda>w. (Inr (), w)),
      ss_flush = (\<lambda>snap (s, f).
        case file_flush_state to_vec (fst_path s) (fst_names s (fst_used s)) snap f of
          (r, f') \<Rightarrow> (r, s\<lparr>fst_used := fst_used s + 1\<rparr>, f')),
      ss_load = (\<lambda>(s, f). case file_load_state from_slice (fst_path s) f of (r, f') \<Rightarrow> (r, s, f')),
      ss_forget = (\<lambda>s. s)\<rparr>"

section \<open>The hosts' constructors\<close>

text \<open>A journal that does not open disables journaling.\<close>

definition open_journal :: "nat \<Rightarrow> string option \<Rightarrow> nat \<Rightarrow> fs \<Rightarrow> journal_sink option \<times> fs" where
  "open_journal now_ms dir roll_bytes f =
     (case dir of
        None \<Rightarrow> (None, f)
      | Some d \<Rightarrow>
          (case journal_open_on (path_of d) roll_bytes now_ms f of
             (Inl _, f') \<Rightarrow> (None, f')
           | (Inr j, f') \<Rightarrow> (Some (SinkBlocking j), f')))"

definition open_aof :: "nat \<Rightarrow> string \<Rightarrow> nat option \<Rightarrow> fs \<Rightarrow> journal_sink option \<times> fs" where
  "open_aof now_ms dir flush_interval f =
     (let config = default_aof_config\<lparr>cfg_flush_interval := flush_interval\<rparr> in
      case aof_open_on (path_of dir) (cfg_flush_bytes config) now_ms f of
        (Inl _, f') \<Rightarrow> (None, f')
      | (Inr _, f') \<Rightarrow> (Some (SinkAof \<lparr>q_msgs = [], q_cap = cfg_queue_cap config, q_writer = True\<rparr>), f'))"

definition node_from_parts ::
  "('r, 't, 'j, 'm, 'c) birth \<Rightarrow> lifecycle \<Rightarrow> 'm marker_engine \<Rightarrow> 's store_ops \<Rightarrow> nat \<times> nat \<Rightarrow> nat \<Rightarrow> nat \<Rightarrow>
   bytes \<Rightarrow> bytes \<Rightarrow> bytes \<Rightarrow> string option \<Rightarrow> nat \<Rightarrow> u64 \<Rightarrow> 's \<Rightarrow> 'h \<Rightarrow> 'm fence option \<Rightarrow> 'm world \<Rightarrow>
   (boot_stop + ('r, 'c, 's, 'h, 'm) node) \<times> 'm world" where
  "node_from_parts bi lc en so u elapsed now_ms members_data own_data state_data dir roll_bytes timeout s h fence w =
     (case open_journal now_ms dir roll_bytes (wd_fs w) of
        (sink, f) \<Rightarrow>
          node_from_sink bi lc en so u elapsed members_data own_data state_data sink None None timeout s h fence
            (w\<lparr>wd_fs := f\<rparr>))"

definition node_from_aof ::
  "('r, 't, 'j, 'm, 'c) birth \<Rightarrow> lifecycle \<Rightarrow> 'm marker_engine \<Rightarrow> 's store_ops \<Rightarrow> nat \<times> nat \<Rightarrow> nat \<Rightarrow> nat \<Rightarrow>
   bytes \<Rightarrow> bytes \<Rightarrow> bytes \<Rightarrow> string \<Rightarrow> nat option \<Rightarrow> 's \<Rightarrow> 'h \<Rightarrow> 'm world \<Rightarrow>
   (boot_stop + ('r, 'c, 's, 'h, 'm) node) \<times> 'm world" where
  "node_from_aof bi lc en so u elapsed now_ms members_data own_data state_data dir interval s h w =
     (case open_aof now_ms dir interval (wd_fs w) of
        (sink, f) \<Rightarrow>
          node_from_sink bi lc en so u elapsed members_data own_data state_data sink None None PRIMARY_TIMEOUT_MS s h None
            (w\<lparr>wd_fs := f\<rparr>))"

definition PANIC :: int where "PANIC = - 127"

text \<open>The safe constructors turn a panic into a code; an empty journal directory is none.\<close>

definition caught :: "(boot_stop + 'n) \<times> 'w \<Rightarrow> (int + 'n) \<times> 'w" where
  "caught r =
     (case r of
        (Inl Panics, w) \<Rightarrow> (Inl PANIC, w)
      | (Inl (Refuses code), w) \<Rightarrow> (Inl code, w)
      | (Inr n, w) \<Rightarrow> (Inr n, w))"

definition node_open_with_seams ::
  "('r, 't, 'j, 'm, 'c) birth \<Rightarrow> lifecycle \<Rightarrow> 'm marker_engine \<Rightarrow> 's store_ops \<Rightarrow> nat \<times> nat \<Rightarrow> nat \<Rightarrow> nat \<Rightarrow>
   string \<Rightarrow> string \<Rightarrow> string \<Rightarrow> string option \<Rightarrow> nat \<Rightarrow> u64 \<Rightarrow> 's \<Rightarrow> 'h \<Rightarrow> 'm fence option \<Rightarrow> 'm world \<Rightarrow>
   (int + ('r, 'c, 's, 'h, 'm) node) \<times> 'm world" where
  "node_open_with_seams bi lc en so u elapsed now_ms members own state dir roll_bytes timeout s h fence w =
     caught (node_from_parts bi lc en so u elapsed now_ms (str_bytes members) (str_bytes own) (str_bytes state)
       (if dir = Some [] then None else dir) roll_bytes timeout s h fence w)"

definition node_open_aof ::
  "('r, 't, 'j, 'm, 'c) birth \<Rightarrow> lifecycle \<Rightarrow> 'm marker_engine \<Rightarrow> 's store_ops \<Rightarrow> nat \<times> nat \<Rightarrow> nat \<Rightarrow> nat \<Rightarrow>
   string \<Rightarrow> string \<Rightarrow> string \<Rightarrow> string \<Rightarrow> nat option \<Rightarrow> 's \<Rightarrow> 'h \<Rightarrow> 'm world \<Rightarrow>
   (int + ('r, 'c, 's, 'h, 'm) node) \<times> 'm world" where
  "node_open_aof bi lc en so u elapsed now_ms members own state dir interval s h w =
     caught (node_from_aof bi lc en so u elapsed now_ms (str_bytes members) (str_bytes own) (str_bytes state) dir
       interval s h w)"

definition node_open_with_recovery_flush ::
  "('r, 't, 'j, 'm, 'c) birth \<Rightarrow> lifecycle \<Rightarrow> 'm marker_engine \<Rightarrow> 's store_ops \<Rightarrow> nat \<times> nat \<Rightarrow> nat \<Rightarrow> nat \<Rightarrow>
   string \<Rightarrow> string \<Rightarrow> string \<Rightarrow> string option \<Rightarrow> nat \<Rightarrow> recovery_flush \<Rightarrow> string \<Rightarrow> 's \<Rightarrow> 'h \<Rightarrow> 'm world \<Rightarrow>
   (int + ('r, 'c, 's, 'h, 'm) node) \<times> 'm world" where
  "node_open_with_recovery_flush bi lc en so u elapsed now_ms members own state dir roll_bytes variant scratch s h w =
     (case open_journal now_ms (if dir = Some [] then None else dir) roll_bytes (wd_fs w) of
        (sink, f) \<Rightarrow>
          caught (node_from_sink bi lc en so u elapsed (str_bytes members) (str_bytes own) (str_bytes state) sink
            (Some (variant, path_of scratch)) None PRIMARY_TIMEOUT_MS s h None (w\<lparr>wd_fs := f\<rparr>)))"

definition node_open_bench ::
  "('r, 't, 'j, 'm, 'c) birth \<Rightarrow> lifecycle \<Rightarrow> 'm marker_engine \<Rightarrow> 's store_ops \<Rightarrow> nat \<times> nat \<Rightarrow> nat \<Rightarrow> nat \<Rightarrow>
   string \<Rightarrow> string \<Rightarrow> string option \<Rightarrow> nat \<Rightarrow> string \<Rightarrow> 's \<Rightarrow> 'h \<Rightarrow> 'm world \<Rightarrow>
   (int + ('r, 'c, 's, 'h, 'm) node) \<times> 'm world" where
  "node_open_bench bi lc en so u elapsed now_ms members own dir roll_bytes ctl s h w =
     (case open_journal now_ms dir roll_bytes (wd_fs w) of
        (sink, f) \<Rightarrow>
          caught (node_from_sink bi lc en so u elapsed (str_bytes members) (str_bytes own) (str_bytes ''bench'') sink
            None (Some ctl) PRIMARY_TIMEOUT_MS s h None (w\<lparr>wd_fs := f\<rparr>)))"

text \<open>The default seams: the file store, no hook, no fence.\<close>

definition node_open ::
  "('r, 't, 'j, 'm, 'c) birth \<Rightarrow> lifecycle \<Rightarrow> 'm marker_engine \<Rightarrow> (state_snapshot \<Rightarrow> bytes option) \<Rightarrow>
   (bytes \<Rightarrow> state_snapshot option) \<Rightarrow> nat \<times> nat \<Rightarrow> nat \<Rightarrow> nat \<Rightarrow> string \<Rightarrow> string \<Rightarrow> string \<Rightarrow> string option \<Rightarrow> nat \<Rightarrow>
   u64 \<Rightarrow> 'm world \<Rightarrow> (int + ('r, 'c, file_store, unit, 'm) node) \<times> 'm world" where
  "node_open bi lc en to_vec from_slice u elapsed now_ms members own state dir roll_bytes timeout w =
     node_open_with_seams bi lc en (file_store_ops to_vec from_slice) u elapsed now_ms members own state dir roll_bytes
       timeout (default_state_store (wd_fresh w) state) () None w"

text \<open>
  The C constructors, on readable buffers: a panic aborts, and a journal directory that is no text is none.
\<close>

definition aborting :: "(boot_stop + 'n) \<times> 'w \<Rightarrow> (int + 'n) exit \<times> 'w" where
  "aborting r =
     (case r of
        (Inl Panics, w) \<Rightarrow> (Aborted, w)
      | (Inl (Refuses code), w) \<Rightarrow> (Ret (Inl code), w)
      | (Inr n, w) \<Rightarrow> (Ret (Inr n), w))"

definition lunet_lock_node_new ::
  "('r, 't, 'j, 'm, 'c) birth \<Rightarrow> lifecycle \<Rightarrow> 'm marker_engine \<Rightarrow> 's store_ops \<Rightarrow> nat \<times> nat \<Rightarrow> nat \<Rightarrow> nat \<Rightarrow>
   bytes \<Rightarrow> bytes \<Rightarrow> bytes \<Rightarrow> bytes \<Rightarrow> nat \<Rightarrow> (string \<Rightarrow> 's) \<Rightarrow> 'm world \<Rightarrow>
   (int + ('r, 'c, 's, unit, 'm) node) exit \<times> 'm world" where
  "lunet_lock_node_new bi lc en so u elapsed now_ms members_data own_data state_data dir_data roll_bytes mount w =
     (let dir = (if dir_data = [] then None else from_utf8 dir_data);
          state = (case from_utf8 state_data of None \<Rightarrow> [] | Some t \<Rightarrow> t) in
      aborting (node_from_parts bi lc en so u elapsed now_ms members_data own_data state_data dir roll_bytes
        PRIMARY_TIMEOUT_MS (mount state) () None w))"

definition lunet_lock_node_new_aof ::
  "('r, 't, 'j, 'm, 'c) birth \<Rightarrow> lifecycle \<Rightarrow> 'm marker_engine \<Rightarrow> 's store_ops \<Rightarrow> nat \<times> nat \<Rightarrow> nat \<Rightarrow> nat \<Rightarrow>
   bytes \<Rightarrow> bytes \<Rightarrow> bytes \<Rightarrow> bytes \<Rightarrow> nat \<Rightarrow> (string \<Rightarrow> 's) \<Rightarrow> 'm world \<Rightarrow>
   (int + ('r, 'c, 's, unit, 'm) node) exit \<times> 'm world" where
  "lunet_lock_node_new_aof bi lc en so u elapsed now_ms members_data own_data state_data dir_data flush_ms mount w =
     (case from_utf8 dir_data of
        None \<Rightarrow> (Ret (Inl INVALID), w)
      | Some dir \<Rightarrow>
          if dir = [] then (Ret (Inl INVALID), w)
          else
            (let state = (case from_utf8 state_data of None \<Rightarrow> [] | Some t \<Rightarrow> t) in
             aborting (node_from_aof bi lc en so u elapsed now_ms members_data own_data state_data dir
               (if flush_ms = 0 then None else Some flush_ms) (mount state) () w)))"

end
