(* ===== verification/Disk_Frame.thy ===== *)
theory Disk_Frame
  imports Staged_Write
begin

text \<open>
  What the operations of the disk seam do to the files they are not about: a staged write, a sync or a
  read leaves another file's bytes in place, and takes no durability away from it.
\<close>

section \<open>The frame\<close>

definition apart :: "path \<Rightarrow> fs \<Rightarrow> fs \<Rightarrow> bool" where
  "apart q f f' \<longleftrightarrow>
     fs_wf f' \<and> next_inode f \<le> next_inode f' \<and> dirs f' = dirs f \<and> lookup f' q = lookup f q \<and>
     (names_kept f' q = names_kept f q \<or> names_kept f' q = lookup f q) \<and>
     (\<forall>i < next_inode f. cached f' i = cached f i \<and> (kept f' i = kept f i \<or> kept f' i = cached f i))"

lemma apart_refl: "fs_wf f \<Longrightarrow> apart q f f"
  by (simp add: apart_def)

lemma apart_trans:
  assumes "apart q f g" and "apart q g h"
  shows "apart q f h"
proof -
  have "cached h i = cached f i \<and> (kept h i = kept f i \<or> kept h i = cached f i)" if "i < next_inode f" for i
  proof -
    have "cached g i = cached f i \<and> (kept g i = kept f i \<or> kept g i = cached f i)" and "i < next_inode g"
      using assms(1) that by (simp_all add: apart_def)
    moreover from this(2) have "cached h i = cached g i \<and> (kept h i = kept g i \<or> kept h i = cached g i)"
      using assms(2) by (simp add: apart_def)
    ultimately show ?thesis by auto
  qed
  with assms show ?thesis by (auto simp: apart_def)
qed

lemma untouched_apart: "untouched q f f' \<Longrightarrow> apart q f f'"
  by (simp add: untouched_def apart_def)

lemma apart_take_fault [simp]: "apart q f (take_fault g) = apart q f g"
  by (simp add: apart_def)

lemma apart_content:
  assumes "fs_wf f" and "apart q f f'"
  shows "content f' q = content f q"
  using assms by (cases "lookup f q") (auto simp: content_def apart_def fs_wf_def)

lemma apart_survivors:
  assumes "fs_wf f" and "apart q f f'"
  shows "survivors f' q \<subseteq> survivors f q"
proof
  have pin: "pinned f e c" if "pinned f' e c" and "e = lookup f q \<or> e = names_kept f q" for e c
  proof (cases e)
    case (Some i)
    then have "i < next_inode f" using that(2) assms(1) by (auto simp: fs_wf_def)
    then have "cached f' i = cached f i" "kept f' i = kept f i \<or> kept f' i = cached f i"
      using assms(2) by (auto simp: apart_def)
    with that(1) Some show ?thesis by (auto simp: pinned_def)
  qed (use that in \<open>simp add: pinned_def\<close>)
  fix c assume "c \<in> survivors f' q"
  then have "pinned f' (lookup f' q) c \<or> pinned f' (names_kept f' q) c" by (simp only: survivors_iff)
  moreover have "lookup f' q = lookup f q" "names_kept f' q = names_kept f q \<or> names_kept f' q = lookup f q"
    using assms(2) by (auto simp: apart_def)
  ultimately show "c \<in> survivors f q" using pin unfolding survivors_iff by metis
qed

lemma survivors_nonempty: "survivors f q \<noteq> {}"
proof -
  have "crash_to f f" by (simp add: crash_to_def)
  then show ?thesis by (auto simp: survivors_def)
qed

text \<open>What was durable under another path stays durable.\<close>

lemma apart_durable:
  assumes "fs_wf f" and "apart q f f'" and "survivors f q = {b}"
  shows "survivors f' q = {b}"
  using apart_survivors [OF assms(1,2)] assms(3) survivors_nonempty [of f' q] by auto

section \<open>The operations\<close>

lemma sync_all_apart:
  assumes "fs_wf f" and "sync_all h f = (r, f')"
  shows "apart q f f'"
  using assms(2) by (cases rule: sync_all_effect) (use assms(1) in \<open>simp_all add: apart_refl, simp add: apart_def\<close>)

lemma sync_path_apart:
  assumes "fs_wf f" and "sync_path d f = (r, f')"
  shows "apart q f f'"
proof -
  have "apart q f (snd (sync_path d f))"
    using assms(1)
    by (auto simp: sync_path_def guarded_def apart_def fs_wf_def split: option.split fault.split if_splits)
  with assms(2) show ?thesis by simp
qed

lemma disk_read_apart: "fs_wf f \<Longrightarrow> apart q f (snd (disk_read p f))"
  by (simp add: disk_read_def guarded_def apart_refl split: option.split fault.split)

lemma rename_apart:
  assumes "fs_wf f" and "disk_rename p p' f = (r, f')" and "q \<noteq> p" and "q \<noteq> p'" and "p' \<noteq> []" and "lookup f p = Some i"
  shows "apart q f f'"
  using assms(2,6)
proof (cases rule: rename_effect)
  case made
  have "fs_wf ((take_fault f)\<lparr>names := link p' i (unlink p (names f))\<rparr>)"
    using fs_wf_rename [of "take_fault f" p i p'] assms made by simp
  then show ?thesis using assms made by (simp add: apart_def lookup_def)
qed (use assms in \<open>simp add: apart_refl\<close>)

lemma stage_body_apart:
  assumes "fs_wf f0" and "untouched q f0 f" and "next_inode f0 \<le> inode h" and "\<not> appends h"
    and "lookup f tmp = Some (inode h)" and "p \<noteq> []" and "q \<noteq> tmp" and "q \<noteq> p"
    and "stage_body h tmp p anchor bs f = (r, f')"
  shows "apart q f0 f'"
proof -
  obtain r1 f1 where 1: "write_all h bs f = (r1, f1)" by fastforce
  have un: "untouched q f0 f1" "lookup f1 tmp = Some (inode h)"
    using 1 assms(4) by (cases rule: write_all_effect; use assms in \<open>simp add: untouched_write_at\<close>)+
  show ?thesis
  proof (cases r1)
    case (Inl e)
    with assms(9) 1 un(1) show ?thesis by (simp add: stage_body_def dbind_def untouched_apart)
  next
    case (Inr h')
    obtain r2 f2 where 2: "sync_all h' f1 = (r2, f2)" by fastforce
    have wf1: "fs_wf f1" using un(1) by (simp add: untouched_def)
    have a2: "apart q f0 f2" by (rule apart_trans [OF untouched_apart [OF un(1)] sync_all_apart [OF wf1 2]])
    have l2: "lookup f2 tmp = Some (inode h)" using 2 by (cases rule: sync_all_effect) (use un(2) in simp_all)
    obtain r3 f3 where 3: "disk_rename tmp p f2 = (r3, f3)" by fastforce
    have wf2: "fs_wf f2" using a2 by (simp add: apart_def)
    have a3: "apart q f0 f3" by (rule apart_trans [OF a2 rename_apart [OF wf2 3 assms(7,8,6) l2]])
    have "(r, f') = (case r2 of Inl e \<Rightarrow> (Inl e, f2) | Inr _ \<Rightarrow>
        (case r3 of Inl e \<Rightarrow> (Inl e, f3) | Inr _ \<Rightarrow> sync_path (parent_or_dot anchor) f3))"
      using assms(9) 1 2 3 Inr by (cases r2; cases r3) (auto simp: stage_body_def dbind_def sync_parent_def)
    moreover have "fs_wf f3" using a3 by (simp add: apart_def)
    ultimately show ?thesis
      using a2 a3 apart_trans [OF a3 sync_path_apart, of "parent_or_dot anchor" r f'] by (auto split: sum.splits)
  qed
qed

lemma cleaning_apart:
  assumes "\<And>r g'. m g = (r, g') \<Longrightarrow> apart q f g'" and "q \<noteq> tmp"
  shows "apart q f (snd (cleaning tmp m g))"
proof (cases "m g")
  case (Pair r g')
  have a: "apart q f g'" by (rule assms(1) [OF Pair])
  have "fs_wf g'" using a by (simp add: apart_def)
  from apart_trans [OF a untouched_apart [OF remove_file_untouched [OF this assms(2)]]] a Pair show ?thesis
    by (cases r) (simp_all add: cleaning_def)
qed

lemma created_apart:
  assumes "fs_wf f" and "stage_place tmp p anchor" and "q \<noteq> tmp" and "create_new_write tmp f = (Inr h, f1)"
  shows "untouched q f f1"
  using created_stage [OF assms(1) _ assms(4), of p anchor] assms(2,3) assms(4)
  by (auto simp: untouched_def create_new_write_def make_file_def Let_def lookup_def elim!: create_new_cases)

lemma staged_write_apart:
  assumes "fs_wf f" and "stage_place tmp p anchor" and "q \<noteq> tmp" and "q \<noteq> p"
  shows "apart q f (snd (staged_write tmp p anchor bs f))"
  unfolding staged_write_def
proof (rule cleaning_apart [OF _ assms(3)])
  fix r g' assume run: "dbind (create_new_write tmp) (\<lambda>h. stage_body h tmp p anchor bs) f = (r, g')"
  obtain r1 f1 where c: "create_new_write tmp f = (r1, f1)" by fastforce
  show "apart q f g'"
  proof (cases r1)
    case (Inl e)
    with run c create_new_write_fails [OF assms(1)] show ?thesis by (auto simp: dbind_def intro: untouched_apart)
  next
    case (Inr h)
    note cs = created_stage [OF assms(1,2) c [unfolded Inr]]
    have "stage_body h tmp p anchor bs f1 = (r, g')" using run c Inr by (simp add: dbind_def)
    with stage_body_apart [OF assms(1) created_apart [OF assms(1-3) c [unfolded Inr]] _ cs(4,6) _ assms(3,4)] cs(2) assms(2)
    show ?thesis by (simp add: stage_place_def)
  qed
qed

lemma created_write_apart:
  assumes "fs_wf f" and "stage_place tmp p anchor" and "q \<noteq> tmp" and "q \<noteq> p"
  shows "apart q f (snd (created_write tmp p anchor bs f))"
proof -
  obtain r1 f1 where c: "create_new_write tmp f = (r1, f1)" by fastforce
  show ?thesis
  proof (cases r1)
    case (Inl e)
    with c create_new_write_fails [OF assms(1)] show ?thesis by (auto simp: created_write_def dbind_def intro: untouched_apart)
  next
    case (Inr h)
    note cs = created_stage [OF assms(1,2) c [unfolded Inr]]
    have "apart q f (snd (cleaning tmp (stage_body h tmp p anchor bs) f1))"
      using stage_body_apart [OF assms(1) created_apart [OF assms(1-3) c [unfolded Inr]] _ cs(4,6) _ assms(3,4)] cs(2) assms(2)
      by (intro cleaning_apart [OF _ assms(3)]) (simp add: stage_place_def)
    with c Inr show ?thesis by (simp add: created_write_def dbind_def)
  qed
qed

section \<open>A disk without faults stays so\<close>

definition quiet :: "'a disk \<Rightarrow> bool" where
  "quiet m \<longleftrightarrow> (\<forall>f. faults f = [] \<longrightarrow> faults (snd (m f)) = [])"

lemma quietD: "quiet m \<Longrightarrow> faults f = [] \<Longrightarrow> m f = (r, f') \<Longrightarrow> faults f' = []"
  by (auto simp: quiet_def dest!: spec [of _ f])

lemma quiet_dbind [intro]:
  assumes "quiet m" and "\<And>x. quiet (k x)"
  shows "quiet (dbind m k)"
  unfolding quiet_def
proof (intro allI impI)
  fix f :: fs assume f: "faults f = []"
  obtain r f' where m: "m f = (r, f')" by fastforce
  note q = quietD [OF assms(1) f m]
  show "faults (snd (dbind m k f)) = []"
  proof (cases r)
    case (Inr x)
    obtain r2 f2 where "k x f' = (r2, f2)" by fastforce
    with quietD [OF assms(2) q this] m Inr show ?thesis by (simp add: dbind_def)
  qed (use m q in \<open>simp add: dbind_def\<close>)
qed

lemma quiet_ops [intro]:
  "quiet (sync_all h)" "quiet (sync_path p)" "quiet (disk_rename p q)" "quiet (remove_file p)" "quiet (disk_read p)"
  "quiet (write_all h bs)" "quiet (create_new_write p)"
  by (simp_all add: quiet_def sync_all_def sync_path_def disk_rename_def remove_file_def disk_read_def write_all_def
      write_all_at_def write_at_def next_fault_def take_fault_def create_new_write_def create_new_def make_file_def Let_def
      guarded_ok split: option.split)

lemma quiet_cleaning [intro]:
  assumes "quiet m"
  shows "quiet (cleaning tmp m)"
  unfolding quiet_def
proof (intro allI impI)
  fix f :: fs assume f: "faults f = []"
  obtain r f' where m: "m f = (r, f')" by fastforce
  have "faults (ignoring (remove_file tmp) f') = []"
    using quiet_ops(4) [of tmp] quietD [OF assms f m] by (simp add: quiet_def ignoring_def)
  with m quietD [OF assms f m] show "faults (snd (cleaning tmp m f)) = []" by (cases r) (simp_all add: cleaning_def)
qed

lemma quiet_writes [intro]: "quiet (staged_write tmp p a bs)" "quiet (created_write tmp p a bs)"
  unfolding staged_write_def created_write_def stage_body_def sync_parent_def by (intro quiet_cleaning quiet_dbind quiet_ops)+

end
