(* ===== verification/Node_Stop.thy ===== *)
theory Node_Stop
  imports Node_Claims Node_Boot Disk_Frame
begin

text \<open>
  The graceful stop and the start after it: what a stop that reported success has put on the medium, what the
  next start of the same deployment makes of it, and which identities that start refuses.
\<close>

unbundle bit_operations_syntax

section \<open>The files beside a state path\<close>

abbreviation disk_of :: "('r, 'c, 's, 'h, 'm) node \<Rightarrow> fs" where
  "disk_of n \<equiv> g_fs (n_gate n)"

lemma state_path_in_dir: "state_file_path (in_dir root ds n) = in_dir root ds (n @ ''.state'')"
  by (simp add: state_file_path_def with_suffix_def)

lemma names_apart:
  "view_record_path (in_dir root ds n) \<noteq> marker_tmp (in_dir root ds n) u"
  "state_file_path (in_dir root ds n) \<noteq> marker_tmp (in_dir root ds n) u"
  "view_record_path (in_dir root ds n) \<noteq> in_dir root ds n"
  "state_file_path (in_dir root ds n) \<noteq> in_dir root ds n"
  "view_record_path (in_dir root ds n) \<noteq> state_tmp (state_file_path (in_dir root ds n)) u"
  "view_record_path (in_dir root ds n) \<noteq> state_file_path (in_dir root ds n)"
proof -
  show "view_record_path (in_dir root ds n) \<noteq> marker_tmp (in_dir root ds n) u"
    "state_file_path (in_dir root ds n) \<noteq> marker_tmp (in_dir root ds n) u"
    "view_record_path (in_dir root ds n) \<noteq> state_tmp (state_file_path (in_dir root ds n)) u"
    by (auto simp: view_path_in_dir state_path_in_dir marker_tmp_def state_tmp_def parent_or_dot_def parent_def
        dest!: arg_cong [where f = length])
qed (simp_all add: view_path_in_dir state_path_in_dir)

section \<open>What each part of the stop leaves\<close>

text \<open>A marker round that reported success.\<close>

lemma halt_round_done:
  assumes "quorum_law (ho_marks ho)" and "g_backend (n_gate n) = BackDisk (in_dir root ds nm)" and "fs_wf (disk_of n)"
    and "halt_round ho i m n = (Inr (), n')"
  shows "me_exists (ho_marks ho) (superblock_path (in_dir root ds nm)) (g_world (n_gate n'))"
    and "me_classify (ho_marks ho) (superblock_path (in_dir root ds nm)) (g_world (n_gate n')) = Inr (i, zig_state m)"
    and "g_backend (n_gate n') = BackDisk (in_dir root ds nm)"
    and "apart (view_record_path (in_dir root ds nm)) (disk_of n) (disk_of n')"
    and "apart (state_file_path (in_dir root ds nm)) (disk_of n) (disk_of n')"
    and "n_service n' = n_service n" and "n_store n' = n_store n" and "n_replica n' = n_replica n"
    and "n_state_path n' = n_state_path n"
proof -
  let ?p = "in_dir root ds nm"
  obtain u n1 where u: "unique_name n = (u, n1)" "n_gate n1 = n_gate n" "n_service n1 = n_service n" "n_store n1 = n_store n"
      "n_replica n1 = n_replica n" "n_state_path n1 = n_state_path n"
    by (simp add: unique_name_def)
  obtain g' where g': "gate_commit (ho_marks ho) u (uniform i m) (n_gate n) = (Inr (), g')" "n' = n1\<lparr>n_gate := g'\<rparr>"
    using assms(4) u by (auto simp: halt_round_def node_gate_def split: prod.splits)
  have "me_exists (ho_marks ho) (superblock_path ?p) (g_world g') \<and>
      me_classify (ho_marks ho) (superblock_path ?p) (g_world g') = Inr (i, zig_state m) \<and> g_backend g' = BackDisk ?p \<and>
      apart (view_record_path ?p) (disk_of n) (g_fs g') \<and> apart (state_file_path ?p) (disk_of n) (g_fs g')"
    using assms(2) g'(1)
  proof (cases rule: commit_on_disk)
    case (written halves g1)
    from written(2) show ?thesis
    proof (cases rule: mirror_cases)
      case (mirror w f)
      have "f = snd (created_write (marker_tmp ?p u) ?p ?p (str_bytes (marker_line (fst halves) (snd halves) m)) (disk_of n))"
        using mirror(2) by (simp add: write_marker_def)
      moreover note created_write_apart [OF assms(3) marker_place]
      ultimately show ?thesis
        using superblock_written [OF assms(1) mirror(1)] written mirror(3) assms(2) names_apart [where root = root and ds = ds and n = nm] by simp
    qed simp
  qed simp
  with g'(2) u show "me_exists (ho_marks ho) (superblock_path ?p) (g_world (n_gate n'))"
    "me_classify (ho_marks ho) (superblock_path ?p) (g_world (n_gate n')) = Inr (i, zig_state m)"
    "g_backend (n_gate n') = BackDisk ?p" "apart (view_record_path ?p) (disk_of n) (disk_of n')"
    "apart (state_file_path ?p) (disk_of n) (disk_of n')" "n_service n' = n_service n" "n_store n' = n_store n"
    "n_replica n' = n_replica n" "n_state_path n' = n_state_path n"
    by simp_all
qed

text \<open>The drain only syncs.\<close>

lemma drain_done:
  assumes "g_backend g = BackDisk p" and "fs_wf (g_fs g)" and "gate_drain answer g = (Inr (), g')"
  shows "apart q (g_fs g) (g_fs g')" and "g_world g' = g_world g" and "g_backend g' = g_backend g"
proof -
  obtain r f where d: "drain_sink answer (g_sink g) (g_fs g) = (r, f)" by fastforce
  have "apart q (g_fs g) f"
    using d sync_all_apart [OF assms(2)] apart_refl [OF assms(2)]
    by (auto simp: drain_sink_def dret_def journal_flush_def split: option.splits journal_sink.splits)
  moreover have "g' = g\<lparr>g_fs := f, g_ops := g_ops g @ [''drain'']\<rparr>"
    using assms(1,3) d by (auto simp: gate_drain_def on_disk_def split: sum.splits)
  ultimately show "apart q (g_fs g) (g_fs g')" "g_world g' = g_world g" "g_backend g' = g_backend g" by simp_all
qed

lemma file_load_apart:
  assumes "fs_wf f"
  shows "apart q f (snd (file_load_state from_slice p f))"
proof (cases "disk_exists p f")
  case True
  with disk_read_apart [OF assms, of q p] show ?thesis
    by (cases "disk_read p f"; cases "fst (disk_read p f)") (simp_all add: file_load_state_def dbind_def dret_def)
qed (simp add: file_load_state_def apart_refl assms)

lemma load_frame:
  assumes "ho_store ho = file_store_ops to_vec from_slice" and "fs_wf (disk_of n)"
  shows "apart q (disk_of n) (disk_of (load_state_on_demand ho n))"
    and "g_world (n_gate (load_state_on_demand ho n)) = g_world (n_gate n)"
    and "g_backend (n_gate (load_state_on_demand ho n)) = g_backend (n_gate n)"
    and "n_store (load_state_on_demand ho n) = n_store n"
    and "n_state_path (load_state_on_demand ho n) = n_state_path n"
proof -
  have note_id: "fold (\<lambda>_ s. s) xs s = s" for xs :: "u64 list" and s :: file_store by (induction xs) simp_all
  obtain r s f where l: "lazy_load (ss_load (ho_store ho)) (n_clean_boot n) (service_is_empty (ho_core ho) (n_service n))
      (n_store n, disk_of n) = (r, s, f)"
    by (metis prod.exhaust)
  have sf: "s = n_store n" "apart q (disk_of n) f"
    using l assms(1) apart_refl [OF assms(2)] file_load_apart [OF assms(2), of q from_slice "fst_path (n_store n)"]
    by (auto simp: lazy_load_def file_store_ops_def split: if_splits prod.splits)
  show "apart q (disk_of n) (disk_of (load_state_on_demand ho n))"
    "g_world (n_gate (load_state_on_demand ho n)) = g_world (n_gate n)"
    "g_backend (n_gate (load_state_on_demand ho n)) = g_backend (n_gate n)"
    "n_store (load_state_on_demand ho n) = n_store n" "n_state_path (load_state_on_demand ho n) = n_state_path n"
    using l sf assms apart_refl [OF assms(2)] note_id
    by (auto simp: load_state_on_demand_def Let_def node_store_def file_store_ops_def split: sum.split option.split)
qed

lemma tick_path_id: "ho_store ho = file_store_ops to_vec from_slice \<Longrightarrow> state_tick_path ho n = (Inr (), n)"
  by (simp add: state_tick_path_def node_store_def file_store_ops_def)

text \<open>The table's flush and the second round.\<close>

lemma stop_drained_done:
  assumes "quorum_law (ho_marks ho)" and "json_roundtrip to_vec from_slice"
    and "ho_store ho = file_store_ops to_vec from_slice" and "g_backend (n_gate n) = BackDisk (in_dir root ds nm)"
    and "fs_wf (disk_of n)" and "fst_path (n_store n) = state_file_path (in_dir root ds nm)"
    and "stop_drained ho i n = (Ret NODE_OK, n')"
  shows "me_exists (ho_marks ho) (superblock_path (in_dir root ds nm)) (g_world (n_gate n'))"
    and "me_classify (ho_marks ho) (superblock_path (in_dir root ds nm)) (g_world (n_gate n')) =
      Inr (i, zig_state (lc_halt_second (ho_life ho)))"
    and "apart (view_record_path (in_dir root ds nm)) (disk_of n) (disk_of n')"
    and "\<exists>b. survivors (disk_of n') (state_file_path (in_dir root ds nm)) = {Some b} \<and>
      unframe from_slice b = Some (service_snapshot (ho_core ho) (n_service n'))"
proof -
  let ?p = "in_dir root ds nm" and ?n1 = "load_state_on_demand ho n"
  let ?snap = "service_snapshot (ho_core ho) (n_service ?n1)" and ?s = "n_store n"
  note l = load_frame [OF assms(3,5)]
  have wf1: "fs_wf (disk_of ?n1)" using l(1) by (simp add: apart_def)
  obtain n2 where n2: "node_store (ss_flush (ho_store ho) ?snap) ?n1 = (Inr (), n2)"
      "halt_round ho i (lc_halt_second (ho_life ho)) n2 = (Inr (), n')"
    using assms(7) tick_path_id [OF assms(3)]
    by (auto simp: stop_drained_def SERVICE_def NODE_OK_def split: prod.splits sum.splits if_splits)
  then obtain f2 where f2: "file_flush_state to_vec (state_file_path ?p) (fst_names ?s (fst_used ?s)) ?snap (disk_of ?n1) = (Inr (), f2)"
      "n_gate n2 = (n_gate ?n1)\<lparr>g_fs := f2\<rparr>" "n_service n2 = n_service ?n1"
    using assms(3,6) l(4) by (auto simp: node_store_def file_store_ops_def split: prod.splits)
  obtain b where b: "frame to_vec ?snap = Inr b"
      "write_atomically (state_file_path ?p) (fst_names ?s (fst_used ?s)) b (disk_of ?n1) = (Inr (), f2)"
    using f2(1) by (cases rule: file_flush_cases) auto
  have v2: "apart (view_record_path ?p) (disk_of ?n1) f2"
  proof -
    have "stage_place (state_tmp (state_file_path ?p) u) (state_file_path ?p) (state_file_path ?p)" for u
      unfolding state_path_in_dir by (rule state_place)
    from staged_write_apart [OF wf1 this names_apart(5,6), of "fst_names ?s (fst_used ?s)" b] b(2) show ?thesis
      by (simp add: write_atomically_def)
  qed
  have d2: "survivors f2 (state_file_path ?p) = {Some b}" and wf2: "fs_wf f2"
    using state_file.put_done [OF wf1, of root ds "nm @ ''.state''"] b(2) v2 by (simp_all add: state_path_in_dir apart_def)
  have g2: "g_backend (n_gate n2) = BackDisk ?p" "disk_of n2 = f2" using f2(2) l(3) assms(4) by simp_all
  have "fs_wf (disk_of n2)" using g2(2) wf2 by simp
  note h = halt_round_done [OF assms(1) g2(1) this n2(2)]
  show "me_exists (ho_marks ho) (superblock_path ?p) (g_world (n_gate n'))"
    "me_classify (ho_marks ho) (superblock_path ?p) (g_world (n_gate n')) = Inr (i, zig_state (lc_halt_second (ho_life ho)))"
    by (rule h)+
  show "apart (view_record_path ?p) (disk_of n) (disk_of n')"
    using apart_trans [OF l(1) apart_trans [OF v2]] h(4) g2(2) by simp
  have "survivors (disk_of n') (state_file_path ?p) = {Some b}"
    using apart_durable [OF wf2 _ d2] h(5) g2(2) by simp
  moreover have "unframe from_slice b = Some (service_snapshot (ho_core ho) (n_service n'))"
    using unframe_frame [OF assms(2) b(1)] h(6) f2(3) by simp
  ultimately show "\<exists>b. survivors (disk_of n') (state_file_path ?p) = {Some b} \<and>
      unframe from_slice b = Some (service_snapshot (ho_core ho) (n_service n'))" by blast
qed

text \<open>The drain window: the view record, then the sink.\<close>

lemma drain_window_done:
  assumes "g_backend (n_gate n1) = BackDisk (in_dir root ds nm)" and "fs_wf (disk_of n1)" and "n_state_path n1 = in_dir root ds nm"
    and "unique_name n1 = (u, n2)" and "node_disk (write_view_record (n_state_path n2) u r) n2 = (Inr (), n3)"
    and "node_gate (gate_drain answer) n3 = (Inr (), n4)"
  shows "survivors (disk_of n4) (view_record_path (in_dir root ds nm)) = {Some (str_bytes (view_line r))}"
    and "fs_wf (disk_of n4)" and "g_backend (n_gate n4) = BackDisk (in_dir root ds nm)" and "n_store n4 = n_store n1"
proof -
  let ?p = "in_dir root ds nm"
  have same: "n_gate n2 = n_gate n1" "n_state_path n2 = ?p" "n_store n2 = n_store n1"
    using assms(3,4) by (auto simp: unique_name_def)
  obtain f3 where f3: "write_view_record ?p u r (disk_of n1) = (Inr (), f3)" "n3 = n2\<lparr>n_gate := (n_gate n2)\<lparr>g_fs := f3\<rparr>\<rparr>"
    using assms(5) same by (auto simp: node_disk_def split: prod.splits)
  note w3 = f3(1) [unfolded write_view_record_def]
  have v3: "survivors f3 (view_record_path ?p) = {Some (str_bytes (view_line r))}" and wf3: "fs_wf f3"
    using view_file.put_done [OF assms(2) w3] view_file.put_wf [OF assms(2), of root ds nm u] w3 by (metis snd_conv)+
  obtain g4 where g4: "gate_drain answer (n_gate n3) = (Inr (), g4)" "n4 = n3\<lparr>n_gate := g4\<rparr>"
    using assms(6) by (auto simp: node_gate_def split: prod.splits)
  have b3: "g_backend (n_gate n3) = BackDisk ?p" "disk_of n3 = f3" using f3(2) same(1) assms(1) by simp_all
  have "fs_wf (g_fs (n_gate n3))" using b3(2) wf3 by simp
  note d = drain_done [OF b3(1) this g4(1)]
  show "survivors (disk_of n4) (view_record_path ?p) = {Some (str_bytes (view_line r))}" "fs_wf (disk_of n4)"
    using apart_durable [OF wf3 _ v3] d(1) [of "view_record_path ?p"] g4(2) b3(2) by (simp_all add: apart_def)
  show "g_backend (n_gate n4) = BackDisk ?p" "n_store n4 = n_store n1"
    using g4(2) d(3) b3(1) f3(2) same(3) by simp_all
qed

text \<open>The whole seated stop, from its first round.\<close>

lemma stop_done:
  assumes "quorum_law (ho_marks ho)" and "json_roundtrip to_vec from_slice"
    and "ho_store ho = file_store_ops to_vec from_slice" and "g_backend (n_gate n) = BackDisk (in_dir root ds nm)"
    and "fs_wf (disk_of n)" and "fst_path (n_store n) = state_file_path (in_dir root ds nm)"
    and "n_state_path n = in_dir root ds nm" and "\<not> n_stopped n" and "n_session n = Some i"
    and "stop ho answer n = (Ret NODE_OK, n')"
  shows "me_exists (ho_marks ho) (superblock_path (in_dir root ds nm)) (g_world (n_gate n'))"
    and "me_classify (ho_marks ho) (superblock_path (in_dir root ds nm)) (g_world (n_gate n')) =
      Inr (i, zig_state (lc_halt_second (ho_life ho)))"
    and "survivors (disk_of n') (view_record_path (in_dir root ds nm)) =
      {Some (str_bytes (view_line \<lparr>vr_era = ob_era (rp_observe (ho_replica ho) (n_replica n)),
         vr_view = ob_view (rp_observe (ho_replica ho) (n_replica n))\<rparr>))}"
    and "\<exists>b. survivors (disk_of n') (state_file_path (in_dir root ds nm)) = {Some b} \<and>
      unframe from_slice b = Some (service_snapshot (ho_core ho) (n_service n'))"
proof -
  let ?p = "in_dir root ds nm" and ?n0 = "n\<lparr>n_stopped := True, n_session := None\<rparr>"
  let ?r = "\<lparr>vr_era = ob_era (rp_observe (ho_replica ho) (n_replica n)), vr_view = ob_view (rp_observe (ho_replica ho) (n_replica n))\<rparr>"
  have "stop_seated ho answer i ?n0 = (Ret NODE_OK, n')" using assms(8-10) by (simp add: stop_def Let_def)
  then obtain n1 u n2 n3 n4 where n1: "halt_round ho i (lc_halt_first (ho_life ho)) ?n0 = (Inr (), n1)"
    and n2: "unique_name n1 = (u, n2)"
    and n3: "node_disk (write_view_record (n_state_path n2) u \<lparr>vr_era = ob_era (rp_observe (ho_replica ho) (n_replica n1)),
        vr_view = ob_view (rp_observe (ho_replica ho) (n_replica n1))\<rparr>) n2 = (Inr (), n3)"
    and n4: "node_gate (gate_drain answer) n3 = (Inr (), n4)" "stop_drained ho i n4 = (Ret NODE_OK, n')"
    by (auto simp: stop_seated_def Let_def SERVICE_def NODE_OK_def split: prod.splits sum.splits if_splits)
  have n0: "g_backend (n_gate ?n0) = BackDisk ?p" "fs_wf (disk_of ?n0)" using assms(4,5) by simp_all
  note h = halt_round_done [OF assms(1) n0 n1]
  have wf1: "fs_wf (disk_of n1)" using h(4) by (simp add: apart_def)
  have b1: "n_state_path n1 = ?p" "n_replica n1 = n_replica n" "n_store n1 = n_store n" using h(7-9) assms(7) by simp_all
  note v = drain_window_done [OF h(3) wf1 b1(1) n2 n3 n4(1), unfolded b1(2,3)]
  have s4: "fst_path (n_store n4) = state_file_path ?p" using v(4) assms(6) by simp
  note e = stop_drained_done [OF assms(1-3) v(3,2) s4 n4(2)]
  show "me_exists (ho_marks ho) (superblock_path ?p) (g_world (n_gate n'))"
    "me_classify (ho_marks ho) (superblock_path ?p) (g_world (n_gate n')) = Inr (i, zig_state (lc_halt_second (ho_life ho)))"
    "\<exists>b. survivors (disk_of n') (state_file_path ?p) = {Some b} \<and>
      unframe from_slice b = Some (service_snapshot (ho_core ho) (n_service n'))"
    by (rule e)+
  show "survivors (disk_of n') (view_record_path ?p) = {Some (str_bytes (view_line ?r))}"
    by (rule apart_durable [OF v(2) e(3) v(1)])
qed

section \<open>The start after a clean stop\<close>

lemma quiet_dret [intro]: "quiet (dret x)"
  by (simp add: quiet_def dret_def)

lemma quiet_dfail [intro]: "quiet (dfail e)"
  by (simp add: quiet_def dfail_def)

lemma read_view_quiet: "quiet (read_view_record p)"
proof -
  have "quiet (dbind (read_to_string q) (\<lambda>s. case view_parse s of None \<Rightarrow> dfail InvalidData | Some r \<Rightarrow> dret (Some r)))" for q
    unfolding read_to_string_def by (intro quiet_dbind) (auto split: option.split)
  then show ?thesis by (auto simp: quiet_def read_view_record_def Let_def)
qed

lemma read_view_apart:
  assumes "fs_wf f"
  shows "apart q f (snd (read_view_record p f))"
proof -
  obtain r f' where d: "disk_read (view_record_path p) f = (r, f')" by fastforce
  have "apart q f f'" using disk_read_apart [OF assms, of q "view_record_path p"] d by simp
  with d assms show ?thesis
    by (cases r) (auto simp: read_view_record_def read_to_string_def Let_def dbind_def dret_def dfail_def apart_refl
        split: option.splits)
qed

lemma clean_boot_frame:
  assumes "g_backend g = BackDisk (in_dir root ds nm)" and "fs_wf (g_fs g)" and "faults (g_fs g) = []"
    and "boot_clean lc en u i g = (Inr d, g')"
  shows "bd_identity d = i \<and> bd_vouched d \<and> bd_pair d = None \<and> bd_session d \<and> bd_deferred d = None"
    and "apart (state_file_path (in_dir root ds nm)) (g_fs g) (g_fs g')" and "faults (g_fs g') = []"
    and "read_view_record (in_dir root ds nm) (g_fs g) = (Inr (bd_restored d), snd (read_view_record (in_dir root ds nm) (g_fs g)))"
proof -
  let ?p = "in_dir root ds nm"
  obtain v g1 where v: "gate_view_record g = (Inr v, g1)" "gate_commit en u (uniform i (lc_clean_latch lc)) g1 = (Inr (), g')"
      "bd_restored d = v"
    and d: "bd_identity d = i \<and> bd_vouched d \<and> bd_pair d = None \<and> bd_session d \<and> bd_deferred d = None"
    using assms(4) by (auto simp: boot_clean_def split: prod.splits sum.splits)
  show "bd_identity d = i \<and> bd_vouched d \<and> bd_pair d = None \<and> bd_session d \<and> bd_deferred d = None" by (rule d)
  have r: "read_view_record ?p (g_fs g) = (Inr v, g_fs g1)" "g_backend g1 = BackDisk ?p"
    using v(1) assms(1) by (auto simp: gate_view_record_def on_disk_def split: prod.splits)
  then show "read_view_record ?p (g_fs g) = (Inr (bd_restored d), snd (read_view_record ?p (g_fs g)))" using v(3) by simp
  have a1: "apart (state_file_path ?p) (g_fs g) (g_fs g1)"
    using read_view_apart [OF assms(2), of "state_file_path ?p" ?p] r(1) by simp
  have q1: "faults (g_fs g1) = []" using quietD [OF read_view_quiet assms(3) r(1)] .
  have wf1: "fs_wf (g_fs g1)" using a1 by (simp add: apart_def)
  have "apart (state_file_path ?p) (g_fs g1) (g_fs g') \<and> faults (g_fs g') = []"
    using r(2) v(2)
  proof (cases rule: commit_on_disk)
    case (written halves h)
    from written(2) show ?thesis
    proof (cases rule: mirror_cases)
      case (mirror w f)
      have f: "created_write (marker_tmp ?p u) ?p ?p (str_bytes (marker_line (fst halves) (snd halves) (lc_clean_latch lc))) (g_fs g1) = (Inr (), f)"
        using mirror(2) by (simp add: write_marker_def)
      from created_write_apart [OF wf1 marker_place names_apart(2,4)] quietD [OF quiet_writes(2) q1 f] f mirror(3) written(4)
      show ?thesis by (metis gate.select_convs(4) gate.surjective gate.update_convs(4) snd_conv)
    qed simp
  qed simp
  with apart_trans [OF a1] show "apart (state_file_path ?p) (g_fs g) (g_fs g')" "faults (g_fs g') = []" by simp_all
qed

text \<open>
  The lifecycle machine at a clean stop: the halt's second round writes that it is proven, and copies that say so
  are a clean start of their identity, if it boots at all.
\<close>

definition clean_law :: "lifecycle \<Rightarrow> bool" where
  "clean_law lc \<longleftrightarrow>
     lc_halt_second lc = Stopped \<and> (\<forall>i. lc_boot lc (Some (uniform i Stopped)) \<in> {None, Some (Clean i)})"

text \<open>A node over the durable marker store and the default state store, both at one state path.\<close>

definition default_seams ::
  "('r, 'p, 'g, 'v, 'e, 'c, file_store, 'h, 'm) host \<Rightarrow> (state_snapshot \<Rightarrow> bytes option) \<Rightarrow>
   (bytes \<Rightarrow> state_snapshot option) \<Rightarrow> path \<Rightarrow> ('r, 'c, file_store, 'h, 'm) node \<Rightarrow> bool" where
  "default_seams ho to_vec from_slice p n \<longleftrightarrow>
     quorum_law (ho_marks ho) \<and> clean_law (ho_life ho) \<and> json_roundtrip to_vec from_slice \<and>
     ho_store ho = file_store_ops to_vec from_slice \<and> g_backend (n_gate n) = BackDisk p \<and> fs_wf (disk_of n) \<and>
     fst_path (n_store n) = state_file_path p \<and> n_state_path n = p"

lemma halted:
  assumes "default_seams ho to_vec from_slice (in_dir root ds nm) n" and "\<not> n_stopped n" and "n_session n = Some i"
    and "stop ho answer n = (Ret NODE_OK, n')" and "crash_to (disk_of n') h"
  shows "me_exists (ho_marks ho) (superblock_path (in_dir root ds nm)) (g_world (n_gate n'))"
    and "me_classify (ho_marks ho) (superblock_path (in_dir root ds nm)) (g_world (n_gate n')) = Inr (i, ZFlushed)"
    and "content h (view_record_path (in_dir root ds nm)) =
      Some (str_bytes (view_line \<lparr>vr_era = ob_era (rp_observe (ho_replica ho) (n_replica n)),
         vr_view = ob_view (rp_observe (ho_replica ho) (n_replica n))\<rparr>))"
    and "Option.bind (content h (state_file_path (in_dir root ds nm))) (unframe from_slice) =
      Some (service_snapshot (ho_core ho) (n_service n'))"
proof -
  let ?p = "in_dir root ds nm"
  have a: "quorum_law (ho_marks ho)" "json_roundtrip to_vec from_slice" "ho_store ho = file_store_ops to_vec from_slice"
      "g_backend (n_gate n) = BackDisk ?p" "fs_wf (disk_of n)" "fst_path (n_store n) = state_file_path ?p" "n_state_path n = ?p"
    and second: "lc_halt_second (ho_life ho) = Stopped"
    using assms(1) unfolding default_seams_def clean_law_def by blast+
  note d = stop_done [OF a assms(2-4)]
  show "me_exists (ho_marks ho) (superblock_path ?p) (g_world (n_gate n'))" by (rule d)
  show "me_classify (ho_marks ho) (superblock_path ?p) (g_world (n_gate n')) = Inr (i, ZFlushed)"
    using d(2) second by (simp add: zig_state_def)
  show "content h (view_record_path ?p) =
      Some (str_bytes (view_line \<lparr>vr_era = ob_era (rp_observe (ho_replica ho) (n_replica n)),
         vr_view = ob_view (rp_observe (ho_replica ho) (n_replica n))\<rparr>))"
    using d(3) survivors_view [OF assms(5), of "view_record_path ?p"] by simp
  show "Option.bind (content h (state_file_path ?p)) (unframe from_slice) =
      Some (service_snapshot (ho_core ho) (n_service n'))"
  proof -
    obtain b where b: "survivors (disk_of n') (state_file_path ?p) = {Some b}"
        "unframe from_slice b = Some (service_snapshot (ho_core ho) (n_service n'))"
      using d(4) by blast
    have "content h (state_file_path ?p) = Some b" using survivors_view [OF assms(5), of "state_file_path ?p"] b(1) by simp
    with b(2) show ?thesis by simp
  qed
qed

text \<open>A start that returned a node went through the boot gate and the identity law.\<close>

lemma started:
  assumes "descriptor bi members own state = Some (ms, om, p, sys)"
    and "node_from_sink bi lc en so u elapsed members own state sink recovery None timeout s k None w = (Inr m, w')"
  obtains d g' where "boot_gate lc en u elapsed sys recovery
      \<lparr>g_backend = BackDisk p, g_system = sys, g_world = wd_marks w, g_fs = wd_fs w, g_ops = [], g_sink = sink\<rparr> = (Inr d, g')"
    and "identity_follows bi sys (mb_id om) d"
    and "replica_of bi \<lparr>kn_primary_timeout = timeout, kn_view_change_budget = EVIDENCE_BUDGET\<rparr> (genesis_order ms) (mb_joined om) d =
      Some (n_replica m)"
    and "n_gate m = g'" and "n_store m = (if bd_vouched d then s else ss_forget so s)" and "n_service m = bi_service bi"
    and "n_clean_boot m = bd_vouched d" and "\<not> n_state_loaded m"
    and "n_session m = (if bd_session d then Some (bd_identity d) else None)"
proof -
  let ?g = "\<lparr>g_backend = BackDisk p, g_system = sys, g_world = wd_marks w, g_fs = wd_fs w, g_ops = [], g_sink = sink\<rparr>"
  let ?kn = "\<lparr>kn_primary_timeout = timeout, kn_view_change_budget = EVIDENCE_BUDGET\<rparr>"
  obtain r g' where b: "boot_gate lc en u elapsed sys recovery ?g = (r, g')" by fastforce
  note eq = assms(2) [unfolded node_from_sink_def assms(1) select_backend_def option.case prod.case b Let_def]
  obtain d where d: "r = Inr d" using eq by (cases r) auto
  have f: "identity_follows bi sys (mb_id om) d" using eq d by (cases "identity_follows bi sys (mb_id om) d") auto
  obtain rep where rep: "replica_of bi ?kn (genesis_order ms) (mb_joined om) d = Some rep"
    using eq d f by (cases "replica_of bi ?kn (genesis_order ms) (mb_joined om) d") auto
  have "m = fresh_node bi (w\<lparr>wd_marks := g_world g', wd_fs := g_fs g'\<rparr>) g' p ms d rep (if \<not> bd_vouched d then ss_forget so s else s) k"
    using eq d f rep by auto
  then show thesis using that [of d g'] b d f rep by (simp add: fresh_node_def)
qed

lemma clean_start:
  assumes "clean_law lc" and "g_backend g = BackDisk p" and "me_exists en (superblock_path p) (g_world g)"
    and "me_classify en (superblock_path p) (g_world g) = Inr (i, ZFlushed)"
    and "boot_gate lc en u elapsed sys recovery g = (Inr d, g')"
  shows "boot_clean lc en u i g = (Inr d, g')"
proof -
  have "read_copies en g = (Inr (Some (uniform i Stopped)), g)"
    using read_quorum [OF assms(2,3)] assms(4) by (simp add: engine_marker_def)
  moreover have "lc_boot lc (Some (uniform i Stopped)) \<in> {None, Some (Clean i)}" using assms(1) by (simp add: clean_law_def)
  ultimately show ?thesis using assms(5) by (auto simp: boot_gate_def)
qed

lemma own_provisioned:
  assumes "descriptor bi members own state = Some (ms, om, p, sys)"
  shows "mb_id om AND 0xFFFF = 1"
proof -
  obtain own' where "find (\<lambda>m. mb_name m = own') ms = Some om" "\<not> list_ex (\<lambda>m. mb_name m = [] \<or> \<not> provisioned_identity bi (mb_id m)) ms"
    using assms by (auto simp: descriptor_def Let_def bind_eq_Some_conv split: if_splits)
  then have "provisioned_identity bi (mb_id om)" by (auto simp: list_ex_iff find_Some_iff)
  then show ?thesis by (simp add: provisioned_identity_def)
qed

lemma loads_table:
  assumes "client_law (ho_core ho)" and "restore_law (ho_core ho)" and "bt_wf (locks snap)"
    and "ho_store ho = file_store_ops to_vec from_slice" and "n_clean_boot m" and "\<not> n_state_loaded m"
    and "service_is_empty (ho_core ho) (n_service m)" and "faults (disk_of m) = []"
    and "content (disk_of m) (fst_path (n_store m)) = Some b" and "unframe from_slice b = Some snap"
  shows "service_snapshot (ho_core ho) (n_service (load_state_on_demand ho m)) = snap"
proof -
  have "file_load_state from_slice (fst_path (n_store m)) (disk_of m) = (Inr (Some snap), disk_of m)"
    using read_content [OF assms(9,8)] content_exists [OF assms(9)] assms(10)
    by (simp add: file_load_state_def dbind_def dret_def)
  then have "n_service (load_state_on_demand ho m) = service_restore (ho_core ho) snap (n_service m)"
    using assms(4-7) by (simp add: load_state_on_demand_def Let_def node_store_def lazy_load_def file_store_ops_def)
  then show ?thesis using assms(2) restore_snapshot_locks [OF assms(1,3)]
    by (simp add: service_snapshot_def service_restore_def restore_law_def Let_def)
qed

section \<open>The claims\<close>

text \<open>
  C26: a stop that reports success has lost nothing. For a seated node over the durable marker store and the
  default state store, whatever the disk did before: once the stop answers OK, the quorum classifies the
  node's identity as flushed, and after any crash the view record reads the era and the view the replica was in
  and the state file unframes to the node's whole lock table.
\<close>

theorem stop_is_durable:
  assumes "default_seams ho to_vec from_slice (in_dir root ds nm) n" and "\<not> n_stopped n" and "n_session n = Some i"
    and "stop ho answer n = (Ret NODE_OK, n')" and "crash_to (disk_of n') h"
  shows "me_classify (ho_marks ho) (superblock_path (in_dir root ds nm)) (g_world (n_gate n')) = Inr (i, ZFlushed) \<and>
    content h (view_record_path (in_dir root ds nm)) =
      Some (str_bytes (view_line \<lparr>vr_era = ob_era (rp_observe (ho_replica ho) (n_replica n)),
         vr_view = ob_view (rp_observe (ho_replica ho) (n_replica n))\<rparr>)) \<and>
    Option.bind (content h (state_file_path (in_dir root ds nm))) (unframe from_slice) =
      Some (service_snapshot (ho_core ho) (n_service n'))"
  using halted [OF assms] by blast

text \<open>
  C27: a stop and a start are a round trip of the whole node. Take a seated node whose stop answered OK, any
  crash after it, and a start of the same deployment over what the crash left on a disk that now works. If the start
  returns a node, it runs under the stopped identity, its replica is resumed in the era and view the stopped
  one was in, and its first command sees exactly the lock table of the stopped node.
\<close>

theorem stop_then_start_resumes:
  assumes "default_seams ho to_vec from_slice (in_dir root ds nm) n" and "\<not> n_stopped n" and "n_session n = Some i"
    and "stop ho answer n = (Ret NODE_OK, n')"
    and "crash_to (disk_of n') (wd_fs w)" and "wd_marks w = g_world (n_gate n')" and "fs_wf (wd_fs w)" and "faults (wd_fs w) = []"
    and "descriptor bi members own state = Some (ms, om, in_dir root ds nm, sys)"
    and "node_from_sink bi (ho_life ho) (ho_marks ho) (ho_store ho) u elapsed members own state sink recovery None timeout s k None w =
      (Inr m, w')"
    and "fst_path s = state_file_path (in_dir root ds nm)" and "service_is_empty (ho_core ho) (bi_service bi)"
    and "client_law (ho_core ho)" and "restore_law (ho_core ho)"
    and "bt_wf (locks (service_snapshot (ho_core ho) (n_service n')))"
  shows "n_session m = Some i \<and>
    (\<exists>j pp t. bi_resume bi i j pp t \<lparr>kn_primary_timeout = timeout, kn_view_change_budget = EVIDENCE_BUDGET\<rparr> = Some (n_replica m) \<and>
       pp_current pp = (ob_era (rp_observe (ho_replica ho) (n_replica n)), ob_view (rp_observe (ho_replica ho) (n_replica n)))) \<and>
    service_snapshot (ho_core ho) (n_service (load_state_on_demand ho m)) = service_snapshot (ho_core ho) (n_service n')"
proof -
  let ?p = "in_dir root ds nm" and ?ob = "rp_observe (ho_replica ho) (n_replica n)"
  let ?g = "\<lparr>g_backend = BackDisk ?p, g_system = sys, g_world = wd_marks w, g_fs = wd_fs w, g_ops = [], g_sink = sink\<rparr>"
  note z = halted [OF assms(1-5)]
  have cl: "clean_law (ho_life ho)" and so: "ho_store ho = file_store_ops to_vec from_slice"
    using assms(1) unfolding default_seams_def by blast+
  obtain d g' where d: "boot_gate (ho_life ho) (ho_marks ho) u elapsed sys recovery ?g = (Inr d, g')"
    and r: "replica_of bi \<lparr>kn_primary_timeout = timeout, kn_view_change_budget = EVIDENCE_BUDGET\<rparr> (genesis_order ms) (mb_joined om) d =
      Some (n_replica m)"
    and m: "n_gate m = g'" "n_store m = (if bd_vouched d then s else ss_forget (ho_store ho) s)" "n_service m = bi_service bi"
      "n_clean_boot m = bd_vouched d" "\<not> n_state_loaded m" "n_session m = (if bd_session d then Some (bd_identity d) else None)"
    by (rule started [OF assms(9,10)])
  have "boot_clean (ho_life ho) (ho_marks ho) u i ?g = (Inr d, g')"
    by (rule clean_start [OF cl _ _ _ d]) (use z(1,2) assms(6) in simp_all)
  note c = clean_boot_frame [OF _ _ _ this, of root ds nm, simplified, OF assms(7,8)]
  have v: "bd_restored d = Some \<lparr>vr_era = ob_era ?ob, vr_view = ob_view ?ob\<rparr>" by (rule read_view_content [OF z(3) c(4)])
  have "\<exists>j pp t. bi_resume bi i j pp t \<lparr>kn_primary_timeout = timeout, kn_view_change_budget = EVIDENCE_BUDGET\<rparr> = Some (n_replica m) \<and>
      pp_current pp = (ob_era ?ob, ob_view ?ob)"
    using r c(1) v by (fastforce simp: replica_of_def bind_eq_Some_conv split: if_splits)
  moreover obtain b where b: "content (wd_fs w) (state_file_path ?p) = Some b"
      "unframe from_slice b = Some (service_snapshot (ho_core ho) (n_service n'))"
    using z(4) by (auto simp: bind_eq_Some_conv)
  have "content (disk_of m) (fst_path (n_store m)) = Some b"
    using apart_content [OF assms(7) c(2)] b(1) m(1,2) c(1) assms(11) by simp
  from loads_table [OF assms(13-15) so _ m(5) _ _ this b(2)]
  have "service_snapshot (ho_core ho) (n_service (load_state_on_demand ho m)) = service_snapshot (ho_core ho) (n_service n')"
    using m(1,3,4) c(1,3) assms(12) by simp
  moreover have "n_session m = Some i" using m(6) c(1) by simp
  ultimately show ?thesis by blast
qed

text \<open>
  C28: a clean stop of a later life cannot be started again. A descriptor names first lives only, and a clean start
  keeps the stopped identity, which the construction asserts to be the descriptor's own. So after a stop that
  answered OK under an identity with another crash counter than the first, no start of the deployment over what the stop left
  returns a node.
\<close>

theorem later_life_never_restarts:
  assumes "default_seams ho to_vec from_slice (in_dir root ds nm) n" and "\<not> n_stopped n" and "n_session n = Some i"
    and "stop ho answer n = (Ret NODE_OK, n')" and "i AND 0xFFFF \<noteq> 1"
    and "wd_marks w = g_world (n_gate n')"
    and "descriptor bi members own state = Some (ms, om, in_dir root ds nm, sys)"
  shows "fst (node_from_sink bi (ho_life ho) (ho_marks ho) so u elapsed members own state sink recovery None timeout s k None w) \<noteq> Inr m"
proof
  let ?p = "in_dir root ds nm"
  let ?g = "\<lparr>g_backend = BackDisk ?p, g_system = sys, g_world = wd_marks w, g_fs = wd_fs w, g_ops = [], g_sink = sink\<rparr>"
  assume "fst (node_from_sink bi (ho_life ho) (ho_marks ho) so u elapsed members own state sink recovery None timeout s k None w) = Inr m"
  then obtain w' where run:
    "node_from_sink bi (ho_life ho) (ho_marks ho) so u elapsed members own state sink recovery None timeout s k None w = (Inr m, w')"
    by (metis prod.collapse)
  note z = halted [OF assms(1-4) crash_to_refl]
  have cl: "clean_law (ho_life ho)" using assms(1) unfolding default_seams_def by blast
  obtain d g' where d: "boot_gate (ho_life ho) (ho_marks ho) u elapsed sys recovery ?g = (Inr d, g')"
    and f: "identity_follows bi sys (mb_id om) d"
    by (rule started [OF assms(7) run])
  have "boot_clean (ho_life ho) (ho_marks ho) u i ?g = (Inr d, g')"
    by (rule clean_start [OF cl _ _ _ d]) (use z(1,2) assms(6) in simp_all)
  then have "bd_identity d = i" "bd_pair d = None" by (auto simp: boot_clean_def split: prod.splits sum.splits)
  then have "mb_id om = i" using f by (simp add: identity_follows_def)
  with own_provisioned [OF assms(7)] assms(5) show False by simp
qed

section \<open>A closed instance\<close>

text \<open>A seated node with one released lock's watermark, and a deployment that starts over what it leaves.\<close>

definition demo_seams ::
  "(u64 \<times> bool, (operation_id \<times> bytes) option, unit, unit, unit, core_snap, file_store, unit, path \<Rightarrow> (u32 \<times> zig_marker) option) host" where
  "demo_seams =
     \<lparr>ho_replica = demo_replica, ho_core = doc_core, ho_parse = demo_parse, ho_encode = (\<lambda>_. Some [9]),
      ho_break_json = (\<lambda>_ _ _. []), ho_store = file_store_ops demo_to_vec demo_from_slice, ho_hook = (\<lambda>_ h. h),
      ho_marks = demo_quorum, ho_life = demo_lifecycle\<rparr>"

definition demo_seated ::
  "u32 \<Rightarrow> (u64 \<times> bool, core_snap, file_store, unit, path \<Rightarrow> (u32 \<times> zig_marker) option) node" where
  "demo_seated i =
     \<lparr>n_replica = (1, True), n_outputs = [], n_service = \<lparr>svc_core = \<lparr>cs_locks = [], cs_generations = [(5, 2)]\<rparr>, svc_durable = []\<rparr>,
      n_replies = Map.empty, n_pending = Map.empty,
      n_last_tick = 0, n_poisoned = False, n_sweep_seq = 0, n_fault_note = None, n_reincarnate_from = None,
      n_known_ids = [1], n_last_view = None, n_last_leader = None, n_last_config_era = None, n_gate = demo_gate,
      n_state_path = demo_path, n_store = \<lparr>fst_path = state_file_path demo_path, fst_names = (\<lambda>k. (1, k)), fst_used = 0\<rparr>,
      n_clean_boot = False, n_state_loaded = True, n_hook = (),
      n_session = Some i, n_deferred = None, n_stopped = False, n_clock = (\<lambda>_. Some 10), n_fresh = (\<lambda>k. (1, k)),
      n_uuids = (\<lambda>_. 3), n_reads = 0\<rparr>"

text \<open>A disk that holds nothing but the files of the node at the demonstration's state path.\<close>

definition demo_files :: "path set" where
  "demo_files = {demo_path, view_record_path demo_path, state_file_path demo_path}"

lemma demo_names:
  "view_record_path [''/'', ''s'', ''n''] = [''/'', ''s'', ''n.view'']"
  "state_file_path [''/'', ''s'', ''n''] = [''/'', ''s'', ''n.state'']"
  by (simp_all add: view_record_path_def state_file_path_def with_suffix_def)

definition clear :: "fs \<Rightarrow> bool" where
  "clear f \<longleftrightarrow> faults f = [] \<and> fs_wf f \<and> dirs f = [[''/''], [''/'', ''s'']] \<and> (\<forall>q. q \<notin> demo_files \<longrightarrow> lookup f q = None)"

lemma clear_write:
  assumes "clear f" and "stage_place tmp p a" and "p \<in> demo_files" and "tmp \<notin> demo_files" and "parent_or_dot a = [''/'', ''s'']"
    and "length tmp = 3"
  shows "\<exists>f'. created_write tmp p a b f = (Inr (), f') \<and> clear f'" and "\<exists>f'. staged_write tmp p a b f = (Inr (), f') \<and> clear f'"
proof -
  have c: "faults f = []" "fs_wf f" using assms(1) by (simp_all add: clear_def)
  have "length p = 3" using assms(3) by (auto simp: demo_files_def demo_names)
  then have d: "\<not> is_dir f p" "\<not> is_dir f tmp" "is_dir f (parent_or_dot a)"
    using assms(1,5,6) by (auto simp: is_dir_def clear_def)
  then have t: "\<not> disk_exists tmp f" using assms(1,4) by (simp add: disk_exists_def clear_def)
  have k: "clear f'" if "elsewhere_same tmp p f f'" "fs_wf f'" for f'
    using that assms(1,3) by (auto simp: clear_def elsewhere_same_def)
  show "\<exists>f'. created_write tmp p a b f = (Inr (), f') \<and> clear f'"
    using created_write_ok [OF c assms(2) t d(3,1)] k by blast
  show "\<exists>f'. staged_write tmp p a b f = (Inr (), f') \<and> clear f'"
    using staged_write_ok [OF c assms(2) t d(3,1)] k by blast
qed

lemma demo_tmps:
  "marker_tmp demo_path u \<notin> demo_files" "view_tmp demo_path u \<notin> demo_files" "state_tmp (state_file_path demo_path) u \<notin> demo_files"
  "length (marker_tmp demo_path u) = 3" "length (view_tmp demo_path u) = 3" "length (state_tmp (state_file_path demo_path) u) = 3"
  by (auto simp: demo_files_def demo_names marker_tmp_def view_tmp_def state_tmp_def parent_or_dot_def parent_def file_name_def)

lemma demo_parents: "parent_or_dot demo_path = [''/'', ''s'']" "parent_or_dot (state_file_path demo_path) = [''/'', ''s'']"
  by (simp_all add: demo_names parent_or_dot_def parent_def)

lemma clear_commit:
  assumes "clear (g_fs g)" and "g_backend g = BackDisk demo_path" and "c \<noteq> 0"
  shows "\<exists>g'. gate_commit demo_quorum u (uniform (pack_halves 42 c) m) g = (Inr (), g') \<and> clear (g_fs g') \<and>
    g_world g' = (g_world g)(superblock_path demo_path := Some (pack_halves 42 c, zig_state m)) \<and>
    g_backend g' = BackDisk demo_path \<and> g_sink g' = g_sink g"
proof -
  obtain f' where f': "write_marker demo_path u 42 c m (g_fs g) = (Inr (), f')" "clear f'"
    using clear_write(1) [OF assms(1) marker_place _ demo_tmps(1) demo_parents(1) demo_tmps(4),
        of u "str_bytes (marker_line 42 c m)"]
    by (auto simp: write_marker_def demo_files_def)
  have "unat (pack_halves 42 c) \<noteq> 0" using assms(3) by (simp add: unat_pack unat_eq_zero)
  then have "pack_halves 42 c \<noteq> 0" by (metis unat_0)
  with f' assms show ?thesis
    by (auto simp: gate_commit_def commit_disk_def quorum_then_mirror_def on_disk_def demo_quorum_def unpack_pack Let_def)
qed

lemma clear_view:
  assumes "clear f"
  shows "\<exists>f'. write_view_record demo_path u r f = (Inr (), f') \<and> clear f'"
  using clear_write(2) [OF assms view_place _ demo_tmps(2) demo_parents(1) demo_tmps(5), of u "str_bytes (view_line r)"]
  by (auto simp: write_view_record_def demo_files_def)

lemma clear_flush:
  assumes "clear f"
  shows "\<exists>f'. file_flush_state demo_to_vec (state_file_path demo_path) u demo_snap f = (Inr (), f') \<and> clear f'"
proof -
  obtain b where b: "frame demo_to_vec demo_snap = Inr b" using demo_frame by blast
  have "stage_place (state_tmp (state_file_path demo_path) u) (state_file_path demo_path) (state_file_path demo_path)"
    unfolding state_path_in_dir by (rule state_place)
  from clear_write(2) [OF assms this _ demo_tmps(3) demo_parents(2) demo_tmps(6), of b] b show ?thesis
    by (auto simp: file_flush_state_def write_atomically_def demo_files_def)
qed

lemma clear_disk: "clear (g_fs demo_gate)"
  using state_disk_wf by (simp add: clear_def demo_gate_def state_disk_def lookup_def)

lemma demo_stops:
  assumes "c \<noteq> 0"
  shows "\<exists>n'. stop demo_seams (Inr ()) (demo_seated (pack_halves 42 c)) = (Ret NODE_OK, n') \<and> clear (disk_of n') \<and>
    service_snapshot doc_core (n_service n') = demo_snap"
proof -
  let ?i = "pack_halves 42 c"
  obtain g1 where g1: "gate_commit demo_quorum (1, 0) (uniform ?i Stopping) demo_gate = (Inr (), g1)" "clear (g_fs g1)"
      "g_backend g1 = BackDisk demo_path" "g_sink g1 = None"
    using clear_commit [OF clear_disk _ assms, of "(1, 0)" Stopping] by (auto simp: demo_gate_def)
  obtain f2 where f2: "write_view_record demo_path (1, 1) \<lparr>vr_era = 2, vr_view = 0\<rparr> (g_fs g1) = (Inr (), f2)" "clear f2"
    using clear_view [OF g1(2)] by blast
  obtain f3 where f3: "file_flush_state demo_to_vec (state_file_path demo_path) (1, 0) demo_snap f2 = (Inr (), f3)" "clear f3"
    using clear_flush [OF f2(2)] by blast
  let ?g3 = "g1\<lparr>g_ops := g_ops g1 @ [''drain''], g_fs := f3\<rparr>"
  obtain g4 where g4: "gate_commit demo_quorum (1, Suc (Suc 0)) (uniform ?i Stopped) ?g3 = (Inr (), g4)" "clear (g_fs g4)"
    using clear_commit [OF _ _ assms, of ?g3 "(1, Suc (Suc 0))" Stopped] f3(2) g1(3) by auto
  show ?thesis
    using g1 f2(1) f3(1) g4
    by (simp add: stop_def stop_seated_def stop_drained_def halt_round_def unique_name_def node_gate_def node_disk_def
        node_store_def load_state_on_demand_def state_tick_path_def gate_drain_def drain_sink_def on_disk_def dret_def
        demo_seams_def demo_seated_def demo_lifecycle_def demo_replica_def file_store_ops_def doc_core_def
        service_snapshot_def demo_snap_def bt_map_def Let_def)
qed

lemma demo_default_seams: "default_seams demo_seams demo_to_vec demo_from_slice demo_path (demo_seated i)"
proof -
  have "clean_law demo_lifecycle" by (simp add: clean_law_def demo_lifecycle_def)
  then show ?thesis using demo_quorum_law demo_json state_disk_wf
    by (simp add: default_seams_def demo_seams_def demo_seated_def demo_gate_def)
qed

theorem stop_is_durable_witness:
  "\<exists>n'. stop demo_seams (Inr ()) (demo_seated (pack_halves 42 1)) = (Ret NODE_OK, n') \<and>
     me_classify demo_quorum (superblock_path demo_path) (g_world (n_gate n')) = Inr (pack_halves 42 1, ZFlushed) \<and>
     content (disk_of n') (view_record_path demo_path) = Some (str_bytes (view_line \<lparr>vr_era = 2, vr_view = 0\<rparr>)) \<and>
     Option.bind (content (disk_of n') (state_file_path demo_path)) (unframe demo_from_slice) = Some demo_snap"
proof -
  let ?n = "demo_seated (pack_halves 42 1)"
  obtain n' where n': "stop demo_seams (Inr ()) ?n = (Ret NODE_OK, n')" "service_snapshot doc_core (n_service n') = demo_snap"
    using demo_stops [of 1] by auto
  have s: "\<not> n_stopped ?n" "n_session ?n = Some (pack_halves 42 1)" by (simp_all add: demo_seated_def)
  have "ho_marks demo_seams = demo_quorum" "ho_core demo_seams = doc_core"
    "rp_observe (ho_replica demo_seams) (n_replica ?n) = \<lparr>ob_status = 0, ob_era = 2, ob_view = 0, ob_accepted = 1, ob_committed = 1, ob_applied = 1\<rparr>"
    by (simp_all add: demo_seams_def demo_seated_def demo_replica_def)
  with stop_is_durable [OF demo_default_seams s n'(1) crash_to_refl] n' show ?thesis by simp
qed

text \<open>The deployment: one member of system 42 at the same state path.\<close>

definition demo_birth :: "(u64 \<times> bool, u32, unit, path \<Rightarrow> (u32 \<times> zig_marker) option, core_snap) birth" where
  "demo_birth =
     \<lparr>bi_max_members = 16, bi_is_lawful = (\<lambda>_. True),
      bi_system_id = (\<lambda>i. if i = pack_halves 42 1 then Some 42 else None), bi_next_life = (\<lambda>_. None),
      bi_table = 0, bi_extend = (\<lambda>t _ _. Some (t + 1)), bi_table_era = (\<lambda>t. t), bi_VOID_SLOT = 1, bi_INIT_SLOT = 2,
      bi_SLOT_NONE = 0, bi_ERA_INITIAL = 1, bi_VIEW_INITIAL = 0, bi_log = (), bi_install_suffix = (\<lambda>_ _ _. Some ()),
      bi_reincarnate = (\<lambda>_ _ _ _ _ _. None), bi_resume = (\<lambda>_ _ _ _ _. Some (7, True)), bi_join = (\<lambda>_ _ _ _ _. None),
      bi_provision = (\<lambda>_ _ _ _. Some (0, False)), bi_connect = (\<lambda>_. None), bi_service = doc_empty\<rparr>"

abbreviation demo_member :: member_entry where
  "demo_member \<equiv> \<lparr>mb_id = pack_halves 42 1, mb_name = ''a'', mb_joined = False\<rparr>"

definition demo_members :: bytes where
  "demo_members = str_bytes (show_dec (unat (pack_halves 42 1)) @ '':a'')"

lemma digit_bytes:
  assumes "c \<in> set (show_dec n)"
  shows "c \<noteq> CHR '':''" and "char_byte c \<noteq> 0"
proof -
  obtain d where d: "d < 10" "c = digit_char d" using show_dec_digits [OF assms] by blast
  have "of_char c = 48 + d" using d by (simp add: digit_char_def)
  then show "c \<noteq> CHR '':''" "char_byte c \<noteq> 0" using d(1) unat_char_byte [of c] by (auto simp del: unat_char_byte)
qed

lemma split_zero_free: "0 \<notin> set b \<Longrightarrow> split_zero b = [b]"
  by (induction b) auto

lemma parse_member_line:
  assumes "CHR '':'' \<notin> set nm" and "list_all (\<lambda>c. char_byte c < 0x80) nm"
  shows "parse_member_entry (str_bytes (show_dec (unat i) @ CHR '':'' # nm)) = Some \<lparr>mb_id = i, mb_name = nm, mb_joined = False\<rparr>"
proof -
  have wf: "text_wf (show_dec (unat i) @ CHR '':'' # nm)"
    by (rule ascii_text_wf) (use show_dec_ascii [of "unat i"] assms(2) in \<open>simp add: char_byte_def\<close>)
  have "CHR '':'' \<notin> set (show_dec (unat i))" using digit_bytes(1) by blast
  moreover have "split_once (CHR '':'') nm = None" using assms(1) by (induction nm) auto
  ultimately show ?thesis unfolding parse_member_entry_def from_utf8_str [OF wf] by (simp add: split_once_free)
qed

lemma demo_descriptor:
  "descriptor demo_birth demo_members (str_bytes ''a'') (str_bytes ''/s/n'') = Some ([demo_member], demo_member, demo_path, 42)"
proof -
  have "0 \<notin> set demo_members"
    using digit_bytes(2) [of _ "unat (pack_halves 42 1)"] by (auto simp: demo_members_def str_bytes_def char_byte_def)
  then have "parse_members (split_zero demo_members) = Some [demo_member]"
    using parse_member_line [of "''a''" "pack_halves 42 1"] by (simp add: split_zero_free demo_members_def char_byte_def)
  moreover have "from_utf8 (str_bytes ''a'') = Some ''a''" "from_utf8 (str_bytes ''/s/n'') = Some ''/s/n''"
    by (rule from_utf8_str, rule ascii_text_wf, simp add: char_byte_def)+
  moreover have "pack_halves 42 1 = 2752513" by (simp add: pack_halves_def)
  moreover have "path_of ''/s/n'' = demo_path" by (simp add: path_of_def)
  ultimately show ?thesis
    by (simp add: descriptor_def demo_birth_def provisioned_identity_def)
qed

definition demo_world :: "(u64 \<times> bool, core_snap, file_store, unit, path \<Rightarrow> (u32 \<times> zig_marker) option) node \<Rightarrow>
    (path \<Rightarrow> (u32 \<times> zig_marker) option) world" where
  "demo_world n =
     \<lparr>wd_marks = g_world (n_gate n), wd_fs = disk_of n, wd_clock = (\<lambda>_. Some 20), wd_fresh = (\<lambda>k. (2, k)), wd_uuids = (\<lambda>_. 4)\<rparr>"

abbreviation demo_restart where
  "demo_restart w \<equiv>
     node_from_sink demo_birth (ho_life demo_seams) (ho_marks demo_seams) (ho_store demo_seams) (2, 0) 5 demo_members
       (str_bytes ''a'') (str_bytes ''/s/n'') None None None PRIMARY_TIMEOUT_MS
       \<lparr>fst_path = state_file_path demo_path, fst_names = (\<lambda>k. (2, k)), fst_used = 0\<rparr> () None w"

lemma demo_restarts:
  assumes "stop demo_seams (Inr ()) (demo_seated (pack_halves 42 1)) = (Ret NODE_OK, n')" and "clear (disk_of n')"
  shows "\<exists>m w'. demo_restart (demo_world n') = (Inr m, w')"
proof -
  let ?i = "pack_halves 42 1" and ?n = "demo_seated (pack_halves 42 1)"
  let ?g = "\<lparr>g_backend = BackDisk demo_path, g_system = 42, g_world = g_world (n_gate n'), g_fs = disk_of n', g_ops = [], g_sink = None\<rparr>"
  have s: "\<not> n_stopped ?n" "n_session ?n = Some ?i" by (simp_all add: demo_seated_def)
  note z = halted [OF demo_default_seams s assms(1) crash_to_refl]
  have ho: "ho_marks demo_seams = demo_quorum" "ho_life demo_seams = demo_lifecycle"
    "rp_observe (ho_replica demo_seams) (n_replica ?n) = \<lparr>ob_status = 0, ob_era = 2, ob_view = 0, ob_accepted = 1, ob_committed = 1, ob_applied = 1\<rparr>"
    by (simp_all add: demo_seams_def demo_seated_def demo_replica_def)
  have read: "read_copies demo_quorum ?g = (Inr (Some (uniform ?i Stopped)), ?g)"
    using read_quorum [of ?g demo_path demo_quorum] z(1,2) ho(1) by (simp add: engine_marker_def)
  have "read_view_record demo_path (disk_of n') = (Inr (Some \<lparr>vr_era = 2, vr_view = 0\<rparr>), disk_of n')"
    using z(3) ho(3) assms(2) read_content [OF z(3)] content_exists [OF z(3)]
    by (simp add: clear_def read_view_record_def Let_def read_to_string_def dbind_def dret_def from_utf8_str [OF view_line_wf] view_parse_line)
  then have view: "gate_view_record ?g = (Inr (Some \<lparr>vr_era = 2, vr_view = 0\<rparr>), ?g)" by (simp add: gate_view_record_def on_disk_def)
  obtain g' where g': "gate_commit demo_quorum (2, 0) (uniform ?i Restarting) ?g = (Inr (), g')"
    using clear_commit [of ?g 1 "(2, 0)" Restarting] assms(2) by auto
  let ?d = "\<lparr>bd_session = True, bd_deferred = None, bd_identity = ?i, bd_vouched = True, bd_pair = None, bd_flush = None,
    bd_restored = Some \<lparr>vr_era = 2, vr_view = 0\<rparr>\<rparr>"
  have life: "lc_boot demo_lifecycle (Some (uniform ?i Stopped)) = Some (Clean ?i)" "lc_clean_latch demo_lifecycle = Restarting"
    by (simp_all add: demo_lifecycle_def)
  have gate: "boot_gate demo_lifecycle demo_quorum (2, 0) 5 42 None ?g = (Inr ?d, g')"
    using read view g' life by (simp add: boot_gate_def boot_clean_def)
  have "identity_follows demo_birth 42 ?i ?d" "replica_of demo_birth kn (genesis_order [demo_member]) False ?d = Some (7, True)" for kn
    by (simp_all add: identity_follows_def demo_birth_def replica_of_def joiner_parts_def Let_def)
  then show ?thesis using gate ho
    by (fastforce simp: node_from_sink_def demo_descriptor select_backend_def demo_world_def Let_def)
qed

theorem stop_then_start_resumes_witness:
  "\<exists>n' m w'. stop demo_seams (Inr ()) (demo_seated (pack_halves 42 1)) = (Ret NODE_OK, n') \<and>
     demo_restart (demo_world n') = (Inr m, w') \<and> n_session m = Some (pack_halves 42 1) \<and>
     service_snapshot doc_core (n_service (load_state_on_demand demo_seams m)) = demo_snap"
proof -
  let ?n = "demo_seated (pack_halves 42 1)"
  obtain n' where n': "stop demo_seams (Inr ()) ?n = (Ret NODE_OK, n')" "clear (disk_of n')"
      "service_snapshot doc_core (n_service n') = demo_snap"
    using demo_stops [of 1] by auto
  obtain m w' where m: "demo_restart (demo_world n') = (Inr m, w')" using demo_restarts [OF n'(1,2)] by blast
  have s: "\<not> n_stopped ?n" "n_session ?n = Some (pack_halves 42 1)" by (simp_all add: demo_seated_def)
  have ho: "ho_core demo_seams = doc_core" by (simp add: demo_seams_def)
  have "n_session m = Some (pack_halves 42 1) \<and>
      service_snapshot (ho_core demo_seams) (n_service (load_state_on_demand demo_seams m)) =
      service_snapshot (ho_core demo_seams) (n_service n')"
    using stop_then_start_resumes [OF demo_default_seams s n'(1) _ _ _ _ demo_descriptor m] n'(2,3)
    by (simp add: ho demo_world_def crash_to_refl clear_def demo_birth_def service_is_empty_def doc_core_def doc_empty_def
        doc_client_law [unfolded doc_core_def] doc_restore_law [unfolded doc_core_def] demo_snap_def bt_wf_def)
  with n' m ho show ?thesis by auto
qed

theorem later_life_never_restarts_witness:
  "\<exists>n'. stop demo_seams (Inr ()) (demo_seated (pack_halves 42 2)) = (Ret NODE_OK, n') \<and>
     (\<forall>m. fst (demo_restart (demo_world n')) \<noteq> Inr m)"
proof -
  let ?n = "demo_seated (pack_halves 42 2)"
  obtain n' where n': "stop demo_seams (Inr ()) ?n = (Ret NODE_OK, n')" using demo_stops [of 2] by auto
  have s: "\<not> n_stopped ?n" "n_session ?n = Some (pack_halves 42 2)" by (simp_all add: demo_seated_def)
  have later: "pack_halves 42 2 AND 0xFFFF \<noteq> 1" by (simp add: pack_halves_def)
  have marks: "wd_marks (demo_world n') = g_world (n_gate n')" by (simp add: demo_world_def)
  show ?thesis
    by (intro exI [of _ n'] conjI allI n') (rule later_life_never_restarts [OF demo_default_seams s n' later marks demo_descriptor])
qed

end
