(* ===== verification/Membership.thy ===== *)
theory Membership
  imports Text_Fields Utf8_Text
begin

text \<open>
  The membership snapshots of the lease sequencer's host (\<^verbatim>\<open>examples/lease-sequencer/src/membership.rs\<close>
  and the packet handler of \<^verbatim>\<open>main.rs\<close>): the wire pair, the order on configurations, the
  weighted quorum, the host's membership model with its sidecar text, and the discovery at a boot.
\<close>

section \<open>Snapshots\<close>

definition SNAPSHOT_REQUEST :: u8 where "SNAPSHOT_REQUEST = 1"
definition SNAPSHOT_RESPONSE :: u8 where "SNAPSHOT_RESPONSE = 2"
definition MAX_MEMBERS :: nat where "MAX_MEMBERS = 16"

record snapshot_member =
  sm_id :: u32
  sm_weight :: u32
  sm_endpoint :: string

record snapshot =
  sn_era :: u32
  sn_slot :: u64
  sn_members :: "snapshot_member list"

definition rsplit_once :: "char \<Rightarrow> string \<Rightarrow> (string \<times> string) option" where
  "rsplit_once d s = map_option (\<lambda>(a, b). (rev b, rev a)) (split_once d (rev s))"

definition strip_brackets :: "string \<Rightarrow> string option" where
  "strip_brackets h =
     (if h \<noteq> [] \<and> hd h = CHR ''['' \<and> tl h \<noteq> [] \<and> last (tl h) = CHR '']'' then Some (butlast (tl h)) else None)"

definition valid_octet :: "string \<Rightarrow> bool" where
  "valid_octet octet \<longleftrightarrow>
     (let v = (case parse_u16 octet of None \<Rightarrow> - 1 | Some x \<Rightarrow> x) in octet \<noteq> [] \<and> length octet \<le> 3 \<and> v \<le> 255)"

definition valid_endpoint :: "string \<Rightarrow> bool" where
  "valid_endpoint endpoint =
     (case rsplit_once (CHR '':'') endpoint of
        None \<Rightarrow> False
      | Some (host, port) \<Rightarrow>
          (case parse_u16 port of
             None \<Rightarrow> False
           | Some p \<Rightarrow>
               if p = 0 then False
               else
                 (case strip_brackets host of
                    Some v6 \<Rightarrow> v6 \<noteq> [] \<and> length (split_on (CHR '':'') v6) \<ge> 3
                  | None \<Rightarrow>
                      (let octets = split_on (CHR ''.'') host in length octets = 4 \<and> list_all valid_octet octets))))"

section \<open>The wire pair\<close>

definition encode_request :: bytes where
  "encode_request = [SNAPSHOT_REQUEST]"

definition decode_request :: "bytes \<Rightarrow> bool" where
  "decode_request payload \<longleftrightarrow> payload = [SNAPSHOT_REQUEST]"

fun ascending :: "snapshot_member list \<Rightarrow> bool" where
  "ascending (a # b # ms) \<longleftrightarrow> sm_id a < sm_id b \<and> ascending (b # ms)"
| "ascending _ \<longleftrightarrow> True"

definition encode_member :: "snapshot_member \<Rightarrow> bytes" where
  "encode_member m =
     be_bytes 4 (sm_id m) @ be_bytes 4 (sm_weight m) @
     be_bytes 2 (word_of_nat (length (str_bytes (sm_endpoint m))) :: u16) @ str_bytes (sm_endpoint m)"

text \<open>A violated assertion panics.\<close>

definition encode_response :: "snapshot \<Rightarrow> bytes option" where
  "encode_response s =
     (let ms = sn_members s in
      if ms = [] \<or> length ms > MAX_MEMBERS then None
      else if \<not> ascending ms then None
      else if \<not> list_all (\<lambda>m. valid_endpoint (sm_endpoint m)) ms then None
      else
        Some (SNAPSHOT_RESPONSE # be_bytes 4 (sn_era s) @ be_bytes 8 (sn_slot s) @
              be_bytes 2 (word_of_nat (length ms) :: u16) @ concat (map encode_member ms)))"

text \<open>One member at a cursor, and the cursor behind it.\<close>

definition decode_member :: "bytes \<Rightarrow> nat \<Rightarrow> (snapshot_member \<times> nat) option" where
  "decode_member payload cur =
     (if length payload < cur + 10 then None
      else
        (let i = be_word (slice cur (cur + 4) payload); w = be_word (slice (cur + 4) (cur + 8) payload);
             n = unat (be_word (slice (cur + 8) (cur + 10) payload) :: u16) in
         if length payload < cur + 10 + n then None
         else
           (case from_utf8 (slice (cur + 10) (cur + 10 + n) payload) of
              None \<Rightarrow> None
            | Some endpoint \<Rightarrow> Some (\<lparr>sm_id = i, sm_weight = w, sm_endpoint = endpoint\<rparr>, cur + 10 + n))))"

fun decode_members :: "bytes \<Rightarrow> nat \<Rightarrow> nat \<Rightarrow> u32 option \<Rightarrow> (snapshot_member list \<times> nat) option" where
  "decode_members payload 0 cur previous = Some ([], cur)"
| "decode_members payload (Suc k) cur previous =
     (case decode_member payload cur of
        None \<Rightarrow> None
      | Some (m, cur') \<Rightarrow>
          if (case previous of None \<Rightarrow> False | Some p \<Rightarrow> sm_id m \<le> p) then None
          else if \<not> valid_endpoint (sm_endpoint m) then None
          else map_option (\<lambda>(ms, c). (m # ms, c)) (decode_members payload k cur' (Some (sm_id m))))"

definition decode_response :: "bytes \<Rightarrow> snapshot option" where
  "decode_response payload =
     (if length payload < 15 \<or> payload ! 0 \<noteq> SNAPSHOT_RESPONSE then None
      else
        (let era = be_word (slice 1 5 payload); slot = be_word (slice 5 13 payload);
             n = unat (be_word (slice 13 15 payload) :: u16) in
         if \<not> (1 \<le> n \<and> n \<le> MAX_MEMBERS) then None
         else
           (case decode_members payload n 15 None of
              None \<Rightarrow> None
            | Some (ms, cur) \<Rightarrow>
                if cur \<noteq> length payload then None else Some \<lparr>sn_era = era, sn_slot = slot, sn_members = ms\<rparr>)))"

section \<open>Order and quorum\<close>

definition newer :: "u32 \<Rightarrow> u64 \<Rightarrow> u32 \<Rightarrow> u64 \<Rightarrow> bool" where
  "newer era slot own_era own_slot \<longleftrightarrow> era > own_era \<or> era = own_era \<and> slot > own_slot"

definition member_weight :: "snapshot_member list \<Rightarrow> u32 \<Rightarrow> u64 option" where
  "member_weight ms i = map_option (\<lambda>m. ucast (sm_weight m)) (find (\<lambda>m. sm_id m = i) ms)"

definition quorum_reached :: "snapshot_member list \<Rightarrow> u32 set \<Rightarrow> bool" where
  "quorum_reached ms responded \<longleftrightarrow>
     (let total = sum_list (map (\<lambda>m. ucast (sm_weight m) :: u64) ms);
          threshold = total div 2 + 1;
          reached = sum_list (map (\<lambda>m. ucast (sm_weight m)) (filter (\<lambda>m. sm_id m \<in> responded) ms)) in
      reached \<ge> threshold)"

section \<open>The host's model\<close>

definition descriptor_model :: "(u32 \<times> string \<times> u16 \<times> bool) list \<Rightarrow> snapshot_member list" where
  "descriptor_model nodes =
     sort_key sm_id
       (map (\<lambda>(i, host, port, _). \<lparr>sm_id = i, sm_weight = 1, sm_endpoint = host @ '':'' @ show_dec (unat port)\<rparr>)
         (filter (\<lambda>(_, _, _, genesis). genesis) nodes))"

record model =
  mo_era :: u32
  mo_slot :: u64
  mo_members :: "snapshot_member list"

definition model_adopt :: "snapshot \<Rightarrow> model \<Rightarrow> bool \<times> model" where
  "model_adopt s mo =
     (if \<not> newer (sn_era s) (sn_slot s) (mo_era mo) (mo_slot mo) then (False, mo)
      else (True, mo\<lparr>mo_era := sn_era s, mo_slot := sn_slot s, mo_members := sn_members s\<rparr>))"

definition apply_change :: "string \<Rightarrow> u32 \<Rightarrow> string \<Rightarrow> model \<Rightarrow> bool \<times> model" where
  "apply_change action i endpoint mo =
     (let ms = mo_members mo; exists_already = list_ex (\<lambda>m. sm_id m = i) ms;
          updated = filter (\<lambda>m. sm_id m \<noteq> i) ms;
          finish = (\<lambda>us. (True, mo\<lparr>mo_members := sort_key sm_id us\<rparr>)) in
      if action = ''join'' then
        (if exists_already \<or> \<not> valid_endpoint endpoint then (False, mo)
         else finish (updated @ [\<lparr>sm_id = i, sm_weight = 0, sm_endpoint = endpoint\<rparr>]))
      else if action = ''increment'' \<or> action = ''decrement'' then
        (case find (\<lambda>m. sm_id m = i) ms of
           None \<Rightarrow> (False, mo)
         | Some m \<Rightarrow>
             finish (updated @
               [\<lparr>sm_id = i, sm_weight = (if action = ''increment'' then 1 else 0), sm_endpoint = sm_endpoint m\<rparr>]))
      else if action = ''leave'' then (if \<not> exists_already then (False, mo) else finish updated)
      else (False, mo))"

text \<open>The era wraps at the width in a release build.\<close>

definition model_advance :: "u64 \<Rightarrow> model \<Rightarrow> model" where
  "model_advance slot mo = mo\<lparr>mo_era := mo_era mo + 1, mo_slot := slot\<rparr>"

definition model_snapshot :: "model \<Rightarrow> snapshot" where
  "model_snapshot mo = \<lparr>sn_era = mo_era mo, sn_slot = mo_slot mo, sn_members = mo_members mo\<rparr>"

section \<open>The sidecar text\<close>

definition sidecar_path :: "string \<Rightarrow> string" where
  "sidecar_path state = state @ ''.membership''"

definition QUOTE :: char where "QUOTE = CHR 0x22"

text \<open>A quoted key with its colon.\<close>

definition json_key :: "string \<Rightarrow> string" where
  "json_key k = QUOTE # k @ [QUOTE, CHR '':'']"

definition sidecar_format :: string where
  "sidecar_format = json_key ''format'' @ QUOTE # ''membership-sidecar/v1'' @ [QUOTE]"

definition sidecar_header :: "snapshot \<Rightarrow> string" where
  "sidecar_header s =
     ''{'' @ sidecar_format @ '','' @ json_key ''era'' @ show_dec (unat (sn_era s)) @ '','' @
     json_key ''slot'' @ show_dec (unat (sn_slot s)) @ ''}''"

definition sidecar_line :: "snapshot_member \<Rightarrow> string" where
  "sidecar_line m =
     ''{'' @ json_key ''id'' @ show_dec (unat (sm_id m)) @ '','' @ json_key ''weight'' @ show_dec (unat (sm_weight m)) @ '','' @
     json_key ''endpoint'' @ QUOTE # sm_endpoint m @ QUOTE # ''}''"

definition encode_sidecar :: "snapshot \<Rightarrow> string" where
  "encode_sidecar s =
     sidecar_header s @ [CHR 0x0A] @ concat (map (\<lambda>m. sidecar_line m @ [CHR 0x0A]) (sn_members s))"

text \<open>\<^verbatim>\<open>str::split(pat).nth(1)\<close>: the text between the first two occurrences of a pattern.\<close>

fun before :: "string \<Rightarrow> string \<Rightarrow> string" where
  "before pat [] = []"
| "before pat (c # cs) = (if take (length pat) (c # cs) = pat then [] else c # before pat cs)"

fun after :: "string \<Rightarrow> string \<Rightarrow> string option" where
  "after pat [] = None"
| "after pat (c # cs) =
     (if take (length pat) (c # cs) = pat then Some (drop (length pat) (c # cs)) else after pat cs)"

definition split_second :: "string \<Rightarrow> string \<Rightarrow> string option" where
  "split_second pat s = map_option (before pat) (after pat s)"

function trim_end_matches :: "string \<Rightarrow> string \<Rightarrow> string" where
  "trim_end_matches pat s =
     (if pat \<noteq> [] \<and> length pat \<le> length s \<and> drop (length s - length pat) s = pat
      then trim_end_matches pat (take (length s - length pat) s) else s)"
  by pat_completeness auto

termination
  by (relation "measure (\<lambda>(_, s). length s)") (simp, simp flip: length_greater_0_conv, arith?)

declare trim_end_matches.simps [simp del]

text \<open>\<^verbatim>\<open>str::lines\<close>: a line ends with a line feed, before which one carriage return goes; the last line may lack it.\<close>

definition text_lines :: "string \<Rightarrow> string list" where
  "text_lines s =
     (let parts = split_on (CHR 0x0A) s in
      map (\<lambda>l. if l \<noteq> [] \<and> last l = CHR 0x0D then butlast l else l) (butlast parts) @
      (if last parts = [] then [] else [last parts]))"

definition field_u32 :: "string \<Rightarrow> char \<Rightarrow> string \<Rightarrow> u32 option" where
  "field_u32 pat d line = Option.bind (split_second pat line) (\<lambda>t. parse_u32 (hd (split_on d t)))"

definition field_u64 :: "string \<Rightarrow> char \<Rightarrow> string \<Rightarrow> u64 option" where
  "field_u64 pat d line = Option.bind (split_second pat line) (\<lambda>t. parse_u64 (hd (split_on d t)))"

fun decode_sidecar_members :: "string list \<Rightarrow> snapshot_member list \<Rightarrow> snapshot_member list option" where
  "decode_sidecar_members [] ms = Some ms"
| "decode_sidecar_members (line # rest) ms =
     Option.bind (field_u32 (json_key ''id'') (CHR '','') line) (\<lambda>i.
     Option.bind (field_u32 (json_key ''weight'') (CHR '','') line) (\<lambda>w.
     Option.bind (split_second (json_key ''endpoint'' @ [QUOTE]) line) (\<lambda>t.
     let endpoint = trim_end_matches (QUOTE # ''}'') t in
     if \<not> valid_endpoint endpoint then None
     else if ms \<noteq> [] \<and> i \<le> sm_id (last ms) then None
     else decode_sidecar_members rest (ms @ [\<lparr>sm_id = i, sm_weight = w, sm_endpoint = endpoint\<rparr>]))))"

definition decode_sidecar :: "string \<Rightarrow> snapshot option" where
  "decode_sidecar text =
     (case filter (\<lambda>l. l \<noteq> []) (map trim (text_lines text)) of
        [] \<Rightarrow> None
      | header # rest \<Rightarrow>
          if after sidecar_format header = None then None
          else
            Option.bind (field_u32 (json_key ''era'') (CHR '','') header) (\<lambda>era.
            Option.bind (field_u64 (json_key ''slot'') (CHR ''}'') header) (\<lambda>slot.
            Option.bind (decode_sidecar_members rest []) (\<lambda>ms.
            if ms = [] \<or> length ms > MAX_MEMBERS then None
            else Some \<lparr>sn_era = era, sn_slot = slot, sn_members = ms\<rparr>))))"

section \<open>Tallies and discovery\<close>

record tally =
  ta_ids :: "u32 set"
  ta_weight :: u64

definition tally_new :: tally where
  "tally_new = \<lparr>ta_ids = {}, ta_weight = 0\<rparr>"

definition tally_record :: "u32 \<Rightarrow> u64 option \<Rightarrow> tally \<Rightarrow> tally" where
  "tally_record i weight ta =
     (case weight of
        None \<Rightarrow> ta
      | Some w \<Rightarrow> if i \<in> ta_ids ta then ta else \<lparr>ta_ids = insert i (ta_ids ta), ta_weight = ta_weight ta + w\<rparr>)"

definition agrees_with :: "tally \<Rightarrow> snapshot_member list \<Rightarrow> bool" where
  "agrees_with ta ms = quorum_reached ms (ta_ids ta)"

definition agreement_key :: "snapshot \<Rightarrow> string" where
  "agreement_key s =
     show_dec (unat (sn_era s)) @ '':'' @ show_dec (unat (sn_slot s)) @
     concat (map (\<lambda>m. ''|'' @ show_dec (unat (sm_id m)) @ '':'' @ show_dec (unat (sm_weight m)) @ '':'' @ sm_endpoint m)
       (sn_members s))"

text \<open>The part of the host the snapshot packets reach: its model, its discovery, and the address rows.\<close>

record 'a discovery_host =
  dh_model :: model
  dh_active :: bool
  dh_era :: u32
  dh_slot :: u64
  dh_tallies :: "string \<Rightarrow> tally option"
  dh_peers :: "(u32 \<times> 'a) list"
  dh_addr_to_id :: "'a \<Rightarrow> u32 option"
  dh_sidecar :: "snapshot list"

text \<open>The resolver is the operating system's.\<close>

definition add_member_row :: "(string \<Rightarrow> 'a option) \<Rightarrow> snapshot_member \<Rightarrow> 'a discovery_host \<Rightarrow> 'a discovery_host" where
  "add_member_row resolve m h =
     (if sm_id m \<in> fst ` set (dh_peers h) then h
      else
        (case resolve (sm_endpoint m) of
           None \<Rightarrow> h
         | Some a \<Rightarrow> h\<lparr>dh_peers := dh_peers h @ [(sm_id m, a)], dh_addr_to_id := (dh_addr_to_id h)(a \<mapsto> sm_id m)\<rparr>))"

definition add_member_rows :: "(string \<Rightarrow> 'a option) \<Rightarrow> snapshot_member list \<Rightarrow> 'a discovery_host \<Rightarrow> 'a discovery_host" where
  "add_member_rows resolve ms h = fold (add_member_row resolve) ms h"

definition host_adopt :: "(string \<Rightarrow> 'a option) \<Rightarrow> snapshot \<Rightarrow> 'a discovery_host \<Rightarrow> 'a discovery_host" where
  "host_adopt resolve s h =
     (case model_adopt s (dh_model h) of
        (False, _) \<Rightarrow> h
      | (True, mo) \<Rightarrow>
          (let h1 = add_member_rows resolve (sn_members s) (h\<lparr>dh_model := mo\<rparr>) in
           h1\<lparr>dh_sidecar := dh_sidecar h1 @ [s]\<rparr>))"

text \<open>A packet is answered with a response (whose assertions may panic), or leads to a new state.\<close>

datatype 'a packet_outcome = Answers "bytes option" | Becomes "'a discovery_host"

definition handle_snapshot_packet ::
  "(string \<Rightarrow> 'a option) \<Rightarrow> 'a \<Rightarrow> bytes \<Rightarrow> 'a discovery_host \<Rightarrow> 'a packet_outcome" where
  "handle_snapshot_packet resolve addr payload h =
     (if decode_request payload then Answers (encode_response (model_snapshot (dh_model h)))
      else
        (case decode_response payload of
           None \<Rightarrow> Becomes h
         | Some s \<Rightarrow>
             (case dh_addr_to_id h addr of
                None \<Rightarrow> Becomes h
              | Some responder \<Rightarrow>
                  if \<not> dh_active h then Becomes (host_adopt resolve s h)
                  else if newer (sn_era s) (sn_slot s) (dh_era h) (dh_slot h) then
                    Becomes (add_member_rows resolve (sn_members s)
                      (h\<lparr>dh_era := sn_era s, dh_slot := sn_slot s, dh_tallies := Map.empty\<rparr>))
                  else if sn_era s = dh_era h \<and> sn_slot s = dh_slot h then
                    (let key = agreement_key s;
                         ta = tally_record responder (member_weight (sn_members s) responder)
                                (case dh_tallies h key of None \<Rightarrow> tally_new | Some t \<Rightarrow> t);
                         h1 = h\<lparr>dh_tallies := (dh_tallies h)(key \<mapsto> ta)\<rparr> in
                     if agrees_with ta (sn_members s) then Becomes (host_adopt resolve s (h1\<lparr>dh_active := False\<rparr>))
                     else Becomes h1)
                  else Becomes h)))"

end
