(* ===== verification/Membership_Props.thy ===== *)
theory Membership_Props
  imports Membership
begin

text \<open>
  What the membership snapshots guarantee: the wire codec is exact, two quorums share a voter, the host's model
  stays well-formed and never goes back, the sidecar reads back, and a discovery adopts only what a quorum sent.
\<close>

section \<open>The wire codec\<close>

text \<open>What a response can carry of a member: a text of at most sixteen bits' length.\<close>

definition carried :: "snapshot_member \<Rightarrow> bool" where
  "carried m \<longleftrightarrow> text_wf (sm_endpoint m) \<and> length (sm_endpoint m) < 2 ^ 16"

declare length_str_bytes [simp] str_bytes_str [simp]

lemma length_encode_member [simp]: "length (encode_member m) = 10 + length (sm_endpoint m)"
  by (simp add: encode_member_def)

lemma slice_join: "a \<le> b \<Longrightarrow> b \<le> c \<Longrightarrow> slice a b xs @ slice b c xs = slice a c xs"
  using take_add [of "b - a" "c - b" "drop a xs"] by (simp add: slice_def)

lemma u16_length: "n < 2 ^ 16 \<Longrightarrow> unat (word_of_nat n :: u16) = n"
  by (simp add: unat_of_nat take_bit_nat_eq_self)

lemma from_utf8_iff: "from_utf8 b = Some s \<longleftrightarrow> text_wf s \<and> b = str_bytes s"
  by (auto simp: from_utf8_def text_wf_def)

lemma decode_encoded_member:
  assumes "carried m" and "length pre = cur"
  shows "decode_member (pre @ encode_member m @ post) cur = Some (m, cur + 10 + length (sm_endpoint m))"
proof -
  let ?e = "str_bytes (sm_endpoint m)" and ?i = "be_bytes 4 (sm_id m)" and ?w = "be_bytes 4 (sm_weight m)"
  let ?l = "be_bytes 2 (word_of_nat (length ?e) :: u16)"
  let ?p = "pre @ ?i @ ?w @ ?l @ ?e @ post"
  have p: "pre @ encode_member m @ post = ?p" by (simp add: encode_member_def)
  have s: "slice cur (cur + 4) ?p = ?i" "slice (cur + 4) (cur + 8) ?p = ?w" "slice (cur + 8) (cur + 10) ?p = ?l"
      "slice (cur + 10) (cur + 10 + length ?e) ?p = ?e"
    using slice_field [of pre cur ?i "cur + 4" "?w @ ?l @ ?e @ post"]
      slice_field [of "pre @ ?i" "cur + 4" ?w "cur + 8" "?l @ ?e @ post"]
      slice_field [of "pre @ ?i @ ?w" "cur + 8" ?l "cur + 10" "?e @ post"]
      slice_field [of "pre @ ?i @ ?w @ ?l" "cur + 10" ?e "cur + 10 + length ?e" post] assms(2)
    by simp_all
  have n: "unat (be_word ?l :: u16) = length ?e" using assms(1) by (simp add: carried_def u16_length)
  have "from_utf8 ?e = Some (sm_endpoint m)" using assms(1) by (simp add: carried_def from_utf8_str)
  then show ?thesis unfolding p decode_member_def Let_def s(1-3) n s(4) using assms(2) by simp
qed

lemma decode_member_exact:
  assumes "decode_member payload cur = Some (m, cur')"
  shows "carried m \<and> cur' = cur + 10 + length (sm_endpoint m) \<and> cur' \<le> length payload \<and>
    drop cur payload = encode_member m @ drop cur' payload"
proof -
  let ?n = "unat (be_word (slice (cur + 8) (cur + 10) payload) :: u16)"
  have len: "cur + 10 + ?n \<le> length payload" and c: "cur' = cur + 10 + ?n"
    and e: "from_utf8 (slice (cur + 10) (cur + 10 + ?n) payload) = Some (sm_endpoint m)"
    and f: "sm_id m = be_word (slice cur (cur + 4) payload)" "sm_weight m = be_word (slice (cur + 4) (cur + 8) payload)"
    using assms by (auto simp: decode_member_def Let_def split: if_splits option.splits)
  have eb: "slice (cur + 10) (cur + 10 + ?n) payload = str_bytes (sm_endpoint m)" and wf: "text_wf (sm_endpoint m)"
    using e by (simp_all add: from_utf8_iff)
  have el: "length (sm_endpoint m) = ?n" using arg_cong [OF eb, of length] len by simp
  have lt: "?n < 2 ^ 16" using unsigned_less [of "be_word (slice (cur + 8) (cur + 10) payload) :: u16"] by simp
  have "be_bytes 2 (word_of_nat ?n :: u16) = slice (cur + 8) (cur + 10) payload"
    using be_bytes_be_word [of "slice (cur + 8) (cur + 10) payload" 2, where 'a = 16] len by simp
  moreover have "be_bytes 4 (sm_id m) = slice cur (cur + 4) payload" "be_bytes 4 (sm_weight m) = slice (cur + 4) (cur + 8) payload"
    unfolding f by (rule be_bytes_be_word; use len in simp)+
  ultimately have "encode_member m =
      slice cur (cur + 4) payload @ slice (cur + 4) (cur + 8) payload @ slice (cur + 8) (cur + 10) payload @
      slice (cur + 10) (cur + 10 + ?n) payload"
    using el by (simp add: encode_member_def eb)
  also have "\<dots> = slice cur cur' payload"
    unfolding c by (simp add: slice_join)
  finally have "drop cur payload = encode_member m @ drop cur' payload"
    unfolding slice_def using c by (metis append_take_drop_id drop_drop le_add_diff_inverse2 le_add1 add.assoc add.commute)
  with wf el lt len c show ?thesis by (simp add: carried_def)
qed

lemma ascending_Cons: "ascending (m # ms) \<longleftrightarrow> ascending ms \<and> (ms \<noteq> [] \<longrightarrow> sm_id m < sm_id (hd ms))"
  by (cases ms) auto

lemma decode_encoded_members:
  "list_all carried ms \<Longrightarrow> list_all (\<lambda>m. valid_endpoint (sm_endpoint m)) ms \<Longrightarrow> ascending ms \<Longrightarrow>
   (case previous of None \<Rightarrow> True | Some p \<Rightarrow> ms = [] \<or> p < sm_id (hd ms)) \<Longrightarrow> length pre = cur \<Longrightarrow>
   decode_members (pre @ concat (map encode_member ms)) (length ms) cur previous =
     Some (ms, cur + length (concat (map encode_member ms)))"
proof (induction ms arbitrary: previous cur pre)
  case (Cons m ms)
  let ?c = "cur + 10 + length (sm_endpoint m)"
  have d: "decode_member (pre @ concat (map encode_member (m # ms))) cur = Some (m, ?c)"
    using decode_encoded_member [of m pre cur "concat (map encode_member ms)"] Cons.prems by simp
  have "decode_members ((pre @ encode_member m) @ concat (map encode_member ms)) (length ms) ?c (Some (sm_id m)) =
      Some (ms, ?c + length (concat (map encode_member ms)))"
    by (rule Cons.IH) (use Cons.prems in \<open>auto simp: ascending_Cons\<close>)
  then have r: "decode_members (pre @ concat (map encode_member (m # ms))) (length ms) ?c (Some (sm_id m)) =
      Some (ms, cur + length (concat (map encode_member (m # ms))))"
    by (simp add: add.assoc)
  have "\<not> (case previous of None \<Rightarrow> False | Some p \<Rightarrow> sm_id m \<le> p)" using Cons.prems(4) by (auto split: option.splits)
  moreover have "valid_endpoint (sm_endpoint m)" using Cons.prems(2) by simp
  ultimately show ?case using d r by (simp only: length_Cons decode_members.simps option.case prod.case if_False not_True_eq_False simp_thms option.map)
qed simp

lemma decode_members_exact:
  "decode_members payload k cur previous = Some (ms, cur') \<Longrightarrow> cur \<le> length payload \<Longrightarrow>
   length ms = k \<and> list_all carried ms \<and> list_all (\<lambda>m. valid_endpoint (sm_endpoint m)) ms \<and> ascending ms \<and>
   (case previous of None \<Rightarrow> True | Some p \<Rightarrow> ms = [] \<or> p < sm_id (hd ms)) \<and> cur' \<le> length payload \<and>
   drop cur payload = concat (map encode_member ms) @ drop cur' payload"
proof (induction payload k cur previous arbitrary: ms rule: decode_members.induct)
  case (1 payload cur previous)
  then show ?case by (auto split: option.split)
next
  case (2 payload k cur previous)
  then obtain m c ms' where d: "decode_member payload cur = Some (m, c)"
      and p: "\<not> (case previous of None \<Rightarrow> False | Some p \<Rightarrow> sm_id m \<le> p)" "valid_endpoint (sm_endpoint m)"
      and r: "decode_members payload k c (Some (sm_id m)) = Some (ms', cur')" "ms = m # ms'"
    by (auto split: option.splits if_splits prod.splits)
  note e = decode_member_exact [OF d]
  from 2(1) [OF d refl p(1) _ r(1)] p(2) e r(2) p(1) show ?case
    by (auto simp: ascending_Cons split: option.splits)
qed

lemma response_codec_spec:
  "decode_response payload = Some s \<longleftrightarrow> encode_response s = Some payload \<and> list_all carried (sn_members s)"
proof
  assume d: "decode_response payload = Some s"
  let ?n = "unat (be_word (slice 13 15 payload) :: u16)"
  obtain ms cur where len: "15 \<le> length payload" "payload ! 0 = SNAPSHOT_RESPONSE" "1 \<le> ?n" "?n \<le> MAX_MEMBERS"
    and ms: "decode_members payload ?n 15 None = Some (ms, cur)" "cur = length payload"
    and s: "s = \<lparr>sn_era = be_word (slice 1 5 payload), sn_slot = be_word (slice 5 13 payload), sn_members = ms\<rparr>"
    using d by (auto simp: decode_response_def Let_def not_less split: if_splits option.splits)
  note e = decode_members_exact [OF ms(1) len(1)]
  have "payload = take 15 payload @ concat (map encode_member ms)" using e ms(2) by (metis append_Nil2 append_take_drop_id drop_all order_refl)
  moreover have "take 15 payload = SNAPSHOT_RESPONSE # slice 1 5 payload @ slice 5 13 payload @ slice 13 15 payload"
  proof -
    have "take 15 payload = take 1 payload @ take 4 (drop 1 payload) @ take 8 (drop 5 payload) @ take 2 (drop 13 payload)"
      using take_add [of 1 14 payload] take_add [of 4 10 "drop 1 payload"] take_add [of 8 2 "drop 5 payload"] by (simp add: drop_drop)
    moreover have "take 1 payload = [SNAPSHOT_RESPONSE]" using len(1,2) by (cases payload) simp_all
    ultimately show ?thesis by (simp add: slice_def)
  qed
  moreover have "be_bytes 4 (be_word (slice 1 5 payload) :: u32) = slice 1 5 payload"
    "be_bytes 8 (be_word (slice 5 13 payload) :: u64) = slice 5 13 payload"
    "be_bytes 2 (be_word (slice 13 15 payload) :: u16) = slice 13 15 payload"
    by (rule be_bytes_be_word; use len(1) in simp)+
  moreover have "(word_of_nat (length ms) :: u16) = be_word (slice 13 15 payload)" using e by simp
  ultimately show "encode_response s = Some payload \<and> list_all carried (sn_members s)"
    using e len(3,4) by (auto simp: encode_response_def s Let_def)
next
  assume a: "encode_response s = Some payload \<and> list_all carried (sn_members s)"
  let ?ms = "sn_members s" and ?e = "be_bytes 4 (sn_era s)" and ?t = "be_bytes 8 (sn_slot s)"
  let ?c = "be_bytes 2 (word_of_nat (length ?ms) :: u16)" and ?b = "concat (map encode_member ?ms)"
  have ok: "?ms \<noteq> []" "length ?ms \<le> MAX_MEMBERS" "ascending ?ms" "list_all (\<lambda>m. valid_endpoint (sm_endpoint m)) ?ms"
    and p: "payload = (SNAPSHOT_RESPONSE # ?e @ ?t @ ?c) @ ?b"
    using a by (auto simp: encode_response_def Let_def split: if_splits)
  have "slice 1 5 payload = ?e" "slice 5 13 payload = ?t" "slice 13 15 payload = ?c"
    by (simp_all add: p slice_def)
  moreover have "unat (word_of_nat (length ?ms) :: u16) = length ?ms" using ok(2) by (simp add: u16_length MAX_MEMBERS_def)
  moreover have "decode_members payload (length ?ms) 15 None = Some (?ms, length payload)"
    unfolding p using decode_encoded_members [OF conjunct2 [OF a] ok(4,3), of None "SNAPSHOT_RESPONSE # ?e @ ?t @ ?c" 15] by simp
  ultimately show "decode_response payload = Some s" using ok(1,2)
    by (simp add: decode_response_def Let_def p) (simp add: Suc_leI)
qed

text \<open>
  The snapshot codec is exact. A payload decodes to a snapshot if and only if it is the snapshot's one encoding and every
  endpoint is a text that fits its length field. So a response that is not dropped names one configuration, and every
  configuration has one spelling.
\<close>

theorem response_codec_exact:
  "decode_response payload = Some s \<longleftrightarrow> encode_response s = Some payload \<and> list_all carried (sn_members s)"
  by (rule response_codec_spec)

section \<open>Quorums\<close>

definition weight_of :: "snapshot_member list \<Rightarrow> nat" where
  "weight_of ms = sum_list (map (\<lambda>m. unat (sm_weight m)) ms)"

lemma weight_bound: "weight_of ms \<le> length ms * 2 ^ 32"
proof (induction ms)
  case (Cons m ms)
  have "unat (sm_weight m) \<le> 2 ^ 32" using unsigned_less [of "sm_weight m", where 'a = nat] by simp
  with Cons show ?case by (simp add: weight_of_def)
qed (simp add: weight_of_def)

lemma weight_sum:
  "length ms \<le> MAX_MEMBERS \<Longrightarrow> unat (sum_list (map (\<lambda>m. ucast (sm_weight m) :: u64) ms)) = weight_of ms"
proof (induction ms)
  case (Cons m ms)
  let ?s = "sum_list (map (\<lambda>m. ucast (sm_weight m) :: u64) ms)"
  have "unat (sm_weight m) < 2 ^ 64" using unsigned_less [of "sm_weight m", where 'a = nat] by simp
  then have u: "unat (ucast (sm_weight m) :: u64) = unat (sm_weight m)" by (simp add: unsigned_ucast_eq take_bit_nat_eq_self)
  have "weight_of (m # ms) \<le> 16 * 2 ^ 32" using weight_bound [of "m # ms"] Cons.prems by (simp add: MAX_MEMBERS_def)
  then have "unat (sm_weight m) + weight_of ms < 2 ^ 64" by (simp add: weight_of_def)
  then have "unat (ucast (sm_weight m) + ?s) = unat (sm_weight m) + weight_of ms"
    using Cons u by (subst unat_add_lem [THEN iffD1]) simp_all
  then show ?case by (simp add: weight_of_def)
qed (simp add: weight_of_def)

lemma weight_filter: "weight_of (filter P ms) + weight_of (filter (\<lambda>m. \<not> P m) ms) = weight_of ms"
  by (induction ms) (simp_all add: weight_of_def)

lemma weight_mono: "(\<And>m. m \<in> set ms \<Longrightarrow> P m \<Longrightarrow> sm_weight m \<noteq> 0 \<Longrightarrow> Q m) \<Longrightarrow> weight_of (filter P ms) \<le> weight_of (filter Q ms)"
proof (induction ms)
  case (Cons m ms)
  have "unat (sm_weight m) = 0" if "P m" "\<not> Q m" using Cons.prems [of m] that by (metis list.set_intros(1) unat_0)
  with Cons show ?case by (auto simp: weight_of_def)
qed (simp add: weight_of_def)

text \<open>The threshold arithmetic does not overflow for a configuration the core admits.\<close>

lemma quorum_weight:
  assumes "length ms \<le> MAX_MEMBERS"
  shows "quorum_reached ms A \<longleftrightarrow> 2 * weight_of (filter (\<lambda>m. sm_id m \<in> A) ms) > weight_of ms"
proof -
  let ?t = "sum_list (map (\<lambda>m. ucast (sm_weight m) :: u64) ms)"
  let ?r = "sum_list (map (\<lambda>m. ucast (sm_weight m) :: u64) (filter (\<lambda>m. sm_id m \<in> A) ms))"
  have t: "unat ?t = weight_of ms" using weight_sum [OF assms] .
  have "length (filter (\<lambda>m. sm_id m \<in> A) ms) \<le> MAX_MEMBERS" using assms le_trans [OF length_filter_le] by blast
  then have r: "unat ?r = weight_of (filter (\<lambda>m. sm_id m \<in> A) ms)" by (rule weight_sum)
  have "weight_of ms \<le> 16 * 2 ^ 32" using weight_bound [of ms] assms by (simp add: MAX_MEMBERS_def)
  then have "unat (?t div 2 + 1) = weight_of ms div 2 + 1"
    using t by (subst unat_add_lem [THEN iffD1]) (simp_all add: unat_div)
  then show ?thesis using r by (auto simp: quorum_reached_def Let_def word_le_nat_alt)
qed

text \<open>
  C19: two quorums share a voter. For a configuration of at most the core's sixteen members, whatever its weights: if two
  sets of responders each reach the weighted quorum, some member of non-zero weight is in both. The
  sums and the threshold do not overflow.
\<close>

theorem quorums_intersect:
  assumes "length ms \<le> MAX_MEMBERS" and "quorum_reached ms A" and "quorum_reached ms B"
  shows "\<exists>m \<in> set ms. sm_id m \<in> A \<inter> B \<and> sm_weight m \<noteq> 0"
proof (rule ccontr)
  assume none: "\<not> ?thesis"
  have "weight_of (filter (\<lambda>m. sm_id m \<in> B) ms) \<le> weight_of (filter (\<lambda>m. sm_id m \<notin> A) ms)"
    by (rule weight_mono) (use none in auto)
  moreover have "weight_of (filter (\<lambda>m. sm_id m \<in> A) ms) + weight_of (filter (\<lambda>m. sm_id m \<notin> A) ms) = weight_of ms"
    by (rule weight_filter)
  ultimately show False using assms(2,3) quorum_weight [OF assms(1)] by fastforce
qed

definition demo_members3 :: "snapshot_member list" where
  "demo_members3 =
     [\<lparr>sm_id = 0x10001, sm_weight = 1, sm_endpoint = ''10.0.0.1:7''\<rparr>, \<lparr>sm_id = 0x20001, sm_weight = 1, sm_endpoint = ''10.0.0.2:7''\<rparr>,
      \<lparr>sm_id = 0x30001, sm_weight = 1, sm_endpoint = ''10.0.0.3:7''\<rparr>]"

theorem quorums_intersect_witness:
  "quorum_reached demo_members3 {0x10001, 0x20001} \<and> quorum_reached demo_members3 {0x20001, 0x30001} \<and>
   (\<exists>m \<in> set demo_members3. sm_id m \<in> {0x10001, 0x20001} \<inter> {0x20001, 0x30001} \<and> sm_weight m \<noteq> 0)"
proof -
  have q: "quorum_reached demo_members3 {0x10001, 0x20001}" "quorum_reached demo_members3 {0x20001, 0x30001}"
    by (simp_all add: quorum_reached_def demo_members3_def)
  have "length demo_members3 \<le> MAX_MEMBERS" by (simp add: demo_members3_def MAX_MEMBERS_def)
  from quorums_intersect [OF this q] q show ?thesis by blast
qed

section \<open>The host's model\<close>

definition members_wf :: "snapshot_member list \<Rightarrow> bool" where
  "members_wf ms \<longleftrightarrow> ascending ms \<and> list_all (\<lambda>m. valid_endpoint (sm_endpoint m)) ms"

lemma ascending_sorted: "ascending ms \<longleftrightarrow> sorted_wrt (<) (map sm_id ms)"
  by (induction ms rule: ascending.induct) (auto intro: less_trans)

lemma ascending_sort:
  assumes "distinct (map sm_id us)"
  shows "ascending (sort_key sm_id us)"
proof -
  have "distinct (map sm_id (sort_key sm_id us))" using assms by (simp add: distinct_map)
  moreover have "sorted (map sm_id (sort_key sm_id us))" by simp
  ultimately show ?thesis by (simp add: ascending_sorted strict_sorted_iff)
qed

lemma ascending_distinct: "ascending ms \<Longrightarrow> distinct (map sm_id ms)"
  by (simp add: ascending_sorted strict_sorted_iff)

lemma members_wf_sort:
  assumes "distinct (map sm_id us)" and "list_all (\<lambda>m. valid_endpoint (sm_endpoint m)) us"
  shows "members_wf (sort_key sm_id us)"
  using assms ascending_sort [OF assms(1)] by (simp add: members_wf_def list_all_iff)

lemma distinct_without: "distinct (map sm_id ms) \<Longrightarrow> distinct (map sm_id (filter P ms))"
  by (simp add: distinct_map_filter)

lemma apply_change_wf:
  assumes "members_wf (mo_members mo)" and "apply_change action i endpoint mo = (b, mo')"
  shows "members_wf (mo_members mo') \<and> mo_era mo' = mo_era mo \<and> mo_slot mo' = mo_slot mo"
proof -
  let ?ms = "mo_members mo" and ?us = "filter (\<lambda>m. sm_id m \<noteq> i) (mo_members mo)"
  have d: "distinct (map sm_id ?us)" and v: "list_all (\<lambda>m. valid_endpoint (sm_endpoint m)) ?us"
    using assms(1) ascending_distinct [of ?ms] by (auto simp: members_wf_def list_all_iff distinct_without)
  have one: "members_wf (sort_key sm_id (?us @ [\<lparr>sm_id = i, sm_weight = w, sm_endpoint = e\<rparr>]))" if "valid_endpoint e" for w e
    by (rule members_wf_sort) (use d v that in auto)
  have found: "valid_endpoint (sm_endpoint m)" if "find (\<lambda>m. sm_id m = i) ?ms = Some m" for m
    using that assms(1) by (auto simp: find_Some_iff members_wf_def list_all_iff)
  show ?thesis using assms one found members_wf_sort [OF d v]
    by (auto simp: apply_change_def Let_def split: if_splits option.splits)
qed

lemma decoded_wf: "decode_response payload = Some s \<Longrightarrow> members_wf (sn_members s)"
  using response_codec_spec [of payload s] by (auto simp: encode_response_def members_wf_def Let_def split: if_splits)

lemma rows_model [simp]: "dh_model (add_member_rows resolve ms h) = dh_model h" "dh_active (add_member_rows resolve ms h) = dh_active h"
  "dh_tallies (add_member_rows resolve ms h) = dh_tallies h"
proof -
  have "dh_model (add_member_row resolve m h) = dh_model h" "dh_active (add_member_row resolve m h) = dh_active h"
    "dh_tallies (add_member_row resolve m h) = dh_tallies h" for m h
    by (simp_all add: add_member_row_def split: option.split)
  then have "dh_model (fold (add_member_row resolve) ms h) = dh_model h \<and> dh_active (fold (add_member_row resolve) ms h) = dh_active h \<and>
      dh_tallies (fold (add_member_row resolve) ms h) = dh_tallies h"
    by (induction ms arbitrary: h) simp_all
  then show "dh_model (add_member_rows resolve ms h) = dh_model h" "dh_active (add_member_rows resolve ms h) = dh_active h"
    "dh_tallies (add_member_rows resolve ms h) = dh_tallies h"
    by (simp_all add: add_member_rows_def)
qed

lemma host_adopt_sel:
  "dh_model (host_adopt resolve s h) = snd (model_adopt s (dh_model h))" "dh_active (host_adopt resolve s h) = dh_active h"
  by (auto simp: host_adopt_def model_adopt_def Let_def)

text \<open>A configuration of three voters, its response, and a host that waits for it.\<close>

definition demo_snapshot :: snapshot where
  "demo_snapshot = \<lparr>sn_era = 2, sn_slot = 9, sn_members = demo_members3\<rparr>"

definition demo_payload :: bytes where
  "demo_payload = the (encode_response demo_snapshot)"

definition demo_host :: "bool \<Rightarrow> string discovery_host" where
  "demo_host active =
     \<lparr>dh_model = \<lparr>mo_era = 1, mo_slot = 0, mo_members = demo_members3\<rparr>, dh_active = active, dh_era = 2, dh_slot = 9,
      dh_tallies = Map.empty, dh_peers = map (\<lambda>m. (sm_id m, sm_endpoint m)) demo_members3,
      dh_addr_to_id = map_of (map (\<lambda>m. (sm_endpoint m, sm_id m)) demo_members3), dh_sidecar = []\<rparr>"

lemma demo_wf: "members_wf demo_members3" "list_all carried demo_members3"
proof -
  have "valid_endpoint ''10.0.0.1:7''" "valid_endpoint ''10.0.0.2:7''" "valid_endpoint ''10.0.0.3:7''"
    by (simp_all add: valid_endpoint_def rsplit_once_def parse_u16_def parse_dec_def digit_val_def strip_brackets_def valid_octet_def Let_def)
  then show "members_wf demo_members3" by (simp add: members_wf_def demo_members3_def)
  have "text_wf ''10.0.0.1:7''" "text_wf ''10.0.0.2:7''" "text_wf ''10.0.0.3:7''" by code_simp+
  then show "list_all carried demo_members3" by (simp add: carried_def demo_members3_def)
qed

lemma demo_decoded: "decode_response demo_payload = Some demo_snapshot"
proof -
  have "encode_response demo_snapshot = Some demo_payload"
    using demo_wf(1) by (simp add: demo_payload_def encode_response_def demo_snapshot_def members_wf_def Let_def demo_members3_def MAX_MEMBERS_def)
  with demo_wf(2) show ?thesis by (simp add: response_codec_spec demo_snapshot_def)
qed

lemma demo_not_request [simp]: "\<not> decode_request demo_payload"
proof
  assume "decode_request demo_payload"
  then have "length demo_payload = length [SNAPSHOT_REQUEST]" unfolding decode_request_def by (rule arg_cong)
  then have "decode_response demo_payload = None" by (simp add: decode_response_def)
  then show False by (simp add: demo_decoded)
qed

text \<open>
  The host's life as far as its model goes: packets in any order, and the committed changes it drives, each
  of which opens the next era.
\<close>

inductive host_step :: "(string \<Rightarrow> 'a option) \<Rightarrow> 'a discovery_host \<Rightarrow> 'a discovery_host \<Rightarrow> bool" for resolve where
  packet: "handle_snapshot_packet resolve addr payload h = Becomes h' \<Longrightarrow> host_step resolve h h'"
| change: "apply_change action i endpoint (dh_model h) = (True, mo) \<Longrightarrow>
    host_step resolve h (h\<lparr>dh_model := model_advance slot mo\<rparr>)"

definition up_to_date :: "model \<Rightarrow> model \<Rightarrow> bool" where
  "up_to_date mo' mo \<longleftrightarrow> mo' = mo \<or> newer (mo_era mo') (mo_slot mo') (mo_era mo) (mo_slot mo)"

lemma up_to_date_trans: "up_to_date c b \<Longrightarrow> up_to_date b a \<Longrightarrow> up_to_date c a"
  by (auto simp: up_to_date_def newer_def)

lemma packet_model:
  assumes "handle_snapshot_packet resolve addr payload h = Becomes h'"
  obtains "dh_model h' = dh_model h" | s where "decode_response payload = Some s" "dh_model h' = snd (model_adopt s (dh_model h))"
  using assms
  by (auto simp: handle_snapshot_packet_def host_adopt_sel Let_def split: if_splits option.splits)

lemma word_below_next: "x \<noteq> - 1 \<Longrightarrow> x < x + 1" for x :: u32
proof -
  assume "x \<noteq> - 1"
  then have "unat x \<noteq> unat (- 1 :: u32)" by (simp add: word_unat_eq_iff)
  moreover have "unat x \<le> unat (- 1 :: u32)" by (simp flip: word_le_nat_alt)
  moreover have "unat (- 1 :: u32) = 2 ^ 32 - 1" by (simp add: unsigned_minus_1_eq_mask mask_eq_exp_minus_1)
  ultimately have "unat x + 1 < 2 ^ 32" by linarith
  then have "unat (x + 1) = unat x + 1" by (subst unat_add_lem [THEN iffD1]) simp_all
  then show ?thesis by (simp add: word_less_nat_alt)
qed

lemma apply_change_era: "mo_era (snd (apply_change action i endpoint mo)) = mo_era mo"
  by (simp add: apply_change_def Let_def split: option.split)

lemma host_step_wf:
  assumes "host_step resolve h h'" and "members_wf (mo_members (dh_model h))"
  shows "members_wf (mo_members (dh_model h')) \<and>
    (up_to_date (dh_model h') (dh_model h) \<or> mo_era (dh_model h) = - 1 \<and> mo_era (dh_model h') = 0)"
  using assms(1)
proof cases
  case (packet addr payload)
  from packet(1) show ?thesis
  proof (cases rule: packet_model)
    case (2 s)
    with decoded_wf [OF 2(1)] assms(2) show ?thesis by (auto simp: model_adopt_def up_to_date_def)
  qed (use assms(2) in \<open>simp add: up_to_date_def\<close>)
next
  case (change action i endpoint mo slot)
  have era: "mo_era mo = mo_era (dh_model h)" using apply_change_era [of action i endpoint "dh_model h"] change(2) by simp
  have "mo_era mo = - 1 \<or> mo_era mo < mo_era mo + 1" using word_below_next by blast
  with change era apply_change_wf [OF assms(2) change(2)] show ?thesis
    by (auto simp: model_advance_def up_to_date_def newer_def)
qed

text \<open>
  C17: the host's membership model stays well-formed and goes back only where its era wraps. From a model with strictly
  ascending ids and valid endpoints, over any packets from anybody in any order and any committed changes, the model has
  strictly ascending ids and valid endpoints. Its era and slot are the ones it had or lexicographically later ones, unless
  on the way a step took the era from the last 32-bit value to zero.
\<close>

theorem membership_never_regresses:
  assumes "(host_step resolve)\<^sup>*\<^sup>* h h'" and "members_wf (mo_members (dh_model h))"
  shows "members_wf (mo_members (dh_model h')) \<and>
    (up_to_date (dh_model h') (dh_model h) \<or>
     (\<exists>g g'. (host_step resolve)\<^sup>*\<^sup>* h g \<and> host_step resolve g g' \<and> (host_step resolve)\<^sup>*\<^sup>* g' h' \<and>
        mo_era (dh_model g) = - 1 \<and> mo_era (dh_model g') = 0))"
  using assms
proof (induction rule: rtranclp_induct)
  case (step y z)
  note ih = step.IH [OF step.prems]
  note z = host_step_wf [OF step(2) conjunct1 [OF ih]]
  consider "up_to_date (dh_model z) (dh_model y)" "up_to_date (dh_model y) (dh_model h)"
    | "mo_era (dh_model y) = - 1" "mo_era (dh_model z) = 0"
    | g g' where "(host_step resolve)\<^sup>*\<^sup>* h g" "host_step resolve g g'" "(host_step resolve)\<^sup>*\<^sup>* g' y"
        "mo_era (dh_model g) = - 1" "mo_era (dh_model g') = 0"
    using z ih by blast
  then show ?case
  proof cases
    case 1
    then show ?thesis using z up_to_date_trans [of "dh_model z" "dh_model y" "dh_model h"] by simp
  next
    case 2
    then show ?thesis using z step(1,2) by blast
  next
    case (3 g g')
    then show ?thesis using z rtranclp.rtrancl_into_rtrancl [OF 3(3) step(2)] by blast
  qed
qed (simp add: up_to_date_def)

theorem membership_never_regresses_witness:
  "\<exists>h'. (host_step (\<lambda>_. None))\<^sup>*\<^sup>* (demo_host False) h' \<and> mo_era (dh_model h') = 2 \<and> members_wf (mo_members (dh_model h')) \<and>
     up_to_date (dh_model h') (dh_model (demo_host False))"
proof -
  let ?h = "host_adopt (\<lambda>_. None) demo_snapshot (demo_host False)"
  have "handle_snapshot_packet (\<lambda>_. None) ''10.0.0.1:7'' demo_payload (demo_host False) = Becomes ?h"
    by (simp add: handle_snapshot_packet_def demo_decoded demo_host_def demo_members3_def)
  then have r: "(host_step (\<lambda>_. None))\<^sup>*\<^sup>* (demo_host False) ?h" by (blast intro: host_step.packet)
  have "members_wf (mo_members (dh_model (demo_host False)))" using demo_wf(1) by (simp add: demo_host_def)
  from membership_never_regresses [OF r this] r show ?thesis
    by (intro exI [of _ ?h]) (simp add: host_adopt_sel model_adopt_def up_to_date_def newer_def demo_host_def demo_snapshot_def)
qed

section \<open>Discovery\<close>

text \<open>An endpoint without the separator of the agreement key.\<close>

definition plain_endpoint :: "string \<Rightarrow> bool" where
  "plain_endpoint e \<longleftrightarrow> CHR ''|'' \<notin> set e"

definition plain :: "snapshot \<Rightarrow> bool" where
  "plain s \<longleftrightarrow> list_all (\<lambda>m. plain_endpoint (sm_endpoint m)) (sn_members s)"

definition key_entry :: "snapshot_member \<Rightarrow> string" where
  "key_entry m = show_dec (unat (sm_id m)) @ CHR '':'' # show_dec (unat (sm_weight m)) @ CHR '':'' # sm_endpoint m"

lemma key_entry_inj: "key_entry m = key_entry m' \<Longrightarrow> m = m'"
  by (simp add: key_entry_def dec_field_inj word_unat_eq_iff)

lemma agreement_key_inj:
  assumes "plain s" and "plain s'" and "agreement_key s = agreement_key s'"
  shows "s = s'"
proof -
  have n: "CHR ''|'' \<notin> set (show_dec k)" for k using dec_without by blast
  have k: "split_on (CHR ''|'') (agreement_key s) =
      (show_dec (unat (sn_era s)) @ CHR '':'' # show_dec (unat (sn_slot s))) # map key_entry (sn_members s)" if "plain s" for s
  proof -
    have "CHR ''|'' \<notin> set (key_entry m)" if "m \<in> set (sn_members s)" for m
      using that \<open>plain s\<close> n by (auto simp: key_entry_def plain_def plain_endpoint_def list_all_iff)
    then show ?thesis
      using split_on_chain [of "CHR ''|''" "show_dec (unat (sn_era s)) @ CHR '':'' # show_dec (unat (sn_slot s))" "map key_entry (sn_members s)"] n
      by (simp add: agreement_key_def key_entry_def comp_def)
  qed
  have "map key_entry (sn_members s) = map key_entry (sn_members s')"
    and h: "show_dec (unat (sn_era s)) @ CHR '':'' # show_dec (unat (sn_slot s)) =
      show_dec (unat (sn_era s')) @ CHR '':'' # show_dec (unat (sn_slot s'))"
    using k [OF assms(1)] k [OF assms(2)] assms(3) by simp_all
  then have "sn_members s = sn_members s'" using key_entry_inj by (metis injI inj_map_eq_map)
  moreover have "sn_era s = sn_era s' \<and> sn_slot s = sn_slot s'"
    using h by (simp add: dec_field_inj show_dec_inj word_unat_eq_iff)
  ultimately show ?thesis by simp
qed

text \<open>The packets a host has taken, and who said what by them.\<close>

definition deliver :: "(string \<Rightarrow> 'a option) \<Rightarrow> 'a \<times> bytes \<Rightarrow> 'a discovery_host \<Rightarrow> 'a discovery_host" where
  "deliver resolve pk h = (case handle_snapshot_packet resolve (fst pk) (snd pk) h of Answers _ \<Rightarrow> h | Becomes h' \<Rightarrow> h')"

definition said :: "'a \<times> bytes \<Rightarrow> 'a discovery_host \<Rightarrow> (u32 \<times> snapshot) set" where
  "said pk h = {(i, s). dh_addr_to_id h (fst pk) = Some i \<and> decode_response (snd pk) = Some s}"

fun heard :: "(string \<Rightarrow> 'a option) \<Rightarrow> ('a \<times> bytes) list \<Rightarrow> 'a discovery_host \<Rightarrow> (u32 \<times> snapshot) set" where
  "heard resolve [] h = {}"
| "heard resolve (pk # pks) h = said pk h \<union> heard resolve pks (deliver resolve pk h)"

definition vouched :: "(u32 \<times> snapshot) set \<Rightarrow> 'a discovery_host \<Rightarrow> bool" where
  "vouched H h \<longleftrightarrow> (\<forall>key ta i. dh_tallies h key = Some ta \<longrightarrow> i \<in> ta_ids ta \<longrightarrow> (\<exists>s. (i, s) \<in> H \<and> agreement_key s = key))"

lemma recorded: "i \<in> ta_ids (tally_record j w ta) \<Longrightarrow> i = j \<or> i \<in> ta_ids ta"
  by (auto simp: tally_record_def split: option.splits if_splits)

lemma host_adopt_tallies [simp]: "dh_tallies (host_adopt resolve s h) = dh_tallies h"
  by (auto simp: host_adopt_def model_adopt_def Let_def)

abbreviation counted :: "u32 \<Rightarrow> snapshot \<Rightarrow> 'a discovery_host \<Rightarrow> tally" where
  "counted i s h \<equiv> tally_record i (member_weight (sn_members s) i) (case dh_tallies h (agreement_key s) of None \<Rightarrow> tally_new | Some t \<Rightarrow> t)"

lemma tallied:
  assumes "vouched H h" and "dh_addr_to_id h a = Some i" and "decode_response p = Some s" and "j \<in> ta_ids (counted i s h)"
  shows "\<exists>s'. (j, s') \<in> H \<union> said (a, p) h \<and> agreement_key s' = agreement_key s"
  using recorded [OF assms(4)]
proof
  assume "j = i"
  with assms(2,3) show ?thesis by (auto simp: said_def)
next
  assume "j \<in> ta_ids (case dh_tallies h (agreement_key s) of None \<Rightarrow> tally_new | Some t \<Rightarrow> t)"
  then obtain t where "dh_tallies h (agreement_key s) = Some t" "j \<in> ta_ids t" by (auto simp: tally_new_def split: option.splits)
  with assms(1) show ?thesis unfolding vouched_def by blast
qed

lemma deliver_cases:
  obtains (kept) "dh_tallies (deliver resolve (a, p) h) = dh_tallies h" "dh_active (deliver resolve (a, p) h) = dh_active h"
  | (cleared) "dh_tallies (deliver resolve (a, p) h) = Map.empty" "dh_active (deliver resolve (a, p) h) = dh_active h"
  | (counts) i s where "dh_addr_to_id h a = Some i" "decode_response p = Some s"
      "dh_tallies (deliver resolve (a, p) h) = (dh_tallies h)(agreement_key s \<mapsto> counted i s h)"
      "dh_active (deliver resolve (a, p) h) \<or> quorum_reached (sn_members s) (ta_ids (counted i s h))"
proof (cases "decode_request p \<or> decode_response p = None \<or> dh_addr_to_id h a = None")
  case True
  then have "deliver resolve (a, p) h = h"
    by (auto simp: deliver_def handle_snapshot_packet_def split: option.split)
  then show ?thesis using kept by simp
next
  case False
  then obtain i s where i: "\<not> decode_request p" "decode_response p = Some s" "dh_addr_to_id h a = Some i" by auto
  consider "\<not> dh_active h" | "dh_active h" "newer (sn_era s) (sn_slot s) (dh_era h) (dh_slot h)"
    | "dh_active h" "\<not> newer (sn_era s) (sn_slot s) (dh_era h) (dh_slot h)" "\<not> (sn_era s = dh_era h \<and> sn_slot s = dh_slot h)"
    | "dh_active h" "\<not> newer (sn_era s) (sn_slot s) (dh_era h) (dh_slot h)" "sn_era s = dh_era h \<and> sn_slot s = dh_slot h" by blast
  then show ?thesis
  proof cases
    case 4
    then show ?thesis using i
      by (intro counts [OF i(3,2)]) (simp_all add: deliver_def handle_snapshot_packet_def Let_def host_adopt_sel agrees_with_def)
  next
    case 2
    then show ?thesis using i by (intro cleared) (simp_all add: deliver_def handle_snapshot_packet_def)
  qed (use i in \<open>auto intro!: kept simp: deliver_def handle_snapshot_packet_def host_adopt_sel\<close>)
qed

lemma deliver_vouched:
  assumes "vouched H h"
  shows "vouched (H \<union> said pk h) (deliver resolve pk h)"
proof -
  obtain a p where pk: "pk = (a, p)" by fastforce
  show ?thesis
  proof (cases rule: deliver_cases [of resolve a p h])
    case kept
    with assms show ?thesis unfolding vouched_def pk by (metis UnI1)
  next
    case cleared
    then show ?thesis by (simp add: vouched_def pk)
  next
    case (counts i s)
    show ?thesis unfolding vouched_def
    proof (intro allI impI)
      fix key ta j assume k: "dh_tallies (deliver resolve pk h) key = Some ta" "j \<in> ta_ids ta"
      show "\<exists>s. (j, s) \<in> H \<union> said pk h \<and> agreement_key s = key"
      proof (cases "key = agreement_key s")
        case True
        with k counts(3) have "j \<in> ta_ids (counted i s h)" by (simp add: pk)
        from tallied [OF assms counts(1,2) this] True show ?thesis by (simp add: pk)
      next
        case False
        with k counts(3) have "dh_tallies h key = Some ta" by (simp add: pk)
        with assms k(2) show ?thesis unfolding vouched_def by blast
      qed
    qed
  qed
qed

lemma run_vouched: "vouched H h \<Longrightarrow> vouched (H \<union> heard resolve pks h) (fold (deliver resolve) pks h)"
proof (induction pks arbitrary: H h)
  case (Cons pk pks)
  from Cons.IH [OF deliver_vouched [OF Cons.prems]] show ?case by (simp add: Un_assoc)
qed simp

lemma heard_snoc: "heard resolve (pks @ [pk]) h = heard resolve pks h \<union> said pk (fold (deliver resolve) pks h)"
  by (induction pks arbitrary: h) auto

lemma quorum_more:
  assumes "length ms \<le> MAX_MEMBERS" and "quorum_reached ms A" and "A \<subseteq> B"
  shows "quorum_reached ms B"
  using assms weight_mono [of ms "\<lambda>m. sm_id m \<in> A" "\<lambda>m. sm_id m \<in> B"] by (fastforce simp: quorum_weight)

lemma decoded_few: "decode_response payload = Some s \<Longrightarrow> length (sn_members s) \<le> MAX_MEMBERS"
  using response_codec_spec [of payload s] by (auto simp: encode_response_def Let_def split: if_splits)

text \<open>
  C18: a discovery ends only on a quorum. Start a host with no tallies and deliver any packets to it from
  anybody. Where no endpoint has the agreement key's separator in it: if a packet ends the active discovery, it carries a
  configuration, and the members that sent exactly this configuration reach its weighted quorum.
\<close>

theorem discovery_needs_quorum:
  assumes "dh_tallies h0 = Map.empty" and "h = fold (deliver resolve) pks h0" and "dh_active h"
    and "\<not> dh_active (deliver resolve pk h)" and "\<forall>(i, s) \<in> heard resolve (pks @ [pk]) h0. plain s"
  shows "\<exists>s. decode_response (snd pk) = Some s \<and> quorum_reached (sn_members s) {i. (i, s) \<in> heard resolve (pks @ [pk]) h0}"
proof -
  obtain a p where pk: "pk = (a, p)" by fastforce
  let ?H = "heard resolve (pks @ [pk]) h0"
  have all: "?H = heard resolve pks h0 \<union> said (a, p) h" by (simp add: heard_snoc assms(2) pk)
  have "vouched {} h0" using assms(1) by (simp add: vouched_def)
  from run_vouched [OF this, of resolve pks] have v: "vouched (heard resolve pks h0) h" by (simp add: assms(2))
  obtain i s where i: "dh_addr_to_id h a = Some i" "decode_response p = Some s"
    and q: "quorum_reached (sn_members s) (ta_ids (counted i s h))"
    using assms(3,4) unfolding pk by (cases rule: deliver_cases [of resolve a p h]) auto
  have s: "plain s" using assms(5) i unfolding all by (auto simp: said_def)
  have "ta_ids (counted i s h) \<subseteq> {j. (j, s) \<in> ?H}"
  proof
    fix j assume "j \<in> ta_ids (counted i s h)"
    from tallied [OF v i this] obtain s' where s': "(j, s') \<in> ?H" "agreement_key s' = agreement_key s" unfolding all by blast
    with assms(5) have "plain s'" by blast
    with agreement_key_inj [OF this s s'(2)] s'(1) show "j \<in> {j. (j, s) \<in> ?H}" by simp
  qed
  from quorum_more [OF decoded_few [OF i(2)] q this] i(2) show ?thesis by (auto simp: pk)
qed

theorem discovery_needs_quorum_witness:
  "\<exists>s. decode_response demo_payload = Some s \<and> quorum_reached (sn_members s)
     {i. (i, s) \<in> heard (\<lambda>_. None) [(''10.0.0.1:7'', demo_payload), (''10.0.0.2:7'', demo_payload)] (demo_host True)}"
proof -
  let ?r = "\<lambda>_. None :: string option" and ?h0 = "demo_host True"
  let ?a = "(''10.0.0.1:7'', demo_payload)" and ?b = "(''10.0.0.2:7'', demo_payload)"
  have w: "member_weight demo_members3 0x10001 = Some 1" "member_weight demo_members3 0x20001 = Some 1"
    by (simp_all add: member_weight_def demo_members3_def)
  have q: "\<not> quorum_reached demo_members3 {0x10001}" "quorum_reached demo_members3 {0x10001, 0x20001}"
    by (simp_all add: quorum_reached_def demo_members3_def word_le_nat_alt)
  have i: "dh_addr_to_id ?h0 (fst ?a) = Some 0x10001" "dh_addr_to_id ?h0 (fst ?b) = Some 0x20001"
    by (simp_all add: demo_host_def demo_members3_def)
  have f: "dh_active ?h0" "dh_era ?h0 = 2" "dh_slot ?h0 = 9" "dh_tallies ?h0 = Map.empty" by (simp_all add: demo_host_def)
  have s: "sn_era demo_snapshot = 2" "sn_slot demo_snapshot = 9" "sn_members demo_snapshot = demo_members3" by (simp_all add: demo_snapshot_def)
  note defs = deliver_def handle_snapshot_packet_def demo_decoded newer_def Let_def tally_record_def tally_new_def agrees_with_def
  have d: "deliver ?r ?a ?h0 = ?h0\<lparr>dh_tallies := [agreement_key demo_snapshot \<mapsto> \<lparr>ta_ids = {0x10001}, ta_weight = 1\<rparr>]\<rparr>"
    using i f s w q by (simp add: defs)
  have e: "\<not> dh_active (deliver ?r ?b (deliver ?r ?a ?h0))"
    unfolding d using i f s w q by (simp add: defs host_adopt_sel insert_commute)
  have a: "dh_active (deliver ?r ?a ?h0)" unfolding d by (simp add: f)
  have "plain demo_snapshot" by (simp add: plain_def plain_endpoint_def demo_snapshot_def demo_members3_def)
  then have "\<forall>(i, s) \<in> heard ?r ([?a] @ [?b]) ?h0. plain s" by (auto simp: said_def demo_decoded)
  then show ?thesis
    using discovery_needs_quorum [of ?h0 "deliver ?r ?a ?h0" ?r "[?a]" ?b] a e f(4) by simp
qed

end
