(* ===== verification/Json_Seam.thy ===== *)
theory Json_Seam
  imports Prelude_Locks
begin

text \<open>
  The JSON values of \<^verbatim>\<open>serde_json\<close>, as far as the sequencer's code touches them: the parser, the compact
  rendering, the constructors the code builds payloads with, and the accessors. All of them are the library's, so they
  are one record of parameters; the definitions that read or build JSON take it as an argument.
\<close>

record 'j json_ops =
  jo_parse :: "bytes \<Rightarrow> 'j option"
  jo_render :: "'j \<Rightarrow> bytes"
  jo_null :: 'j
  jo_num :: "u64 \<Rightarrow> 'j"
  jo_str :: "string \<Rightarrow> 'j"
  jo_obj :: "(string \<times> 'j) list \<Rightarrow> 'j"
  jo_get :: "string \<Rightarrow> 'j \<Rightarrow> 'j option"
  jo_as_str :: "'j \<Rightarrow> string option"
  jo_as_bool :: "'j \<Rightarrow> bool option"
  jo_as_u64 :: "'j \<Rightarrow> u64 option"
  jo_is_object :: "'j \<Rightarrow> bool"

text \<open>\<^verbatim>\<open>value[key]\<close> is null where the key is absent.\<close>

definition jo_index :: "'j json_ops \<Rightarrow> 'j \<Rightarrow> string \<Rightarrow> 'j" where
  "jo_index jo v k = (case jo_get jo k v of None \<Rightarrow> jo_null jo | Some x \<Rightarrow> x)"

end
