(* ===== verification/Hex_Text.thy ===== *)
theory Hex_Text
  imports Prelude_Locks
begin

text \<open>
  Lower-case hexadecimal text of bytes, two digits a byte, as \<^verbatim>\<open>format!("{byte:02x}")\<close> renders it, and
  the test and the value of one digit.
\<close>

definition hex_digit :: "nat \<Rightarrow> char" where
  "hex_digit d = char_of (if d < 10 then 48 + d else 87 + d)"

definition hex_byte :: "u8 \<Rightarrow> string" where
  "hex_byte b = [hex_digit (unat b div 16), hex_digit (unat b mod 16)]"

definition hex_text :: "bytes \<Rightarrow> string" where
  "hex_text bs = concat (map hex_byte bs)"

text \<open>\<^verbatim>\<open>is_ascii_hexdigit\<close> and \<^verbatim>\<open>from_str_radix(.., 16)\<close> take both cases.\<close>

definition hex_value :: "char \<Rightarrow> nat option" where
  "hex_value c =
     (let n = of_char c in
      if 48 \<le> n \<and> n \<le> 57 then Some (n - 48)
      else if 97 \<le> n \<and> n \<le> 102 then Some (n - 87)
      else if 65 \<le> n \<and> n \<le> 70 then Some (n - 55)
      else None)"

definition is_ascii_hexdigit :: "char \<Rightarrow> bool" where
  "is_ascii_hexdigit c \<longleftrightarrow> hex_value c \<noteq> None"

lemma of_char_hex_digit: "d < 16 \<Longrightarrow> (of_char (hex_digit d) :: nat) = (if d < 10 then 48 + d else 87 + d)"
  by (simp add: hex_digit_def)

lemma hex_value_digit [simp]: "d < 16 \<Longrightarrow> hex_value (hex_digit d) = Some d"
  by (auto simp: hex_value_def of_char_hex_digit Let_def)

lemma hex_digit_inj: "d < 16 \<Longrightarrow> e < 16 \<Longrightarrow> hex_digit d = hex_digit e \<longleftrightarrow> d = e"
  using hex_value_digit [of d] hex_value_digit [of e] by (metis option.inject)

lemma length_hex_text [simp]: "length (hex_text bs) = 2 * length bs"
  by (induction bs) (simp_all add: hex_text_def hex_byte_def)

lemma byte_halves: "unat (b :: u8) div 16 < 16" "unat b mod 16 < 16"
proof -
  have "unat b < 256" using unsigned_less [of b, where 'a = nat] by simp
  then show "unat b div 16 < 16" "unat b mod 16 < 16" by simp_all
qed

lemma hex_text_hexdigits: "c \<in> set (hex_text bs) \<Longrightarrow> is_ascii_hexdigit c"
  by (auto simp: hex_text_def hex_byte_def is_ascii_hexdigit_def byte_halves)

lemma hex_byte_inj: "hex_byte a = hex_byte b \<longleftrightarrow> a = b"
proof
  assume "hex_byte a = hex_byte b"
  then have "unat a div 16 = unat b div 16" "unat a mod 16 = unat b mod 16"
    by (simp_all add: hex_byte_def hex_digit_inj byte_halves)
  then have "unat a = unat b" by (metis div_mult_mod_eq)
  then show "a = b" by (simp add: word_unat_eq_iff)
qed simp

lemma hex_text_inj: "hex_text as = hex_text bs \<longleftrightarrow> as = bs"
proof (induction as arbitrary: bs)
  case Nil
  then show ?case by (cases bs) (simp_all add: hex_text_def hex_byte_def)
next
  case (Cons a as)
  show ?case
  proof (cases bs)
    case Nil
    then show ?thesis by (simp add: hex_text_def hex_byte_def)
  next
    case (Cons b bs')
    have "hex_text (a # as) = hex_text (b # bs') \<longleftrightarrow> hex_byte a = hex_byte b \<and> hex_text as = hex_text bs'"
      by (simp add: hex_text_def hex_byte_def)
    then show ?thesis using Cons.IH [of bs'] Cons by (simp add: hex_byte_inj)
  qed
qed

end
