(* ===== verification/Gateway.thy ===== *)
theory Gateway
  imports Ordered_Map Json_Seam Hex_Text
begin

text \<open>
  The application-protocol gateway (\<^verbatim>\<open>examples/lease-sequencer/src/gateway.rs\<close>): sessions, the command identity, the
  nexus from a command's identity to the handle it arrived on, and the operations on them. A handle is opaque; what
  happens to handles is a log of writes and closes, a dropped handle being closed. The forward step, the keyed
  hash and JSON are parameters. An expectation that fires is \<open>None\<close>.
\<close>

section \<open>Identities\<close>

definition pack_128 :: "u64 \<Rightarrow> u64 \<Rightarrow> uuid" where
  "pack_128 session_id counter = be_word (be_bytes 8 session_id @ be_bytes 8 counter)"

definition unpack_128 :: "uuid \<Rightarrow> u64 \<times> u64" where
  "unpack_128 u = (be_word (slice 0 8 (be_bytes 16 u)), be_word (slice 8 16 (be_bytes 16 u)))"

definition OUTCOME_UNKNOWN :: string where "OUTCOME_UNKNOWN = ''unknown''"
definition REFUSAL_OUTSTANDING :: string where "REFUSAL_OUTSTANDING = ''outstanding''"
definition REFUSAL_BEARER_UNKNOWN :: string where "REFUSAL_BEARER_UNKNOWN = ''bearer_unknown''"

section \<open>State\<close>

datatype forward_outcome = ForwardAccepted | ForwardRefused string

type_synonym 'f forwarder = "uuid \<Rightarrow> bytes \<Rightarrow> 'f \<Rightarrow> forward_outcome \<times> 'f"

datatype accept_outcome = Accepted | Attached | Refused string

record gateway_config =
  gc_key :: bytes
  gc_command_deadline :: u64
  gc_session_ttl :: u64

datatype nexus_kind = JoinKind | CommandKind u64

record 'k nexus_entry =
  ne_sink :: 'k
  ne_kind :: nexus_kind
  ne_deadline :: u64

record session =
  se_counter :: u64
  se_last_active :: u64
  se_outstanding :: "(uuid \<times> u64) option"

datatype 'k app_event = Wrote 'k bytes | Closed 'k

record 'k gateway =
  gw_config :: gateway_config
  gw_sessions :: "(u64, session) btree"
  gw_by_bearer :: "string \<Rightarrow> u64 option"
  gw_nexus :: "(uuid, 'k nexus_entry) btree"
  gw_join_seq :: u64
  gw_events :: "'k app_event list"

definition gateway_new :: "gateway_config \<Rightarrow> 'k gateway" where
  "gateway_new config =
     \<lparr>gw_config = config, gw_sessions = [], gw_by_bearer = Map.empty, gw_nexus = [], gw_join_seq = 0, gw_events = []\<rparr>"

text \<open>The keyed hash is the library's.\<close>

definition bearer_hex :: "(bytes \<Rightarrow> bytes \<Rightarrow> bytes) \<Rightarrow> bytes \<Rightarrow> u64 \<Rightarrow> string" where
  "bearer_hex hmac key session_id = hex_text (hmac key (be_bytes 8 session_id))"

definition refusal_bytes :: "'j json_ops \<Rightarrow> string \<Rightarrow> bytes" where
  "refusal_bytes jo refusal = jo_render jo (jo_obj jo [(''refused'', jo_str jo refusal)])"

text \<open>A write to a handle that is dropped after it; a handle dropped unwritten; an insertion into the nexus, which drops what it replaces.\<close>

definition answer :: "'k \<Rightarrow> bytes \<Rightarrow> 'k gateway \<Rightarrow> 'k gateway" where
  "answer k b g = g\<lparr>gw_events := gw_events g @ [Wrote k b, Closed k]\<rparr>"

definition drop_sink :: "'k \<Rightarrow> 'k gateway \<Rightarrow> 'k gateway" where
  "drop_sink k g = g\<lparr>gw_events := gw_events g @ [Closed k]\<rparr>"

definition nexus_insert :: "uuid \<Rightarrow> 'k nexus_entry \<Rightarrow> 'k gateway \<Rightarrow> 'k gateway" where
  "nexus_insert u e g =
     (let g1 = (case bt_get (gw_nexus g) u of None \<Rightarrow> g | Some old \<Rightarrow> drop_sink (ne_sink old) g) in
      g1\<lparr>gw_nexus := bt_insert u e (gw_nexus g1)\<rparr>)"

definition with_session :: "u64 \<Rightarrow> (session \<Rightarrow> session) \<Rightarrow> 'k gateway \<Rightarrow> 'k gateway" where
  "with_session sid f g = g\<lparr>gw_sessions := bt_adjust sid f (gw_sessions g)\<rparr>"

section \<open>Operations\<close>

definition gateway_join ::
  "'j json_ops \<Rightarrow> 'f forwarder \<Rightarrow> 'j \<Rightarrow> 'k \<Rightarrow> u64 \<Rightarrow> 'f \<times> 'k gateway \<Rightarrow> accept_outcome \<times> 'f \<times> 'k gateway" where
  "gateway_join jo forward audit sink now st =
     (case st of (f, g) \<Rightarrow>
      let u = pack_128 0 (gw_join_seq g); g1 = g\<lparr>gw_join_seq := gw_join_seq g + 1\<rparr>;
          payload = jo_obj jo [(''op'', jo_str jo ''join''), (''audit'', audit)] in
      case forward u (jo_render jo payload) f of
        (ForwardAccepted, f1) \<Rightarrow>
          (Accepted, f1,
           nexus_insert u \<lparr>ne_sink = sink, ne_kind = JoinKind, ne_deadline = now + gc_command_deadline (gw_config g)\<rparr> g1)
      | (ForwardRefused refusal, f1) \<Rightarrow> (Refused refusal, f1, drop_sink sink g1))"

definition gateway_command ::
  "'j json_ops \<Rightarrow> 'f forwarder \<Rightarrow> string \<Rightarrow> u64 \<Rightarrow> 'j \<Rightarrow> 'k \<Rightarrow> u64 \<Rightarrow> 'f \<times> 'k gateway \<Rightarrow>
   (accept_outcome \<times> 'f \<times> 'k gateway) option" where
  "gateway_command jo forward bearer request_num body sink now st =
     (case st of (f, g) \<Rightarrow>
      case gw_by_bearer g bearer of
        None \<Rightarrow>
          Some (Refused REFUSAL_BEARER_UNKNOWN, f, answer sink (refusal_bytes jo REFUSAL_BEARER_UNKNOWN) g)
      | Some sid \<Rightarrow>
          (case Option.bind (bt_get (gw_sessions g) sid) se_outstanding of
             Some (held_uuid, held_num) \<Rightarrow>
               if held_num = request_num then
                 (let g1 =
                    (case bt_get (gw_nexus g) held_uuid of
                       None \<Rightarrow> drop_sink sink g
                     | Some e \<Rightarrow>
                         drop_sink (ne_sink e)
                           (g\<lparr>gw_nexus := bt_adjust held_uuid (\<lambda>e. e\<lparr>ne_sink := sink\<rparr>) (gw_nexus g)\<rparr>)) in
                  if bt_get (gw_sessions g1) sid = None then None
                  else Some (Attached, f, with_session sid (\<lambda>s. s\<lparr>se_last_active := now\<rparr>) g1))
               else
                 Some (Refused REFUSAL_OUTSTANDING, f, answer sink (refusal_bytes jo REFUSAL_OUTSTANDING) g)
           | None \<Rightarrow>
               (case bt_get (gw_sessions g) sid of
                  None \<Rightarrow> None
                | Some s \<Rightarrow>
                    (let u = pack_128 sid (se_counter s + 1);
                         g1 = with_session sid (\<lambda>s. s\<lparr>se_last_active := now, se_counter := se_counter s + 1\<rparr>) g;
                         payload = jo_obj jo [(''request_num'', jo_num jo request_num), (''body'', body)] in
                     case forward u (jo_render jo payload) f of
                       (ForwardAccepted, f1) \<Rightarrow>
                         Some (Accepted, f1,
                           with_session sid (\<lambda>s. s\<lparr>se_outstanding := Some (u, request_num)\<rparr>)
                             (nexus_insert u
                               \<lparr>ne_sink = sink, ne_kind = CommandKind sid,
                                ne_deadline = now + gc_command_deadline (gw_config g)\<rparr> g1))
                     | (ForwardRefused refusal, f1) \<Rightarrow>
                         Some (Refused refusal, f1,
                           drop_sink sink (with_session sid (\<lambda>s. s\<lparr>se_counter := se_counter s - 1\<rparr>) g1))))))"

text \<open>A session lets go of a command it holds.\<close>

definition let_go :: "uuid \<Rightarrow> session \<Rightarrow> session" where
  "let_go u s = (if (case se_outstanding s of None \<Rightarrow> False | Some (held, _) \<Rightarrow> held = u) then s\<lparr>se_outstanding := None\<rparr> else s)"

definition gateway_committed ::
  "'j json_ops \<Rightarrow> (bytes \<Rightarrow> bytes \<Rightarrow> bytes) \<Rightarrow> u64 \<Rightarrow> u64 \<Rightarrow> uuid \<Rightarrow> bytes \<Rightarrow> 'k gateway \<Rightarrow> 'k gateway" where
  "gateway_committed jo hmac now slot u result g =
     (case bt_get (gw_nexus g) u of
        None \<Rightarrow> g
      | Some e \<Rightarrow>
          (let g1 = g\<lparr>gw_nexus := bt_remove u (gw_nexus g)\<rparr> in
           case ne_kind e of
             JoinKind \<Rightarrow>
               (let bearer = bearer_hex hmac (gc_key (gw_config g)) slot in
                answer (ne_sink e) (jo_render jo (jo_obj jo [(''bearer'', jo_str jo bearer)]))
                  (g1\<lparr>gw_by_bearer := (gw_by_bearer g1)(bearer \<mapsto> slot),
                      gw_sessions := bt_insert slot \<lparr>se_counter = 0, se_last_active = now, se_outstanding = None\<rparr> (gw_sessions g1)\<rparr>))
           | CommandKind sid \<Rightarrow>
               (let committed = (case jo_parse jo result of None \<Rightarrow> jo_null jo | Some v \<Rightarrow> v) in
                answer (ne_sink e) (jo_render jo (jo_obj jo [(''committed'', committed)]))
                  (with_session sid (\<lambda>s. let_go u (s\<lparr>se_last_active := now\<rparr>)) g1))))"

definition expire_one :: "'j json_ops \<Rightarrow> uuid \<times> nexus_kind \<Rightarrow> 'k gateway \<Rightarrow> 'k gateway" where
  "expire_one jo x g =
     (case x of (u, kind) \<Rightarrow>
      case bt_get (gw_nexus g) u of
        None \<Rightarrow> g
      | Some e \<Rightarrow>
          (let g1 = answer (ne_sink e) (jo_render jo (jo_obj jo [(''outcome'', jo_str jo OUTCOME_UNKNOWN)]))
                     (g\<lparr>gw_nexus := bt_remove u (gw_nexus g)\<rparr>) in
           case kind of JoinKind \<Rightarrow> g1 | CommandKind sid \<Rightarrow> with_session sid (let_go u) g1))"

definition release_entry :: "uuid \<Rightarrow> 'k gateway \<Rightarrow> 'k gateway" where
  "release_entry u g =
     (case bt_get (gw_nexus g) u of
        None \<Rightarrow> g
      | Some e \<Rightarrow> drop_sink (ne_sink e) (g\<lparr>gw_nexus := bt_remove u (gw_nexus g)\<rparr>))"

definition sweep_one :: "(bytes \<Rightarrow> bytes \<Rightarrow> bytes) \<Rightarrow> u64 \<Rightarrow> 'k gateway \<Rightarrow> 'k gateway" where
  "sweep_one hmac sid g =
     (let g1 = g\<lparr>gw_sessions := bt_remove sid (gw_sessions g),
                 gw_by_bearer := (gw_by_bearer g)(bearer_hex hmac (gc_key (gw_config g)) sid := None)\<rparr>;
          owned = map fst (filter (\<lambda>(_, e). ne_kind e = CommandKind sid) (gw_nexus g1)) in
      fold release_entry owned g1)"

definition gateway_pump :: "'j json_ops \<Rightarrow> (bytes \<Rightarrow> bytes \<Rightarrow> bytes) \<Rightarrow> u64 \<Rightarrow> 'k gateway \<Rightarrow> 'k gateway" where
  "gateway_pump jo hmac now g =
     (let expired = map (\<lambda>(u, e). (u, ne_kind e)) (filter (\<lambda>(_, e). ne_deadline e \<le> now) (gw_nexus g));
          g1 = fold (expire_one jo) expired g;
          swept = map fst (filter (\<lambda>(_, s). se_last_active s + gc_session_ttl (gw_config g1) < now) (gw_sessions g1)) in
      fold (sweep_one hmac) swept g1)"

definition gateway_shutdown :: "'k gateway \<Rightarrow> 'k gateway" where
  "gateway_shutdown g =
     g\<lparr>gw_nexus := [], gw_sessions := [], gw_by_bearer := Map.empty,
       gw_events := gw_events g @ map (\<lambda>(_, e). Closed (ne_sink e)) (gw_nexus g)\<rparr>"

definition gateway_inspect :: "string \<Rightarrow> 'k gateway \<Rightarrow> (u64 \<times> (uuid \<times> u64) option) option" where
  "gateway_inspect bearer g =
     Option.bind (gw_by_bearer g bearer) (\<lambda>sid.
     map_option (\<lambda>s. (se_counter s, se_outstanding s)) (bt_get (gw_sessions g) sid))"

definition nexus_holds :: "uuid \<Rightarrow> 'k gateway \<Rightarrow> bool" where
  "nexus_holds u g \<longleftrightarrow> bt_get (gw_nexus g) u \<noteq> None"

end
