(* ===== verification/Gateway_Props.thy ===== *)
theory Gateway_Props
  imports Gateway
begin

text \<open>
  What the gateway guarantees: a handle is answered at most once and always released, a session has at most one command
  in flight and no lookup of a session fails, and where the identities of joins fall short.
\<close>

section \<open>Identities\<close>

lemma unpack_pack_128: "unpack_128 (pack_128 a b) = (a, b)"
proof -
  have "be_bytes 16 (pack_128 a b) = be_bytes 8 a @ be_bytes 8 b"
    unfolding pack_128_def by (rule be_bytes_be_word) simp_all
  then show ?thesis by (simp add: unpack_128_def slice_def)
qed

lemma pack_inj [simp]: "pack_128 a b = pack_128 c d \<longleftrightarrow> a = c \<and> b = d"
  by (metis unpack_pack_128 prod.inject)

section \<open>Handles\<close>

fun sink_of :: "'k app_event \<Rightarrow> 'k" where
  "sink_of (Wrote k b) = k"
| "sink_of (Closed k) = k"

definition events_of :: "'k \<Rightarrow> 'k app_event list \<Rightarrow> 'k app_event list" where
  "events_of k es = filter (\<lambda>e. sink_of e = k) es"

definition ended :: "'k \<Rightarrow> 'k app_event list \<Rightarrow> bool" where
  "ended k es \<longleftrightarrow> events_of k es = [Closed k] \<or> (\<exists>b. events_of k es = [Wrote k b, Closed k])"

lemma events_of_simps [simp]:
  "events_of k [] = []"
  "events_of k (es @ fs) = events_of k es @ events_of k fs"
  "events_of k (e # es) = (if sink_of e = k then e # events_of k es else events_of k es)"
  by (simp_all add: events_of_def)

text \<open>The handles in the nexus are distinct, handed in and untouched; every other handle handed in is ended.\<close>

definition handles_ok :: "'k set \<Rightarrow> (uuid \<Rightarrow> 'k nexus_entry option) \<Rightarrow> 'k app_event list \<Rightarrow> bool" where
  "handles_ok used N es \<longleftrightarrow>
     (\<forall>u e. N u = Some e \<longrightarrow> ne_sink e \<in> used \<and> events_of (ne_sink e) es = []) \<and>
     (\<forall>u e v e'. N u = Some e \<longrightarrow> N v = Some e' \<longrightarrow> ne_sink e = ne_sink e' \<longrightarrow> u = v) \<and>
     (\<forall>k. k \<notin> used \<longrightarrow> events_of k es = []) \<and>
     (\<forall>k \<in> used. (\<exists>u e. N u = Some e \<and> ne_sink e = k) \<or> ended k es)"

lemma handlesI:
  assumes "\<And>u e. N u = Some e \<Longrightarrow> ne_sink e \<in> used \<and> events_of (ne_sink e) es = []"
    and "\<And>u e v e'. N u = Some e \<Longrightarrow> N v = Some e' \<Longrightarrow> ne_sink e = ne_sink e' \<Longrightarrow> u = v"
    and "\<And>k. k \<notin> used \<Longrightarrow> events_of k es = []"
    and "\<And>k. k \<in> used \<Longrightarrow> (\<exists>u e. N u = Some e \<and> ne_sink e = k) \<or> ended k es"
  shows "handles_ok used N es"
  using assms unfolding handles_ok_def by blast

lemma handlesD:
  assumes "handles_ok used N es"
  shows "N u = Some e \<Longrightarrow> ne_sink e \<in> used" "N u = Some e \<Longrightarrow> events_of (ne_sink e) es = []"
    "N u = Some e \<Longrightarrow> N v = Some e' \<Longrightarrow> ne_sink e = ne_sink e' \<Longrightarrow> u = v"
    "k \<notin> used \<Longrightarrow> events_of k es = []"
    "k \<in> used \<Longrightarrow> (\<exists>u e. N u = Some e \<and> ne_sink e = k) \<or> ended k es"
  using assms unfolding handles_ok_def by blast+

text \<open>The events that end one handle.\<close>

definition ending :: "'k \<Rightarrow> 'k app_event list \<Rightarrow> bool" where
  "ending k es \<longleftrightarrow> es = [Closed k] \<or> (\<exists>b. es = [Wrote k b, Closed k])"

lemma ending_intros [simp]: "ending k [Closed k]" "ending k [Wrote k b, Closed k]"
  by (auto simp: ending_def)

lemma events_of_ending: "ending k fs \<Longrightarrow> events_of l fs = (if l = k then fs else [])"
  by (auto simp: ending_def)

lemma ended_append: "ending k fs \<Longrightarrow> ended l es \<Longrightarrow> l \<noteq> k \<Longrightarrow> ended l (es @ fs)"
  by (simp add: ended_def events_of_ending)

lemma ended_now: "ending k fs \<Longrightarrow> events_of k es = [] \<Longrightarrow> ended k (es @ fs)"
  by (auto simp: ended_def ending_def)

lemma handles_end_fresh:
  assumes "handles_ok used N es" and "k \<notin> used" and "ending k fs"
  shows "handles_ok (insert k used) N (es @ fs)"
proof (rule handlesI)
  note h = handlesD [OF assms(1)]
  fix u e assume "N u = Some e"
  with h(1,2) assms(2) have "ne_sink e \<in> used" "ne_sink e \<noteq> k" "events_of (ne_sink e) es = []" by auto
  with assms(3) show "ne_sink e \<in> insert k used \<and> events_of (ne_sink e) (es @ fs) = []" by (simp add: events_of_ending)
next
  fix l assume "l \<in> insert k used"
  then show "(\<exists>u e. N u = Some e \<and> ne_sink e = l) \<or> ended l (es @ fs)"
    using handlesD(4,5) [OF assms(1)] assms(2,3) ended_now ended_append by (metis insertE)
qed (use handlesD(3,4) [OF assms(1)] assms(3) in \<open>auto simp: events_of_ending\<close>)

lemma handles_end_held:
  assumes "handles_ok used N es" and "N u = Some e" and "ending (ne_sink e) fs"
  shows "handles_ok used (N(u := None)) (es @ fs)"
proof (rule handlesI)
  note h = handlesD [OF assms(1)]
  fix v e' assume v: "(N(u := None)) v = Some e'"
  then have n: "v \<noteq> u" "N v = Some e'" by (auto split: if_splits)
  with h(3) [OF assms(2) n(2)] have "ne_sink e' \<noteq> ne_sink e" by auto
  with h(1,2) [OF n(2)] assms(3) show "ne_sink e' \<in> used \<and> events_of (ne_sink e') (es @ fs) = []"
    by (simp add: events_of_ending)
next
  fix k assume "k \<notin> used"
  with handlesD(1) [OF assms(1,2)] have "k \<noteq> ne_sink e" by auto
  with handlesD(4) [OF assms(1) \<open>k \<notin> used\<close>] assms(3) show "events_of k (es @ fs) = []" by (simp add: events_of_ending)
next
  note h = handlesD [OF assms(1)]
  fix k assume "k \<in> used"
  show "(\<exists>v e'. (N(u := None)) v = Some e' \<and> ne_sink e' = k) \<or> ended k (es @ fs)"
  proof (cases "k = ne_sink e")
    case True
    with ended_now [OF assms(3) h(2) [OF assms(2)]] show ?thesis by simp
  next
    case False
    with h(5) [OF \<open>k \<in> used\<close>] consider v e' where "N v = Some e'" "ne_sink e' = k" | "ended k es" by blast
    then show ?thesis
    proof cases
      case 1
      with False assms(2) show ?thesis by (metis fun_upd_other option.inject)
    qed (use ended_append [OF assms(3)] False in blast)
  qed
qed (use handlesD(3) [OF assms(1)] in \<open>auto split: if_splits\<close>)

lemma handles_take_in:
  assumes "handles_ok used N es" and "N u = None" and "ne_sink e \<notin> used"
  shows "handles_ok (insert (ne_sink e) used) (N(u \<mapsto> e)) es"
proof -
  note h = handlesD [OF assms(1)]
  have ne: "N v = Some e' \<Longrightarrow> ne_sink e' \<noteq> ne_sink e \<and> ne_sink e \<noteq> ne_sink e'" for v e' using h(1) assms(3) by metis
  show ?thesis
  proof (rule handlesI)
    fix v e' assume "(N(u \<mapsto> e)) v = Some e'"
    then show "ne_sink e' \<in> insert (ne_sink e) used \<and> events_of (ne_sink e') es = []"
      using h(1,2,4) assms(3) by (auto split: if_splits)
  next
    fix k assume "k \<in> insert (ne_sink e) used"
    then show "(\<exists>v e'. (N(u \<mapsto> e)) v = Some e' \<and> ne_sink e' = k) \<or> ended k es"
      using handlesD(5) [OF assms(1)] assms(2) by (metis fun_upd_other fun_upd_same insertE option.distinct(1))
  next
    fix v e' w e'' assume "(N(u \<mapsto> e)) v = Some e'" "(N(u \<mapsto> e)) w = Some e''" "ne_sink e' = ne_sink e''"
    then show "v = w" using ne h(3) by (cases "v = u"; cases "w = u") (auto dest: ne)
  qed (use h(4) in auto)
qed

lemma handles_close_all:
  "distinct (map fst xs) \<Longrightarrow> handles_ok used (map_of xs) es \<Longrightarrow>
   handles_ok used Map.empty (es @ map (\<lambda>(_, e). Closed (ne_sink e)) xs)"
proof (induction xs arbitrary: es)
  case (Cons x xs)
  obtain u e where x: "x = (u, e)" by fastforce
  have "map_of xs u = None" using Cons.prems(1) x by (simp add: map_of_eq_None_iff)
  then have eq: "(map_of (x # xs))(u := None) = map_of xs" using x by auto
  have "handles_ok used ((map_of (x # xs))(u := None)) (es @ [Closed (ne_sink e)])"
    by (rule handles_end_held [OF Cons.prems(2), where e = e]) (simp_all add: x)
  then have "handles_ok used (map_of xs) (es @ [Closed (ne_sink e)])" by (simp only: eq)
  from Cons.IH [OF _ this] Cons.prems(1) x show ?case by simp
qed simp

section \<open>Sessions\<close>

abbreviation bearer_of :: "(bytes \<Rightarrow> bytes \<Rightarrow> bytes) \<Rightarrow> 'k gateway \<Rightarrow> u64 \<Rightarrow> string" where
  "bearer_of hmac g sid \<equiv> bearer_hex hmac (gc_key (gw_config g)) sid"

text \<open>
  A bearer is known exactly while its session lives, a session's command in flight is in the nexus under the session's last
  counter, a command in the nexus is the one its session holds, joins have the prefix no session has.
\<close>

definition sessions_ok :: "(bytes \<Rightarrow> bytes \<Rightarrow> bytes) \<Rightarrow> 'k gateway \<Rightarrow> bool" where
  "sessions_ok hmac g \<longleftrightarrow>
     bt_wf (gw_sessions g) \<and> bt_wf (gw_nexus g) \<and> bt_get (gw_sessions g) 0 = None \<and>
     (\<forall>b sid. gw_by_bearer g b = Some sid \<longleftrightarrow> bt_get (gw_sessions g) sid \<noteq> None \<and> b = bearer_of hmac g sid) \<and>
     (\<forall>sid s u n. bt_get (gw_sessions g) sid = Some s \<longrightarrow> se_outstanding s = Some (u, n) \<longrightarrow>
        u = pack_128 sid (se_counter s) \<and> (\<exists>e. bt_get (gw_nexus g) u = Some e \<and> ne_kind e = CommandKind sid)) \<and>
     (\<forall>u e sid. bt_get (gw_nexus g) u = Some e \<longrightarrow> ne_kind e = CommandKind sid \<longrightarrow>
        (\<exists>s n. bt_get (gw_sessions g) sid = Some s \<and> se_outstanding s = Some (u, n))) \<and>
     (\<forall>u e. bt_get (gw_nexus g) u = Some e \<longrightarrow> ne_kind e = JoinKind \<longrightarrow> (\<exists>c. u = pack_128 0 c))"

lemma sessionsD:
  assumes "sessions_ok hmac g"
  shows "bt_wf (gw_sessions g)" "bt_wf (gw_nexus g)" "bt_get (gw_sessions g) 0 = None"
    "gw_by_bearer g b = Some sid \<longleftrightarrow> bt_get (gw_sessions g) sid \<noteq> None \<and> b = bearer_of hmac g sid"
    "bt_get (gw_sessions g) sid = Some s \<Longrightarrow> se_outstanding s = Some (u, n) \<Longrightarrow>
       u = pack_128 sid (se_counter s) \<and> (\<exists>e. bt_get (gw_nexus g) u = Some e \<and> ne_kind e = CommandKind sid)"
    "bt_get (gw_nexus g) u = Some e \<Longrightarrow> ne_kind e = CommandKind sid \<Longrightarrow>
       \<exists>s n. bt_get (gw_sessions g) sid = Some s \<and> se_outstanding s = Some (u, n)"
    "bt_get (gw_nexus g) u = Some e \<Longrightarrow> ne_kind e = JoinKind \<Longrightarrow> \<exists>c. u = pack_128 0 c"
  using assms unfolding sessions_ok_def by blast+

lemma held_id:
  assumes "sessions_ok hmac g" and "bt_get (gw_nexus g) u = Some e" and "ne_kind e = CommandKind sid"
  shows "\<exists>s n. bt_get (gw_sessions g) sid = Some s \<and> se_outstanding s = Some (u, n) \<and> u = pack_128 sid (se_counter s)"
  using sessionsD(5,6) [OF assms(1)] assms(2,3) by blast

lemma free_id:
  assumes "sessions_ok hmac g" and "bt_get (gw_sessions g) sid = Some s" and "se_outstanding s = None"
  shows "bt_get (gw_nexus g) (pack_128 sid c) = None"
proof (rule ccontr)
  assume "bt_get (gw_nexus g) (pack_128 sid c) \<noteq> None"
  then obtain e where e: "bt_get (gw_nexus g) (pack_128 sid c) = Some e" by blast
  show False
  proof (cases "ne_kind e")
    case JoinKind
    with sessionsD(7) [OF assms(1) e] have "sid = 0" by auto
    with assms(2) sessionsD(3) [OF assms(1)] show False by simp
  next
    case (CommandKind sid')
    from held_id [OF assms(1) e this] assms(2,3) show False by auto
  qed
qed

lemma own_prefix:
  assumes "sessions_ok hmac g"
  shows "bt_get (gw_sessions g) a = Some s \<Longrightarrow> se_outstanding s = Some (pack_128 b c, n) \<Longrightarrow> a = b"
    "bt_get (gw_sessions g) a = Some s \<Longrightarrow> se_outstanding s = Some (u, n) \<Longrightarrow>
     bt_get (gw_sessions g) b = Some t \<Longrightarrow> se_outstanding t = Some (u, k) \<Longrightarrow> a = b"
  using sessionsD(5) [OF assms] by (metis pack_inj)+

lemma none_held:
  assumes "sessions_ok hmac g" and "bt_get (gw_sessions g) sid = Some s" and "se_outstanding s = None"
  shows "bt_get (gw_nexus g) u = Some e \<Longrightarrow> ne_kind e = CommandKind sid \<Longrightarrow> False"
  using sessionsD(6) [OF assms(1), of u e sid] assms(2,3) by auto

text \<open>Answering and dropping touch the log of the handles only.\<close>

lemma log_only [simp]:
  "gw_config (answer k b g) = gw_config g" "gw_sessions (answer k b g) = gw_sessions g" "gw_by_bearer (answer k b g) = gw_by_bearer g"
  "gw_nexus (answer k b g) = gw_nexus g" "gw_events (answer k b g) = gw_events g @ [Wrote k b, Closed k]"
  "gw_config (drop_sink k g) = gw_config g" "gw_sessions (drop_sink k g) = gw_sessions g" "gw_by_bearer (drop_sink k g) = gw_by_bearer g"
  "gw_nexus (drop_sink k g) = gw_nexus g" "gw_events (drop_sink k g) = gw_events g @ [Closed k]"
  "gw_join_seq (answer k b g) = gw_join_seq g" "gw_join_seq (drop_sink k g) = gw_join_seq g"
  by (simp_all add: answer_def drop_sink_def)

lemma with_session_sel [simp]:
  "gw_config (with_session sid f g) = gw_config g" "gw_by_bearer (with_session sid f g) = gw_by_bearer g"
  "gw_nexus (with_session sid f g) = gw_nexus g" "gw_events (with_session sid f g) = gw_events g"
  "gw_sessions (with_session sid f g) = bt_adjust sid f (gw_sessions g)"
  by (simp_all add: with_session_def)

lemma nexus_insert_sel [simp]:
  "gw_config (nexus_insert u e g) = gw_config g" "gw_by_bearer (nexus_insert u e g) = gw_by_bearer g"
  "gw_sessions (nexus_insert u e g) = gw_sessions g" "gw_nexus (nexus_insert u e g) = bt_insert u e (gw_nexus g)"
  by (simp_all add: nexus_insert_def Let_def split: option.split)

lemma sessions_ok_cong:
  "gw_config g' = gw_config g \<Longrightarrow> gw_sessions g' = gw_sessions g \<Longrightarrow> gw_by_bearer g' = gw_by_bearer g \<Longrightarrow> gw_nexus g' = gw_nexus g \<Longrightarrow>
   sessions_ok hmac g' = sessions_ok hmac g"
  by (simp add: sessions_ok_def)

lemma handles_insert:
  assumes "handles_ok used (bt_get (gw_nexus g)) (gw_events g)" and "ne_sink e \<notin> used"
  shows "handles_ok (insert (ne_sink e) used) (bt_get (gw_nexus (nexus_insert u e g))) (gw_events (nexus_insert u e g))"
proof (cases "bt_get (gw_nexus g) u")
  case None
  with handles_take_in [OF assms(1) None assms(2)] show ?thesis by (simp add: nexus_insert_def)
next
  case (Some old)
  have "handles_ok used ((bt_get (gw_nexus g))(u := None)) (gw_events g @ [Closed (ne_sink old)])"
    by (rule handles_end_held [OF assms(1) Some]) simp
  from handles_take_in [OF this _ assms(2), of u] Some show ?thesis by (simp add: nexus_insert_def)
qed

section \<open>Every operation keeps the gateway in order\<close>

definition gateway_ok :: "(bytes \<Rightarrow> bytes \<Rightarrow> bytes) \<Rightarrow> 'k set \<Rightarrow> 'k gateway \<Rightarrow> bool" where
  "gateway_ok hmac used g \<longleftrightarrow> sessions_ok hmac g \<and> handles_ok used (bt_get (gw_nexus g)) (gw_events g)"

lemma new_ok: "gateway_ok hmac {} (gateway_new config)"
  by (simp add: gateway_ok_def gateway_new_def sessions_ok_def handles_ok_def)

lemma join_ok:
  assumes "gateway_ok hmac used g" and "sink \<notin> used" and "gateway_join jo forward audit sink now (f, g) = (oc, f', g')"
  shows "gateway_ok hmac (insert sink used) g'"
proof -
  let ?g = "g\<lparr>gw_join_seq := gw_join_seq g + 1\<rparr>" and ?u = "pack_128 0 (gw_join_seq g)"
  let ?e = "\<lparr>ne_sink = sink, ne_kind = JoinKind, ne_deadline = now + gc_command_deadline (gw_config g)\<rparr>"
  have s: "sessions_ok hmac ?g" and h: "handles_ok used (bt_get (gw_nexus ?g)) (gw_events ?g)"
    using assms(1) by (simp_all add: gateway_ok_def sessions_ok_def)
  consider "g' = nexus_insert ?u ?e ?g" | "g' = drop_sink sink ?g"
    using assms(3) by (auto simp: gateway_join_def Let_def split: prod.splits forward_outcome.splits)
  then show ?thesis
  proof cases
    case 1
    have "bt_get (gw_sessions g) sid = Some s \<Longrightarrow> se_outstanding s \<noteq> Some (?u, n)" for sid s n
      using sessionsD(5) [OF s, of sid s ?u n] sessionsD(3) [OF s] by auto
    then have "sessions_ok hmac g'" unfolding 1 sessions_ok_def using s by (auto simp: sessions_ok_def)
    with 1 handles_insert [OF h, of ?e ?u] assms(2) show ?thesis by (simp add: gateway_ok_def)
  next
    case 2
    with s h handles_end_fresh [OF h assms(2), of "[Closed sink]"] show ?thesis
      by (simp add: gateway_ok_def sessions_ok_cong [of "drop_sink sink ?g" ?g])
  qed
qed

lemma handles_attach:
  assumes "handles_ok used N es" and "N u = Some e" and "sink \<notin> used"
  shows "handles_ok (insert sink used) (N(u \<mapsto> e\<lparr>ne_sink := sink\<rparr>)) (es @ [Closed (ne_sink e)])"
proof -
  have "handles_ok used (N(u := None)) (es @ [Closed (ne_sink e)])" by (rule handles_end_held [OF assms(1,2)]) simp
  from handles_take_in [OF this, of u "e\<lparr>ne_sink := sink\<rparr>"] assms(3) show ?thesis by simp
qed

lemma adjust_upd: "bt_get m k = Some v \<Longrightarrow> bt_get (bt_adjust k f m) = (bt_get m)(k \<mapsto> f v)"
  by (rule ext) simp

lemma attach_ok:
  assumes "gateway_ok hmac used g" and "sink \<notin> used"
    and "bt_get (gw_sessions g) sid = Some s" and "se_outstanding s = Some (u, n)" and "bt_get (gw_nexus g) u = Some e"
  shows "gateway_ok hmac (insert sink used) (with_session sid (\<lambda>s. s\<lparr>se_last_active := now\<rparr>)
    (drop_sink (ne_sink e) (g\<lparr>gw_nexus := bt_adjust u (\<lambda>e. e\<lparr>ne_sink := sink\<rparr>) (gw_nexus g)\<rparr>)))"
    (is "gateway_ok _ _ ?g")
proof -
  have s: "sessions_ok hmac g" and h: "handles_ok used (bt_get (gw_nexus g)) (gw_events g)" using assms(1) by (simp_all add: gateway_ok_def)
  have own: "v = u" if "bt_get (gw_nexus g) v = Some e'" "ne_kind e' = CommandKind sid" for v e'
    using sessionsD(6) [OF s that] assms(3,4) by auto
  have kind: "ne_kind e = CommandKind sid" using sessionsD(5) [OF s assms(3,4)] assms(5) by auto
  have "sessions_ok hmac ?g" unfolding sessions_ok_def using s assms(3-5) kind
    by (auto simp: sessions_ok_def adjust_upd dest: own own_prefix(2) [OF s])
  with handles_attach [OF h assms(5,2)] assms(5) show ?thesis by (simp add: gateway_ok_def adjust_upd)
qed

lemma accept_ok:
  assumes "gateway_ok hmac used g" and "sink \<notin> used" and "bt_get (gw_sessions g) sid = Some s" and "se_outstanding s = None"
    and "u = pack_128 sid (se_counter s + 1)"
  shows "gateway_ok hmac (insert sink used)
    (with_session sid (\<lambda>s. s\<lparr>se_outstanding := Some (u, request_num)\<rparr>)
      (nexus_insert u \<lparr>ne_sink = sink, ne_kind = CommandKind sid, ne_deadline = d\<rparr>
        (with_session sid (\<lambda>s. s\<lparr>se_last_active := now, se_counter := se_counter s + 1\<rparr>) g)))"
    (is "gateway_ok _ _ (with_session _ _ (nexus_insert _ ?e ?g1))")
proof -
  let ?g = "with_session sid (\<lambda>s. s\<lparr>se_outstanding := Some (u, request_num)\<rparr>) (nexus_insert u ?e ?g1)"
  have s: "sessions_ok hmac g" and h: "handles_ok used (bt_get (gw_nexus ?g1)) (gw_events ?g1)" using assms(1) by (simp_all add: gateway_ok_def)
  have free: "bt_get (gw_nexus g) u = None" using free_id [OF s assms(3,4)] assms(5) by simp
  have "sessions_ok hmac ?g" unfolding sessions_ok_def using s free assms(3-5)
    by (auto simp: sessions_ok_def adjust_upd dest: none_held [OF s assms(3,4)] own_prefix(1) [OF s])
  with handles_insert [OF h, of ?e u] assms(2) show ?thesis by (simp add: gateway_ok_def)
qed

lemma unstep_ok:
  assumes "gateway_ok hmac used g" and "sink \<notin> used" and "bt_get (gw_sessions g) sid = Some s" and "se_outstanding s = None"
  shows "gateway_ok hmac (insert sink used)
    (drop_sink sink (with_session sid (\<lambda>s. s\<lparr>se_counter := se_counter s - 1\<rparr>)
      (with_session sid (\<lambda>s. s\<lparr>se_last_active := now, se_counter := se_counter s + 1\<rparr>) g)))" (is "gateway_ok _ _ ?g")
proof -
  have s: "sessions_ok hmac g" and h: "handles_ok used (bt_get (gw_nexus g)) (gw_events g)" using assms(1) by (simp_all add: gateway_ok_def)
  have "sessions_ok hmac ?g" unfolding sessions_ok_def using s assms(3,4)
    by (auto simp: sessions_ok_def adjust_upd dest: none_held [OF s assms(3,4)])
  with handles_end_fresh [OF h assms(2), of "[Closed sink]"] show ?thesis by (simp add: gateway_ok_def)
qed

lemma answer_ok:
  assumes "gateway_ok hmac used g" and "sink \<notin> used"
  shows "gateway_ok hmac (insert sink used) (answer sink b g)"
  using assms handles_end_fresh [of used "bt_get (gw_nexus g)" "gw_events g" sink "[Wrote sink b, Closed sink]"]
  by (simp add: gateway_ok_def sessions_ok_cong [of "answer sink b g" g])

lemma command_ok:
  assumes "gateway_ok hmac used g" and "sink \<notin> used"
  shows "\<exists>oc f' g'. gateway_command jo forward bearer request_num body sink now (f, g) = Some (oc, f', g') \<and>
    gateway_ok hmac (insert sink used) g'"
proof (cases "gw_by_bearer g bearer")
  case None
  with answer_ok [OF assms] show ?thesis by (simp add: gateway_command_def)
next
  case (Some sid)
  have s: "sessions_ok hmac g" using assms(1) by (simp add: gateway_ok_def)
  obtain s where sid: "bt_get (gw_sessions g) sid = Some s" using sessionsD(4) [OF s, of bearer sid] Some by auto
  show ?thesis
  proof (cases "se_outstanding s")
    case None
    with Some sid accept_ok [OF assms sid None refl] unstep_ok [OF assms sid None] show ?thesis
      by (cases "forward (pack_128 sid (se_counter s + 1)) (jo_render jo (jo_obj jo [(''request_num'', jo_num jo request_num), (''body'', body)])) f")
        (simp add: gateway_command_def Let_def split: forward_outcome.split)
  next
    case (Some held)
    obtain u n where held: "held = (u, n)" by fastforce
    obtain e where e: "bt_get (gw_nexus g) u = Some e" using sessionsD(5) [OF s sid, of u n] Some held by auto
    from \<open>gw_by_bearer g bearer = Some sid\<close> sid Some held e answer_ok [OF assms] attach_ok [OF assms sid, of u n e now]
    show ?thesis by (simp add: gateway_command_def Let_def)
  qed
qed

text \<open>The documented strength of the keyed hash, as far as it is needed: no two sessions share a bearer.\<close>

definition bearers_differ :: "(bytes \<Rightarrow> bytes \<Rightarrow> bytes) \<Rightarrow> bool" where
  "bearers_differ hmac \<longleftrightarrow> (\<forall>key a b. hmac key (be_bytes 8 (a :: u64)) = hmac key (be_bytes 8 b) \<longrightarrow> a = b)"

lemma bearer_inj: "bearers_differ hmac \<Longrightarrow> bearer_hex hmac key a = bearer_hex hmac key b \<longleftrightarrow> a = b"
  by (auto simp: bearers_differ_def bearer_hex_def hex_text_inj)

lemma let_go_sel [simp]: "se_counter (let_go u s) = se_counter s"
  by (simp add: let_go_def)

lemma let_go_outstanding: "se_outstanding (let_go u s) = Some x \<longleftrightarrow> se_outstanding s = Some x \<and> fst x \<noteq> u"
  by (auto simp: let_go_def split: option.splits if_splits)

lemma committed_join_ok:
  assumes "gateway_ok hmac used g" and "bearers_differ hmac" and "slot \<noteq> 0" and "bt_get (gw_sessions g) slot = None"
    and "bt_get (gw_nexus g) u = Some e" and "ne_kind e = JoinKind"
  shows "gateway_ok hmac used (gateway_committed jo hmac now slot u result g)" (is "gateway_ok _ _ ?g")
proof -
  have s: "sessions_ok hmac g" and h: "handles_ok used (bt_get (gw_nexus g)) (gw_events g)" using assms(1) by (simp_all add: gateway_ok_def)
  have c: "bt_get (gw_nexus g) v = Some e' \<Longrightarrow> ne_kind e' = CommandKind slot \<Longrightarrow> False" for v e'
    using sessionsD(6) [OF s, of v e' slot] assms(4) by auto
  have d: "bt_get (gw_sessions g) sid = Some t \<Longrightarrow> se_outstanding t = Some (u, n) \<Longrightarrow> False" for sid t n
    using sessionsD(5) [OF s, of sid t u n] assms(5,6) by auto
  have "sessions_ok hmac ?g" unfolding sessions_ok_def using s assms(3-6)
    by (auto simp: sessions_ok_def gateway_committed_def Let_def bearer_inj [OF assms(2)] dest: c d split: if_splits)
  moreover have "handles_ok used (bt_get (gw_nexus ?g)) (gw_events ?g)"
    using handles_end_held [OF h assms(5) ending_intros(2)] assms(5,6) by (simp add: gateway_committed_def Let_def)
  ultimately show ?thesis by (simp add: gateway_ok_def)
qed

text \<open>The end of a command: its entry leaves the nexus, its session lets go.\<close>

lemma end_command_ok:
  assumes "gateway_ok hmac used g" and "bt_get (gw_nexus g) u = Some e" and "ne_kind e = CommandKind sid"
    and "\<And>s. se_counter (f s) = se_counter s \<and> (\<forall>x. se_outstanding (f s) = Some x \<longleftrightarrow> se_outstanding s = Some x \<and> fst x \<noteq> u)"
  shows "gateway_ok hmac used (answer (ne_sink e) b (with_session sid f (g\<lparr>gw_nexus := bt_remove u (gw_nexus g)\<rparr>)))" (is "gateway_ok _ _ ?g")
proof -
  have s: "sessions_ok hmac g" and h: "handles_ok used (bt_get (gw_nexus g)) (gw_events g)" using assms(1) by (simp_all add: gateway_ok_def)
  obtain t n where t: "bt_get (gw_sessions g) sid = Some t" "se_outstanding t = Some (u, n)"
    using sessionsD(6) [OF s assms(2,3)] by blast
  have own: "v = u" if "bt_get (gw_nexus g) v = Some e'" "ne_kind e' = CommandKind sid" for v e'
    using sessionsD(6) [OF s that] t by auto
  have "sessions_ok hmac ?g" unfolding sessions_ok_def using s assms(2-4) t
    by (auto simp: sessions_ok_def adjust_upd dest: own own_prefix(2) [OF s] split: if_splits)
  with handles_end_held [OF h assms(2) ending_intros(2)] show ?thesis by (simp add: gateway_ok_def)
qed

lemma committed_ok:
  assumes "gateway_ok hmac used g" and "bearers_differ hmac" and "slot \<noteq> 0" and "bt_get (gw_sessions g) slot = None"
  shows "gateway_ok hmac used (gateway_committed jo hmac now slot u result g)"
proof (cases "bt_get (gw_nexus g) u")
  case None
  with assms(1) show ?thesis by (simp add: gateway_committed_def)
next
  case (Some e)
  show ?thesis
  proof (cases "ne_kind e")
    case JoinKind
    with committed_join_ok [OF assms Some] show ?thesis .
  next
    case (CommandKind sid)
    from end_command_ok [OF assms(1) Some this, of "\<lambda>s. let_go u (s\<lparr>se_last_active := now\<rparr>)"] Some CommandKind show ?thesis
      by (simp add: gateway_committed_def let_go_outstanding)
  qed
qed

lemma expire_join_ok:
  assumes "gateway_ok hmac used g" and "bt_get (gw_nexus g) u = Some e" and "ne_kind e = JoinKind"
  shows "gateway_ok hmac used (answer (ne_sink e) b (g\<lparr>gw_nexus := bt_remove u (gw_nexus g)\<rparr>))" (is "gateway_ok _ _ ?g")
proof -
  have s: "sessions_ok hmac g" and h: "handles_ok used (bt_get (gw_nexus g)) (gw_events g)" using assms(1) by (simp_all add: gateway_ok_def)
  have d: "bt_get (gw_sessions g) sid = Some t \<Longrightarrow> se_outstanding t = Some (u, n) \<Longrightarrow> False" for sid t n
    using sessionsD(5) [OF s, of sid t u n] assms(2,3) by auto
  have "sessions_ok hmac ?g" unfolding sessions_ok_def using s assms(2,3) by (auto simp: sessions_ok_def dest: d)
  with handles_end_held [OF h assms(2) ending_intros(2)] show ?thesis by (simp add: gateway_ok_def)
qed

lemma expire_one_ok:
  assumes "gateway_ok hmac used g" and "\<And>e. bt_get (gw_nexus g) u = Some e \<Longrightarrow> ne_kind e = kind"
  shows "gateway_ok hmac used (expire_one jo (u, kind) g) \<and> gw_nexus (expire_one jo (u, kind) g) = bt_remove u (gw_nexus g)"
proof (cases "bt_get (gw_nexus g) u")
  case None
  then have "bt_remove u (gw_nexus g) = gw_nexus g"
    unfolding bt_remove_def bt_get_eq_None by (intro filter_True) auto
  with None assms(1) show ?thesis by (simp add: expire_one_def)
next
  case (Some e)
  show ?thesis
  proof (cases kind)
    case JoinKind
    with Some assms(2) expire_join_ok [OF assms(1) Some] show ?thesis by (simp add: expire_one_def)
  next
    case (CommandKind sid)
    let ?b = "jo_render jo (jo_obj jo [(''outcome'', jo_str jo OUTCOME_UNKNOWN)])"
    have swap: "with_session sid (let_go u) (answer k b g) = answer k b (with_session sid (let_go u) g)" for k b and g :: "'a gateway"
      by (simp add: with_session_def answer_def)
    from end_command_ok [OF assms(1) Some, of sid "let_go u" ?b] assms(2) Some CommandKind show ?thesis
      by (simp add: expire_one_def let_go_outstanding swap)
  qed
qed

lemma expire_all_ok:
  "gateway_ok hmac used g \<Longrightarrow> (\<forall>(u, kind) \<in> set xs. \<forall>e. bt_get (gw_nexus g) u = Some e \<longrightarrow> ne_kind e = kind) \<Longrightarrow>
   gateway_ok hmac used (fold (expire_one jo) xs g)"
proof (induction xs arbitrary: g)
  case (Cons x xs)
  obtain u kind where x: "x = (u, kind)" by fastforce
  have "gateway_ok hmac used (expire_one jo x g) \<and> gw_nexus (expire_one jo x g) = bt_remove u (gw_nexus g)"
    unfolding x by (rule expire_one_ok [OF Cons.prems(1)]) (use Cons.prems(2) x in auto)
  then have "gateway_ok hmac used (fold (expire_one jo) xs (expire_one jo x g))"
    using Cons.prems(2) by (intro Cons.IH) (auto split: if_splits)
  then show ?case by simp
qed simp

lemma release_sel:
  "gw_config (release_entry u g) = gw_config g" "gw_sessions (release_entry u g) = gw_sessions g"
  "gw_by_bearer (release_entry u g) = gw_by_bearer g" "bt_get (gw_nexus (release_entry u g)) = (bt_get (gw_nexus g))(u := None)"
  by (auto simp: release_entry_def split: option.split)

lemma release_all:
  assumes "bt_wf (gw_nexus g)" and "handles_ok used (bt_get (gw_nexus g)) (gw_events g)"
  shows "gw_config (fold release_entry us g) = gw_config g \<and> gw_sessions (fold release_entry us g) = gw_sessions g \<and>
    gw_by_bearer (fold release_entry us g) = gw_by_bearer g \<and> bt_wf (gw_nexus (fold release_entry us g)) \<and>
    handles_ok used (bt_get (gw_nexus (fold release_entry us g))) (gw_events (fold release_entry us g)) \<and>
    bt_get (gw_nexus (fold release_entry us g)) = (\<lambda>u. if u \<in> set us then None else bt_get (gw_nexus g) u)"
  using assms
proof (induction us arbitrary: g)
  case (Cons u us)
  have wf: "bt_wf (gw_nexus (release_entry u g))" using Cons.prems(1) by (simp add: release_entry_def split: option.split)
  have "handles_ok used (bt_get (gw_nexus (release_entry u g))) (gw_events (release_entry u g))"
  proof (cases "bt_get (gw_nexus g) u")
    case (Some e)
    with handles_end_held [OF Cons.prems(2) Some ending_intros(1)] show ?thesis by (simp add: release_entry_def)
  qed (use Cons.prems(2) in \<open>simp add: release_entry_def\<close>)
  from Cons.IH [OF wf this] show ?case by (auto simp: release_sel)
qed simp

lemma sweep_one_ok:
  assumes "gateway_ok hmac used g" and "bearers_differ hmac"
  shows "gateway_ok hmac used (sweep_one hmac sid g)"
proof -
  let ?g = "g\<lparr>gw_sessions := bt_remove sid (gw_sessions g), gw_by_bearer := (gw_by_bearer g)(bearer_of hmac g sid := None)\<rparr>"
  let ?us = "map fst (filter (\<lambda>(_, e). ne_kind e = CommandKind sid) (gw_nexus g))"
  have s: "sessions_ok hmac g" and h: "handles_ok used (bt_get (gw_nexus ?g)) (gw_events ?g)" using assms(1) by (simp_all add: gateway_ok_def)
  have wf: "bt_wf (gw_nexus ?g)" using s by (simp add: sessions_ok_def)
  note r = release_all [OF wf h, of ?us]
  have us: "u \<in> set ?us \<longleftrightarrow> (\<exists>e. bt_get (gw_nexus g) u = Some e \<and> ne_kind e = CommandKind sid)" for u
    using bt_get_mem [OF sessionsD(2) [OF s]] by force
  have swept: "sweep_one hmac sid g = fold release_entry ?us ?g" by (simp add: sweep_one_def)
  let ?G = "sweep_one hmac sid g"
  have G: "gw_config ?G = gw_config g" "gw_sessions ?G = bt_remove sid (gw_sessions g)"
    "gw_by_bearer ?G = (gw_by_bearer g)(bearer_of hmac g sid := None)" "bt_wf (gw_nexus ?G)"
    "bt_get (gw_nexus ?G) = (\<lambda>u. if \<exists>e. bt_get (gw_nexus g) u = Some e \<and> ne_kind e = CommandKind sid then None else bt_get (gw_nexus g) u)"
    using r unfolding swept us by (simp_all cong: if_cong)
  have own: "a = b" if "bt_get (gw_sessions g) a = Some t" "se_outstanding t = Some (u, n)" "bt_get (gw_nexus g) u = Some e"
      "ne_kind e = CommandKind b" for a b t u n e
    using sessionsD(5) [OF s that(1,2)] that(3,4) by auto
  have "sessions_ok hmac ?G" unfolding sessions_ok_def G(1-3,5) using s G(4)
    by (auto simp: sessions_ok_def bearer_inj [OF assms(2)] dest: own split: if_splits)
  moreover have "handles_ok used (bt_get (gw_nexus ?G)) (gw_events ?G)" using r unfolding swept by blast
  ultimately show ?thesis by (simp add: gateway_ok_def)
qed

lemma pump_ok:
  assumes "gateway_ok hmac used g" and "bearers_differ hmac"
  shows "gateway_ok hmac used (gateway_pump jo hmac now g)"
proof -
  have sweep: "gateway_ok hmac used g \<Longrightarrow> gateway_ok hmac used (fold (sweep_one hmac) xs g)" for xs and g :: "'a gateway"
    by (induction xs arbitrary: g) (simp_all add: sweep_one_ok assms(2))
  have "bt_wf (gw_nexus g)" using assms(1) by (simp add: gateway_ok_def sessions_ok_def)
  then have "gateway_ok hmac used (fold (expire_one jo) (map (\<lambda>(u, e). (u, ne_kind e)) (filter (\<lambda>(_, e). ne_deadline e \<le> now) (gw_nexus g))) g)"
    by (intro expire_all_ok [OF assms(1)]) (auto simp: bt_get_mem)
  then show ?thesis unfolding gateway_pump_def Let_def by (rule sweep)
qed

lemma shutdown_ok:
  assumes "gateway_ok hmac used g"
  shows "gateway_ok hmac used (gateway_shutdown g)"
proof -
  have "distinct (map fst (gw_nexus g))" using assms by (simp add: gateway_ok_def sessions_ok_def bt_wf_def strict_sorted_iff)
  then show ?thesis using assms handles_close_all [of "gw_nexus g" used "gw_events g"]
    by (simp add: gateway_ok_def sessions_ok_def gateway_shutdown_def bt_get_def [abs_def])
qed

section \<open>Histories\<close>

text \<open>
  Any operations in any order, every handle handed in once. The log gives every commit a slot of its own, counting from one:
  a commit never repeats the slot of a living session.
\<close>

inductive gateway_step ::
  "'j json_ops \<Rightarrow> (bytes \<Rightarrow> bytes \<Rightarrow> bytes) \<Rightarrow> 'f forwarder \<Rightarrow> 'f \<times> 'k set \<times> 'k gateway \<Rightarrow> 'f \<times> 'k set \<times> 'k gateway \<Rightarrow> bool"
  for jo hmac forward where
  step_join: "sink \<notin> used \<Longrightarrow> gateway_join jo forward audit sink now (f, g) = (oc, f', g') \<Longrightarrow>
    gateway_step jo hmac forward (f, used, g) (f', insert sink used, g')"
| step_command: "sink \<notin> used \<Longrightarrow> gateway_command jo forward bearer request_num body sink now (f, g) = Some (oc, f', g') \<Longrightarrow>
    gateway_step jo hmac forward (f, used, g) (f', insert sink used, g')"
| step_committed: "slot \<noteq> 0 \<Longrightarrow> bt_get (gw_sessions g) slot = None \<Longrightarrow>
    gateway_step jo hmac forward (f, used, g) (f, used, gateway_committed jo hmac now slot u result g)"
| step_pump: "gateway_step jo hmac forward (f, used, g) (f, used, gateway_pump jo hmac now g)"
| step_shutdown: "gateway_step jo hmac forward (f, used, g) (f, used, gateway_shutdown g)"

lemma gateway_step_ok:
  assumes "gateway_step jo hmac forward x y" and "bearers_differ hmac" and "gateway_ok hmac (fst (snd x)) (snd (snd x))"
  shows "gateway_ok hmac (fst (snd y)) (snd (snd y))"
  using assms(1,3)
proof cases
  case (step_command sink used bearer request_num body now f g oc f' g')
  with assms(3) command_ok [of hmac used g sink jo forward bearer request_num body now f] show ?thesis by auto
qed (use assms(2) join_ok committed_ok pump_ok shutdown_ok in fastforce)+

lemma reached_ok:
  assumes "(gateway_step jo hmac forward)\<^sup>*\<^sup>* (f, {}, gateway_new config) (f', used, g)" and "bearers_differ hmac"
  shows "gateway_ok hmac used g"
proof -
  have "gateway_ok hmac (fst (snd y)) (snd (snd y))" if "(gateway_step jo hmac forward)\<^sup>*\<^sup>* (f, {}, gateway_new config) y" for y
    using that by (induction rule: rtranclp_induct) (simp_all add: new_ok gateway_step_ok assms(2))
  from this [OF assms(1)] show ?thesis by simp
qed

text \<open>
  C29: a handle is answered at most once and never leaked. Over any operations in any order from a new gateway, every handle
  that was handed in either waits in the nexus, untouched, or was closed, and then it was written at most once, before the close.
\<close>

theorem handle_answered_once:
  assumes "(gateway_step jo hmac forward)\<^sup>*\<^sup>* (f, {}, gateway_new config) (f', used, g)" and "bearers_differ hmac" and "k \<in> used"
  shows "(\<exists>u e. bt_get (gw_nexus g) u = Some e \<and> ne_sink e = k \<and> events_of k (gw_events g) = []) \<or>
    events_of k (gw_events g) = [Closed k] \<or> (\<exists>b. events_of k (gw_events g) = [Wrote k b, Closed k])"
proof -
  have h: "handles_ok used (bt_get (gw_nexus g)) (gw_events g)" using reached_ok [OF assms(1,2)] by (simp add: gateway_ok_def)
  from handlesD(2,5) [OF h] assms(3) show ?thesis unfolding ended_def by blast
qed

text \<open>A stand-in for JSON, a keyed hash that forgets its key, and a leader that takes everything.\<close>

definition demo_json :: "unit json_ops" where
  "demo_json =
     \<lparr>jo_parse = (\<lambda>_. Some ()), jo_render = (\<lambda>_. [0x7B, 0x7D]), jo_null = (), jo_num = (\<lambda>_. ()), jo_str = (\<lambda>_. ()), jo_obj = (\<lambda>_. ()),
      jo_get = (\<lambda>_ _. None), jo_as_str = (\<lambda>_. None), jo_as_bool = (\<lambda>_. None), jo_as_u64 = (\<lambda>_. None), jo_is_object = (\<lambda>_. False)\<rparr>"

definition demo_hmac :: "bytes \<Rightarrow> bytes \<Rightarrow> bytes" where "demo_hmac key m = m"
definition demo_forward :: "unit forwarder" where "demo_forward u b f = (ForwardAccepted, f)"
definition demo_gc :: gateway_config where "demo_gc = \<lparr>gc_key = [1], gc_command_deadline = 50, gc_session_ttl = 100\<rparr>"

lemma demo_bearers: "bearers_differ demo_hmac"
  unfolding bearers_differ_def demo_hmac_def by (metis be_word_be_bytes_sizes(3))

definition demo_joining :: "nat gateway" where
  "demo_joining = nexus_insert (pack_128 0 0) \<lparr>ne_sink = 7, ne_kind = JoinKind, ne_deadline = 51\<rparr> ((gateway_new demo_gc)\<lparr>gw_join_seq := 1\<rparr>)"

lemma demo_join: "gateway_join demo_json demo_forward () 7 1 ((), gateway_new demo_gc) = (Accepted, (), demo_joining)"
  by (simp add: gateway_join_def demo_forward_def demo_joining_def demo_gc_def gateway_new_def)

theorem handle_answered_once_witness:
  "\<exists>f' used g. (gateway_step demo_json demo_hmac demo_forward)\<^sup>*\<^sup>* ((), {}, gateway_new demo_gc) (f', used, g) \<and> (7 :: nat) \<in> used \<and>
     events_of 7 (gw_events g) = [Wrote 7 [0x7B, 0x7D], Closed 7] \<and>
     ((\<exists>u e. bt_get (gw_nexus g) u = Some e \<and> ne_sink e = 7 \<and> events_of 7 (gw_events g) = []) \<or>
      events_of 7 (gw_events g) = [Closed 7] \<or> (\<exists>b. events_of 7 (gw_events g) = [Wrote 7 b, Closed 7]))"
proof -
  let ?step = "gateway_step demo_json demo_hmac demo_forward" and ?g = "gateway_committed demo_json demo_hmac 2 9 (pack_128 0 0) [] demo_joining"
  have n: "bt_get (gw_nexus demo_joining) (pack_128 0 0) = Some \<lparr>ne_sink = 7, ne_kind = JoinKind, ne_deadline = 51\<rparr>"
    "gw_events demo_joining = []" "gw_sessions demo_joining = []"
    by (simp_all add: demo_joining_def gateway_new_def nexus_insert_def bt_get_def)
  have "?step ((), {}, gateway_new demo_gc) ((), {7}, demo_joining)" using step_join [OF _ demo_join, of "{}"] by simp
  moreover have "?step ((), {7}, demo_joining) ((), {7}, ?g)" by (rule step_committed) (simp_all add: n)
  ultimately have r: "?step\<^sup>*\<^sup>* ((), {}, gateway_new demo_gc) ((), {7}, ?g)" by (meson rtranclp.rtrancl_into_rtrancl rtranclp.rtrancl_refl)
  have "gw_events ?g = [Wrote 7 [0x7B, 0x7D], Closed 7]" by (simp add: gateway_committed_def n Let_def demo_json_def)
  with handle_answered_once [OF r demo_bearers, of 7] r show ?thesis by (intro exI [of _ "()"] exI [of _ "{7}"] exI [of _ ?g]) simp
qed

text \<open>
  C30: one command in flight per session. From a new gateway whose keyed hash gives different sessions different bearers, over any operations in
  any order, with new handles and new commit slots, a command never meets a
  bearer without its session. If the bearer's session has a command in flight, a command with another number is refused by
  name with nothing forwarded and nothing changed but the handle answered, and one with the same number attaches its
  handle to the entry in the nexus, with nothing forwarded and no counter stepped.
\<close>

theorem one_command_in_flight:
  assumes "(gateway_step jo hmac forward)\<^sup>*\<^sup>* (f0, {}, gateway_new config) (f, used, g)" and "bearers_differ hmac"
  shows "gateway_command jo forward bearer request_num body sink now (f, g) \<noteq> None \<and>
    (case gateway_inspect bearer g of
       Some (counter, Some (u, held)) \<Rightarrow>
         (\<exists>e. bt_get (gw_nexus g) u = Some e \<and>
           (if held = request_num then
              \<exists>g'. gateway_command jo forward bearer request_num body sink now (f, g) = Some (Attached, f, g') \<and>
                bt_get (gw_nexus g') = (bt_get (gw_nexus g))(u \<mapsto> e\<lparr>ne_sink := sink\<rparr>) \<and> gateway_inspect bearer g' = gateway_inspect bearer g
            else gateway_command jo forward bearer request_num body sink now (f, g) =
                Some (Refused REFUSAL_OUTSTANDING, f, answer sink (refusal_bytes jo REFUSAL_OUTSTANDING) g)))
     | _ \<Rightarrow> True)"
proof -
  have s: "sessions_ok hmac g" using reached_ok [OF assms] by (simp add: gateway_ok_def)
  have live: "bt_get (gw_sessions g) sid \<noteq> None" if "gw_by_bearer g bearer = Some sid" for sid using sessionsD(4) [OF s] that by blast
  show ?thesis
  proof (cases "gateway_inspect bearer g")
    case None
    then have "gw_by_bearer g bearer = None" using live by (cases "gw_by_bearer g bearer") (auto simp: gateway_inspect_def)
    with None show ?thesis by (simp add: gateway_command_def)
  next
    case (Some x)
    then obtain sid t where t: "gw_by_bearer g bearer = Some sid" "bt_get (gw_sessions g) sid = Some t" "x = (se_counter t, se_outstanding t)"
      by (auto simp: gateway_inspect_def bind_eq_Some_conv)
    show ?thesis
    proof (cases "se_outstanding t")
      case None
      with t Some show ?thesis by (simp add: gateway_command_def Let_def split: prod.split forward_outcome.split)
    next
      case (Some held)
      obtain u n where h: "held = (u, n)" by fastforce
      obtain e where e: "bt_get (gw_nexus g) u = Some e" using sessionsD(5) [OF s t(2)] Some h by blast
      from t Some h e \<open>gateway_inspect bearer g = Some x\<close> show ?thesis
        by (auto simp: gateway_command_def Let_def gateway_inspect_def adjust_upd)
    qed
  qed
qed

abbreviation demo_bearer :: string where "demo_bearer \<equiv> bearer_hex demo_hmac [1] 9"

definition demo_joined :: "nat gateway" where
  "demo_joined = gateway_committed demo_json demo_hmac 2 9 (pack_128 0 0) [] demo_joining"

lemma demo_joined_inspect: "gateway_inspect demo_bearer demo_joined = Some (0, None)" "gw_by_bearer demo_joined demo_bearer = Some 9"
  by (simp_all add: demo_joined_def gateway_committed_def demo_joining_def gateway_new_def nexus_insert_def bt_get_def Let_def
      gateway_inspect_def answer_def demo_gc_def)

lemma demo_running:
  "\<exists>g. gateway_command demo_json demo_forward demo_bearer 4 () 8 2 ((), demo_joined) = Some (Accepted, (), g) \<and>
     gateway_inspect demo_bearer g = Some (1, Some (pack_128 9 1, 4))"
proof -
  obtain x where "bt_get (gw_sessions demo_joined) 9 = Some x" "se_counter x = 0" "se_outstanding x = None"
    using demo_joined_inspect by (auto simp: gateway_inspect_def)
  with demo_joined_inspect(2) show ?thesis
    by (simp add: gateway_command_def demo_forward_def Let_def gateway_inspect_def nexus_insert_def with_session_def adjust_upd drop_sink_def split: option.split)
qed

theorem one_command_in_flight_witness:
  "\<exists>g. (gateway_step demo_json demo_hmac demo_forward)\<^sup>*\<^sup>* ((), {}, gateway_new demo_gc) ((), {7, 8 :: nat}, g) \<and>
     gateway_inspect demo_bearer g = Some (1, Some (pack_128 9 1, 4)) \<and>
     gateway_command demo_json demo_forward demo_bearer 5 () 10 3 ((), g) =
       Some (Refused REFUSAL_OUTSTANDING, (), answer 10 (refusal_bytes demo_json REFUSAL_OUTSTANDING) g) \<and>
     (\<exists>g' e. gateway_command demo_json demo_forward demo_bearer 4 () 11 3 ((), g) = Some (Attached, (), g') \<and>
       bt_get (gw_nexus g') (pack_128 9 1) = Some e \<and> ne_sink e = 11 \<and> gateway_inspect demo_bearer g' = Some (1, Some (pack_128 9 1, 4)))"
proof -
  let ?step = "gateway_step demo_json demo_hmac demo_forward"
  obtain g where g: "gateway_command demo_json demo_forward demo_bearer 4 () 8 2 ((), demo_joined) = Some (Accepted, (), g)"
      "gateway_inspect demo_bearer g = Some (1, Some (pack_128 9 1, 4))"
    using demo_running by blast
  have "?step ((), {}, gateway_new demo_gc) ((), {7}, demo_joining)" using step_join [OF _ demo_join, of "{}"] by simp
  moreover have "?step ((), {7}, demo_joining) ((), {7}, demo_joined)"
    unfolding demo_joined_def by (rule step_committed) (simp_all add: demo_joining_def gateway_new_def)
  moreover have "?step ((), {7}, demo_joined) ((), {7, 8}, g)"
    using step_command [OF _ g(1), of "{7}"] by (simp add: insert_commute)
  ultimately have r: "?step\<^sup>*\<^sup>* ((), {}, gateway_new demo_gc) ((), {7, 8}, g)"
    by (meson rtranclp.rtrancl_into_rtrancl rtranclp.rtrancl_refl)
  have "gateway_command demo_json demo_forward demo_bearer 5 () 10 3 ((), g) =
      Some (Refused REFUSAL_OUTSTANDING, (), answer 10 (refusal_bytes demo_json REFUSAL_OUTSTANDING) g)"
    using one_command_in_flight [OF r demo_bearers, of demo_bearer 5 "()" 10 3] g(2) by simp
  moreover have "\<exists>g' e. gateway_command demo_json demo_forward demo_bearer 4 () 11 3 ((), g) = Some (Attached, (), g') \<and>
      bt_get (gw_nexus g') (pack_128 9 1) = Some e \<and> ne_sink e = 11 \<and> gateway_inspect demo_bearer g' = Some (1, Some (pack_128 9 1, 4))"
    using one_command_in_flight [OF r demo_bearers, of demo_bearer 4 "()" 11 3] g(2) by auto
  ultimately show ?thesis using r g(2) by blast
qed

section \<open>Joins of two gateways\<close>

lemma first_join:
  assumes "gateway_join jo forward audit k now (f, gateway_new config) = (Accepted, f', g)"
  shows "g = (gateway_new config)\<lparr>gw_join_seq := 1, gw_nexus := [(pack_128 0 0, \<lparr>ne_sink = k, ne_kind = JoinKind,
    ne_deadline = now + gc_command_deadline config\<rparr>)]\<rparr>"
  using assms by (auto simp: gateway_join_def Let_def gateway_new_def nexus_insert_def split: prod.splits forward_outcome.splits)

lemma first_join_committed:
  assumes "gateway_join jo forward audit k now (f, gateway_new config) = (Accepted, f', g)"
  shows "gw_events (gateway_committed jo hmac t slot (pack_128 0 0) result g) =
      [Wrote k (jo_render jo (jo_obj jo [(''bearer'', jo_str jo (bearer_hex hmac (gc_key config) slot))])), Closed k]"
    "gateway_inspect (bearer_hex hmac (gc_key config) slot) (gateway_committed jo hmac t slot (pack_128 0 0) result g) = Some (0, None)"
    "gw_by_bearer (gateway_committed jo hmac t slot (pack_128 0 0) result g) (bearer_hex hmac (gc_key config) slot) = Some slot"
  by (simp_all add: first_join [OF assms] gateway_committed_def gateway_inspect_def gateway_new_def bt_get_def Let_def)

lemma first_command_id:
  assumes "gw_by_bearer g bearer = Some sid" and "gateway_inspect bearer g = Some (0, None)"
    and "gateway_command jo forward bearer n body k now (f, g) = Some (Accepted, f', g')"
  shows "nexus_holds (pack_128 sid 1) g'"
proof -
  obtain t where "bt_get (gw_sessions g) sid = Some t" "se_counter t = 0" "se_outstanding t = None"
    using assms(1,2) by (auto simp: gateway_inspect_def)
  with assms(1,3) show ?thesis
    by (auto simp: gateway_command_def Let_def nexus_holds_def split: prod.splits forward_outcome.splits)
qed

text \<open>
  C31: two gateways of a cluster can hand out the same identity. The first join of every gateway has the same identity, so
  if two gateways with the same key each have their first join in flight, the commit of one of them, heard by both, answers
  both applications with the same bearer, each gateway holds a session of its own under it, and the first commands
  accepted on the two sessions have the same identity.
\<close>

theorem joins_of_two_gateways_collide:
  assumes "gateway_join jo forward audit k now (f, gateway_new config) = (Accepted, f', g)"
    and "gateway_join jo forward2 audit2 k2 now2 (f2, gateway_new config) = (Accepted, f2', g2)"
    and "c = gateway_committed jo hmac t slot (pack_128 0 0) result g"
    and "c2 = gateway_committed jo hmac t2 slot (pack_128 0 0) result g2"
    and "bearer = bearer_hex hmac (gc_key config) slot"
  shows "\<exists>b. gw_events c = [Wrote k b, Closed k] \<and> gw_events c2 = [Wrote k2 b, Closed k2] \<and>
    gateway_inspect bearer c = Some (0, None) \<and> gateway_inspect bearer c2 = Some (0, None) \<and>
    (\<forall>n body l w fa fa' ga'. gateway_command jo forward bearer n body l w (fa, c) = Some (Accepted, fa', ga') \<longrightarrow> nexus_holds (pack_128 slot 1) ga') \<and>
    (\<forall>n body l w fa fa' ga'. gateway_command jo forward2 bearer n body l w (fa, c2) = Some (Accepted, fa', ga') \<longrightarrow> nexus_holds (pack_128 slot 1) ga')"
proof -
  note a = first_join_committed [OF assms(1), where hmac = hmac and t = t and slot = slot and result = result, folded assms(3,5)]
    and b = first_join_committed [OF assms(2), where hmac = hmac and t = t2 and slot = slot and result = result, folded assms(4,5)]
  show ?thesis using a(1,2) b(1,2) first_command_id [OF a(3,2), where jo = jo and forward = forward]
    first_command_id [OF b(3,2), where jo = jo and forward = forward2] by blast
qed

theorem joins_of_two_gateways_collide_witness:
  "\<exists>b. gw_events (gateway_committed demo_json demo_hmac 2 9 (pack_128 0 0) [] demo_joining) = [Wrote 7 b, Closed 7] \<and>
     gateway_inspect (bearer_hex demo_hmac (gc_key demo_gc) 9) (gateway_committed demo_json demo_hmac 2 9 (pack_128 0 0) [] demo_joining) = Some (0, None)"
  using joins_of_two_gateways_collide [OF demo_join demo_join refl refl refl, of demo_hmac 2 9 "[]" 2] by blast

end
