(* ===== verification/Host_Timers.thy ===== *)
theory Host_Timers
  imports Prelude_Locks
begin

text \<open>
  The timeout plane of the sequencer's host (\<^verbatim>\<open>examples/lease-sequencer/src/timeouts.rs\<close>) and the relay of its
  unanswered datagrams (\<^verbatim>\<open>relay.rs\<close>): the toggle, the randomised wait, the generator, the leader timeout, the viewchange
  timer, and the bounded ledger. A unit sample is the generator's: a fraction of 53 bits, given by its numerator;
  the floating-point product rounds to 53 significant bits, ties to even.
\<close>

unbundle bit_operations_syntax

section \<open>The toggle\<close>

record toggle_record =
  tr_timedout :: bool
  tr_at_ms :: u64
  tr_previous_ms :: "u64 option"

record timeout_toggle =
  tt_timedout :: bool
  tt_last_toggle_ms :: "u64 option"

definition toggle_new :: timeout_toggle where
  "toggle_new = \<lparr>tt_timedout = False, tt_last_toggle_ms = None\<rparr>"

definition toggle_set :: "bool \<Rightarrow> u64 \<Rightarrow> timeout_toggle \<Rightarrow> toggle_record option \<times> timeout_toggle" where
  "toggle_set v now_ms t =
     (if tt_timedout t = v then (None, t)
      else
        (Some \<lparr>tr_timedout = v, tr_at_ms = now_ms, tr_previous_ms = tt_last_toggle_ms t\<rparr>,
         t\<lparr>tt_timedout := v, tt_last_toggle_ms := Some now_ms\<rparr>))"

definition on_suspicion :: "u64 \<Rightarrow> timeout_toggle \<Rightarrow> toggle_record option \<times> timeout_toggle" where
  "on_suspicion now_ms t = toggle_set True now_ms t"

definition on_commit :: "u64 \<Rightarrow> timeout_toggle \<Rightarrow> toggle_record option \<times> timeout_toggle" where
  "on_commit now_ms t = toggle_set False now_ms t"

section \<open>Randomised waits\<close>

text \<open>The bits of a number beyond a double's 53.\<close>

fun excess_bits :: "nat \<Rightarrow> nat" where
  "excess_bits n = (if n < 2 ^ 53 then 0 else Suc (excess_bits (n div 2)))"

declare excess_bits.simps [simp del]

definition round_f64 :: "nat \<Rightarrow> nat" where
  "round_f64 n =
     (let k = excess_bits n; q = n div 2 ^ k; r = n mod 2 ^ k in
      (if 2 * r > 2 ^ k \<or> 2 * r = 2 ^ k \<and> odd q then q + 1 else q) * 2 ^ k)"

definition random_wait_ms :: "u64 \<Rightarrow> u64 \<Rightarrow> nat \<Rightarrow> u64" where
  "random_wait_ms min_ms max_ms unit =
     (if max_ms \<le> min_ms then min_ms
      else min_ms + word_of_nat (min (round_f64 (min unit (2 ^ 53) * round_f64 (unat (max_ms - min_ms))) div 2 ^ 53) (2 ^ 64 - 1)))"

definition rng_new :: "u64 \<Rightarrow> u64" where
  "rng_new seed = seed OR 1"

definition rng_next :: "u64 \<Rightarrow> u64" where
  "rng_next x =
     (let a = x XOR push_bit 13 x; b = a XOR drop_bit 7 a in b XOR push_bit 17 b)"

definition rng_below :: "u64 \<Rightarrow> u64 \<Rightarrow> u64 \<times> u64" where
  "rng_below bound x = (let y = rng_next x in (y mod max bound 1, y))"

definition rng_unit :: "u64 \<Rightarrow> nat \<times> u64" where
  "rng_unit x = (let y = rng_next x in (unat (drop_bit 11 y), y))"

section \<open>The leader timeout\<close>

record leader_watch =
  lt_min_ms :: u64
  lt_max_ms :: u64
  lt_watched :: "(u32 \<times> u32) option"
  lt_deadline_ms :: u64
  lt_last_evidence_ms :: u64

definition leader_watch_new :: "u64 \<Rightarrow> u64 \<Rightarrow> leader_watch" where
  "leader_watch_new min_ms max_ms =
     \<lparr>lt_min_ms = min_ms, lt_max_ms = max_ms, lt_watched = None, lt_deadline_ms = 0, lt_last_evidence_ms = 0\<rparr>"

definition rearm :: "u64 \<Rightarrow> nat \<Rightarrow> leader_watch \<Rightarrow> leader_watch" where
  "rearm now_ms unit l =
     l\<lparr>lt_deadline_ms := now_ms + random_wait_ms (lt_min_ms l) (lt_max_ms l) unit, lt_last_evidence_ms := now_ms\<rparr>"

definition watch :: "u32 \<times> u32 \<Rightarrow> u64 \<Rightarrow> nat \<Rightarrow> leader_watch \<Rightarrow> leader_watch" where
  "watch key now_ms unit l =
     (if lt_watched l = Some key then l else rearm now_ms unit (l\<lparr>lt_watched := Some key\<rparr>))"

definition leader_due :: "u64 \<Rightarrow> leader_watch \<Rightarrow> bool" where
  "leader_due now_ms l \<longleftrightarrow> lt_watched l \<noteq> None \<and> now_ms \<ge> lt_deadline_ms l"

section \<open>The viewchange timer\<close>

record view_change_range =
  vr_min_ms :: u64
  vr_max_ms :: u64

record view_change_timer =
  vt_min_ms :: u64
  vt_max_ms :: u64
  vt_deadline_ms :: u64
  vt_armed :: bool

definition view_change_new :: "u64 \<Rightarrow> u64 \<Rightarrow> view_change_range + view_change_timer" where
  "view_change_new min_ms max_ms =
     (if min_ms > max_ms then Inl \<lparr>vr_min_ms = min_ms, vr_max_ms = max_ms\<rparr>
      else Inr \<lparr>vt_min_ms = min_ms, vt_max_ms = max_ms, vt_deadline_ms = 0, vt_armed = False\<rparr>)"

definition arm :: "u64 \<Rightarrow> nat \<Rightarrow> view_change_timer \<Rightarrow> view_change_timer" where
  "arm now_ms unit v =
     v\<lparr>vt_deadline_ms := now_ms + random_wait_ms (vt_min_ms v) (vt_max_ms v) unit, vt_armed := True\<rparr>"

definition view_change_due :: "u64 \<Rightarrow> view_change_timer \<Rightarrow> bool" where
  "view_change_due now_ms v \<longleftrightarrow> vt_armed v \<and> now_ms \<ge> vt_deadline_ms v"

definition disarm :: "view_change_timer \<Rightarrow> view_change_timer" where
  "disarm v = v\<lparr>vt_armed := False\<rparr>"

section \<open>The relay\<close>

text \<open>The tags of the replication library, as far as the relay names them.\<close>

datatype tag = TagPrepare | TagPrepareOk | TagCommit | TagStartViewChange | TagDoViewChange | TagStartView | TagOther u32

record datagram =
  dg_to :: u32
  dg_era :: u32
  dg_view :: u32
  dg_slot :: u64
  dg_tag :: tag
  dg_bytes :: bytes

definition relayable :: "tag \<Rightarrow> bool" where
  "relayable t \<longleftrightarrow> t \<in> {TagPrepare, TagCommit, TagStartViewChange, TagDoViewChange}"

definition answers :: "datagram \<Rightarrow> u32 \<Rightarrow> u32 \<Rightarrow> u32 \<Rightarrow> u64 \<Rightarrow> tag \<Rightarrow> bool" where
  "answers entry from era view slot t =
     (if dg_to entry \<noteq> from \<or> dg_era entry \<noteq> era then False
      else
        (case dg_tag entry of
           TagPrepare \<Rightarrow> t = TagPrepareOk \<and> view = dg_view entry \<and> slot \<ge> dg_slot entry
         | TagCommit \<Rightarrow> t = TagPrepareOk \<and> view = dg_view entry \<and> slot > dg_slot entry
         | TagStartViewChange \<Rightarrow> t = TagStartViewChange \<and> view = dg_view entry
         | TagDoViewChange \<Rightarrow> t = TagStartView \<and> view \<ge> dg_view entry
         | _ \<Rightarrow> False))"

record ledger =
  lg_unacked :: "datagram list"
  lg_last_commit :: "datagram list"
  lg_bound :: nat
  lg_dropped :: u64

definition DEFAULT_BOUND :: nat where "DEFAULT_BOUND = 256"

definition with_bound :: "nat \<Rightarrow> ledger" where
  "with_bound bound = \<lparr>lg_unacked = [], lg_last_commit = [], lg_bound = max bound 1, lg_dropped = 0\<rparr>"

definition ledger_new :: ledger where
  "ledger_new = with_bound DEFAULT_BOUND"

text \<open>The first element that satisfies a predicate is replaced, if there is one.\<close>

fun replace_first :: "('a \<Rightarrow> bool) \<Rightarrow> 'a \<Rightarrow> 'a list \<Rightarrow> 'a list option" where
  "replace_first P y [] = None"
| "replace_first P y (x # xs) = (if P x then Some (y # xs) else map_option ((#) x) (replace_first P y xs))"

definition same_datagram :: "datagram \<Rightarrow> datagram \<Rightarrow> bool" where
  "same_datagram d e \<longleftrightarrow>
     dg_to e = dg_to d \<and> dg_era e = dg_era d \<and> dg_view e = dg_view d \<and> dg_slot e = dg_slot d \<and> dg_tag e = dg_tag d"

definition remember_commit :: "datagram \<Rightarrow> ledger \<Rightarrow> ledger" where
  "remember_commit d l =
     (let kept = (case lg_last_commit l of
                    [] \<Rightarrow> []
                  | standing # _ \<Rightarrow>
                      if (dg_era standing, dg_view standing) \<noteq> (dg_era d, dg_view d) then [] else lg_last_commit l) in
      l\<lparr>lg_last_commit :=
         (case replace_first (\<lambda>e. dg_to e = dg_to d) d kept of Some cs \<Rightarrow> cs | None \<Rightarrow> kept @ [d])\<rparr>)"

definition ledger_record :: "datagram \<Rightarrow> ledger \<Rightarrow> ledger" where
  "ledger_record d l =
     (if \<not> relayable (dg_tag d) then l
      else
        (let l1 = (if dg_tag d = TagCommit then remember_commit d l else l) in
         case replace_first (same_datagram d) d (lg_unacked l1) of
           Some us \<Rightarrow> l1\<lparr>lg_unacked := us\<rparr>
         | None \<Rightarrow>
             (let l2 = (if length (lg_unacked l1) \<ge> lg_bound l1
                        then l1\<lparr>lg_unacked := tl (lg_unacked l1), lg_dropped := lg_dropped l1 + 1\<rparr> else l1) in
              l2\<lparr>lg_unacked := lg_unacked l2 @ [d]\<rparr>)))"

definition answered :: "u32 \<Rightarrow> u32 \<Rightarrow> u32 \<Rightarrow> u64 \<Rightarrow> tag \<Rightarrow> ledger \<Rightarrow> ledger" where
  "answered from era view slot t l =
     (if \<not> relayable t \<and> t \<notin> {TagPrepareOk, TagStartView} then l
      else l\<lparr>lg_unacked := filter (\<lambda>e. \<not> answers e from era view slot t) (lg_unacked l)\<rparr>)"

definition relay :: "u32 \<Rightarrow> u32 \<Rightarrow> ledger \<Rightarrow> datagram list" where
  "relay era view l = filter (\<lambda>e. dg_era e = era \<and> dg_view e = view) (lg_unacked l)"

definition last_commit :: "u32 \<Rightarrow> u32 \<Rightarrow> ledger \<Rightarrow> datagram list" where
  "last_commit era view l = filter (\<lambda>e. dg_era e = era \<and> dg_view e = view) (lg_last_commit l)"

text \<open>What to do at a timeout is the replication library's opinion.\<close>

datatype matcher_state = InTheCluster | Booted
datatype opinion = Retransmit | OtherOpinion

definition matcher_state_of :: "u32 \<Rightarrow> matcher_state" where
  "matcher_state_of s = (if s = 0 \<or> s = 1 then InTheCluster else Booted)"

definition relay_cluster_timeout :: "(matcher_state \<Rightarrow> opinion) \<Rightarrow> u32 \<Rightarrow> ledger \<Rightarrow> u32 \<Rightarrow> u32 \<Rightarrow> datagram list" where
  "relay_cluster_timeout matcher s l era view =
     (if matcher (matcher_state_of s) \<noteq> Retransmit then [] else relay era view l)"

definition poll_opinion :: "(matcher_state \<Rightarrow> opinion) \<Rightarrow> u32 \<Rightarrow> opinion" where
  "poll_opinion matcher s = matcher (matcher_state_of s)"

definition heartbeat :: "datagram list \<Rightarrow> datagram list option" where
  "heartbeat commits = (if commits = [] then None else Some commits)"

end
