(* ===== verification/Host_Timers_Props.thy ===== *)
theory Host_Timers_Props
  imports Host_Timers
begin

text \<open>
  The randomised waits stay inside their bounds whatever the rounding does, and the relay keeps an unanswered datagram until
  newer ones displace it.
\<close>

section \<open>Rounding\<close>

lemma excess_bits_bound: "n < 2 ^ (53 + j) \<Longrightarrow> excess_bits n \<le> j"
proof (induction j arbitrary: n)
  case 0
  then show ?case by (subst excess_bits.simps) simp
next
  case (Suc j)
  then have "n < 2 * 2 ^ (53 + j)" by (simp only: add_Suc_right power_Suc)
  then have "n div 2 < 2 ^ (53 + j)" by linarith
  from Suc.IH [OF this] show ?case by (subst excess_bits.simps) simp
qed

lemma round_f64_small: "n < 2 ^ 53 \<Longrightarrow> round_f64 n = n"
  using excess_bits_bound [of n 0] by (simp add: round_f64_def Let_def)

text \<open>Rounding never passes a number that is a multiple of the place it rounds at.\<close>

lemma round_f64_le:
  assumes "n \<le> x" and "2 ^ excess_bits n dvd x"
  shows "round_f64 n \<le> x"
proof -
  let ?k = "excess_bits n"
  obtain c where x: "x = c * 2 ^ ?k" using assms(2) by (metis dvdE mult.commute)
  have n: "n = n div 2 ^ ?k * 2 ^ ?k + n mod 2 ^ ?k" by (rule div_mult_mod_eq [symmetric])
  have qc: "n div 2 ^ ?k \<le> c" using div_le_mono [OF assms(1), of "2 ^ ?k"] by (simp add: x)
  have "n div 2 ^ ?k + 1 \<le> c" if "n mod 2 ^ ?k \<noteq> 0"
  proof (rule ccontr)
    assume "\<not> n div 2 ^ ?k + 1 \<le> c"
    with qc have "c = n div 2 ^ ?k" by simp
    with n x that have "x < n" by simp
    with assms(1) show False by simp
  qed
  with qc have "(if 2 * (n mod 2 ^ ?k) > 2 ^ ?k \<or> 2 * (n mod 2 ^ ?k) = 2 ^ ?k \<and> odd (n div 2 ^ ?k) then n div 2 ^ ?k + 1 else n div 2 ^ ?k) \<le> c"
    by (cases "n mod 2 ^ ?k = 0") simp_all
  then have "round_f64 n \<le> c * 2 ^ ?k" unfolding round_f64_def Let_def by (rule mult_right_mono) simp
  then show ?thesis by (simp add: x)
qed

lemma unit_product_le:
  assumes "unit < 2 ^ 53" and "d < 2 ^ 53"
  shows "round_f64 (unit * round_f64 d) div 2 ^ 53 \<le> d"
proof -
  have p: "unit * d \<le> d * 2 ^ 53" using assms(1) by (simp add: mult.commute)
  have "unit * d < 2 ^ (53 + 53)"
  proof -
    have "unit * d \<le> unit * 2 ^ 53" using assms(2) by simp
    also have "\<dots> < 2 ^ 53 * 2 ^ 53" using assms(1) by simp
    finally show ?thesis by simp
  qed
  then have "excess_bits (unit * d) \<le> 53" by (rule excess_bits_bound)
  then have "(2 :: nat) ^ excess_bits (unit * d) dvd d * 2 ^ 53" by (intro dvd_mult le_imp_power_dvd)
  from round_f64_le [OF p this] have "round_f64 (unit * d) div 2 ^ 53 \<le> d * 2 ^ 53 div 2 ^ 53" by (rule div_le_mono)
  then show ?thesis by (simp add: round_f64_small [OF assms(2)])
qed

lemma wait_bounds:
  assumes "min_ms \<le> max_ms" and "unat max_ms - unat min_ms < 2 ^ 53" and "unit < 2 ^ 53"
  shows "min_ms \<le> random_wait_ms min_ms max_ms unit \<and> random_wait_ms min_ms max_ms unit \<le> max_ms"
proof (cases "max_ms \<le> min_ms")
  case True
  with assms(1) show ?thesis by (simp add: random_wait_ms_def)
next
  case False
  let ?d = "unat max_ms - unat min_ms" and ?r = "round_f64 (unit * round_f64 (unat max_ms - unat min_ms)) div 2 ^ 53"
  have d: "unat (max_ms - min_ms) = ?d" using assms(1) by (simp add: unat_sub)
  have r: "?r \<le> ?d" by (rule unit_product_le [OF assms(3,2)])
  have m: "unat max_ms < 2 ^ 64" "unat min_ms \<le> unat max_ms"
    using unsigned_less [of max_ms, where 'a = nat] assms(1) by (simp_all add: word_le_nat_alt)
  then have "?r \<le> 2 ^ 64 - 1" using r by linarith
  moreover have "min unit (2 ^ 53) = unit" using assms(3) by simp
  ultimately have w: "random_wait_ms min_ms max_ms unit = min_ms + word_of_nat ?r"
    unfolding random_wait_ms_def d using False by simp
  have u: "unat (word_of_nat ?r :: u64) = ?r" using r m by (simp add: unat_of_nat take_bit_nat_eq_self)
  have "unat min_ms + ?r < 2 ^ 64" using r m by linarith
  then have "unat (random_wait_ms min_ms max_ms unit) = unat min_ms + ?r"
    unfolding w using u by (subst unat_add_lem [THEN iffD1]) simp_all
  with r m show ?thesis by (simp add: word_le_nat_alt)
qed

lemma rng_unit_bound: "fst (rng_unit x) < 2 ^ 53"
proof -
  have "unat (drop_bit 11 y) < 2 ^ 53" for y :: u64
  proof -
    have "unat (drop_bit 11 y) = unat y div 2 ^ 11"
      by (simp only: unsigned_drop_bit_eq take_bit_nat_eq_self [OF unsigned_less]) (rule drop_bit_eq_div)
    moreover have "unat y < 2 ^ 64" using unsigned_less [of y, where 'a = nat] by simp
    ultimately show ?thesis by simp
  qed
  then show ?thesis by (simp add: rng_unit_def Let_def)
qed

text \<open>
  C32: the randomised deadlines stay inside their window. For bounds less than 2^53 milliseconds apart and a clock that does
  not wrap, whatever the generator's state, a leader timeout re-armed now has its deadline between the minimum and the
  maximum from now, in spite of the rounding of the floating-point product, and so has an armed viewchange poll.
\<close>

theorem deadlines_in_window:
  assumes "min_ms \<le> max_ms" and "unat max_ms - unat min_ms < 2 ^ 53" and "unat now + unat max_ms < 2 ^ 64"
    and "lt_min_ms l = min_ms" and "lt_max_ms l = max_ms" and "view_change_new min_ms max_ms = Inr v"
  shows "now + min_ms \<le> lt_deadline_ms (rearm now (fst (rng_unit x)) l) \<and>
    lt_deadline_ms (rearm now (fst (rng_unit x)) l) \<le> now + max_ms \<and>
    now + min_ms \<le> vt_deadline_ms (arm now (fst (rng_unit x)) v) \<and> vt_deadline_ms (arm now (fst (rng_unit x)) v) \<le> now + max_ms"
proof -
  let ?w = "random_wait_ms min_ms max_ms (fst (rng_unit x))"
  have w: "min_ms \<le> ?w" "?w \<le> max_ms" using wait_bounds [OF assms(1,2) rng_unit_bound] by simp_all
  have mono: "now + a \<le> now + b" if "a \<le> b" "b \<le> max_ms" for a b
  proof -
    have "unat now + unat b < 2 ^ 64" "unat now + unat a < 2 ^ 64" using that assms(3) by (simp_all add: word_le_nat_alt)
    then have "unat (now + b) = unat now + unat b" "unat (now + a) = unat now + unat a"
      by (simp_all add: unat_add_lem [THEN iffD1])
    with that show ?thesis by (simp add: word_le_nat_alt)
  qed
  have "vt_min_ms v = min_ms" "vt_max_ms v = max_ms" using assms(6) by (auto simp: view_change_new_def split: if_splits)
  with w mono [of min_ms ?w] mono [of ?w max_ms] assms(4,5) show ?thesis by (simp add: rearm_def arm_def)
qed

theorem deadlines_in_window_witness:
  "1500 \<le> lt_deadline_ms (rearm 1000 (fst (rng_unit 1)) (leader_watch_new 500 1000)) \<and>
   lt_deadline_ms (rearm 1000 (fst (rng_unit 1)) (leader_watch_new 500 1000)) \<le> 2000"
  using deadlines_in_window [of 500 1000 1000 "leader_watch_new 500 1000"
      "\<lparr>vt_min_ms = 500, vt_max_ms = 1000, vt_deadline_ms = 0, vt_armed = False\<rparr>" 1]
  by (simp add: leader_watch_new_def view_change_new_def)

section \<open>The relay\<close>

datatype ledger_op = Sent datagram | Heard u32 u32 u32 u64 tag

fun ledger_do :: "ledger_op \<Rightarrow> ledger \<Rightarrow> ledger" where
  "ledger_do (Sent d) l = ledger_record d l"
| "ledger_do (Heard from era view slot t) l = answered from era view slot t l"

fun is_answer :: "datagram \<Rightarrow> ledger_op \<Rightarrow> bool" where
  "is_answer d (Sent e) = False"
| "is_answer d (Heard from era view slot t) = answers d from era view slot t"

fun is_send :: "ledger_op \<Rightarrow> bool" where
  "is_send (Sent e) = relayable (dg_tag e)"
| "is_send _ = False"

lemma replace_first_None: "replace_first P y xs = None \<longleftrightarrow> (\<forall>x \<in> set xs. \<not> P x)"
  by (induction xs) auto

lemma replace_first_Some: "replace_first P y xs = Some ys \<Longrightarrow> \<exists>as x bs. xs = as @ x # bs \<and> P x \<and> ys = as @ y # bs"
proof (induction xs arbitrary: ys)
  case (Cons z zs)
  show ?case
  proof (cases "P z")
    case True
    with Cons.prems show ?thesis by (intro exI [of _ "[]"]) auto
  next
    case False
    with Cons.prems obtain us where us: "replace_first P y zs = Some us" "ys = z # us" by auto
    from Cons.IH [OF us(1)] obtain as x bs where "zs = as @ x # bs" "P x" "us = as @ y # bs" by blast
    with us(2) show ?thesis by (intro exI [of _ "z # as"]) auto
  qed
qed simp

lemma same_datagram_answers: "same_datagram d e \<Longrightarrow> answers e from era view slot t = answers d from era view slot t"
  by (auto simp: same_datagram_def answers_def split: tag.splits)

text \<open>The datagram, or a repeat of it, with at most so many entries behind it.\<close>

definition kept_within :: "nat \<Rightarrow> datagram \<Rightarrow> ledger \<Rightarrow> bool" where
  "kept_within k d l \<longleftrightarrow> (\<exists>xs e ys. lg_unacked l = xs @ e # ys \<and> same_datagram d e \<and> length ys \<le> k)"

lemma same_datagram_trans: "same_datagram d e \<Longrightarrow> same_datagram e f \<Longrightarrow> same_datagram d f"
  by (simp add: same_datagram_def)

lemma remember_commit_sel [simp]:
  "lg_unacked (remember_commit d l) = lg_unacked l" "lg_bound (remember_commit d l) = lg_bound l" "lg_dropped (remember_commit d l) = lg_dropped l"
  by (simp_all add: remember_commit_def Let_def)

lemma ledger_bound_kept [simp]: "lg_bound (ledger_record d l) = lg_bound l" "lg_bound (answered from era view slot t l) = lg_bound l"
  by (auto simp: ledger_record_def answered_def Let_def split: option.split)

lemma replaced_keeps:
  assumes "us = xs @ e # ys" and "us = as @ x # bs" and "P x \<Longrightarrow> x = e \<Longrightarrow> Q y" and "P x" and "Q e" and "length ys \<le> k"
  shows "\<exists>xs' e' ys'. as @ y # bs = xs' @ e' # ys' \<and> Q e' \<and> length ys' \<le> k"
proof -
  consider "as = xs" "x = e" "bs = ys" | zs where "as = xs @ e # zs" "ys = zs @ x # bs" | zs where "xs = as @ x # zs" "bs = zs @ e # ys"
    using assms(1,2) by (auto simp: append_eq_append_conv2 Cons_eq_append_conv append_eq_Cons_conv)
  then show ?thesis
  proof cases
    case 1
    with assms show ?thesis by blast
  next
    case (2 zs)
    with assms show ?thesis by (intro exI [of _ xs] exI [of _ e] exI [of _ "zs @ y # bs"]) simp
  next
    case (3 zs)
    with assms show ?thesis by (intro exI [of _ "as @ y # zs"] exI [of _ e] exI [of _ ys]) simp
  qed
qed

lemma sent_keeps:
  assumes "kept_within k d l" and "k + 1 < lg_bound l"
  shows "kept_within (if relayable (dg_tag e) then Suc k else k) d (ledger_record e l)"
proof (cases "relayable (dg_tag e)")
  case False
  with assms(1) show ?thesis by (simp add: ledger_record_def)
next
  case True
  obtain xs f ys where f: "lg_unacked l = xs @ f # ys" "same_datagram d f" "length ys \<le> k" using assms(1) unfolding kept_within_def by blast
  show ?thesis
  proof (cases "replace_first (same_datagram e) e (lg_unacked l)")
    case None
    let ?us = "if length (lg_unacked l) \<ge> lg_bound l then tl (lg_unacked l) else lg_unacked l"
    have "xs \<noteq> []" if "length (lg_unacked l) \<ge> lg_bound l" using that f assms(2) by (cases xs) auto
    then have "\<exists>xs'. ?us = xs' @ f # ys" using f(1) by (cases xs) auto
    then obtain xs' where "?us @ [e] = xs' @ f # ys @ [e]" by auto
    moreover have "lg_unacked (ledger_record e l) = ?us @ [e]" using None True by (simp add: ledger_record_def Let_def)
    ultimately have "lg_unacked (ledger_record e l) = xs' @ f # ys @ [e]" by simp
    then show ?thesis unfolding kept_within_def using f(2,3) True by (intro exI [of _ xs'] exI [of _ f] exI [of _ "ys @ [e]"]) simp
  next
    case (Some us)
    then obtain as x bs where x: "lg_unacked l = as @ x # bs" "same_datagram e x" "us = as @ e # bs" by (blast dest: replace_first_Some)
    have "same_datagram d e" if "x = f" using that x(2) f(2) by (simp add: same_datagram_def)
    with replaced_keeps [OF f(1) x(1), of "same_datagram e" "same_datagram d" e "Suc k"] x(2,3) f(2,3) True Some show ?thesis
      by (simp add: kept_within_def ledger_record_def Let_def)
  qed
qed

lemma heard_keeps:
  assumes "kept_within k d l" and "\<not> answers d from era view slot t"
  shows "kept_within k d (answered from era view slot t l)"
proof -
  obtain xs f ys where f: "lg_unacked l = xs @ f # ys" "same_datagram d f" "length ys \<le> k" using assms(1) unfolding kept_within_def by blast
  let ?P = "\<lambda>e. \<not> answers e from era view slot t"
  have "filter ?P (lg_unacked l) = filter ?P xs @ f # filter ?P ys" using f assms(2) by (simp add: same_datagram_answers)
  moreover have "length (filter ?P ys) \<le> k" using f(3) le_trans [OF length_filter_le] by blast
  ultimately have "kept_within k d (l\<lparr>lg_unacked := filter ?P (lg_unacked l)\<rparr>)" unfolding kept_within_def using f(2) by auto
  with assms(1) show ?thesis by (simp add: answered_def)
qed

lemma ops_keep:
  "kept_within k d l \<Longrightarrow> k + length (filter is_send ops) < lg_bound l \<Longrightarrow> \<forall>op \<in> set ops. \<not> is_answer d op \<Longrightarrow>
   \<exists>k'. kept_within k' d (fold ledger_do ops l)"
proof (induction ops arbitrary: k l)
  case (Cons op ops)
  show ?case
  proof (cases op)
    case (Sent e)
    show ?thesis
    proof (cases "relayable (dg_tag e)")
      case True
      with Cons.prems Sent sent_keeps [OF Cons.prems(1), of e] Cons.IH [of "Suc k" "ledger_do op l"] show ?thesis by simp
    next
      case False
      then have "ledger_do op l = l" using Sent by (simp add: ledger_record_def)
      with Cons.prems Sent False Cons.IH [of k l] show ?thesis by simp
    qed
  next
    case (Heard "from" era view slot t)
    with Cons.prems heard_keeps [OF Cons.prems(1), of "from" era view slot t] Cons.IH [of k "ledger_do op l"] show ?thesis by simp
  qed
qed auto

text \<open>
  C33: the relay keeps what was not answered. After a datagram of a relayed kind was sent for the first time, over any further
  sends and any messages heard, as long as no message heard answers it and fewer relayed datagrams were sent than
  the ledger's bound, the relay of its ballot still has it or its repeat.
\<close>

theorem relay_keeps_unanswered:
  assumes "relayable (dg_tag d)" and "\<forall>e \<in> set (lg_unacked l). \<not> same_datagram d e" and "length (filter is_send ops) < lg_bound l"
    and "\<forall>op \<in> set ops. \<not> is_answer d op"
  shows "\<exists>e \<in> set (relay (dg_era d) (dg_view d) (fold ledger_do ops (ledger_record d l))). same_datagram d e"
proof -
  have n: "replace_first (same_datagram d) d (lg_unacked l) = None" using assms(2) by (simp add: replace_first_None)
  have "lg_unacked (ledger_record d l) = (if length (lg_unacked l) \<ge> lg_bound l then tl (lg_unacked l) else lg_unacked l) @ [d]"
    using n assms(1) by (simp add: ledger_record_def Let_def)
  then have "kept_within 0 d (ledger_record d l)" unfolding kept_within_def by (auto simp: same_datagram_def)
  then obtain k where "kept_within k d (fold ledger_do ops (ledger_record d l))" using ops_keep assms(3,4) by fastforce
  then obtain e where "e \<in> set (lg_unacked (fold ledger_do ops (ledger_record d l)))" "same_datagram d e"
    unfolding kept_within_def by (metis in_set_conv_decomp)
  then show ?thesis by (auto simp: relay_def same_datagram_def)
qed

definition demo_prepare :: datagram where
  "demo_prepare = \<lparr>dg_to = 2, dg_era = 4, dg_view = 42, dg_slot = 10, dg_tag = TagPrepare, dg_bytes = [1, 10]\<rparr>"

theorem relay_keeps_unanswered_witness:
  "\<exists>e \<in> set (relay 4 42 (fold ledger_do [Sent (demo_prepare\<lparr>dg_to := 3\<rparr>), Heard 3 4 42 10 TagPrepareOk] (ledger_record demo_prepare ledger_new))).
     same_datagram demo_prepare e"
  using relay_keeps_unanswered [of demo_prepare ledger_new "[Sent (demo_prepare\<lparr>dg_to := 3\<rparr>), Heard 3 4 42 10 TagPrepareOk]"]
  by (simp add: relayable_def demo_prepare_def ledger_new_def with_bound_def DEFAULT_BOUND_def answers_def)

end
