(* ===== verification/Peer_Wire.thy ===== *)
theory Peer_Wire
  imports Text_Fields Utf8_Text Hex_Text
begin

text \<open>
  The framing between the sequencer's hosts (\<^verbatim>\<open>examples/lease-sequencer/src/transport.rs\<close>): the peer envelope, the
  headers read out of the replication library's messages, the textual identity, and the fingerprint of the genesis
  membership with its SHA-256, over the table of round constants.
\<close>

unbundle bit_operations_syntax

section \<open>The envelope\<close>

definition PEER_MAGIC :: bytes where
  "PEER_MAGIC = 0 # str_bytes ''LUNET_ADVISORY_LOCK_PEER'' @ [0]"

definition PEER_VRR :: u8 where "PEER_VRR = 1"
definition PEER_APPLICATION :: u8 where "PEER_APPLICATION = 2"
definition PEER_SNAPSHOT :: u8 where "PEER_SNAPSHOT = 3"
definition FORWARD_REQUEST :: u8 where "FORWARD_REQUEST = 1"
definition FORWARD_RESPONSE :: u8 where "FORWARD_RESPONSE = 2"
definition FORWARD_NOT_LEADER :: u8 where "FORWARD_NOT_LEADER = 3"

definition PEER_HEADER_BYTES :: nat where
  "PEER_HEADER_BYTES = length PEER_MAGIC + 1 + 16"

definition encode_peer :: "u8 \<Rightarrow> string \<Rightarrow> bytes \<Rightarrow> bytes" where
  "encode_peer kind fingerprint payload = PEER_MAGIC @ kind # str_bytes fingerprint @ payload"

definition decode_peer :: "bytes \<Rightarrow> (u8 \<times> string \<times> bytes) option" where
  "decode_peer packet =
     (if length packet < PEER_HEADER_BYTES \<or> slice 0 (length PEER_MAGIC) packet \<noteq> PEER_MAGIC then None
      else
        (let kind = packet ! length PEER_MAGIC; start = length PEER_MAGIC + 1 in
         if kind \<noteq> PEER_VRR \<and> kind \<noteq> PEER_APPLICATION \<and> kind \<noteq> PEER_SNAPSHOT then None
         else
           (case from_utf8 (slice start (start + 16) packet) of
              None \<Rightarrow> None
            | Some fingerprint \<Rightarrow>
                if length fingerprint \<noteq> 16 \<or> \<not> list_all is_ascii_hexdigit fingerprint then None
                else Some (kind, fingerprint, drop PEER_HEADER_BYTES packet))))"

section \<open>Headers inside the payload\<close>

definition REINCARNATION_TAG :: u32 where "REINCARNATION_TAG = 13"
definition REINCARNATION_BYTES :: nat where "REINCARNATION_BYTES = 20 + 1 + 4 + 4 + 8 + 8"
definition COMMIT_TAG :: u32 where "COMMIT_TAG = 4"

definition reincarnation_pair :: "bytes \<Rightarrow> (u32 \<times> u32) option" where
  "reincarnation_pair payload =
     (if length payload \<noteq> REINCARNATION_BYTES then None
      else if be_word (slice 0 4 payload) \<noteq> REINCARNATION_TAG then None
      else if payload ! 20 \<noteq> ucast REINCARNATION_TAG then None
      else Some (be_word (slice 21 25 payload), be_word (slice 25 29 payload)))"

record vrr_header =
  vh_tag :: u32
  vh_era :: u32
  vh_view :: u32
  vh_slot :: u64

definition vrr_header_of :: "bytes \<Rightarrow> vrr_header option" where
  "vrr_header_of payload =
     (if length payload < 20 then None
      else
        Some \<lparr>vh_tag = be_word (slice 0 4 payload), vh_era = be_word (slice 4 8 payload),
              vh_view = be_word (slice 8 12 payload), vh_slot = be_word (slice 12 20 payload)\<rparr>)"

section \<open>Textual identities\<close>

definition uuid_bytes :: "string \<Rightarrow> bytes option" where
  "uuid_bytes text =
     (let hex = filter (\<lambda>c. c \<noteq> CHR ''-'') text in
      if length hex \<noteq> 32 \<or> \<not> list_all is_ascii_hexdigit hex then None
      else
        Some (map (\<lambda>i. word_of_nat (16 * the (hex_value (hex ! (2 * i))) + the (hex_value (hex ! (2 * i + 1))))) [0..<16]))"

section \<open>SHA-256\<close>

text \<open>The sixty-four round constants are data the definitions take as the argument \<open>k\<close>.\<close>

definition SHA256_H :: "u32 list" where
  "SHA256_H = [0x6a09e667, 0xbb67ae85, 0x3c6ef372, 0xa54ff53a, 0x510e527f, 0x9b05688c, 0x1f83d9ab, 0x5be0cd19]"

text \<open>The loop that pushes zeros until the length is right.\<close>

function pad_zeros :: "bytes \<Rightarrow> bytes" where
  "pad_zeros m = (if length m mod 64 \<noteq> 56 then pad_zeros (m @ [0]) else m)"
  by pat_completeness auto

termination
proof (relation "measure (\<lambda>m. if length m mod 64 \<le> 56 then 56 - length m mod 64 else 120 - length m mod 64)")
  fix m :: bytes
  define r where "r = length m mod 64"
  have r: "r < 64" "length (m @ [0]) mod 64 = (if Suc r = 64 then 0 else Suc r)" by (simp_all add: r_def mod_Suc)
  assume "length m mod 64 \<noteq> 56"
  then have "r \<noteq> 56" by (simp add: r_def)
  then show "(m @ [0], m) \<in> measure (\<lambda>m. if length m mod 64 \<le> 56 then 56 - length m mod 64 else 120 - length m mod 64)"
    unfolding in_measure r(2) r_def [symmetric] using r(1) by (cases "r \<le> 56"; cases "Suc r = 64") auto
qed simp

declare pad_zeros.simps [simp del]

definition sha256_pad :: "bytes \<Rightarrow> bytes" where
  "sha256_pad data = pad_zeros (data @ [0x80]) @ be_bytes 8 (word_of_nat (length data) * 8 :: u64)"

fun chunks :: "nat \<Rightarrow> 'a list \<Rightarrow> 'a list list" where
  "chunks n xs = (if n = 0 \<or> xs = [] then [] else take n xs # chunks n (drop n xs))"

declare chunks.simps [simp del]

definition schedule_word :: "u32 list \<Rightarrow> nat \<Rightarrow> u32" where
  "schedule_word w i =
     (let s0 = word_rotr 7 (w ! (i - 15)) XOR word_rotr 18 (w ! (i - 15)) XOR drop_bit 3 (w ! (i - 15));
          s1 = word_rotr 17 (w ! (i - 2)) XOR word_rotr 19 (w ! (i - 2)) XOR drop_bit 10 (w ! (i - 2)) in
      w ! (i - 16) + s0 + w ! (i - 7) + s1)"

definition sha256_schedule :: "bytes \<Rightarrow> u32 list" where
  "sha256_schedule block = fold (\<lambda>i w. w @ [schedule_word w i]) [16..<64] (map be_word (chunks 4 block))"

definition sha256_round :: "u32 list \<Rightarrow> u32 list \<Rightarrow> nat \<Rightarrow> u32 list \<Rightarrow> u32 list" where
  "sha256_round k w i v =
     (let s1 = word_rotr 6 (v ! 4) XOR word_rotr 11 (v ! 4) XOR word_rotr 25 (v ! 4);
          chosen = (v ! 4 AND v ! 5) XOR (NOT (v ! 4) AND v ! 6);
          temp1 = v ! 7 + s1 + chosen + k ! i + w ! i;
          s0 = word_rotr 2 (v ! 0) XOR word_rotr 13 (v ! 0) XOR word_rotr 22 (v ! 0);
          majority = (v ! 0 AND v ! 1) XOR (v ! 0 AND v ! 2) XOR (v ! 1 AND v ! 2);
          temp2 = s0 + majority in
      [temp1 + temp2, v ! 0, v ! 1, v ! 2, v ! 3 + temp1, v ! 4, v ! 5, v ! 6])"

definition sha256_block :: "u32 list \<Rightarrow> bytes \<Rightarrow> u32 list \<Rightarrow> u32 list" where
  "sha256_block k block h =
     (let w = sha256_schedule block in map2 (+) h (fold (sha256_round k w) [0..<64] h))"

definition sha256 :: "u32 list \<Rightarrow> bytes \<Rightarrow> bytes" where
  "sha256 k data = concat (map (be_bytes 4) (fold (sha256_block k) (chunks 64 (sha256_pad data)) SHA256_H))"

definition sha256_hex :: "u32 list \<Rightarrow> bytes \<Rightarrow> string" where
  "sha256_hex k data = hex_text (sha256 k data)"

section \<open>The genesis fingerprint\<close>

definition MEMBERSHIP_DOMAIN :: bytes where
  "MEMBERSHIP_DOMAIN = str_bytes ''lunet-advisory-lock/membership/v3'' @ [0]"

record genesis_member =
  gm_id :: u32
  gm_name :: string
  gm_host :: string
  gm_port :: u16

definition delimited :: "string \<Rightarrow> bytes" where
  "delimited field = str_bytes (show_dec (length field)) @ str_bytes '':'' @ str_bytes field"

definition genesis_fields :: "genesis_member \<Rightarrow> string list" where
  "genesis_fields m = [show_dec (unat (gm_id m)), gm_name m, gm_host m, show_dec (unat (gm_port m))]"

definition genesis_bytes :: "genesis_member list \<Rightarrow> bytes" where
  "genesis_bytes genesis =
     MEMBERSHIP_DOMAIN @ str_bytes (show_dec (length genesis)) @ str_bytes '':'' @
     concat (map (\<lambda>m. concat (map delimited (genesis_fields m))) genesis)"

definition genesis_fingerprint :: "u32 list \<Rightarrow> genesis_member list \<Rightarrow> string" where
  "genesis_fingerprint k genesis = take 16 (sha256_hex k (genesis_bytes genesis))"

end
