(* ===== verification/Peer_Wire_Props.thy ===== *)
theory Peer_Wire_Props
  imports Peer_Wire
begin

text \<open>
  The peer envelope decodes exactly what was framed, the padding of the hash fills whole blocks, and the encoding under the
  genesis fingerprint tells any two memberships apart.
\<close>

section \<open>The envelope\<close>

declare length_str_bytes [simp] str_bytes_inj [simp]

lemma hexdigit_ascii: "is_ascii_hexdigit c \<Longrightarrow> char_byte c < 0x80"
proof -
  assume "is_ascii_hexdigit c"
  then have "(of_char c :: nat) < 128" by (auto simp: is_ascii_hexdigit_def hex_value_def Let_def split: if_splits)
  then show ?thesis by (simp add: word_less_nat_alt)
qed

lemma hexdigits_text: "list_all is_ascii_hexdigit f \<Longrightarrow> text_wf f"
  by (rule ascii_text_wf) (auto simp: list_all_iff dest: hexdigit_ascii)

definition framed :: "u8 \<Rightarrow> string \<Rightarrow> bool" where
  "framed kind fingerprint \<longleftrightarrow>
     kind \<in> {PEER_VRR, PEER_APPLICATION, PEER_SNAPSHOT} \<and> length fingerprint = 16 \<and> list_all is_ascii_hexdigit fingerprint"

lemma encode_length: "length f = 16 \<Longrightarrow> PEER_HEADER_BYTES \<le> length (encode_peer k f p)"
  by (simp add: encode_peer_def PEER_HEADER_BYTES_def)

text \<open>
  The peer framing is exact. A packet decodes to a kind, a fingerprint and a payload if and only if it is their framing,
  the kind is one of the three, and the fingerprint has sixteen hexadecimal digits.
\<close>

theorem peer_framing_exact:
  "decode_peer packet = Some (kind, fingerprint, payload) \<longleftrightarrow> packet = encode_peer kind fingerprint payload \<and> framed kind fingerprint"
proof
  let ?m = "length PEER_MAGIC"
  assume d: "decode_peer packet = Some (kind, fingerprint, payload)"
  then have len: "17 + ?m \<le> length packet" and magic: "slice 0 ?m packet = PEER_MAGIC" and k: "kind = packet ! ?m"
    and f: "from_utf8 (slice (Suc ?m) (17 + ?m) packet) = Some fingerprint" and p: "payload = drop (17 + ?m) packet"
    and ok: "framed kind fingerprint"
    by (auto simp: decode_peer_def Let_def PEER_HEADER_BYTES_def framed_def not_less split: if_splits option.splits)
  have fb: "slice (Suc ?m) (17 + ?m) packet = str_bytes fingerprint"
    using f by (auto simp: from_utf8_def str_bytes_str split: if_splits)
  have "packet = take ?m packet @ packet ! ?m # take 16 (drop (Suc ?m) packet) @ drop (17 + ?m) packet"
    using len id_take_nth_drop [of ?m packet] append_take_drop_id [of 16 "drop (Suc ?m) packet"] by (simp add: drop_drop add.commute)
  then show "packet = encode_peer kind fingerprint payload \<and> framed kind fingerprint"
    using magic k fb p ok by (simp add: encode_peer_def slice_def)
next
  assume "packet = encode_peer kind fingerprint payload \<and> framed kind fingerprint"
  then have p: "packet = PEER_MAGIC @ kind # str_bytes fingerprint @ payload" and f: "framed kind fingerprint" by (simp_all add: encode_peer_def)
  have l: "length fingerprint = 16" and h: "list_all is_ascii_hexdigit fingerprint" using f by (simp_all add: framed_def)
  have "slice 0 (length PEER_MAGIC) packet = PEER_MAGIC" "packet ! length PEER_MAGIC = kind"
    "slice (Suc (length PEER_MAGIC)) (17 + length PEER_MAGIC) packet = str_bytes fingerprint" "drop PEER_HEADER_BYTES packet = payload"
    "\<not> length packet < PEER_HEADER_BYTES"
    using l by (simp_all add: p slice_def PEER_HEADER_BYTES_def)
  moreover have "from_utf8 (str_bytes fingerprint) = Some fingerprint" by (rule from_utf8_str [OF hexdigits_text [OF h]])
  ultimately show "decode_peer packet = Some (kind, fingerprint, payload)"
    using f l by (auto simp: decode_peer_def framed_def)
qed

section \<open>The hash\<close>

lemma pad_zeros_length: "length (pad_zeros m) mod 64 = 56"
proof (induction m rule: pad_zeros.induct)
  case (1 m)
  then show ?case by (subst pad_zeros.simps) simp
qed

lemma pad_whole_blocks: "length (sha256_pad data) mod 64 = 0"
  using pad_zeros_length [of "data @ [0x80]"] mod_add_left_eq [of "length (pad_zeros (data @ [0x80]))" 64 8]
  by (simp add: sha256_pad_def)

lemma sha256_round_length: "length (sha256_round k w i v) = 8"
  by (simp add: sha256_round_def Let_def)

lemma fold_rounds_length: "length v = 8 \<Longrightarrow> length (fold (sha256_round k w) is v) = 8"
  by (induction "is" arbitrary: v) (simp_all add: sha256_round_length)

lemma sha256_length: "length (sha256 k data) = 32"
proof -
  have "length (fold (sha256_block k) bs h) = 8" if "length h = 8" for bs h
    using that by (induction bs arbitrary: h) (simp_all add: sha256_block_def Let_def fold_rounds_length)
  then have "length (fold (sha256_block k) (chunks 64 (sha256_pad data)) SHA256_H) = 8" by (simp add: SHA256_H_def)
  then show ?thesis by (simp add: sha256_def length_concat comp_def sum_list_triv)
qed

lemma fingerprint_framed: "framed PEER_VRR (genesis_fingerprint k g)"
proof -
  have "length (genesis_fingerprint k g) = 16" by (simp add: genesis_fingerprint_def sha256_hex_def sha256_length)
  then show ?thesis
    using hex_text_hexdigits in_set_takeD unfolding framed_def genesis_fingerprint_def sha256_hex_def list_all_iff by fastforce
qed

section \<open>The fingerprint\<close>

lemma counted_inj:
  assumes "show_dec m @ '':'' @ a = show_dec n @ '':'' @ b"
  shows "m = n \<and> a = b"
  using assms by (simp add: dec_field_inj)

lemma delimited_inj:
  assumes "delimited a @ x = delimited b @ y"
  shows "a = b \<and> x = y"
proof -
  have "show_dec (length a) @ '':'' @ a @ bytes_str x = show_dec (length b) @ '':'' @ b @ bytes_str y"
    using arg_cong [OF assms, of bytes_str] by (simp add: delimited_def bytes_str_def flip: append_assoc) (simp flip: bytes_str_def)
  then have "length a = length b" "a @ bytes_str x = b @ bytes_str y" using counted_inj by blast+
  then show ?thesis using assms by (simp add: delimited_def)
qed

lemma delimited_list_inj:
  "length fs = length gs \<Longrightarrow> concat (map delimited fs) @ x = concat (map delimited gs) @ y \<Longrightarrow> fs = gs \<and> x = y"
proof (induction fs gs arbitrary: x y rule: list_induct2)
  case (Cons f fs g gs)
  from delimited_inj [of f "concat (map delimited fs) @ x" g "concat (map delimited gs) @ y"] Cons.prems Cons.IH [of x y]
  show ?case by simp
qed simp

lemma genesis_fields_inj: "genesis_fields m = genesis_fields n \<Longrightarrow> m = n"
  by (simp add: genesis_fields_def show_dec_inj word_unat_eq_iff)

text \<open>
  C34: the bytes under the fingerprint tell any two genesis memberships apart. Two memberships have the same
  encoding only if they are the same list of members with the same ids, names, hosts and ports, whatever texts
  the names and hosts are. The bytes are those of the descriptor's genesis rows, not of
  its joiners, so different genesis rows share a fingerprint only on a collision of the truncated hash.
\<close>

theorem genesis_bytes_tell_apart: "genesis_bytes g = genesis_bytes h \<longleftrightarrow> g = h"
proof
  assume e: "genesis_bytes g = genesis_bytes h"
  let ?b = "\<lambda>g. concat (map (\<lambda>m. concat (map delimited (genesis_fields m))) g)"
  have "str_bytes (show_dec (length g)) @ str_bytes '':'' @ ?b g = str_bytes (show_dec (length h)) @ str_bytes '':'' @ ?b h"
    using e by (simp add: genesis_bytes_def)
  from arg_cong [OF this, of bytes_str]
  have "show_dec (length g) @ '':'' @ bytes_str (?b g) = show_dec (length h) @ '':'' @ bytes_str (?b h)"
    by (simp add: bytes_str_def flip: append_assoc) (simp flip: bytes_str_def)
  then have l: "length g = length h" and "bytes_str (?b g) = bytes_str (?b h)" using counted_inj by blast+
  then have b: "?b g = ?b h" by (metis str_bytes_str)
  have flat: "?b g = concat (map delimited (concat (map genesis_fields g)))" for g by (induction g) simp_all
  have len: "length (concat (map genesis_fields g)) = 4 * length g" for g by (induction g) (simp_all add: genesis_fields_def)
  have "concat (map genesis_fields g) = concat (map genesis_fields h)"
    using delimited_list_inj [of "concat (map genesis_fields g)" "concat (map genesis_fields h)" "[]" "[]"] b l by (simp add: flat len)
  with l show "g = h"
  proof (induction g h rule: list_induct2)
    case (Cons m ms n ns)
    then have "genesis_fields m = genesis_fields n" "concat (map genesis_fields ms) = concat (map genesis_fields ns)"
      by (simp_all add: genesis_fields_def)
    with Cons.IH genesis_fields_inj show ?case by blast
  qed simp
qed simp

end
