(* ===== verification/Lease_Clients.thy ===== *)
theory Lease_Clients
  imports Host_Timers Json_Seam Text_Fields Utf8_Text
begin

text \<open>
  The lease clients embedded in the sequencer (\<^verbatim>\<open>examples/lease-sequencer/src/client_gate.rs\<close> and
  \<^verbatim>\<open>embedded_client.rs\<close>): the gate with its silence and start transitions, the contender that probes, acquires and
  renews, and the runner that owns them. JSON and the text of identities are parameters; the
  fresh message identities are arguments; the signal latch is an argument of the tick. An assertion that fires is \<open>None\<close>.
\<close>

section \<open>The gate\<close>

datatype gate_mode = GateOff | GateOn
datatype gate_op = OpGet | OpSet | OpExtend

record client_gate =
  ga_mode :: gate_mode
  ga_schedule :: "u64 option"
  ga_holder :: "string option"
  ga_lease_id :: u64
  ga_request_num :: u64

definition gate_boot :: client_gate where
  "gate_boot = \<lparr>ga_mode = GateOff, ga_schedule = None, ga_holder = None, ga_lease_id = 0, ga_request_num = 0\<rparr>"

definition reset_bookkeeping :: "client_gate \<Rightarrow> client_gate" where
  "reset_bookkeeping g = g\<lparr>ga_lease_id := 0, ga_request_num := 0\<rparr>"

definition gate_stop :: "client_gate \<Rightarrow> client_gate" where
  "gate_stop g = reset_bookkeeping (g\<lparr>ga_mode := GateOff, ga_schedule := None, ga_holder := None\<rparr>)"

definition gate_start :: "client_gate \<Rightarrow> client_gate" where
  "gate_start g = g\<lparr>ga_mode := GateOn\<rparr>"

definition next_op :: "client_gate \<Rightarrow> gate_op option" where
  "next_op g =
     (if ga_mode g = GateOff then None
      else
        (case ga_schedule g of
           None \<Rightarrow> Some OpGet
         | Some _ \<Rightarrow> if ga_holder g \<noteq> None then Some OpExtend else Some OpGet))"

text \<open>The latch of the signals applied to one gate.\<close>

definition signals_apply :: "bool \<Rightarrow> client_gate \<Rightarrow> client_gate" where
  "signals_apply on g = (if on = (ga_mode g = GateOn) then g else if on then gate_start g else gate_stop g)"

section \<open>Replies\<close>

definition reply_ok :: "'j json_ops \<Rightarrow> 'j \<Rightarrow> bool" where
  "reply_ok jo reply \<longleftrightarrow> jo_get jo ''error'' reply = None"

definition reply_granted :: "'j json_ops \<Rightarrow> 'j \<Rightarrow> string \<Rightarrow> bool" where
  "reply_granted jo reply op =
     (if \<not> reply_ok jo reply then False
      else if op = ''set'' \<or> op = ''extend'' then Option.bind (jo_get jo ''granted'' reply) (jo_as_bool jo) = Some True
      else True)"

definition saturating_sub :: "u64 \<Rightarrow> u64 \<Rightarrow> u64" where
  "saturating_sub a b = (if b \<le> a then a - b else 0)"

definition reply_remaining_ms :: "'j json_ops \<Rightarrow> 'j \<Rightarrow> u64 option" where
  "reply_remaining_ms jo reply =
     Option.bind (jo_get jo ''lease'' reply) (\<lambda>lease.
     Option.bind (Option.bind (jo_get jo ''expiry'' lease) (jo_as_u64 jo)) (\<lambda>expiry.
     Option.bind (Option.bind (jo_get jo ''executed_at'' reply) (jo_as_u64 jo)) (\<lambda>executed_at.
     Some (saturating_sub expiry executed_at))))"

text \<open>The identity library: parsing and the canonical text.\<close>

record uuid_text =
  ut_parse :: "string \<Rightarrow> uuid option"
  ut_show :: "uuid \<Rightarrow> string"

definition is_wire_uuid :: "uuid_text \<Rightarrow> string \<Rightarrow> bool" where
  "is_wire_uuid ut text = (case ut_parse ut text of None \<Rightarrow> False | Some u \<Rightarrow> ut_show ut u = text)"

definition reply_holds :: "'j json_ops \<Rightarrow> uuid_text \<Rightarrow> 'j \<Rightarrow> string \<Rightarrow> bool option" where
  "reply_holds jo ut reply holder =
     (if \<not> is_wire_uuid ut holder then None
      else
        (case Option.bind (Option.bind (jo_get jo ''lease'' reply) (jo_get jo ''holder'')) (jo_as_str jo) of
           None \<Rightarrow> Some False
         | Some lease_holder \<Rightarrow>
             if \<not> is_wire_uuid ut lease_holder then None
             else
               Some (lease_holder = holder \<and>
                 (case Option.bind (jo_get jo ''granted'' reply) (jo_as_bool jo) of None \<Rightarrow> True | Some b \<Rightarrow> b))))"

section \<open>The contender\<close>

record client_config =
  cc_lock_id :: u64
  cc_client_id :: u64
  cc_lease_ms :: u64
  cc_probe_floor_ms :: u64

record action =
  ac_op :: string
  ac_message_id :: uuid
  ac_request :: string

record contender =
  co_config :: client_config
  co_gate :: client_gate
  co_holder :: string
  co_renew_margin :: u64
  co_rng :: u64

text \<open>The renewal margin is a floating-point share of the lease, given as a number.\<close>

definition contender_new :: "uuid_text \<Rightarrow> client_config \<Rightarrow> u64 \<Rightarrow> u64 \<Rightarrow> contender option" where
  "contender_new ut config renew_margin seed =
     (let x = rng_next (rng_new seed); holder = ut_show ut (ucast x) in
      if \<not> is_wire_uuid ut holder then None
      else
        Some \<lparr>co_config = config, co_gate = gate_boot, co_holder = holder, co_renew_margin = renew_margin, co_rng = x\<rparr>)"

definition json_field :: "string \<Rightarrow> string \<Rightarrow> string" where
  "json_field k v = CHR 0x22 # k @ CHR 0x22 # CHR '':'' # v"

definition quoted :: "string \<Rightarrow> string" where
  "quoted s = CHR 0x22 # s @ [CHR 0x22]"

definition get_request :: "uuid_text \<Rightarrow> uuid \<Rightarrow> u64 \<Rightarrow> u64 \<Rightarrow> u64 \<Rightarrow> string" where
  "get_request ut m client_id request_num lock_id =
     ''{'' @ json_field ''op'' (quoted ''get'') @ '','' @ json_field ''message_id'' (quoted (ut_show ut m)) @ '','' @
     json_field ''client_id'' (show_dec (unat client_id)) @ '','' @ json_field ''request_num'' (show_dec (unat request_num)) @ '','' @
     json_field ''lock_id'' (show_dec (unat lock_id)) @ ''}''"

definition build_get :: "uuid_text \<Rightarrow> uuid \<Rightarrow> contender \<Rightarrow> action \<times> contender" where
  "build_get ut m c =
     (let g = (co_gate c)\<lparr>ga_request_num := ga_request_num (co_gate c) + 1\<rparr> in
      (\<lparr>ac_op = ''get'', ac_message_id = m,
        ac_request = get_request ut m (cc_client_id (co_config c)) (ga_request_num g) (cc_lock_id (co_config c))\<rparr>,
       c\<lparr>co_gate := g\<rparr>))"

definition build_set :: "uuid_text \<Rightarrow> uuid \<Rightarrow> u64 \<Rightarrow> string \<Rightarrow> contender \<Rightarrow> action \<times> contender" where
  "build_set ut m now_ms op c =
     (let g = (co_gate c)\<lparr>ga_request_num := ga_request_num (co_gate c) + 1, ga_lease_id := ga_lease_id (co_gate c) + 1\<rparr> in
      (\<lparr>ac_op = op, ac_message_id = m,
        ac_request =
          ''{'' @ json_field ''op'' (quoted ''set'') @ '','' @ json_field ''message_id'' (quoted (ut_show ut m)) @ '','' @
          json_field ''client_id'' (show_dec (unat (cc_client_id (co_config c)))) @ '','' @
          json_field ''request_num'' (show_dec (unat (ga_request_num g))) @ '','' @
          json_field ''lock_id'' (show_dec (unat (cc_lock_id (co_config c)))) @ '','' @
          json_field ''lease'' (''{'' @ json_field ''lease_id'' (show_dec (unat (ga_lease_id g))) @ '','' @
            json_field ''holder'' (quoted (co_holder c)) @ '','' @
            json_field ''lease_ms'' (show_dec (unat (cc_lease_ms (co_config c)))) @ ''}'') @ '','' @
          json_field ''sent_at_ms'' (show_dec (unat now_ms)) @ ''}''\<rparr>,
       c\<lparr>co_gate := g\<rparr>))"

text \<open>The gate never schedules a plain set.\<close>

definition next_action :: "uuid_text \<Rightarrow> uuid \<Rightarrow> u64 \<Rightarrow> contender \<Rightarrow> (action option \<times> contender) option" where
  "next_action ut m now_ms c =
     (if ga_mode (co_gate c) = GateOff then Some (None, c)
      else if (case ga_schedule (co_gate c) of None \<Rightarrow> False | Some at \<Rightarrow> now_ms < at) then Some (None, c)
      else
        (case next_op (co_gate c) of
           None \<Rightarrow> Some (None, c)
         | Some OpGet \<Rightarrow> (case build_get ut m c of (a, c') \<Rightarrow> Some (Some a, c'))
         | Some OpExtend \<Rightarrow> (case build_set ut m now_ms ''extend'' c of (a, c') \<Rightarrow> Some (Some a, c'))
         | Some OpSet \<Rightarrow> None))"

definition draw :: "u64 \<Rightarrow> contender \<Rightarrow> u64 \<times> contender" where
  "draw bound c = (case rng_below bound (co_rng c) of (x, r) \<Rightarrow> (x, c\<lparr>co_rng := r\<rparr>))"

definition reschedule :: "u64 \<Rightarrow> contender \<Rightarrow> contender" where
  "reschedule at c = c\<lparr>co_gate := (co_gate c)\<lparr>ga_schedule := Some at\<rparr>\<rparr>"

definition hold :: "string option \<Rightarrow> contender \<Rightarrow> contender" where
  "hold h c = c\<lparr>co_gate := (co_gate c)\<lparr>ga_holder := h\<rparr>\<rparr>"

definition contender_absorb ::
  "'j json_ops \<Rightarrow> uuid_text \<Rightarrow> uuid \<Rightarrow> u64 \<Rightarrow> action \<Rightarrow> 'j option \<Rightarrow> contender \<Rightarrow> (action option \<times> contender) option" where
  "contender_absorb jo ut m now_ms a reply c =
     (let ok = (case reply of None \<Rightarrow> False | Some r \<Rightarrow> reply_ok jo r);
          remaining = Option.bind reply (reply_remaining_ms jo) in
      case (case reply of None \<Rightarrow> Some False | Some r \<Rightarrow> reply_holds jo ut r (co_holder c)) of
        None \<Rightarrow> None
      | Some holds \<Rightarrow>
          (let c1 = (if holds then hold (Some (co_holder c)) c else c) in
           if ac_op a = ''get'' \<and> ok \<and> remaining \<noteq> None \<and> \<not> holds then
             (case draw 100 c1 of (x, c2) \<Rightarrow>
                Some (None, reschedule (now_ms + max (cc_probe_floor_ms (co_config c2)) (the remaining + x)) c2))
           else if ac_op a = ''get'' \<and> ok \<and> remaining \<noteq> None then
             (case draw 50 c1 of (x, c2) \<Rightarrow> Some (None, reschedule (now_ms + x) c2))
           else if ac_op a = ''get'' \<and> ok then
             (case build_set ut m now_ms ''set'' (reschedule now_ms c1) of (b, c2) \<Rightarrow> Some (Some b, c2))
           else if ac_op a = ''extend'' \<and> ok \<and> remaining \<noteq> None \<and> holds then
             Some (None, reschedule (now_ms + saturating_sub (the remaining) (co_renew_margin c1)) c1)
           else if ac_op a = ''extend'' \<and> ok \<and> remaining \<noteq> None then
             (case draw 200 (hold None c1) of (x, c2) \<Rightarrow> Some (None, reschedule (now_ms + 100 + x) c2))
           else if ac_op a = ''set'' then
             Some (None, reschedule (now_ms + cc_lease_ms (co_config c1) - co_renew_margin c1) (hold (Some (co_holder c1)) c1))
           else
             (case draw 200 c1 of (x, c2) \<Rightarrow> Some (None, reschedule (now_ms + 100 + x) c2))))"

section \<open>The runner\<close>

record pending_action =
  pa_action :: action
  pa_deadline :: u64

record lease_client =
  lc_contender :: contender
  lc_pending :: "pending_action option"

record runner =
  ru_clients :: "lease_client list"
  ru_deadline_ms :: u64
  ru_on :: bool

text \<open>Submitting an action works on the host's state and may not return.\<close>

type_synonym 'w submit = "action \<Rightarrow> 'w \<Rightarrow> (bool \<times> 'w) option"

definition submit_or_absorb ::
  "'j json_ops \<Rightarrow> uuid_text \<Rightarrow> 'w submit \<Rightarrow> uuid \<Rightarrow> u64 \<Rightarrow> u64 \<Rightarrow> action \<Rightarrow> lease_client \<times> 'w \<Rightarrow> (lease_client \<times> 'w) option" where
  "submit_or_absorb jo ut submit m now_ms deadline_ms a st =
     (case st of (cl, w) \<Rightarrow>
      Option.bind (submit a w) (\<lambda>(taken, w1).
      if taken then Some (cl\<lparr>lc_pending := Some \<lparr>pa_action = a, pa_deadline = now_ms + deadline_ms\<rparr>\<rparr>, w1)
      else map_option (\<lambda>(_, c). (cl\<lparr>lc_contender := c\<rparr>, w1)) (contender_absorb jo ut m now_ms a None (lc_contender cl))))"

definition client_step ::
  "'j json_ops \<Rightarrow> uuid_text \<Rightarrow> 'w submit \<Rightarrow> uuid \<Rightarrow> u64 \<Rightarrow> u64 \<Rightarrow> lease_client \<times> 'w \<Rightarrow> (nat \<times> lease_client \<times> 'w) option" where
  "client_step jo ut submit m now_ms deadline_ms st =
     (case st of (cl, w) \<Rightarrow>
      let go = (\<lambda>expired cl.
        Option.bind (next_action ut m now_ms (lc_contender cl)) (\<lambda>(next, c).
        case next of
          None \<Rightarrow> Some (expired, cl\<lparr>lc_contender := c\<rparr>, w)
        | Some a \<Rightarrow>
            map_option (Pair expired) (submit_or_absorb jo ut submit m now_ms deadline_ms a (cl\<lparr>lc_contender := c\<rparr>, w)))) in
      case lc_pending cl of
        None \<Rightarrow> go 0 cl
      | Some p \<Rightarrow>
          if now_ms \<ge> pa_deadline p then
            Option.bind (contender_absorb jo ut m now_ms (pa_action p) None (lc_contender cl)) (\<lambda>(_, c).
            go 1 (cl\<lparr>lc_contender := c, lc_pending := None\<rparr>))
          else Some (0, cl, w))"

definition client_complete ::
  "'j json_ops \<Rightarrow> uuid_text \<Rightarrow> 'w submit \<Rightarrow> uuid \<Rightarrow> u64 \<Rightarrow> u64 \<Rightarrow> pending_action \<Rightarrow> 'j option \<Rightarrow> lease_client \<times> 'w \<Rightarrow>
   (lease_client \<times> 'w) option" where
  "client_complete jo ut submit m now_ms deadline_ms p reply st =
     (case st of (cl, w) \<Rightarrow>
      Option.bind (contender_absorb jo ut m now_ms (pa_action p) reply (lc_contender cl)) (\<lambda>(follow, c).
      case follow of
        None \<Rightarrow> Some (cl\<lparr>lc_contender := c\<rparr>, w)
      | Some a \<Rightarrow> submit_or_absorb jo ut submit m now_ms deadline_ms a (cl\<lparr>lc_contender := c\<rparr>, w)))"

fun runner_clients :: "uuid_text \<Rightarrow> client_config \<Rightarrow> u64 \<Rightarrow> u64 \<Rightarrow> nat list \<Rightarrow> lease_client list option" where
  "runner_clients ut config renew_margin seed_base [] = Some []"
| "runner_clients ut config renew_margin seed_base (i # is) =
     Option.bind (contender_new ut (config\<lparr>cc_client_id := cc_client_id config + word_of_nat i\<rparr>) renew_margin
        (xor seed_base (word_of_nat i + 1))) (\<lambda>c.
     map_option (\<lambda>cs. \<lparr>lc_contender = c, lc_pending = None\<rparr> # cs) (runner_clients ut config renew_margin seed_base is))"

definition runner_new :: "uuid_text \<Rightarrow> nat \<Rightarrow> client_config \<Rightarrow> u64 \<Rightarrow> u64 \<Rightarrow> u64 \<Rightarrow> runner option" where
  "runner_new ut n config renew_margin deadline_ms seed_base =
     map_option (\<lambda>cs. \<lparr>ru_clients = cs, ru_deadline_ms = deadline_ms, ru_on = False\<rparr>)
       (runner_clients ut config renew_margin seed_base [0..<n])"

definition on_gate :: "(client_gate \<Rightarrow> client_gate) \<Rightarrow> lease_client \<Rightarrow> lease_client" where
  "on_gate f cl = cl\<lparr>lc_contender := (lc_contender cl)\<lparr>co_gate := f (co_gate (lc_contender cl))\<rparr>\<rparr>"

text \<open>The latch changed: every client starts, or falls silent and forgets what it waits for.\<close>

definition runner_switch :: "bool \<Rightarrow> runner \<Rightarrow> runner" where
  "runner_switch on r =
     (if on = ru_on r then r
      else if on then r\<lparr>ru_clients := map (on_gate gate_start) (ru_clients r), ru_on := True\<rparr>
      else r\<lparr>ru_clients := map (\<lambda>cl. (on_gate gate_stop cl)\<lparr>lc_pending := None\<rparr>) (ru_clients r), ru_on := False\<rparr>)"

fun step_clients ::
  "'j json_ops \<Rightarrow> uuid_text \<Rightarrow> 'w submit \<Rightarrow> (nat \<Rightarrow> uuid) \<Rightarrow> u64 \<Rightarrow> u64 \<Rightarrow> nat \<Rightarrow> lease_client list \<Rightarrow> 'w \<Rightarrow>
   (nat \<times> lease_client list \<times> 'w) option" where
  "step_clients jo ut submit fresh now_ms deadline_ms i [] w = Some (0, [], w)"
| "step_clients jo ut submit fresh now_ms deadline_ms i (cl # cls) w =
     Option.bind (client_step jo ut submit (fresh i) now_ms deadline_ms (cl, w)) (\<lambda>(n, cl', w1).
     map_option (\<lambda>(k, cls', w2). (n + k, cl' # cls', w2)) (step_clients jo ut submit fresh now_ms deadline_ms (Suc i) cls w1))"

definition runner_tick ::
  "'j json_ops \<Rightarrow> uuid_text \<Rightarrow> 'w submit \<Rightarrow> (nat \<Rightarrow> uuid) \<Rightarrow> bool \<Rightarrow> u64 \<Rightarrow> runner \<Rightarrow> 'w \<Rightarrow> (nat \<times> runner \<times> 'w) option" where
  "runner_tick jo ut submit fresh on now_ms r w =
     (let r1 = runner_switch on r in
      map_option (\<lambda>(n, cls, w1). (n, r1\<lparr>ru_clients := cls\<rparr>, w1))
        (step_clients jo ut submit fresh now_ms (ru_deadline_ms r1) 0 (ru_clients r1) w))"

text \<open>The first client that waits for an answer under an identity.\<close>

fun waiting_at :: "uuid \<Rightarrow> lease_client list \<Rightarrow> (nat \<times> pending_action) option" where
  "waiting_at m [] = None"
| "waiting_at m (cl # cls) =
     (case lc_pending cl of
        Some p \<Rightarrow>
          if ac_message_id (pa_action p) = m then Some (0, p) else map_option (\<lambda>(i, q). (Suc i, q)) (waiting_at m cls)
      | None \<Rightarrow> map_option (\<lambda>(i, q). (Suc i, q)) (waiting_at m cls))"

definition runner_absorb ::
  "'j json_ops \<Rightarrow> uuid_text \<Rightarrow> 'w submit \<Rightarrow> uuid \<Rightarrow> u64 \<Rightarrow> uuid \<Rightarrow> bytes \<Rightarrow> runner \<Rightarrow> 'w \<Rightarrow> (bool \<times> runner \<times> 'w) option" where
  "runner_absorb jo ut submit fresh now_ms m reply r w =
     (case waiting_at m (ru_clients r) of
        None \<Rightarrow> Some (False, r, w)
      | Some (i, p) \<Rightarrow>
          map_option (\<lambda>(cl, w1). (True, r\<lparr>ru_clients := (ru_clients r)[i := cl]\<rparr>, w1))
            (client_complete jo ut submit fresh now_ms (ru_deadline_ms r) p (jo_parse jo reply)
              ((ru_clients r ! i)\<lparr>lc_pending := None\<rparr>, w)))"

definition runner_not_leader ::
  "'j json_ops \<Rightarrow> uuid_text \<Rightarrow> uuid \<Rightarrow> u64 \<Rightarrow> uuid \<Rightarrow> runner \<Rightarrow> (bool \<times> runner) option" where
  "runner_not_leader jo ut fresh now_ms m r =
     (case waiting_at m (ru_clients r) of
        None \<Rightarrow> Some (False, r)
      | Some (i, p) \<Rightarrow>
          (let cl = (ru_clients r ! i)\<lparr>lc_pending := None\<rparr> in
           map_option (\<lambda>(_, c). (True, r\<lparr>ru_clients := (ru_clients r)[i := cl\<lparr>lc_contender := c\<rparr>]\<rparr>))
             (contender_absorb jo ut fresh now_ms (pa_action p) None (lc_contender cl))))"

end
