(* ===== verification/Lease_Clients_Props.thy ===== *)
theory Lease_Clients_Props
  imports Lease_Clients
begin

text \<open>
  A silenced runner sends nothing and remembers nothing, and a start probes before anything else; and a contender
  takes itself for the holder after any answer to its set.
\<close>

section \<open>Silence\<close>

definition silent_client :: "lease_client \<Rightarrow> bool" where
  "silent_client cl \<longleftrightarrow>
     lc_pending cl = None \<and> ga_mode (co_gate (lc_contender cl)) = GateOff \<and> ga_schedule (co_gate (lc_contender cl)) = None \<and>
     ga_holder (co_gate (lc_contender cl)) = None"

definition runner_ok :: "runner \<Rightarrow> bool" where
  "runner_ok r \<longleftrightarrow> ru_on r \<or> list_all silent_client (ru_clients r)"

lemma new_clients_silent: "runner_clients ut config margin seed is = Some cls \<Longrightarrow> list_all silent_client cls"
proof (induction "is" arbitrary: cls)
  case (Cons i "is")
  then show ?case
    by (auto simp: bind_eq_Some_conv contender_new_def Let_def silent_client_def gate_boot_def split: if_splits)
qed simp

lemma runner_new_ok: "runner_new ut n config margin deadline seed = Some r \<Longrightarrow> runner_ok r"
  by (auto simp: runner_new_def runner_ok_def dest: new_clients_silent)

lemma silent_step: "silent_client cl \<Longrightarrow> client_step jo ut submit m now deadline (cl, w) = Some (0, cl, w)"
  by (simp add: silent_client_def client_step_def next_action_def)

lemma silent_steps: "list_all silent_client cls \<Longrightarrow> step_clients jo ut submit fresh now deadline i cls w = Some (0, cls, w)"
  by (induction cls arbitrary: i) (simp_all add: silent_step)

lemma silent_not_waiting: "list_all silent_client cls \<Longrightarrow> waiting_at m cls = None"
  by (induction cls) (simp_all add: silent_client_def)

lemma switch_off_silent: "runner_ok r \<Longrightarrow> list_all silent_client (ru_clients (runner_switch False r)) \<and> \<not> ru_on (runner_switch False r)"
  by (auto simp: runner_ok_def runner_switch_def list_all_iff silent_client_def on_gate_def gate_stop_def reset_bookkeeping_def)

lemma switch_on [simp]: "ru_on (runner_switch on r) = on"
  by (simp add: runner_switch_def)

lemma tick_ok:
  assumes "runner_ok r" and "runner_tick jo ut submit fresh on now r w = Some (n, r', w')"
  shows "runner_ok r'"
proof (cases on)
  case True
  with assms(2) show ?thesis by (auto simp: runner_tick_def Let_def runner_ok_def)
next
  case False
  with assms(2) switch_off_silent [OF assms(1)] show ?thesis by (auto simp: runner_tick_def Let_def runner_ok_def silent_steps)
qed

lemma absorb_ok:
  assumes "runner_ok r" and "runner_absorb jo ut submit fresh now m reply r w = Some (b, r', w')"
  shows "runner_ok r'"
  using assms silent_not_waiting [of "ru_clients r" m]
  by (auto simp: runner_absorb_def runner_ok_def split: option.splits)

lemma not_leader_ok:
  assumes "runner_ok r" and "runner_not_leader jo ut fresh now m r = Some (b, r')"
  shows "runner_ok r'"
  using assms silent_not_waiting [of "ru_clients r" m]
  by (auto simp: runner_not_leader_def runner_ok_def Let_def split: option.splits)

text \<open>What the host does with a runner: ticks under any latch, replies, refusals.\<close>

inductive runner_step :: "'j json_ops \<Rightarrow> uuid_text \<Rightarrow> 'w submit \<Rightarrow> runner \<times> 'w \<Rightarrow> runner \<times> 'w \<Rightarrow> bool" for jo ut submit where
  run_tick: "runner_tick jo ut submit fresh on now r w = Some (n, r', w') \<Longrightarrow> runner_step jo ut submit (r, w) (r', w')"
| run_absorb: "runner_absorb jo ut submit m' now m reply r w = Some (b, r', w') \<Longrightarrow> runner_step jo ut submit (r, w) (r', w')"
| run_refused: "runner_not_leader jo ut m' now m r = Some (b, r') \<Longrightarrow> runner_step jo ut submit (r, w) (r', w)"

lemma run_step_ok: "runner_step jo ut submit x y \<Longrightarrow> runner_ok (fst x) \<Longrightarrow> runner_ok (fst y)"
proof (induction rule: runner_step.induct)
  case run_tick
  then show ?case using tick_ok by (metis fst_conv)
next
  case run_absorb
  then show ?case using absorb_ok by (metis fst_conv)
next
  case run_refused
  then show ?case using not_leader_ok by (metis fst_conv)
qed

lemma runs_ok: "(runner_step jo ut submit)\<^sup>*\<^sup>* x y \<Longrightarrow> runner_ok (fst x) \<Longrightarrow> runner_ok (fst y)"
  by (induction rule: rtranclp_induct) (blast intro: run_step_ok)+

text \<open>
  C35: a silenced runner is silent. After any history of a runner, a tick under the silenced latch submits nothing, whatever was
  in flight; afterwards no client holds or waits for anything, so a late reply finds no one; and the first
  operation of every client after the next start is a probe.
\<close>

theorem silenced_runner_is_silent:
  assumes "runner_new ut k config margin deadline seed = Some r0" and "(runner_step jo ut submit)\<^sup>*\<^sup>* (r0, w0) (r, w)"
  shows "\<exists>r'. runner_tick jo ut submit fresh False now r w = Some (0, r', w) \<and> list_all silent_client (ru_clients r') \<and>
    runner_absorb jo ut submit m' now' m reply r' w = Some (False, r', w) \<and>
    (\<forall>cl \<in> set (ru_clients (runner_switch True r')). next_op (co_gate (lc_contender cl)) = Some OpGet)"
proof -
  have "runner_ok r" using runs_ok [OF assms(2)] runner_new_ok [OF assms(1)] by simp
  let ?r = "runner_switch False r"
  have s: "list_all silent_client (ru_clients ?r)" "\<not> ru_on ?r" using switch_off_silent [OF \<open>runner_ok r\<close>] by simp_all
  have "runner_tick jo ut submit fresh False now r w = Some (0, ?r, w)" by (simp add: runner_tick_def silent_steps [OF s(1)] Let_def)
  moreover have "runner_absorb jo ut submit m' now' m reply ?r w = Some (False, ?r, w)"
    by (simp add: runner_absorb_def silent_not_waiting [OF s(1)])
  moreover have "\<forall>cl \<in> set (ru_clients (runner_switch True ?r)). next_op (co_gate (lc_contender cl)) = Some OpGet"
    using s by (auto simp: runner_switch_def [of True] on_gate_def gate_start_def next_op_def list_all_iff silent_client_def)
  ultimately show ?thesis using s(1) by blast
qed

text \<open>A stand-in for the identity library.\<close>

definition demo_uuid_text :: uuid_text where
  "demo_uuid_text = \<lparr>ut_parse = (\<lambda>_. Some 0), ut_show = (\<lambda>_. ''id'')\<rparr>"

definition demo_client :: client_config where
  "demo_client = \<lparr>cc_lock_id = 5, cc_client_id = 800000, cc_lease_ms = 500, cc_probe_floor_ms = 0\<rparr>"

definition demo_unit_json :: "unit json_ops" where
  "demo_unit_json =
     \<lparr>jo_parse = (\<lambda>_. Some ()), jo_render = (\<lambda>_. []), jo_null = (), jo_num = (\<lambda>_. ()), jo_str = (\<lambda>_. ()), jo_obj = (\<lambda>_. ()),
      jo_get = (\<lambda>_ _. None), jo_as_str = (\<lambda>_. None), jo_as_bool = (\<lambda>_. None), jo_as_u64 = (\<lambda>_. None), jo_is_object = (\<lambda>_. False)\<rparr>"

theorem silenced_runner_is_silent_witness:
  "\<exists>r0 r w r'. runner_new demo_uuid_text 1 demo_client 250 1000 7 = Some r0 \<and>
     runner_tick demo_unit_json demo_uuid_text (\<lambda>a (w :: nat). Some (True, Suc w)) (\<lambda>_. 3) True 10 r0 0 = Some (0, r, w) \<and> w = 1 \<and>
     runner_tick demo_unit_json demo_uuid_text (\<lambda>a (w :: nat). Some (True, Suc w)) (\<lambda>_. 4) False 20 r w = Some (0, r', w)"
proof -
  let ?sub = "\<lambda>a (w :: nat). Some (True, Suc w)"
  obtain r0 where r0: "runner_new demo_uuid_text 1 demo_client 250 1000 7 = Some r0"
    by (simp add: runner_new_def contender_new_def is_wire_uuid_def demo_uuid_text_def Let_def)
  have "\<exists>r. runner_tick demo_unit_json demo_uuid_text ?sub (\<lambda>_. 3) True 10 r0 0 = Some (0, r, 1)"
    using r0
    by (auto simp: runner_new_def contender_new_def is_wire_uuid_def demo_uuid_text_def Let_def runner_tick_def runner_switch_def
        client_step_def next_action_def on_gate_def gate_start_def gate_boot_def next_op_def build_get_def submit_or_absorb_def)
  then obtain r where r: "runner_tick demo_unit_json demo_uuid_text ?sub (\<lambda>_. 3) True 10 r0 0 = Some (0, r, 1)" by blast
  then have "(runner_step demo_unit_json demo_uuid_text ?sub)\<^sup>*\<^sup>* (r0, 0) (r, 1)" by (blast intro: run_tick)
  from silenced_runner_is_silent [OF r0 this, of "\<lambda>_. 4" 20] r0 r show ?thesis by blast
qed

section \<open>A refused set\<close>

text \<open>
  C36: a contender takes itself for the holder after any answer to its set. Whatever comes back for a set, a refusal that
  names another holder, an error, or nothing by the deadline, the contender records itself as the holder and
  schedules a renewal, so while the gate is on its next operation at that time is an extend of a lease it may never have had.
\<close>

theorem unanswered_set_counts_as_held:
  assumes "ac_op a = ''set''" and "contender_absorb jo ut m now a reply c = Some (follow, c')" and "ga_mode (co_gate c) = GateOn"
  shows "ga_holder (co_gate c') = Some (co_holder c) \<and>
    ga_schedule (co_gate c') = Some (now + cc_lease_ms (co_config c) - co_renew_margin c) \<and>
    (\<forall>later m2. now + cc_lease_ms (co_config c) - co_renew_margin c \<le> later \<longrightarrow>
      (\<exists>b c''. next_action ut m2 later c' = Some (Some b, c'') \<and> ac_op b = ''extend''))"
proof -
  obtain holds where h: "follow = None" "c' = reschedule (now + cc_lease_ms (co_config c) - co_renew_margin c)
      (hold (Some (co_holder c)) (if holds then hold (Some (co_holder c)) c else c))"
    using assms(1,2) by (auto simp: contender_absorb_def Let_def hold_def split: option.splits if_splits)
  then show ?thesis using assms(3)
    by (cases holds) (auto simp: reschedule_def hold_def next_action_def next_op_def build_set_def Let_def)
qed

theorem unanswered_set_counts_as_held_witness:
  "\<exists>c c'. contender_new demo_uuid_text demo_client 250 7 = Some c \<and>
     contender_absorb demo_unit_json demo_uuid_text 3 10 \<lparr>ac_op = ''set'', ac_message_id = 2, ac_request = []\<rparr> None (c\<lparr>co_gate := gate_start (co_gate c)\<rparr>) = Some (None, c') \<and>
     ga_holder (co_gate c') = Some ''id''"
proof -
  obtain c where c: "contender_new demo_uuid_text demo_client 250 7 = Some c" "co_holder c = ''id''"
    by (simp add: contender_new_def is_wire_uuid_def demo_uuid_text_def Let_def)
  let ?c = "c\<lparr>co_gate := gate_start (co_gate c)\<rparr>"
  obtain c' where c': "contender_absorb demo_unit_json demo_uuid_text 3 10 \<lparr>ac_op = ''set'', ac_message_id = 2, ac_request = []\<rparr> None ?c = Some (None, c')"
    by (simp add: contender_absorb_def Let_def)
  from unanswered_set_counts_as_held [OF _ c'] c c' show ?thesis by (auto simp: gate_start_def)
qed

end
