(* ===== verification/Sequencer_Host.thy ===== *)
theory Sequencer_Host
  imports Lock_Node Membership Peer_Wire Lease_Clients "HOL-Library.Monad_Syntax"
begin

text \<open>
  The host of the lease sequencer (\<^verbatim>\<open>examples/lease-sequencer/src/main.rs\<close>): its state, the routing of the node's outputs, the
  built-in lease driver, the embedded clients, the suspicion of a silent leader, and the dissemination of the membership. The node is
  reached through the operations the host calls, which \<open>lock_node\<close> gives from the model of the node. A datagram
  sent is a row of \<open>h_sent\<close>, bytes written to a client grow \<open>cn_written\<close>. A panic, and an operation of the node that does not return, is
  \<open>None\<close>; so is a flush that runs out of its fuel. Log lines and telemetry records, and the fields only they read, are left out.
\<close>

section \<open>The node as the host sees it\<close>

record 'n node_ops =
  no_status :: "'n \<Rightarrow> node_status"
  no_weight :: "'n \<Rightarrow> u32 option"
  no_next_output :: "'n \<Rightarrow> (queued option \<times> 'n) option"
  no_request :: "bytes \<Rightarrow> 'n \<Rightarrow> (int \<times> 'n) option"
  no_receive :: "u32 \<Rightarrow> bytes \<Rightarrow> 'n \<Rightarrow> (int \<times> 'n) option"
  no_idle :: "'n \<Rightarrow> (int \<times> 'n) option"
  no_leader_timeout :: "'n \<Rightarrow> (int \<times> 'n) option"
  no_force_view :: "u32 \<Rightarrow> u32 \<Rightarrow> 'n \<Rightarrow> (int \<times> 'n) option"
  no_recover :: "'n \<Rightarrow> (int \<times> 'n) option"
  no_reconfigure :: "u32 \<Rightarrow> u32 \<Rightarrow> u32 \<Rightarrow> 'n \<Rightarrow> (int \<times> 'n) option"

definition returning :: "('x exit \<times> 'n) option \<Rightarrow> ('x \<times> 'n) option" where
  "returning r = (case r of Some (Ret x, n) \<Rightarrow> Some (x, n) | _ \<Rightarrow> None)"

definition voting_weight :: "('r, 'p, 'g, 'v, 'e) replica_ops \<Rightarrow> ('r, 'c, 's, 'h, 'm) node \<Rightarrow> u32 option" where
  "voting_weight rp n = map_of (rp_order rp (n_replica n)) (rp_own rp (n_replica n))"

definition lock_node :: "('r, 'p, 'g, 'v, 'e, 'c, 's, 'h, 'm) host \<Rightarrow> ('r, 'c, 's, 'h, 'm) node node_ops" where
  "lock_node ho =
     \<lparr>no_status = status (ho_replica ho), no_weight = voting_weight (ho_replica ho),
      no_next_output = (\<lambda>n. returning (Some (next_output n))), no_request = (\<lambda>b n. returning (node_request ho b n)),
      no_receive = (\<lambda>i b n. returning (receive ho i b n)), no_idle = (\<lambda>n. returning (idle ho n)),
      no_leader_timeout = (\<lambda>n. returning (leader_timeout ho n)), no_force_view = (\<lambda>era vw n. returning (force_view ho era vw n)),
      no_recover = (\<lambda>n. returning (recover ho n)), no_reconfigure = (\<lambda>op i p n. returning (reconfigure ho op i p n))\<rparr>"

section \<open>State\<close>

definition LOCK_ID :: u64 where "LOCK_ID = 0x0DDBA11"
definition LEASE_MS :: u64 where "LEASE_MS = 500"
definition RENEW_MARGIN_MS :: u64 where "RENEW_MARGIN_MS = 250"
definition POLL_JITTER_MS :: u64 where "POLL_JITTER_MS = 100"
definition OP_DEADLINE_MS :: u64 where "OP_DEADLINE_MS = 1000"
definition ADMIN_DEADLINE_MS :: u64 where "ADMIN_DEADLINE_MS = 10000"
definition TICK_MS :: u64 where "TICK_MS = 5"
definition MAX_CLIENT_LINE :: nat where "MAX_CLIENT_LINE = 65000"
definition STATE_NORMAL :: u32 where "STATE_NORMAL = 0"
definition STATE_VIEW_CHANGE :: u32 where "STATE_VIEW_CHANGE = 1"
definition STATE_RECOVERING :: u32 where "STATE_RECOVERING = 2"
definition STATE_JOINING :: u32 where "STATE_JOINING = 4"
definition GOSSIP_RESEND_MS :: u64 where "GOSSIP_RESEND_MS = 500"

datatype driver_op = DriverGet | DriverSet | DriverSteal | DriverRenew

record driver_pending =
  dp_message_id :: uuid
  dp_op :: driver_op
  dp_deadline :: u64

record driver =
  dr_client_id :: u64
  dr_request_num :: u64
  dr_holder :: uuid
  dr_lease_id :: u64
  dr_held_expiry :: "u64 option"
  dr_last_get_foreign :: bool
  dr_next_action_at :: u64
  dr_pending :: "driver_pending option"

text \<open>An administrative change waits with its action, member, endpoint, the era of the proposal, the slot that established it and its deadline.\<close>

datatype tcp_pending =
    LockWait uuid u64
  | AdminWait string u32 string u32 u64 u64

record conn =
  cn_buf :: bytes
  cn_pending :: "tcp_pending option"
  cn_written :: bytes

text \<open>
  The rows of the peers are kept with the discovery's part of the state and iterated in the order of the list, one
  of the orders of a hash map. The identities drawn are a stream, the signals' latch is a flag.
\<close>

record ('n, 'a) seq_host =
  h_node :: 'n
  h_disc :: "'a discovery_host"
  h_disc_deadline :: u64
  h_disc_next_request :: u64
  h_fingerprint :: string
  h_own_id :: u32
  h_heartbeat_ms :: u64
  h_recovery_ms :: u64
  h_stagger_ms :: u64
  h_last_heartbeat :: u64
  h_leader_elapsed :: u64
  h_last_recovery :: u64
  h_last_gossip :: u64
  h_last_seen_leader :: u32
  h_reincarnated :: bool
  h_driver :: driver
  h_forwarded :: "uuid \<Rightarrow> ('a \<times> u64) option"
  h_late_acks :: u64
  h_conns :: "conn list"
  h_last_leader_commit :: u64
  h_frontier_slot :: u64
  h_relay :: ledger
  h_detected_key :: "(u32 \<times> u32) option"
  h_timedout :: timeout_toggle
  h_viewchange :: view_change_timer
  h_leader_timeout :: leader_watch
  h_election_wait :: u64
  h_embedded :: "runner option"
  h_latch :: bool
  h_rng :: u64
  h_uuids :: "nat \<Rightarrow> uuid"
  h_draws :: nat
  h_sent :: "('a \<times> bytes) list"

text \<open>What lies outside the host: JSON, the text of identities, the resolver, the tags, opinions, packed join gossip and lives of the replication library.\<close>

record ('n, 'a, 'j) host_env =
  he_node :: "'n node_ops"
  he_json :: "'j json_ops"
  he_uuid :: uuid_text
  he_resolve :: "string \<Rightarrow> 'a option"
  he_tag :: "u32 \<Rightarrow> tag option"
  he_matcher :: "matcher_state \<Rightarrow> opinion"
  he_gossip :: "u32 \<Rightarrow> u32 \<Rightarrow> bytes"
  he_lawful :: "u32 \<Rightarrow> bool"
  he_next_life :: "u32 \<Rightarrow> u32 option"

abbreviation h_status :: "('n, 'a, 'j) host_env \<Rightarrow> ('n, 'a) seq_host \<Rightarrow> node_status" where
  "h_status e h \<equiv> no_status (he_node e) (h_node h)"

abbreviation peer_addr :: "('n, 'a) seq_host \<Rightarrow> u32 \<Rightarrow> 'a option" where
  "peer_addr h i \<equiv> map_of (dh_peers (h_disc h)) i"

abbreviation on_driver :: "(driver \<Rightarrow> driver) \<Rightarrow> ('n, 'a) seq_host \<Rightarrow> ('n, 'a) seq_host" where
  "on_driver f h \<equiv> h\<lparr>h_driver := f (h_driver h)\<rparr>"

definition votes :: "('n, 'a, 'j) host_env \<Rightarrow> ('n, 'a) seq_host \<Rightarrow> bool" where
  "votes e h = (case no_weight (he_node e) (h_node h) of None \<Rightarrow> False | Some w \<Rightarrow> w > 0)"

definition send_to :: "'a \<Rightarrow> bytes \<Rightarrow> ('n, 'a) seq_host \<Rightarrow> ('n, 'a) seq_host" where
  "send_to a packet h = h\<lparr>h_sent := h_sent h @ [(a, packet)]\<rparr>"

definition insert_peer :: "u32 \<Rightarrow> 'a \<Rightarrow> ('n, 'a) seq_host \<Rightarrow> ('n, 'a) seq_host" where
  "insert_peer i a h =
     (let d = h_disc h in
      h\<lparr>h_disc := d\<lparr>dh_peers := (if i \<in> fst ` set (dh_peers d) then map (\<lambda>(j, b). (j, if j = i then a else b)) (dh_peers d)
                               else dh_peers d @ [(i, a)]),
                    dh_addr_to_id := (dh_addr_to_id d)(a \<mapsto> i)\<rparr>\<rparr>)"

definition below :: "u64 \<Rightarrow> ('n, 'a) seq_host \<Rightarrow> u64 \<times> ('n, 'a) seq_host" where
  "below bound h = (case rng_below bound (h_rng h) of (x, r) \<Rightarrow> (x, h\<lparr>h_rng := r\<rparr>))"

definition unit_draw :: "('n, 'a) seq_host \<Rightarrow> nat \<times> ('n, 'a) seq_host" where
  "unit_draw h = (case rng_unit (h_rng h) of (x, r) \<Rightarrow> (x, h\<lparr>h_rng := r\<rparr>))"

definition fresh_id :: "('n, 'a) seq_host \<Rightarrow> uuid \<times> ('n, 'a) seq_host" where
  "fresh_id h = (h_uuids h (h_draws h), h\<lparr>h_draws := Suc (h_draws h)\<rparr>)"

section \<open>Packets out\<close>

definition send_application :: "'a \<Rightarrow> bytes \<Rightarrow> ('n, 'a) seq_host \<Rightarrow> ('n, 'a) seq_host" where
  "send_application a payload h = send_to a (encode_peer PEER_APPLICATION (h_fingerprint h) payload) h"

definition send_forward_request :: "'a \<Rightarrow> uuid \<Rightarrow> bytes \<Rightarrow> ('n, 'a) seq_host \<Rightarrow> ('n, 'a) seq_host" where
  "send_forward_request a m json h = send_application a (FORWARD_REQUEST # be_bytes 16 m @ json) h"

definition send_not_leader :: "'a \<Rightarrow> uuid \<Rightarrow> u32 \<Rightarrow> u32 \<Rightarrow> ('n, 'a) seq_host \<Rightarrow> ('n, 'a) seq_host" where
  "send_not_leader a m era vw h =
     send_application a (FORWARD_NOT_LEADER # be_bytes 16 m @ be_bytes 4 era @ be_bytes 4 vw) h"

definition send_forward_response :: "'a \<Rightarrow> uuid \<Rightarrow> bytes \<Rightarrow> ('n, 'a) seq_host \<Rightarrow> ('n, 'a) seq_host" where
  "send_forward_response a m bs h = send_application a (FORWARD_RESPONSE # be_bytes 16 m @ bs) h"

text \<open>To every peer but the host itself.\<close>

definition broadcast :: "u8 \<Rightarrow> bytes \<Rightarrow> ('n, 'a) seq_host \<Rightarrow> ('n, 'a) seq_host" where
  "broadcast kind payload h =
     fold (\<lambda>(i, a) h. if i = h_own_id h then h else send_to a (encode_peer kind (h_fingerprint h) payload) h) (dh_peers (h_disc h)) h"

definition join_gossip :: "('n, 'a, 'j) host_env \<Rightarrow> ('n, 'a) seq_host \<Rightarrow> ('n, 'a) seq_host" where
  "join_gossip e h = broadcast PEER_VRR (he_gossip e (ns_era (h_status e h)) (ns_view (h_status e h))) h"

text \<open>The snapshot's encoder asserts its own order.\<close>

definition disseminate :: "('n, 'a) seq_host \<Rightarrow> ('n, 'a) seq_host option" where
  "disseminate h =
     (let s = model_snapshot (dh_model (h_disc h)) in
      map_option (\<lambda>payload. let h1 = broadcast PEER_SNAPSHOT payload h; d = h_disc h1 in
          h1\<lparr>h_disc := d\<lparr>dh_sidecar := dh_sidecar d @ [s]\<rparr>\<rparr>)
        (encode_response s))"

definition discovery_step :: "u64 \<Rightarrow> ('n, 'a) seq_host \<Rightarrow> ('n, 'a) seq_host" where
  "discovery_step now h =
     (let d = h_disc h in
      if \<not> dh_active d then h
      else if now \<ge> h_disc_deadline h then h\<lparr>h_disc := d\<lparr>dh_active := False\<rparr>\<rparr>
      else if now \<ge> h_disc_next_request h then broadcast PEER_SNAPSHOT encode_request (h\<lparr>h_disc_next_request := now + 100\<rparr>)
      else h)"

definition relay_out :: "datagram \<Rightarrow> ('n, 'a) seq_host \<Rightarrow> bool \<times> ('n, 'a) seq_host" where
  "relay_out d h =
     (case peer_addr h (dg_to d) of
        None \<Rightarrow> (False, h)
      | Some a \<Rightarrow> (True, send_to a (encode_peer PEER_VRR (h_fingerprint h) (dg_bytes d)) h))"

fun relay_all :: "datagram list \<Rightarrow> ('n, 'a) seq_host \<Rightarrow> nat \<times> ('n, 'a) seq_host" where
  "relay_all [] h = (0, h)"
| "relay_all (d # ds) h =
     (case relay_out d h of (sent, h1) \<Rightarrow> case relay_all ds h1 of (k, h2) \<Rightarrow> (if sent then Suc k else k, h2))"

definition cluster_timeout :: "('n, 'a, 'j) host_env \<Rightarrow> ('n, 'a) seq_host \<Rightarrow> nat \<times> ('n, 'a) seq_host" where
  "cluster_timeout e h =
     (let st = h_status e h in
      relay_all (relay_cluster_timeout (he_matcher e) (ns_state st) (h_relay h) (ns_era st) (ns_view st)) h)"

definition heartbeat_op :: "('n, 'a, 'j) host_env \<Rightarrow> u64 \<Rightarrow> ('n, 'a) seq_host \<Rightarrow> ('n, 'a) seq_host" where
  "heartbeat_op e now h =
     (let st = h_status e h in
      if ns_state st \<noteq> STATE_NORMAL \<or> ns_leader st \<noteq> h_own_id h \<or> ns_config_era st \<noteq> ns_era st \<or>
         saturating_sub now (h_last_leader_commit h) < h_heartbeat_ms h then h
      else
        (case heartbeat (last_commit (ns_era st) (ns_view st) (h_relay h)) of
           None \<Rightarrow> h
         | Some beat \<Rightarrow> snd (relay_all beat h)))"

end
