(* ===== verification/Sequencer_Routing.thy ===== *)
theory Sequencer_Routing
  imports Sequencer_Host
begin

text \<open>
  The outputs of the node and those who wait for its replies (\<^verbatim>\<open>main.rs\<close>): the flush, which hands every reply to the first
  that claims it; the driver, which may submit again from inside a flush; and the embedded clients. The submitting
  operations take the flush they call as an argument; \<open>flush_outputs\<close> ties the knot with a fuel that counts the outputs taken.
\<close>

type_synonym ('n, 'a) flush = "('n, 'a) seq_host \<Rightarrow> (u64 \<times> ('n, 'a) seq_host) option"

section \<open>The driver\<close>

definition chase_set_payload :: "string \<Rightarrow> u64 \<Rightarrow> u64 \<Rightarrow> u64 \<Rightarrow> u64 \<Rightarrow> string \<Rightarrow> u64 \<Rightarrow> string" where
  "chase_set_payload mid lk cid num lid owner ms =
     ''{'' @ json_field ''op'' (quoted ''set'') @ '','' @ json_field ''message_id'' (quoted mid) @ '','' @
     json_field ''client_id'' (show_dec (unat cid)) @ '','' @ json_field ''request_num'' (show_dec (unat num)) @ '','' @
     json_field ''lock_id'' (show_dec (unat lk)) @ '','' @
     json_field ''lease'' (''{'' @ json_field ''lease_id'' (show_dec (unat lid)) @ '','' @
       json_field ''holder'' (quoted owner) @ '','' @ json_field ''lease_ms'' (show_dec (unat ms)) @ ''}'') @ ''}''"

definition with_pending :: "uuid \<Rightarrow> driver_op \<Rightarrow> u64 \<Rightarrow> ('n, 'a) seq_host \<Rightarrow> ('n, 'a) seq_host" where
  "with_pending m op now =
     on_driver (\<lambda>d. d\<lparr>dr_pending := Some \<lparr>dp_message_id = m, dp_op = op, dp_deadline = now + OP_DEADLINE_MS\<rparr>\<rparr>)"

definition act_at :: "u64 \<Rightarrow> ('n, 'a) seq_host \<Rightarrow> ('n, 'a) seq_host" where
  "act_at t = on_driver (\<lambda>d. d\<lparr>dr_next_action_at := t\<rparr>)"

text \<open>The address of a leader that is known and is another node.\<close>

definition other_leader :: "('n, 'a, 'j) host_env \<Rightarrow> ('n, 'a) seq_host \<Rightarrow> 'a option" where
  "other_leader e h =
     (let leader = ns_leader (h_status e h) in
      if leader \<noteq> LEADER_UNKNOWN \<and> leader \<noteq> h_own_id h then peer_addr h leader else None)"

definition request_node :: "('n, 'a, 'j) host_env \<Rightarrow> bytes \<Rightarrow> ('n, 'a) seq_host \<Rightarrow> (int \<times> ('n, 'a) seq_host) option" where
  "request_node e json h = map_option (\<lambda>(rc, n). (rc, h\<lparr>h_node := n\<rparr>)) (no_request (he_node e) json (h_node h))"

definition route_op ::
  "('n, 'a) flush \<Rightarrow> ('n, 'a, 'j) host_env \<Rightarrow> u64 \<Rightarrow> int \<Rightarrow> driver_op \<Rightarrow> bytes \<Rightarrow> uuid \<Rightarrow> ('n, 'a) seq_host \<Rightarrow> ('n, 'a) seq_host option" where
  "route_op fl e now rc op json m h =
     (if rc = NODE_OK then Some (with_pending m op now h)
      else do {
        (_, h1) \<leftarrow> fl h;
        (case (if rc = NOT_LEADER then other_leader e h1 else None) of
           Some a \<Rightarrow> Some (with_pending m op now (send_forward_request a m json h1))
         | None \<Rightarrow> (case below 100 h1 of (x, h2) \<Rightarrow> Some (act_at (now + x + 50) h2)))
      })"

definition submit_get :: "('n, 'a) flush \<Rightarrow> ('n, 'a, 'j) host_env \<Rightarrow> u64 \<Rightarrow> ('n, 'a) seq_host \<Rightarrow> ('n, 'a) seq_host option" where
  "submit_get fl e now h =
     (let h1 = on_driver (\<lambda>d. d\<lparr>dr_request_num := dr_request_num d + 1\<rparr>) h in
      case fresh_id h1 of (m, h2) \<Rightarrow>
      let json = str_bytes (get_request (he_uuid e) m (dr_client_id (h_driver h2)) (dr_request_num (h_driver h2)) LOCK_ID) in do {
        (rc, h3) \<leftarrow> request_node e json h2;
        route_op fl e now rc DriverGet json m h3
      })"

text \<open>A hold, a steal and a renewal send the same payload.\<close>

definition submit_hold ::
  "('n, 'a) flush \<Rightarrow> ('n, 'a, 'j) host_env \<Rightarrow> u64 \<Rightarrow> driver_op \<Rightarrow> ('n, 'a) seq_host \<Rightarrow> ('n, 'a) seq_host option" where
  "submit_hold fl e now op h =
     (let h1 = on_driver (\<lambda>d. d\<lparr>dr_request_num := dr_request_num d + 1, dr_lease_id := dr_lease_id d + 1\<rparr>) h in
      case fresh_id h1 of (m, h2) \<Rightarrow>
      let d = h_driver h2;
          json = str_bytes (chase_set_payload (ut_show (he_uuid e) m) LOCK_ID (dr_client_id d) (dr_request_num d) (dr_lease_id d)
                   (ut_show (he_uuid e) (dr_holder d)) LEASE_MS) in do {
        (rc, h3) \<leftarrow> request_node e json h2;
        route_op fl e now rc op json m h3
      })"

definition submit_renew :: "('n, 'a) flush \<Rightarrow> ('n, 'a, 'j) host_env \<Rightarrow> u64 \<Rightarrow> ('n, 'a) seq_host \<Rightarrow> ('n, 'a) seq_host option" where
  "submit_renew fl e now h = submit_hold fl e now DriverRenew h"

text \<open>A lease object without its expiry or its holder is an index that panics.\<close>

definition lease_fields :: "'j json_ops \<Rightarrow> 'j \<Rightarrow> (u64 \<times> string) option" where
  "lease_fields jo lease = do {
     until \<leftarrow> jo_get jo ''expiry'' lease;
     owner \<leftarrow> jo_get jo ''holder'' lease;
     Some (case jo_as_u64 jo until of None \<Rightarrow> 0 | Some x \<Rightarrow> x, case jo_as_str jo owner of None \<Rightarrow> [] | Some s \<Rightarrow> s)
   }"

definition foreign_until :: "u64 \<Rightarrow> ('n, 'a) seq_host \<Rightarrow> ('n, 'a) seq_host" where
  "foreign_until until h =
     (case below (POLL_JITTER_MS + 1) (on_driver (\<lambda>d. d\<lparr>dr_last_get_foreign := True\<rparr>) h) of (x, h1) \<Rightarrow> act_at (until + x) h1)"

definition complete_get ::
  "('n, 'a) flush \<Rightarrow> ('n, 'a, 'j) host_env \<Rightarrow> u64 \<Rightarrow> 'j \<Rightarrow> ('n, 'a) seq_host \<Rightarrow> ('n, 'a) seq_host option" where
  "complete_get fl e now reply h =
     (let jo = he_json e; lease = jo_index jo reply ''lease'' in
      if \<not> jo_is_object jo lease then
        submit_hold fl e now (if dr_last_get_foreign (h_driver h) then DriverSteal else DriverSet)
          (on_driver (\<lambda>d. d\<lparr>dr_last_get_foreign := False\<rparr>) h)
      else do {
        (until, owner) \<leftarrow> lease_fields jo lease;
        Some (if owner = ut_show (he_uuid e) (dr_holder (h_driver h))
              then on_driver (\<lambda>d. d\<lparr>dr_held_expiry := Some until, dr_last_get_foreign := False\<rparr>) h
              else foreign_until until h)
      })"

definition complete_hold :: "('n, 'a, 'j) host_env \<Rightarrow> u64 \<Rightarrow> 'j \<Rightarrow> ('n, 'a) seq_host \<Rightarrow> ('n, 'a) seq_host option" where
  "complete_hold e now reply h =
     (let jo = he_json e; lease = jo_index jo reply ''lease'' in
      if jo_as_bool jo (jo_index jo reply ''granted'') = Some True then
        (let until = (case jo_as_u64 jo (jo_index jo lease ''expiry'') of None \<Rightarrow> now + LEASE_MS | Some x \<Rightarrow> x) in
         Some (on_driver (\<lambda>d. d\<lparr>dr_held_expiry := Some until\<rparr>) h))
      else
        (let h1 = on_driver (\<lambda>d. d\<lparr>dr_held_expiry := None\<rparr>) h;
             again = (case below 100 h1 of (x, h2) \<Rightarrow> act_at (now + x + 50) h2) in
         if \<not> jo_is_object jo lease then Some again
         else do {
           (until, owner) \<leftarrow> lease_fields jo lease;
           Some (if owner \<noteq> ut_show (he_uuid e) (dr_holder (h_driver h)) then foreign_until until h1 else again)
         }))"

definition driver_complete ::
  "('n, 'a) flush \<Rightarrow> ('n, 'a, 'j) host_env \<Rightarrow> u64 \<Rightarrow> driver_op \<Rightarrow> bytes \<Rightarrow> ('n, 'a) seq_host \<Rightarrow> ('n, 'a) seq_host option" where
  "driver_complete fl e now op bs h =
     (case jo_parse (he_json e) bs of
        None \<Rightarrow> (case below 100 h of (x, h1) \<Rightarrow> Some (act_at (now + x + 20) h1))
      | Some reply \<Rightarrow> if op = DriverGet then complete_get fl e now reply h else complete_hold e now reply h)"

section \<open>The embedded clients\<close>

definition submit_embedded ::
  "('n, 'a) flush \<Rightarrow> ('n, 'a, 'j) host_env \<Rightarrow> action \<Rightarrow> ('n, 'a) seq_host \<Rightarrow> (bool \<times> ('n, 'a) seq_host) option" where
  "submit_embedded fl e a h = do {
     (rc, h1) \<leftarrow> request_node e (str_bytes (ac_request a)) h;
     if rc = NODE_OK then Some (True, h1)
     else do {
       (_, h2) \<leftarrow> fl h1;
       (case (if rc = NOT_LEADER then other_leader e h2 else None) of
          Some addr \<Rightarrow> Some (True, send_forward_request addr (ac_message_id a) (str_bytes (ac_request a)) h2)
        | None \<Rightarrow> Some (False, h2))
     }
   }"

text \<open>The runner is taken out of the host while it works.\<close>

definition embedded_reply ::
  "('n, 'a) flush \<Rightarrow> ('n, 'a, 'j) host_env \<Rightarrow> u64 \<Rightarrow> uuid \<Rightarrow> bytes \<Rightarrow> ('n, 'a) seq_host \<Rightarrow> (bool \<times> ('n, 'a) seq_host) option" where
  "embedded_reply fl e now m bs h =
     (case h_embedded h of
        None \<Rightarrow> Some (False, h)
      | Some r \<Rightarrow>
          (case fresh_id h of (u, h1) \<Rightarrow> do {
             (absorbed, r', h2) \<leftarrow>
               runner_absorb (he_json e) (he_uuid e) (submit_embedded fl e) u now m bs r (h1\<lparr>h_embedded := None\<rparr>);
             Some (absorbed, h2\<lparr>h_embedded := Some r'\<rparr>)
           }))"

definition embedded_not_leader ::
  "('n, 'a, 'j) host_env \<Rightarrow> u64 \<Rightarrow> uuid \<Rightarrow> ('n, 'a) seq_host \<Rightarrow> (bool \<times> ('n, 'a) seq_host) option" where
  "embedded_not_leader e now m h =
     (case h_embedded h of
        None \<Rightarrow> Some (False, h)
      | Some r \<Rightarrow>
          (case fresh_id h of (u, h1) \<Rightarrow> do {
             (dropped, r') \<leftarrow> runner_not_leader (he_json e) (he_uuid e) u now m r;
             Some (dropped, h1\<lparr>h_embedded := Some r'\<rparr>)
           }))"

section \<open>The flush\<close>

definition client_reply :: "bytes \<Rightarrow> conn \<Rightarrow> conn" where
  "client_reply bs c = c\<lparr>cn_written := cn_written c @ bs @ [0x0A]\<rparr>"

definition waits_for :: "uuid \<Rightarrow> conn \<Rightarrow> bool" where
  "waits_for m c = (case cn_pending c of Some (LockWait m' _) \<Rightarrow> m' = m | _ \<Rightarrow> False)"

text \<open>The first connection that waits for the identity is answered; \<open>None\<close> when there is none.\<close>

fun answer_conn :: "uuid \<Rightarrow> bytes \<Rightarrow> conn list \<Rightarrow> conn list option" where
  "answer_conn m bs [] = None"
| "answer_conn m bs (c # cs) =
     (if waits_for m c then Some (client_reply bs (c\<lparr>cn_pending := None\<rparr>) # cs) else map_option ((#) c) (answer_conn m bs cs))"

definition deliver_reply :: "uuid \<Rightarrow> bytes \<Rightarrow> ('n, 'a) seq_host \<Rightarrow> ('n, 'a) seq_host" where
  "deliver_reply m bs h =
     (case answer_conn m bs (h_conns h) of
        Some cs \<Rightarrow> h\<lparr>h_conns := cs\<rparr>
      | None \<Rightarrow> h\<lparr>h_late_acks := h_late_acks h + 1\<rparr>)"

definition driver_waits :: "uuid \<Rightarrow> ('n, 'a) seq_host \<Rightarrow> driver_op option" where
  "driver_waits m h =
     (case dr_pending (h_driver h) of None \<Rightarrow> None | Some p \<Rightarrow> if dp_message_id p = m then Some (dp_op p) else None)"

definition drop_pending :: "('n, 'a) seq_host \<Rightarrow> ('n, 'a) seq_host" where
  "drop_pending = on_driver (\<lambda>d. d\<lparr>dr_pending := None\<rparr>)"

definition output_reply ::
  "('n, 'a) flush \<Rightarrow> ('n, 'a, 'j) host_env \<Rightarrow> u64 \<Rightarrow> uuid \<Rightarrow> bytes \<Rightarrow> ('n, 'a) seq_host \<Rightarrow> ('n, 'a) seq_host option" where
  "output_reply fl e now m bs h =
     (case h_forwarded h m of
        Some (dest, _) \<Rightarrow> Some (send_forward_response dest m bs (h\<lparr>h_forwarded := (h_forwarded h)(m := None)\<rparr>))
      | None \<Rightarrow>
          (case driver_waits m h of
             Some op \<Rightarrow> driver_complete fl e now op bs (drop_pending h)
           | None \<Rightarrow> do {
               (absorbed, h1) \<leftarrow> embedded_reply fl e now m bs h;
               Some (if absorbed then h1 else deliver_reply m bs h1)
             }))"

text \<open>A datagram for a replica without an address is a violated invariant.\<close>

definition output_send :: "('n, 'a, 'j) host_env \<Rightarrow> u64 \<Rightarrow> queued \<Rightarrow> ('n, 'a) seq_host \<Rightarrow> ('n, 'a) seq_host option" where
  "output_send e now q h =
     (let h1 = (if qd_slot q > h_frontier_slot h then h\<lparr>h_frontier_slot := qd_slot q\<rparr> else h) in
      case peer_addr h1 (qd_to q) of
        None \<Rightarrow> None
      | Some a \<Rightarrow>
          (let st = h_status e h1; hdr = vrr_header_of (qd_bytes q);
               commits = (case hdr of None \<Rightarrow> False | Some x \<Rightarrow> vh_tag x = COMMIT_TAG);
               h2 = (if ns_state st = STATE_NORMAL \<and> ns_leader st = h_own_id h1 \<and> commits
                     then h1\<lparr>h_last_leader_commit := now\<rparr> else h1);
               h3 = send_to a (encode_peer PEER_VRR (h_fingerprint h2) (qd_bytes q)) h2 in
           Some (case hdr of
                   None \<Rightarrow> h3
                 | Some x \<Rightarrow>
                     (case he_tag e (vh_tag x) of
                        None \<Rightarrow> h3
                      | Some t \<Rightarrow>
                          h3\<lparr>h_relay := ledger_record \<lparr>dg_to = qd_to q, dg_era = vh_era x, dg_view = vh_view x, dg_slot = vh_slot x,
                                          dg_tag = t, dg_bytes = qd_bytes q\<rparr> (h_relay h3)\<rparr>))))"

definition take_output ::
  "('n, 'a) flush \<Rightarrow> ('n, 'a, 'j) host_env \<Rightarrow> u64 \<Rightarrow> queued \<Rightarrow> ('n, 'a) seq_host \<Rightarrow> (u64 \<times> ('n, 'a) seq_host) option" where
  "take_output fl e now q h =
     (if qd_kind q = OUTPUT_SEND then map_option (Pair (qd_slot q)) (output_send e now q h)
      else if qd_kind q = OUTPUT_REPLY then map_option (Pair 0) (output_reply fl e now (qd_message_id q) (qd_bytes q) h)
      else Some (0, h))"

fun flush_outputs :: "nat \<Rightarrow> ('n, 'a, 'j) host_env \<Rightarrow> u64 \<Rightarrow> ('n, 'a) flush" where
  "flush_outputs 0 e now h = None"
| "flush_outputs (Suc fuel) e now h = do {
     (out, n) \<leftarrow> no_next_output (he_node e) (h_node h);
     (case out of
        None \<Rightarrow> Some (0, h\<lparr>h_node := n\<rparr>)
      | Some q \<Rightarrow> do {
          (slot, h1) \<leftarrow> take_output (flush_outputs fuel e now) e now q (h\<lparr>h_node := n\<rparr>);
          (rest, h2) \<leftarrow> flush_outputs fuel e now h1;
          Some (max slot rest, h2)
        })
   }"

end
