(* ===== verification/Sequencer_Turns.thy ===== *)
theory Sequencer_Turns
  imports Sequencer_Routing
begin

text \<open>
  The turns of the host's loop (\<^verbatim>\<open>main.rs\<close>): the timers, the driver's and the embedded clients' steps, the packets of the
  peers, the lines of the clients, and the loop's body. What the operating system delivers in a turn, the datagrams, the
  accepted connections, the bytes read and the clock, is an argument. The flush every operation calls, at the clock's time, is the argument \<open>fl\<close>: \<open>flush_outputs fuel e\<close>.
\<close>

type_synonym ('n, 'a) timed_flush = "u64 \<Rightarrow> ('n, 'a) flush"

section \<open>Suspicion\<close>

definition on_node ::
  "('n \<Rightarrow> (int \<times> 'n) option) \<Rightarrow> ('n, 'a) seq_host \<Rightarrow> (int \<times> ('n, 'a) seq_host) option" where
  "on_node f h = map_option (\<lambda>(rc, n). (rc, h\<lparr>h_node := n\<rparr>)) (f (h_node h))"

definition suspect :: "('n, 'a, 'j) host_env \<Rightarrow> u64 \<Rightarrow> ('n, 'a) seq_host \<Rightarrow> ('n, 'a) seq_host" where
  "suspect e now h = (if \<not> votes e h then h else h\<lparr>h_timedout := snd (on_suspicion now (h_timedout h))\<rparr>)"

definition rearm_election_wait :: "nat \<Rightarrow> ('n, 'a) seq_host \<Rightarrow> ('n, 'a) seq_host" where
  "rearm_election_wait unit h =
     h\<lparr>h_election_wait := random_wait_ms (lt_min_ms (h_leader_timeout h)) (lt_max_ms (h_leader_timeout h)) unit\<rparr>"

definition flushed :: "('n, 'a) flush \<Rightarrow> ('n, 'a) seq_host \<Rightarrow> ('n, 'a) seq_host option" where
  "flushed fl h = map_option snd (fl h)"

definition detect_leader ::
  "('n, 'a) timed_flush \<Rightarrow> ('n, 'a, 'j) host_env \<Rightarrow> u64 \<Rightarrow> ('n, 'a) seq_host \<Rightarrow> ('n, 'a) seq_host option" where
  "detect_leader fl e now h =
     (let st = h_status e h in
      if \<not> votes e h then flushed (fl now) h
      else do {
        (forced, h1) \<leftarrow> on_node (no_force_view (he_node e) (ns_era st) (ns_view st + 1)) h;
        h2 \<leftarrow> (if forced \<noteq> 0 then map_option snd (on_node (no_leader_timeout (he_node e)) h1) else Some h1);
        flushed (fl now) (suspect e now h2)
      })"

definition leader_timeout_step ::
  "('n, 'a) timed_flush \<Rightarrow> ('n, 'a, 'j) host_env \<Rightarrow> u64 \<Rightarrow> ('n, 'a) seq_host \<Rightarrow> ('n, 'a) seq_host option" where
  "leader_timeout_step fl e now h =
     (let st = h_status e h; watched = (ns_config_era st, ns_leader st) in
      if tt_timedout (h_timedout h) \<or> ns_config_era st \<noteq> ns_era st \<or> ns_leader st = h_own_id h \<or>
         ns_leader st = LEADER_UNKNOWN \<or> peer_addr h (ns_leader st) = None then Some h
      else
        (let h1 = (if lt_watched (h_leader_timeout h) \<noteq> Some watched then
                     (case unit_draw h of (u, g) \<Rightarrow> g\<lparr>h_leader_timeout := watch watched now u (h_leader_timeout g)\<rparr>)
                   else h) in
         if \<not> leader_due now (h_leader_timeout h1) \<or> h_detected_key h1 = Some watched \<and> ns_state st = STATE_NORMAL then Some h1
         else detect_leader fl e now (h1\<lparr>h_detected_key := Some watched\<rparr>)))"

definition leader_evidence :: "u64 \<Rightarrow> ('n, 'a) seq_host \<Rightarrow> ('n, 'a) seq_host" where
  "leader_evidence now h = (case unit_draw h of (u, h1) \<Rightarrow> h1\<lparr>h_leader_timeout := rearm now u (h_leader_timeout h1)\<rparr>)"

definition on_leader_commit ::
  "('n, 'a, 'j) host_env \<Rightarrow> u32 \<Rightarrow> vrr_header option \<Rightarrow> u64 \<Rightarrow> ('n, 'a) seq_host \<Rightarrow> ('n, 'a) seq_host" where
  "on_leader_commit e replica hdr now h =
     (case hdr of
        None \<Rightarrow> h
      | Some x \<Rightarrow>
          if vh_tag x \<noteq> COMMIT_TAG \<or> ns_leader (h_status e h) \<noteq> replica then h
          else if tt_timedout (h_timedout h) then
            (let h1 = leader_evidence now (h\<lparr>h_timedout := snd (on_commit now (h_timedout h)), h_detected_key := None\<rparr>) in
             case unit_draw h1 of (u, h2) \<Rightarrow> rearm_election_wait u h2)
          else leader_evidence now h)"

section \<open>Timers\<close>

definition leader_seen :: "node_status \<Rightarrow> ('n, 'a) seq_host \<Rightarrow> ('n, 'a) seq_host" where
  "leader_seen st h =
     (if ns_leader st = h_last_seen_leader h then h
      else case unit_draw (h\<lparr>h_last_seen_leader := ns_leader st\<rparr>) of (u, h1) \<Rightarrow> rearm_election_wait u h1)"

definition heartbeat_turn :: "('n, 'a) timed_flush \<Rightarrow> ('n, 'a, 'j) host_env \<Rightarrow> u64 \<Rightarrow> ('n, 'a) seq_host \<Rightarrow> ('n, 'a) seq_host option" where
  "heartbeat_turn fl e now h =
     (if saturating_sub now (h_last_heartbeat h) < h_heartbeat_ms h then Some h
      else do {
        (_, h1) \<leftarrow> on_node (no_idle (he_node e)) (h\<lparr>h_last_heartbeat := now\<rparr>);
        h2 \<leftarrow> flushed (fl now) h1;
        Some (heartbeat_op e now h2)
      })"

definition arm_viewchange :: "u64 \<Rightarrow> ('n, 'a) seq_host \<Rightarrow> ('n, 'a) seq_host" where
  "arm_viewchange now h = (case unit_draw h of (u, h1) \<Rightarrow> h1\<lparr>h_viewchange := arm now u (h_viewchange h1)\<rparr>)"

definition poll_turn ::
  "('n, 'a) timed_flush \<Rightarrow> ('n, 'a, 'j) host_env \<Rightarrow> u64 \<Rightarrow> node_status \<Rightarrow> ('n, 'a) seq_host \<Rightarrow> ('n, 'a) seq_host option" where
  "poll_turn fl e now st h =
     (if \<not> tt_timedout (h_timedout h) then Some (h\<lparr>h_viewchange := disarm (h_viewchange h)\<rparr>)
      else if \<not> vt_armed (h_viewchange h) then Some (arm_viewchange now h)
      else if \<not> view_change_due now (h_viewchange h) then Some h
      else
        (let h1 = arm_viewchange now h;
             h2 = (if ns_state st = STATE_VIEW_CHANGE
                   then snd (relay_all (relay_cluster_timeout (he_matcher e) (ns_state st) (h_relay h1) (ns_era st) (ns_view st)) h1)
                   else h1) in do {
           h3 \<leftarrow> (if ns_state st \<noteq> STATE_VIEW_CHANGE \<or> poll_opinion (he_matcher e) (ns_state st) \<noteq> Retransmit
                 then map_option snd (on_node (no_leader_timeout (he_node e)) h2) else Some h2);
           flushed (fl now) h3
         }))"

definition election_turn ::
  "('n, 'a) timed_flush \<Rightarrow> ('n, 'a, 'j) host_env \<Rightarrow> u64 \<Rightarrow> node_status \<Rightarrow> ('n, 'a) seq_host \<Rightarrow> ('n, 'a) seq_host option" where
  "election_turn fl e now st h =
     (if ns_state st = STATE_NORMAL \<and> ns_leader st = h_own_id h then Some (h\<lparr>h_leader_elapsed := 0\<rparr>)
      else
        (let h1 = h\<lparr>h_leader_elapsed := h_leader_elapsed h + TICK_MS\<rparr> in
         if tt_timedout (h_timedout h1) \<or> h_leader_elapsed h1 < h_election_wait h1 + h_stagger_ms h1 then Some h1
         else do {
           (_, h2) \<leftarrow> on_node (no_leader_timeout (he_node e)) (h1\<lparr>h_leader_elapsed := 0\<rparr>);
           h3 \<leftarrow> flushed (fl now) h2;
           Some (suspect e now h3)
         }))"

definition recovery_turn ::
  "('n, 'a) timed_flush \<Rightarrow> ('n, 'a, 'j) host_env \<Rightarrow> u64 \<Rightarrow> node_status \<Rightarrow> ('n, 'a) seq_host \<Rightarrow> ('n, 'a) seq_host option" where
  "recovery_turn fl e now st h =
     (if (ns_state st = STATE_RECOVERING \<or> h_reincarnated h \<and> \<not> votes e h) \<and>
         saturating_sub now (h_last_recovery h) \<ge> h_recovery_ms h then do {
        (_, h1) \<leftarrow> on_node (no_recover (he_node e)) (h\<lparr>h_last_recovery := now\<rparr>);
        flushed (fl now) h1
      }
      else Some h)"

definition gossip_turn :: "('n, 'a, 'j) host_env \<Rightarrow> u64 \<Rightarrow> node_status \<Rightarrow> ('n, 'a) seq_host \<Rightarrow> ('n, 'a) seq_host" where
  "gossip_turn e now st h =
     (if (ns_state st = STATE_JOINING \<or> h_reincarnated h \<and> \<not> votes e h) \<and>
         saturating_sub now (h_last_gossip h) \<ge> GOSSIP_RESEND_MS
      then join_gossip e (h\<lparr>h_last_gossip := now\<rparr>) else h)"

text \<open>The status is read once, at the start.\<close>

definition timers :: "('n, 'a) timed_flush \<Rightarrow> ('n, 'a, 'j) host_env \<Rightarrow> u64 \<Rightarrow> ('n, 'a) seq_host \<Rightarrow> ('n, 'a) seq_host option" where
  "timers fl e now h =
     (let st = h_status e h in do {
        h1 \<leftarrow> heartbeat_turn fl e now (leader_seen st h);
        h2 \<leftarrow> leader_timeout_step fl e now (if ns_state st = STATE_VIEW_CHANGE then suspect e now h1 else h1);
        h3 \<leftarrow> poll_turn fl e now st h2;
        h4 \<leftarrow> election_turn fl e now st h3;
        h5 \<leftarrow> recovery_turn fl e now st h4;
        Some (gossip_turn e now st h5)
      })"

section \<open>The driver and the embedded clients\<close>

definition driver_act :: "('n, 'a) timed_flush \<Rightarrow> ('n, 'a, 'j) host_env \<Rightarrow> u64 \<Rightarrow> ('n, 'a) seq_host \<Rightarrow> ('n, 'a) seq_host option" where
  "driver_act fl e now h =
     (if now < dr_next_action_at (h_driver h) then Some h
      else
        (case dr_held_expiry (h_driver h) of
           None \<Rightarrow> submit_get (fl now) e now h
         | Some until \<Rightarrow>
             if until \<le> now then submit_get (fl now) e now (on_driver (\<lambda>d. d\<lparr>dr_held_expiry := None\<rparr>) h)
             else if now + RENEW_MARGIN_MS \<ge> until then submit_renew (fl now) e now h
             else Some h))"

definition driver_step :: "('n, 'a) timed_flush \<Rightarrow> ('n, 'a, 'j) host_env \<Rightarrow> u64 \<Rightarrow> ('n, 'a) seq_host \<Rightarrow> ('n, 'a) seq_host option" where
  "driver_step fl e now h =
     (let st = h_status e h in
      if ns_config_era st \<noteq> ns_era st \<or> ns_state st \<noteq> STATE_NORMAL then
        Some (on_driver (\<lambda>d. d\<lparr>dr_pending := None, dr_held_expiry := None\<rparr>) h)
      else
        (case dr_pending (h_driver h) of
           None \<Rightarrow> driver_act fl e now h
         | Some p \<Rightarrow>
             if now < dp_deadline p then Some h
             else
               (case cluster_timeout e h of (sent, h1) \<Rightarrow>
                if sent > 0 then
                  Some (on_driver (\<lambda>d. d\<lparr>dr_pending := Some (p\<lparr>dp_deadline := now + OP_DEADLINE_MS\<rparr>)\<rparr>) h1)
                else
                  (case below 80 (drop_pending h1) of (x, h2) \<Rightarrow> driver_act fl e now (act_at (now + x + 20) h2)))))"

definition embedded_step :: "('n, 'a) timed_flush \<Rightarrow> ('n, 'a, 'j) host_env \<Rightarrow> u64 \<Rightarrow> ('n, 'a) seq_host \<Rightarrow> ('n, 'a) seq_host option" where
  "embedded_step fl e now h =
     (case h_embedded h of
        None \<Rightarrow> Some h
      | Some r \<Rightarrow> do {
          (expired, r', h1) \<leftarrow>
            runner_tick (he_json e) (he_uuid e) (submit_embedded (fl now) e) (\<lambda>i. h_uuids h (h_draws h + i)) (h_latch h)
              now r (h\<lparr>h_embedded := None, h_draws := h_draws h + length (ru_clients r)\<rparr>);
          (let h2 = h1\<lparr>h_embedded := Some r'\<rparr> in
           Some (if expired > 0 then snd (cluster_timeout e h2) else h2))
        })"

section \<open>Packets in\<close>

text \<open>A later life of a known replica is remapped to its address; the result is the identity the payload is delivered under.\<close>

definition remap :: "('n, 'a, 'j) host_env \<Rightarrow> u32 \<Rightarrow> 'a \<Rightarrow> bytes \<Rightarrow> ('n, 'a) seq_host \<Rightarrow> u32 \<times> ('n, 'a) seq_host" where
  "remap e replica addr payload h =
     (case reincarnation_pair payload of
        None \<Rightarrow> (replica, h)
      | Some (old, new) \<Rightarrow>
          if old = replica \<and> he_lawful e old \<and> he_next_life e old = Some new \<and> peer_addr h new = None
          then (new, insert_peer new addr h) else (replica, h))"

definition handle_vrr ::
  "('n, 'a) timed_flush \<Rightarrow> ('n, 'a, 'j) host_env \<Rightarrow> u32 \<Rightarrow> 'a \<Rightarrow> bytes \<Rightarrow> u64 \<Rightarrow> ('n, 'a) seq_host \<Rightarrow> ('n, 'a) seq_host option" where
  "handle_vrr fl e replica addr payload now h =
     (let hdr = vrr_header_of payload;
          h1 = (case hdr of
                  None \<Rightarrow> h
                | Some x \<Rightarrow>
                    (case he_tag e (vh_tag x) of
                       None \<Rightarrow> h
                     | Some t \<Rightarrow> h\<lparr>h_relay := answered replica (vh_era x) (vh_view x) (vh_slot x) t (h_relay h)\<rparr>));
          h2 = on_leader_commit e replica hdr now h1 in
      case remap e replica addr payload h2 of (i, h3) \<Rightarrow>
      let h4 = (if ns_leader (h_status e h3) = i then h3\<lparr>h_leader_elapsed := 0\<rparr> else h3) in do {
        (_, h5) \<leftarrow> on_node (no_receive (he_node e) i payload) h4;
        flushed (fl now) h5
      })"

definition handle_forward_request ::
  "('n, 'a) timed_flush \<Rightarrow> ('n, 'a, 'j) host_env \<Rightarrow> 'a \<Rightarrow> uuid \<Rightarrow> bytes \<Rightarrow> u64 \<Rightarrow> ('n, 'a) seq_host \<Rightarrow> ('n, 'a) seq_host option" where
  "handle_forward_request fl e addr m json now h =
     (let st = h_status e h in
      if ns_state st = STATE_NORMAL \<and> ns_leader st = h_own_id h then do {
        (rc, h1) \<leftarrow> request_node e json (h\<lparr>h_forwarded := (h_forwarded h)(m \<mapsto> (addr, now + 30000))\<rparr>);
        h2 \<leftarrow> flushed (fl now) h1;
        Some (if rc \<noteq> NODE_OK
              then send_not_leader addr m (ns_era st) (ns_view st) (h2\<lparr>h_forwarded := (h_forwarded h2)(m := None)\<rparr>) else h2)
      }
      else Some (send_not_leader addr m (ns_era st) (ns_view st) h))"

definition handle_forward_response ::
  "('n, 'a) timed_flush \<Rightarrow> ('n, 'a, 'j) host_env \<Rightarrow> uuid \<Rightarrow> bytes \<Rightarrow> u64 \<Rightarrow> ('n, 'a) seq_host \<Rightarrow> ('n, 'a) seq_host option" where
  "handle_forward_response fl e m bs now h =
     (case driver_waits m h of
        Some op \<Rightarrow> driver_complete (fl now) e now op bs (drop_pending h)
      | None \<Rightarrow> do {
          (absorbed, h1) \<leftarrow> embedded_reply (fl now) e now m bs h;
          Some (if absorbed then h1 else deliver_reply m bs h1)
        })"

definition error_line :: "string \<Rightarrow> bytes" where
  "error_line reason = str_bytes (''{'' @ json_field ''error'' (quoted reason) @ ''}'')"

definition handle_forward_not_leader ::
  "('n, 'a, 'j) host_env \<Rightarrow> uuid \<Rightarrow> u64 \<Rightarrow> ('n, 'a) seq_host \<Rightarrow> ('n, 'a) seq_host option" where
  "handle_forward_not_leader e m now h =
     (case driver_waits m h of
        Some _ \<Rightarrow> (case below 80 (drop_pending h) of (x, h1) \<Rightarrow> Some (act_at (now + x + 20) h1))
      | None \<Rightarrow> do {
          (dropped, h1) \<leftarrow> embedded_not_leader e now m h;
          Some (if dropped then h1
                else (case answer_conn m (error_line ''not_leader'') (h_conns h1) of Some cs \<Rightarrow> h1\<lparr>h_conns := cs\<rparr> | None \<Rightarrow> h1))
        })"

definition dispatch_application ::
  "('n, 'a) timed_flush \<Rightarrow> ('n, 'a, 'j) host_env \<Rightarrow> 'a \<Rightarrow> u8 \<Rightarrow> nat \<Rightarrow> uuid \<Rightarrow> bytes \<Rightarrow> u64 \<Rightarrow> ('n, 'a) seq_host \<Rightarrow> ('n, 'a) seq_host option" where
  "dispatch_application fl e addr k len m rest now h =
     (if k = FORWARD_REQUEST then (if len > 17 then handle_forward_request fl e addr m rest now h else Some h)
      else if k = FORWARD_RESPONSE then (if len > 17 then handle_forward_response fl e m rest now h else Some h)
      else if k = FORWARD_NOT_LEADER \<and> len = 25 then handle_forward_not_leader e m now h
      else Some h)"

definition handle_application ::
  "('n, 'a) timed_flush \<Rightarrow> ('n, 'a, 'j) host_env \<Rightarrow> 'a \<Rightarrow> bytes \<Rightarrow> u64 \<Rightarrow> ('n, 'a) seq_host \<Rightarrow> ('n, 'a) seq_host option" where
  "handle_application fl e addr payload now h =
     (case payload of
        [] \<Rightarrow> Some h
      | k # _ \<Rightarrow> dispatch_application fl e addr k (length payload) (be_word (slice 1 17 payload)) (drop 17 payload) now h)"

definition handle_packet ::
  "('n, 'a) timed_flush \<Rightarrow> ('n, 'a, 'j) host_env \<Rightarrow> u32 \<Rightarrow> 'a \<Rightarrow> bytes \<Rightarrow> u64 \<Rightarrow> ('n, 'a) seq_host \<Rightarrow> ('n, 'a) seq_host option" where
  "handle_packet fl e replica addr packet now h =
     (case decode_peer packet of
        None \<Rightarrow> Some h
      | Some (kind, fingerprint, payload) \<Rightarrow>
          if fingerprint \<noteq> h_fingerprint h then Some h
          else if kind = PEER_SNAPSHOT then
            (case handle_snapshot_packet (he_resolve e) addr payload (h_disc h) of
               Answers None \<Rightarrow> None
             | Answers (Some response) \<Rightarrow> Some (send_to addr (encode_peer PEER_SNAPSHOT (h_fingerprint h) response) h)
             | Becomes d \<Rightarrow> Some (h\<lparr>h_disc := d\<rparr>))
          else if kind = PEER_VRR then handle_vrr fl e replica addr payload now h
          else handle_application fl e addr payload now h)"

definition learn_member_row :: "('n, 'a, 'j) host_env \<Rightarrow> 'a \<Rightarrow> ('n, 'a) seq_host \<Rightarrow> bool \<times> ('n, 'a) seq_host" where
  "learn_member_row e addr h =
     (case find (\<lambda>m. he_resolve e (sm_endpoint m) = Some addr \<and> peer_addr h (sm_id m) = None) (mo_members (dh_model (h_disc h))) of
        None \<Rightarrow> (False, h)
      | Some m \<Rightarrow> (True, insert_peer (sm_id m) addr h))"

fun pump_udp :: "('n, 'a) timed_flush \<Rightarrow> ('n, 'a, 'j) host_env \<Rightarrow> u64 \<Rightarrow> ('a \<times> bytes) list \<Rightarrow> ('n, 'a) seq_host \<Rightarrow> ('n, 'a) seq_host option" where
  "pump_udp fl e now [] h = Some h"
| "pump_udp fl e now ((addr, packet) # rest) h =
     (let h1 = (if dh_addr_to_id (h_disc h) addr = None then snd (learn_member_row e addr h) else h) in do {
        h2 \<leftarrow> (case dh_addr_to_id (h_disc h1) addr of None \<Rightarrow> Some h1 | Some i \<Rightarrow> handle_packet fl e i addr packet now h1);
        pump_udp fl e now rest h2
      })"

end
