(* ===== verification/Sequencer_Clients.thy ===== *)
theory Sequencer_Clients
  imports Sequencer_Turns
begin

text \<open>
  The client side of the host (\<^verbatim>\<open>main.rs\<close>): the lines of a connection, lock requests and administrative changes with their
  deadlines, the loop's body, and the descriptor the sequencer starts from.
\<close>

section \<open>Lines\<close>

text \<open>A blank line is consumed and ends the turn's reading.\<close>

definition pop_line :: "conn \<Rightarrow> bytes option \<times> conn" where
  "pop_line c =
     (let line = takeWhile (\<lambda>b. b \<noteq> 0x0A) (cn_buf c) in
      if 0x0A \<notin> set (cn_buf c) then (None, c)
      else
        (let c1 = c\<lparr>cn_buf := drop (Suc (length line)) (cn_buf c)\<rparr>;
             text = (if line \<noteq> [] \<and> last line = 0x0D then butlast line else line) in
         (if text = [] then None else Some text, c1)))"

definition on_conn :: "nat \<Rightarrow> (conn \<Rightarrow> conn) \<Rightarrow> ('n, 'a) seq_host \<Rightarrow> ('n, 'a) seq_host" where
  "on_conn i f h = h\<lparr>h_conns := (h_conns h)[i := f (h_conns h ! i)]\<rparr>"

definition reply_to :: "nat \<Rightarrow> bytes \<Rightarrow> ('n, 'a) seq_host \<Rightarrow> ('n, 'a) seq_host" where
  "reply_to i bs = on_conn i (client_reply bs)"

definition wait_on :: "nat \<Rightarrow> tcp_pending \<Rightarrow> ('n, 'a) seq_host \<Rightarrow> ('n, 'a) seq_host" where
  "wait_on i p = on_conn i (\<lambda>c. c\<lparr>cn_pending := Some p\<rparr>)"

definition show_int :: "int \<Rightarrow> string" where
  "show_int i = (if i < 0 then CHR ''-'' # show_dec (nat (- i)) else show_dec (nat i))"

definition handle_lock_line ::
  "('n, 'a) timed_flush \<Rightarrow> ('n, 'a, 'j) host_env \<Rightarrow> nat \<Rightarrow> bytes \<Rightarrow> uuid \<Rightarrow> u64 \<Rightarrow> ('n, 'a) seq_host \<Rightarrow> ('n, 'a) seq_host option" where
  "handle_lock_line fl e i line m now h =
     (let leader = ns_leader (h_status e h) in do {
        (rc, h1) \<leftarrow> request_node e line h;
        h2 \<leftarrow> flushed (fl now) h1;
        (let dest = (if rc = NOT_LEADER \<and> leader \<noteq> LEADER_UNKNOWN \<and> leader \<noteq> h_own_id h2 then peer_addr h2 leader else None) in
         if rc = NODE_OK then Some (wait_on i (LockWait m (now + 30000)) h2)
         else
           (case dest of
              Some addr \<Rightarrow> Some (wait_on i (LockWait m (now + 30000)) (send_forward_request addr m line h2))
            | None \<Rightarrow>
                Some (reply_to i
                  (if rc = NOT_LEADER then error_line ''not_leader''
                   else str_bytes (''{'' @ json_field ''error'' (quoted ''rejected'') @ '','' @ json_field ''code'' (show_int rc) @ ''}'')) h2)))
      })"

definition admin_op :: "string \<Rightarrow> u32 option" where
  "admin_op act =
     (if act = ''join'' then Some RECONFIGURE_JOIN
      else if act = ''increment'' then Some RECONFIGURE_INCREMENT
      else if act = ''leave'' then Some RECONFIGURE_LEAVE
      else if act = ''decrement'' then Some RECONFIGURE_DECREMENT
      else None)"

definition admin_line :: "string \<Rightarrow> u32 \<Rightarrow> string \<Rightarrow> bytes" where
  "admin_line act i verdict =
     str_bytes (''{'' @ json_field ''action'' (quoted act) @ '','' @ json_field ''id'' (show_dec (unat i)) @ '','' @ verdict @ ''}'')"

definition accepted_text :: string where "accepted_text = json_field ''accepted'' ''true''"
definition refused_text :: string where "refused_text = json_field ''accepted'' ''false''"

definition handle_admin_line ::
  "('n, 'a) timed_flush \<Rightarrow> ('n, 'a, 'j) host_env \<Rightarrow> nat \<Rightarrow> string \<Rightarrow> u32 \<Rightarrow> u32 \<Rightarrow> string \<Rightarrow> u64 \<Rightarrow> ('n, 'a) seq_host \<Rightarrow> ('n, 'a) seq_host option" where
  "handle_admin_line fl e i act op member endpoint now h =
     (let st = h_status e h in
      if ns_state st \<noteq> STATE_NORMAL \<or> ns_leader st \<noteq> h_own_id h then Some (reply_to i (error_line ''not_leader'') h)
      else do {
        (rc, h1) \<leftarrow> on_node (no_reconfigure (he_node e) op member POSITION_APPEND) h;
        (slot, h2) \<leftarrow> fl now h1;
        (if rc \<noteq> NODE_OK then Some (reply_to i (admin_line act member refused_text) h2)
         else
           (let h3 = (case (if act = ''join'' then he_resolve e endpoint else None) of
                        None \<Rightarrow> h2
                      | Some addr \<Rightarrow> insert_peer member addr h2) in
            Some (wait_on i (AdminWait act member endpoint (ns_era st) slot (now + ADMIN_DEADLINE_MS)) h3)))
      })"

definition handle_client_line ::
  "('n, 'a) timed_flush \<Rightarrow> ('n, 'a, 'j) host_env \<Rightarrow> nat \<Rightarrow> bytes \<Rightarrow> u64 \<Rightarrow> ('n, 'a) seq_host \<Rightarrow> ('n, 'a) seq_host option" where
  "handle_client_line fl e i line now h =
     (let jo = he_json e; bad = Some (reply_to i (error_line ''bad_request'') h) in
      case jo_parse jo line of
        None \<Rightarrow> bad
      | Some v \<Rightarrow>
          (case jo_as_str jo (jo_index jo v ''action'') of
             None \<Rightarrow>
               (case Option.bind (jo_as_str jo (jo_index jo v ''message_id'')) uuid_bytes of
                  None \<Rightarrow> bad
                | Some m \<Rightarrow> handle_lock_line fl e i line (be_word m) now h)
           | Some act \<Rightarrow>
               (case admin_op act of
                  None \<Rightarrow> bad
                | Some op \<Rightarrow>
                    (case jo_as_u64 jo (jo_index jo v ''id'') of
                       None \<Rightarrow> bad
                     | Some i64 \<Rightarrow>
                         handle_admin_line fl e i act op (ucast i64)
                           (case jo_as_str jo (jo_index jo v ''endpoint'') of None \<Rightarrow> [] | Some s \<Rightarrow> s) now h))))"

section \<open>Deadlines\<close>

text \<open>The connection is kept or dropped.\<close>

definition pending_deadline ::
  "('n, 'a, 'j) host_env \<Rightarrow> nat \<Rightarrow> u64 \<Rightarrow> ('n, 'a) seq_host \<Rightarrow> (bool \<times> ('n, 'a) seq_host) option" where
  "pending_deadline e i now h =
     (case cn_pending (h_conns h ! i) of
        None \<Rightarrow> Some (True, h)
      | Some (LockWait m deadline) \<Rightarrow> if now < deadline then Some (True, h) else Some (False, snd (cluster_timeout e h))
      | Some (AdminWait act member endpoint proposal_era slot deadline) \<Rightarrow>
          if ns_era (h_status e h) > proposal_era then do {
            h1 \<leftarrow> (case apply_change act member endpoint (dh_model (h_disc h)) of
                    (False, _) \<Rightarrow> Some h
                  | (True, mo) \<Rightarrow> disseminate (h\<lparr>h_disc := (h_disc h)\<lparr>dh_model := model_advance slot mo\<rparr>\<rparr>));
            Some (True, on_conn i (\<lambda>c. client_reply (admin_line act member accepted_text) (c\<lparr>cn_pending := None\<rparr>)) h1)
          }
          else if now < deadline then Some (True, h)
          else
            (let h1 = snd (cluster_timeout e h) in
             Some (True, on_conn i (\<lambda>c. client_reply
                     (admin_line act member (refused_text @ '','' @ json_field ''reason'' (quoted ''deadline''))) (c\<lparr>cn_pending := None\<rparr>)) h1)))"

section \<open>Connections\<close>

text \<open>
  A connection's lines are taken while nothing is outstanding; the result says whether the connection is dropped. Every
  line shortens the buffer, so the length of the buffer bounds the rounds.
\<close>

fun client_lines ::
  "nat \<Rightarrow> ('n, 'a) timed_flush \<Rightarrow> ('n, 'a, 'j) host_env \<Rightarrow> nat \<Rightarrow> u64 \<Rightarrow> ('n, 'a) seq_host \<Rightarrow> (bool \<times> ('n, 'a) seq_host) option" where
  "client_lines 0 fl e i now h = Some (False, h)"
| "client_lines (Suc rounds) fl e i now h =
     (if cn_pending (h_conns h ! i) \<noteq> None then Some (False, h)
      else
        (case pop_line (h_conns h ! i) of
           (None, c) \<Rightarrow> Some (length (cn_buf c) > MAX_CLIENT_LINE, on_conn i (\<lambda>_. c) h)
         | (Some line, c) \<Rightarrow>
             (if from_utf8 line = None then Some (True, on_conn i (\<lambda>_. c) h)
              else do {
                h1 \<leftarrow> handle_client_line fl e i line now (on_conn i (\<lambda>_. c) h);
                client_lines rounds fl e i now h1
              })))"

text \<open>What one connection's socket gave: the bytes read, and whether it is still open.\<close>

definition serve_conn ::
  "('n, 'a) timed_flush \<Rightarrow> ('n, 'a, 'j) host_env \<Rightarrow> u64 \<Rightarrow> bytes \<times> bool \<Rightarrow> nat \<Rightarrow> ('n, 'a) seq_host \<Rightarrow> ('n, 'a) seq_host option" where
  "serve_conn fl e now got i h =
     (let h1 = on_conn i (\<lambda>c. c\<lparr>cn_buf := cn_buf c @ fst got\<rparr>) h;
          remove = (\<lambda>h. h\<lparr>h_conns := take i (h_conns h) @ drop (Suc i) (h_conns h)\<rparr>) in
      if \<not> snd got then Some (remove h1)
      else do {
        (gone, h2) \<leftarrow> client_lines (Suc (length (cn_buf (h_conns h1 ! i)))) fl e i now h1;
        (if gone then Some (remove h2)
         else do {
           (kept, h3) \<leftarrow> pending_deadline e i now h2;
           Some (if kept then h3 else remove h3)
         })
      })"

fun serve_conns ::
  "('n, 'a) timed_flush \<Rightarrow> ('n, 'a, 'j) host_env \<Rightarrow> u64 \<Rightarrow> (nat \<Rightarrow> bytes \<times> bool) \<Rightarrow> nat \<Rightarrow> ('n, 'a) seq_host \<Rightarrow> ('n, 'a) seq_host option" where
  "serve_conns fl e now reads 0 h = Some h"
| "serve_conns fl e now reads (Suc i) h =
     Option.bind (serve_conn fl e now (reads i) i h) (serve_conns fl e now reads i)"

definition drop_stale :: "u64 \<Rightarrow> ('n, 'a) seq_host \<Rightarrow> ('n, 'a) seq_host" where
  "drop_stale now h =
     h\<lparr>h_forwarded := (\<lambda>m. case h_forwarded h m of None \<Rightarrow> None | Some (a, d) \<Rightarrow> if now \<ge> d then None else Some (a, d))\<rparr>"

definition pump_tcp ::
  "('n, 'a) timed_flush \<Rightarrow> ('n, 'a, 'j) host_env \<Rightarrow> u64 \<Rightarrow> nat \<Rightarrow> (nat \<Rightarrow> bytes \<times> bool) \<Rightarrow> ('n, 'a) seq_host \<Rightarrow> ('n, 'a) seq_host option" where
  "pump_tcp fl e now accepted reads h =
     (let h1 = drop_stale now
            (h\<lparr>h_conns := h_conns h @ replicate accepted \<lparr>cn_buf = [], cn_pending = None, cn_written = []\<rparr>\<rparr>) in
      serve_conns fl e now reads (length (h_conns h1)) h1)"

section \<open>The loop's body\<close>

record 'a turn_input =
  ti_now :: u64
  ti_datagrams :: "('a \<times> bytes) list"
  ti_accepted :: nat
  ti_reads :: "nat \<Rightarrow> bytes \<times> bool"
  ti_latch :: bool

definition host_turn :: "('n, 'a) timed_flush \<Rightarrow> ('n, 'a, 'j) host_env \<Rightarrow> 'a turn_input \<Rightarrow> ('n, 'a) seq_host \<Rightarrow> ('n, 'a) seq_host option" where
  "host_turn fl e t h =
     (let now = ti_now t in do {
        h1 \<leftarrow> pump_udp fl e now (ti_datagrams t) (h\<lparr>h_latch := ti_latch t\<rparr>);
        h2 \<leftarrow> pump_tcp fl e now (ti_accepted t) (ti_reads t) h1;
        h3 \<leftarrow> timers fl e now h2;
        h4 \<leftarrow> driver_step fl e now (discovery_step now h3);
        h5 \<leftarrow> embedded_step fl e now h4;
        flushed (fl now) h5
      })"

section \<open>The descriptor\<close>

record cluster_node =
  ci_id :: u32
  ci_name :: string
  ci_host :: string
  ci_port :: u16
  ci_endpoint :: string
  ci_genesis :: bool

definition config_line :: "'j json_ops \<Rightarrow> string \<Rightarrow> cluster_node option" where
  "config_line jo line = do {
     v \<leftarrow> jo_parse jo (str_bytes line);
     i \<leftarrow> jo_as_u64 jo (jo_index jo v ''id'');
     (let text = (\<lambda>k. case jo_as_str jo (jo_index jo v k) of None \<Rightarrow> [] | Some s \<Rightarrow> s);
          port = (case jo_as_u64 jo (jo_index jo v ''port'') of None \<Rightarrow> 0 | Some p \<Rightarrow> ucast p) :: u16 in
      Some \<lparr>ci_id = ucast i, ci_name = text ''name'', ci_host = text ''host'', ci_port = port,
            ci_endpoint = text ''host'' @ '':'' @ show_dec (unat port),
            ci_genesis = (jo_as_str jo (jo_index jo v ''genesis'') = Some ''true'' \<or>
                          jo_as_bool jo (jo_index jo v ''genesis'') = Some True)\<rparr>)
   }"

text \<open>The process exits on a bad line or an empty descriptor.\<close>

definition parse_config :: "'j json_ops \<Rightarrow> string \<Rightarrow> cluster_node list option" where
  "parse_config jo text = do {
     nodes \<leftarrow> those (map (config_line jo) (filter (\<lambda>l. l \<noteq> [] \<and> hd l \<noteq> CHR ''#'') (map trim (text_lines text))));
     (if nodes = [] then None else Some nodes)
   }"

datatype boot_refusal =
    TooFewVoters nat
  | NameInDescriptor string
  | NameNotInDescriptor string
  | EndpointForm
  | EndpointPort
  | EndpointHost

definition VOTING_MINIMUM :: nat where "VOTING_MINIMUM = 3"

definition check_voting_minimum :: "cluster_node list \<Rightarrow> boot_refusal + unit" where
  "check_voting_minimum nodes =
     (let voting = length (filter ci_genesis nodes) in if voting < VOTING_MINIMUM then Inl (TooFewVoters voting) else Inr ())"

definition boot_nodes :: "cluster_node list \<Rightarrow> string \<Rightarrow> u32 \<Rightarrow> string \<Rightarrow> boot_refusal + cluster_node list" where
  "boot_nodes nodes own join_id join_endpoint =
     (if list_ex (\<lambda>n. ci_name n = own) nodes then
        (if join_id \<noteq> 0 \<or> join_endpoint \<noteq> [] then Inl (NameInDescriptor own)
         else (case check_voting_minimum nodes of Inl r \<Rightarrow> Inl r | Inr _ \<Rightarrow> Inr nodes))
      else if join_id = 0 \<or> join_endpoint = [] then Inl (NameNotInDescriptor own)
      else
        (case rsplit_once (CHR '':'') join_endpoint of
           None \<Rightarrow> Inl EndpointForm
         | Some (addr, port) \<Rightarrow>
             (case parse_u16 port of
                None \<Rightarrow> Inl EndpointPort
              | Some p \<Rightarrow>
                  if addr = [] then Inl EndpointHost
                  else
                    Inr (nodes @ [\<lparr>ci_id = join_id, ci_name = own, ci_host = addr, ci_port = p, ci_endpoint = join_endpoint, ci_genesis = False\<rparr>]))))"

end
