(* ===== verification/Sequencer_Props.thy ===== *)
theory Sequencer_Props
  imports Sequencer_Clients Peer_Wire_Props Node_Claims
begin

text \<open>
  The host of the sequencer: a flush answers only connections that wait, each at most once; a suspicion is lifted only by a commit
  of the leader; a retried request of a client is never answered; an administrative change is acknowledged although the
  membership model refuses it.
\<close>

section \<open>What a flush leaves alone\<close>

definition conn_moves :: "conn \<Rightarrow> conn \<Rightarrow> bool" where
  "conn_moves c c' \<longleftrightarrow>
     c' = c \<or> (\<exists>m d bs. cn_pending c = Some (LockWait m d) \<and> c' = client_reply bs (c\<lparr>cn_pending := None\<rparr>))"

definition steady :: "('n, 'a) seq_host \<Rightarrow> ('n, 'a) seq_host \<Rightarrow> bool" where
  "steady h h' \<longleftrightarrow>
     h_disc h' = h_disc h \<and> h_timedout h' = h_timedout h \<and> h_own_id h' = h_own_id h \<and> h_fingerprint h' = h_fingerprint h \<and>
     list_all2 conn_moves (h_conns h) (h_conns h')"

lemma conn_moves_refl [simp]: "conn_moves c c"
  by (simp add: conn_moves_def)

lemma conn_moves_trans: "conn_moves a b \<Longrightarrow> conn_moves b c \<Longrightarrow> conn_moves a c"
  by (auto simp: conn_moves_def client_reply_def)

lemma steady_refl [simp]: "steady h h"
  by (simp add: steady_def list.rel_refl)

lemma steady_trans: "steady a b \<Longrightarrow> steady b c \<Longrightarrow> steady a c"
  unfolding steady_def using list_all2_trans [of conn_moves conn_moves conn_moves] conn_moves_trans by (metis (full_types))

lemma steady_on: "steady a b \<Longrightarrow> (\<And>x. steady x (f x)) \<Longrightarrow> steady a (f b)"
  using steady_trans by blast

lemma steady_node [simp]: "steady h (h\<lparr>h_node := n\<rparr>)"
  and steady_driver [simp]: "steady h (h\<lparr>h_driver := d\<rparr>)"
  and steady_embedded [simp]: "steady h (h\<lparr>h_embedded := r\<rparr>)"
  and steady_rng [simp]: "steady h (h\<lparr>h_rng := x\<rparr>)"
  and steady_draws [simp]: "steady h (h\<lparr>h_draws := k\<rparr>)"
  and steady_sent [simp]: "steady h (h\<lparr>h_sent := s\<rparr>)"
  and steady_forwarded [simp]: "steady h (h\<lparr>h_forwarded := g\<rparr>)"
  and steady_late [simp]: "steady h (h\<lparr>h_late_acks := a\<rparr>)"
  and steady_frontier [simp]: "steady h (h\<lparr>h_frontier_slot := b\<rparr>)"
  and steady_commit [simp]: "steady h (h\<lparr>h_last_leader_commit := t\<rparr>)"
  and steady_relay [simp]: "steady h (h\<lparr>h_relay := l\<rparr>)"
  by (simp_all add: steady_def list.rel_refl)

lemma steady_send [simp]: "steady h (send_to a p h)"
  by (simp add: send_to_def)

lemma steady_forwards [simp]: "steady h (send_forward_request a m b h)" "steady h (send_forward_response a m b h)"
  by (simp_all add: send_forward_request_def send_forward_response_def send_application_def)

lemma steady_act_at [simp]: "steady h (act_at t h)"
  and steady_with_pending [simp]: "steady h (with_pending m op now h)"
  and steady_drop_pending [simp]: "steady h (drop_pending h)"
  by (simp_all add: act_at_def with_pending_def drop_pending_def)

lemma steady_below: "below b h = (x, h') \<Longrightarrow> steady h h'"
  by (auto simp: below_def split: prod.splits)

lemma steady_fresh: "fresh_id h = (u, h') \<Longrightarrow> steady h h'"
  by (auto simp: fresh_id_def)

lemma steady_request: "request_node e b h = Some (rc, h') \<Longrightarrow> steady h h'"
  by (auto simp: request_node_def)

definition steady_flush :: "('n, 'a) flush \<Rightarrow> bool" where
  "steady_flush fl \<longleftrightarrow> (\<forall>h s h'. fl h = Some (s, h') \<longrightarrow> steady h h')"

lemma steady_flushD: "steady_flush fl \<Longrightarrow> fl h = Some (s, h') \<Longrightarrow> steady h h'"
  by (simp add: steady_flush_def)

lemma steady_below_act: "below b h = (x, h1) \<Longrightarrow> steady h (act_at t h1)"
  using steady_below steady_trans steady_act_at by blast

lemma route_op_steady:
  assumes "steady_flush fl" and r: "route_op fl e now rc op json m h = Some h'"
  shows "steady h h'"
proof (cases "rc = NODE_OK")
  case True
  with r show ?thesis by (simp add: route_op_def) (metis steady_with_pending)
next
  case False
  then obtain s h1 where f: "fl h = Some (s, h1)" using r by (cases "fl h") (auto simp: route_op_def)
  have "steady h1 h'"
  proof (cases "if rc = NOT_LEADER then other_leader e h1 else None")
    case None
    obtain x h2 where b: "below 100 h1 = (x, h2)" by (cases "below 100 h1")
    with r False f None have "h' = act_at (now + x + 50) h2" by (simp add: route_op_def)
    then show ?thesis using steady_below_act [OF b] by simp
  next
    case (Some a)
    with r False f have "h' = with_pending m op now (send_forward_request a m json h1)" by (simp add: route_op_def)
    then show ?thesis using steady_trans [OF steady_forwards(1) steady_with_pending] by simp
  qed
  with steady_flushD [OF assms(1) f] show ?thesis by (rule steady_trans)
qed

lemma submit_hold_steady:
  assumes "steady_flush fl" and "submit_hold fl e now op h = Some h'"
  shows "steady h h'"
proof -
  obtain g m h2 rc h3 json where g: "g = on_driver (\<lambda>d. d\<lparr>dr_request_num := dr_request_num d + 1, dr_lease_id := dr_lease_id d + 1\<rparr>) h"
    and "fresh_id g = (m, h2)" "request_node e json h2 = Some (rc, h3)" "route_op fl e now rc op json m h3 = Some h'"
    using assms(2) by (auto simp: submit_hold_def Let_def bind_eq_Some_conv split: prod.splits)
  then have "steady g h2" "steady h2 h3" "steady h3 h'"
    using steady_fresh steady_request route_op_steady [OF assms(1)] by blast+
  moreover have "steady h g" by (simp add: g)
  ultimately show ?thesis using steady_trans by blast
qed

lemma foreign_steady: "steady h (foreign_until t h)"
proof -
  obtain x h1 where b: "below (POLL_JITTER_MS + 1) (on_driver (\<lambda>d. d\<lparr>dr_last_get_foreign := True\<rparr>) h) = (x, h1)" by (meson surj_pair)
  then show ?thesis using steady_trans [OF steady_driver steady_below_act [OF b]] by (simp add: foreign_until_def)
qed

lemma complete_get_steady:
  assumes "steady_flush fl" and "complete_get fl e now reply h = Some h'"
  shows "steady h h'"
  using assms(2) foreign_steady submit_hold_steady [OF assms(1)] steady_trans [OF steady_driver]
  by (auto simp: complete_get_def Let_def bind_eq_Some_conv split: if_splits) blast+

lemma complete_hold_steady:
  assumes "complete_hold e now reply h = Some h'"
  shows "steady h h'"
proof (cases "jo_as_bool (he_json e) (jo_index (he_json e) reply ''granted'') = Some True")
  case True
  with assms show ?thesis by (simp add: complete_hold_def Let_def) (metis steady_driver)
next
  case False
  define h1 where "h1 = on_driver (\<lambda>d. d\<lparr>dr_held_expiry := None\<rparr>) h"
  obtain x h2 where b: "below 100 h1 = (x, h2)" by (cases "below 100 h1")
  have again: "steady h1 (act_at (now + x + 50) h2)" by (rule steady_below_act [OF b])
  have "steady h1 h'"
  proof (cases "jo_is_object (he_json e) (jo_index (he_json e) reply ''lease'')")
    case True
    then obtain t owner where "lease_fields (he_json e) (jo_index (he_json e) reply ''lease'') = Some (t, owner)"
      using assms False by (cases "lease_fields (he_json e) (jo_index (he_json e) reply ''lease'')") (auto simp: complete_hold_def Let_def)
    then have "h' = (if owner \<noteq> ut_show (he_uuid e) (dr_holder (h_driver h)) then foreign_until t h1 else act_at (now + x + 50) h2)"
      using assms False True b by (cases "owner = ut_show (he_uuid e) (dr_holder (h_driver h))") (simp_all add: complete_hold_def Let_def h1_def)
    then show ?thesis using again by (simp add: foreign_steady)
  next
    case no: False
    with assms False b have "h' = act_at (now + x + 50) h2" by (simp add: complete_hold_def Let_def h1_def)
    with again show ?thesis by simp
  qed
  moreover have "steady h h1" by (simp add: h1_def)
  ultimately show ?thesis using steady_trans by blast
qed

lemma driver_complete_steady:
  assumes "steady_flush fl" and "driver_complete fl e now op bs h = Some h'"
  shows "steady h h'"
proof (cases "jo_parse (he_json e) bs")
  case None
  obtain x h1 where b: "below 100 h = (x, h1)" by (cases "below 100 h")
  with None assms(2) show ?thesis using steady_below_act [OF b] by (simp add: driver_complete_def) metis
next
  case (Some reply)
  with assms show ?thesis using complete_get_steady complete_hold_steady by (cases "op = DriverGet") (auto simp: driver_complete_def)
qed

section \<open>The embedded clients inside a flush\<close>

lemma submit_embedded_steady:
  assumes "steady_flush fl" and r: "submit_embedded fl e a h = Some (b, h')"
  shows "steady h h'"
proof -
  obtain rc h1 where q: "request_node e (str_bytes (ac_request a)) h = Some (rc, h1)"
    using r by (cases "request_node e (str_bytes (ac_request a)) h") (auto simp: submit_embedded_def)
  have "steady h1 h'"
  proof (cases "rc = NODE_OK")
    case True
    with r q show ?thesis by (simp add: submit_embedded_def)
  next
    case False
    then obtain s h2 where f: "fl h1 = Some (s, h2)" using r q by (cases "fl h1") (auto simp: submit_embedded_def)
    have "steady h2 h'"
      using r q False f by (cases "if rc = NOT_LEADER then other_leader e h2 else None") (auto simp: submit_embedded_def)
    with steady_flushD [OF assms(1) f] show ?thesis by (rule steady_trans)
  qed
  with steady_request [OF q] show ?thesis by (rule steady_trans)
qed

lemma submit_or_absorb_keeps:
  assumes "\<And>a w b w'. submit a w = Some (b, w') \<Longrightarrow> steady w w'" and "submit_or_absorb jo ut submit m now d a (cl, w) = Some (cl', w')"
  shows "steady w w'"
  using assms(2) by (auto simp: submit_or_absorb_def bind_eq_Some_conv split: if_splits dest: assms(1))

lemma runner_absorb_keeps:
  assumes k: "\<And>a w b w'. submit a w = Some (b, w') \<Longrightarrow> steady w w'" and "runner_absorb jo ut submit u now m bs r w = Some (b, r', w')"
  shows "steady w w'"
  using assms(2) submit_or_absorb_keeps [where submit = submit, OF k]
  by (auto simp: runner_absorb_def client_complete_def bind_eq_Some_conv split: option.splits)

lemma embedded_reply_steady:
  assumes "steady_flush fl" and r: "embedded_reply fl e now m bs h = Some (b, h')"
  shows "steady h h'"
proof (cases "h_embedded h")
  case None
  with r show ?thesis by (simp add: embedded_reply_def)
next
  case (Some rn)
  obtain u h1 where f: "fresh_id h = (u, h1)" by (cases "fresh_id h")
  with r Some obtain r' h2 where
    "runner_absorb (he_json e) (he_uuid e) (submit_embedded fl e) u now m bs rn (h1\<lparr>h_embedded := None\<rparr>) = Some (b, r', h2)"
    and h': "h' = h2\<lparr>h_embedded := Some r'\<rparr>"
    by (auto simp: embedded_reply_def bind_eq_Some_conv)
  then have "steady (h1\<lparr>h_embedded := None\<rparr>) h2" using runner_absorb_keeps submit_embedded_steady [OF assms(1)] by blast
  moreover have "steady h1 (h1\<lparr>h_embedded := None\<rparr>)" "steady h2 h'" by (simp_all add: h')
  ultimately show ?thesis using steady_fresh [OF f] steady_trans by blast
qed

section \<open>The flush\<close>

lemma answer_conn_moves: "answer_conn m bs cs = Some cs' \<Longrightarrow> list_all2 conn_moves cs cs'"
proof (induction cs arbitrary: cs')
  case (Cons c cs)
  then show ?case
    by (auto simp: waits_for_def conn_moves_def list.rel_refl split: if_splits option.splits tcp_pending.splits)
qed simp

lemma deliver_steady: "steady h (deliver_reply m bs h)"
  by (cases "answer_conn m bs (h_conns h)") (simp_all add: deliver_reply_def steady_def answer_conn_moves list.rel_refl)

lemma output_reply_steady:
  assumes "steady_flush fl" and r: "output_reply fl e now m bs h = Some h'"
  shows "steady h h'"
proof (cases "h_forwarded h m")
  case (Some p)
  obtain dest d where "p = (dest, d)" by (cases p)
  with r Some have "h' = send_forward_response dest m bs (h\<lparr>h_forwarded := (h_forwarded h)(m := None)\<rparr>)" by (simp add: output_reply_def)
  then show ?thesis using steady_trans [OF steady_forwarded steady_forwards(2)] by simp
next
  case none: None
  show ?thesis
  proof (cases "driver_waits m h")
    case None
    with r none obtain b h1 where "embedded_reply fl e now m bs h = Some (b, h1)" "h' = (if b then h1 else deliver_reply m bs h1)"
      by (auto simp: output_reply_def bind_eq_Some_conv)
    then show ?thesis using embedded_reply_steady [OF assms(1), of e now m bs h b h1] steady_trans [OF _ deliver_steady, of h h1] by (cases b) simp_all
  next
    case (Some op)
    with r none have "steady (drop_pending h) h'" using driver_complete_steady [OF assms(1)] by (simp add: output_reply_def)
    with steady_drop_pending show ?thesis by (rule steady_trans)
  qed
qed

lemma output_send_steady:
  assumes "output_send e now q h = Some h'"
  shows "steady h h'"
proof -
  define h1 where "h1 = (if qd_slot q > h_frontier_slot h then h\<lparr>h_frontier_slot := qd_slot q\<rparr> else h)"
  obtain a where a: "peer_addr h1 (qd_to q) = Some a"
    using assms by (cases "peer_addr h1 (qd_to q)") (simp_all only: output_send_def Let_def h1_def [symmetric] option.case option.distinct)
  define commits where "commits = (case vrr_header_of (qd_bytes q) of None \<Rightarrow> False | Some x \<Rightarrow> vh_tag x = COMMIT_TAG)"
  define h2 where "h2 = (if ns_state (h_status e h1) = STATE_NORMAL \<and> ns_leader (h_status e h1) = h_own_id h1 \<and> commits
    then h1\<lparr>h_last_leader_commit := now\<rparr> else h1)"
  define h3 where "h3 = send_to a (encode_peer PEER_VRR (h_fingerprint h2) (qd_bytes q)) h2"
  have "h' = h3 \<or> (\<exists>l. h' = h3\<lparr>h_relay := l\<rparr>)"
    using assms a unfolding output_send_def Let_def h1_def [symmetric]
    by (simp only: option.case commits_def [symmetric] h2_def [symmetric] h3_def [symmetric]) (auto split: option.splits)
  then have "steady h3 h'" by auto
  moreover have "steady h h1" "steady h1 h2" "steady h2 h3" by (simp_all add: h1_def h2_def h3_def)
  ultimately show ?thesis using steady_trans by blast
qed

lemma take_output_steady: "steady_flush fl \<Longrightarrow> take_output fl e now q h = Some (s, h') \<Longrightarrow> steady h h'"
  by (auto simp: take_output_def split: if_splits dest: output_reply_steady output_send_steady)

lemma flush_step:
  assumes f: "flush_outputs (Suc fuel) e now h = Some (s, h')"
  obtains n where "no_next_output (he_node e) (h_node h) = Some (None, n)" "h' = h\<lparr>h_node := n\<rparr>"
    | q n a h1 b where "no_next_output (he_node e) (h_node h) = Some (Some q, n)"
        "take_output (flush_outputs fuel e now) e now q (h\<lparr>h_node := n\<rparr>) = Some (a, h1)" "flush_outputs fuel e now h1 = Some (b, h')"
proof (cases "no_next_output (he_node e) (h_node h)")
  case None
  with f show ?thesis by simp
next
  case (Some p)
  then obtain out n where n: "no_next_output (he_node e) (h_node h) = Some (out, n)" by (cases p) simp
  show ?thesis
  proof (cases out)
    case None
    with f n that(1) show ?thesis by simp
  next
    case q: (Some q)
    obtain a h1 where t: "take_output (flush_outputs fuel e now) e now q (h\<lparr>h_node := n\<rparr>) = Some (a, h1)"
      using f by (cases "take_output (flush_outputs fuel e now) e now q (h\<lparr>h_node := n\<rparr>)") (simp_all add: n q, fastforce)
    obtain b h2 where u: "flush_outputs fuel e now h1 = Some (b, h2)"
      using f by (cases "flush_outputs fuel e now h1") (simp_all add: n q t, fastforce)
    have "h2 = h'" using f by (simp add: n q t u)
    with n q t u that(2) show ?thesis by simp
  qed
qed

lemma flush_steady: "steady_flush (flush_outputs fuel e now)"
proof (induction fuel)
  case 0
  then show ?case by (simp add: steady_flush_def)
next
  case (Suc fuel)
  have "steady h h'" if "flush_outputs (Suc fuel) e now h = Some (s, h')" for h s h'
    using that
  proof (cases rule: flush_step)
    case (1 n)
    then show ?thesis by simp
  next
    case (2 q n a h1 b)
    have "steady (h\<lparr>h_node := n\<rparr>) h1" by (rule take_output_steady [OF Suc 2(2)])
    then show ?thesis using steady_flushD [OF Suc 2(3)] by (blast intro: steady_trans [OF steady_node] steady_trans)
  qed
  then show ?case unfolding steady_flush_def by blast
qed

lemma flush_conn:
  assumes "flush_outputs fuel e now h = Some (s, h')" and "i < length (h_conns h)"
  shows "conn_moves (h_conns h ! i) (h_conns h' ! i)"
  using steady_flushD [OF flush_steady assms(1)] assms(2) by (simp add: steady_def list_all2_nthD)

section \<open>A reply without a claim\<close>

definition unclaimed :: "uuid \<Rightarrow> ('n, 'a) seq_host \<Rightarrow> bool" where
  "unclaimed m h \<longleftrightarrow>
     h_forwarded h m = None \<and> driver_waits m h = None \<and>
     (case h_embedded h of None \<Rightarrow> True | Some r \<Rightarrow> waiting_at m (ru_clients r) = None)"

lemma unclaimed_reply:
  assumes "unclaimed m h"
  shows "\<exists>k. output_reply fl e now m bs h = Some (deliver_reply m bs (h\<lparr>h_draws := k\<rparr>))"
proof (cases "h_embedded h")
  case None
  have "h = h\<lparr>h_draws := h_draws h\<rparr>" by simp
  with None assms show ?thesis by (auto simp: unclaimed_def output_reply_def embedded_reply_def intro: exI [of _ "h_draws h"])
next
  case (Some r)
  have "h\<lparr>h_draws := Suc (h_draws h), h_embedded := Some r\<rparr> = h\<lparr>h_draws := Suc (h_draws h)\<rparr>"
    by (rule seq_host.equality) (simp_all add: Some)
  from arg_cong [OF this, of "deliver_reply m bs"] Some assms show ?thesis
    by (intro exI [of _ "Suc (h_draws h)"]) (simp add: unclaimed_def output_reply_def embedded_reply_def fresh_id_def runner_absorb_def)
qed

lemma answer_conn_none: "answer_conn m bs cs = None \<longleftrightarrow> (\<forall>c \<in> set cs. \<not> waits_for m c)"
  by (induction cs) auto

lemma answer_conn_first:
  assumes "i < length cs" and "waits_for m (cs ! i)" and "\<forall>j < i. \<not> waits_for m (cs ! j)"
  shows "answer_conn m bs cs = Some (cs[i := client_reply bs ((cs ! i)\<lparr>cn_pending := None\<rparr>)])"
  using assms
proof (induction cs arbitrary: i)
  case (Cons c cs)
  show ?case
  proof (cases i)
    case 0
    with Cons.prems show ?thesis by simp
  next
    case (Suc j)
    have "\<not> waits_for m c" using Cons.prems(3) Suc by force
    moreover have "answer_conn m bs cs = Some (cs[j := client_reply bs ((cs ! j)\<lparr>cn_pending := None\<rparr>)])"
      using Cons.prems Suc by (intro Cons.IH) auto
    ultimately show ?thesis using Suc by simp
  qed
qed simp

text \<open>
  C39: a reply reaches the first connection that waits for it, and no other. Where no forwarding peer, no driver and no embedded client
  claims the identity of a reply, the reply and a line feed are written to the first connection that waits for it, which
  then waits no more; every other connection, the datagrams sent and the count of late replies stay as they
  were.
\<close>

theorem reply_reaches_first_waiter:
  assumes "qd_kind q = OUTPUT_REPLY" and "unclaimed (qd_message_id q) h" and "i < length (h_conns h)"
    and "waits_for (qd_message_id q) (h_conns h ! i)" and "\<forall>j < i. \<not> waits_for (qd_message_id q) (h_conns h ! j)"
  shows "\<exists>h'. take_output (flush_outputs fuel e now) e now q h = Some (0, h') \<and>
    h_conns h' = (h_conns h)[i := client_reply (qd_bytes q) ((h_conns h ! i)\<lparr>cn_pending := None\<rparr>)] \<and>
    h_sent h' = h_sent h \<and> h_late_acks h' = h_late_acks h \<and> h_node h' = h_node h"
proof -
  obtain k where "output_reply (flush_outputs fuel e now) e now (qd_message_id q) (qd_bytes q) h =
      Some (deliver_reply (qd_message_id q) (qd_bytes q) (h\<lparr>h_draws := k\<rparr>))"
    using unclaimed_reply [OF assms(2)] by blast
  then show ?thesis using assms(1) answer_conn_first [OF assms(3-5)]
    by (simp add: take_output_def OUTPUT_REPLY_def OUTPUT_SEND_def deliver_reply_def)
qed

section \<open>A retried request\<close>

lemma relay_out_keeps [simp]:
  "h_conns (snd (relay_out d h)) = h_conns h" "h_timedout (snd (relay_out d h)) = h_timedout h" "h_disc (snd (relay_out d h)) = h_disc h"
  "h_driver (snd (relay_out d h)) = h_driver h"
  by (simp_all add: relay_out_def send_to_def split: option.split)

lemma relay_all_keeps [simp]:
  "h_conns (snd (relay_all ds h)) = h_conns h" "h_timedout (snd (relay_all ds h)) = h_timedout h" "h_disc (snd (relay_all ds h)) = h_disc h"
  "h_driver (snd (relay_all ds h)) = h_driver h"
  by (induction ds arbitrary: h) (simp_all add: split_def)

lemma cluster_timeout_only_sends [simp]:
  "h_conns (snd (cluster_timeout e h)) = h_conns h" "h_timedout (snd (cluster_timeout e h)) = h_timedout h"
  "h_disc (snd (cluster_timeout e h)) = h_disc h" "h_driver (snd (cluster_timeout e h)) = h_driver h"
  by (simp_all add: cluster_timeout_def Let_def)

lemma late_flush:
  assumes "he_node e = lock_node ho" and "n_outputs (h_node h) = [q]" and "qd_kind q = OUTPUT_REPLY" and "unclaimed (qd_message_id q) h"
    and "\<forall>c \<in> set (h_conns h). \<not> waits_for (qd_message_id q) c"
  shows "\<exists>k. flush_outputs (Suc (Suc fuel)) e now h =
    Some (0, h\<lparr>h_node := (h_node h)\<lparr>n_outputs := []\<rparr>, h_draws := k, h_late_acks := h_late_acks h + 1\<rparr>)"
proof -
  let ?h = "h\<lparr>h_node := (h_node h)\<lparr>n_outputs := []\<rparr>\<rparr>"
  have out: "no_next_output (he_node e) (h_node h) = Some (Some q, (h_node h)\<lparr>n_outputs := []\<rparr>)"
    using assms(2,3) by (simp add: assms(1) lock_node_def returning_def next_output_def)
  have u: "unclaimed (qd_message_id q) ?h" using assms(4) by (simp add: unclaimed_def driver_waits_def)
  obtain k where "output_reply (flush_outputs (Suc fuel) e now) e now (qd_message_id q) (qd_bytes q) ?h =
      Some (deliver_reply (qd_message_id q) (qd_bytes q) (?h\<lparr>h_draws := k\<rparr>))"
    using unclaimed_reply [OF u] by blast
  moreover have "answer_conn (qd_message_id q) (qd_bytes q) (h_conns h) = None" using assms(5) by (simp add: answer_conn_none)
  ultimately have "take_output (flush_outputs (Suc fuel) e now) e now q ?h = Some (0, ?h\<lparr>h_draws := k, h_late_acks := h_late_acks h + 1\<rparr>)"
    using assms(3) by (simp add: take_output_def OUTPUT_REPLY_def OUTPUT_SEND_def deliver_reply_def)
  moreover have "no_next_output (he_node e) ((h_node h)\<lparr>n_outputs := []\<rparr>) = Some (None, (h_node h)\<lparr>n_outputs := []\<rparr>)"
    by (simp add: assms(1) lock_node_def returning_def next_output_def)
  ultimately show ?thesis using out by (intro exI [of _ k]) simp
qed

text \<open>
  C37: a retried request is never answered. Where a client sends an executed request again over a connection, as the
  protocol asks, the node queues the recorded reply at once; the host flushes before it notes that the connection waits, so
  the reply is dropped as a late one. The connection then waits for a reply that is gone, nothing is written to it, and
  at the deadline it is dropped.
\<close>

theorem retried_request_never_answered:
  assumes "he_node e = lock_node ho" and "jo_parse (he_json e) line = Some v" and "jo_as_str (he_json e) (jo_index (he_json e) v ''action'') = None"
    and "Option.bind (jo_as_str (he_json e) (jo_index (he_json e) v ''message_id'')) uuid_bytes = Some mb" and "m = be_word mb"
    and "decode (ho_parse ho) line = Inr req" and "fst (ids req) = m" and "length line \<le> MAX_DATAGRAM"
    and "n_replies (h_node h) m = Some bs" and "\<not> n_stopped (h_node h)" and "n_outputs (h_node h) = []"
    and "unclaimed m h" and "\<forall>c \<in> set (h_conns h). \<not> waits_for m c" and "i < length (h_conns h)"
  shows "\<exists>h'. handle_client_line (flush_outputs (Suc (Suc fuel)) e) e i line now h = Some h' \<and>
    h_conns h' = (h_conns h)[i := (h_conns h ! i)\<lparr>cn_pending := Some (LockWait m (now + 30000))\<rparr>] \<and>
    n_outputs (h_node h') = [] \<and> h_late_acks h' = h_late_acks h + 1 \<and> h_sent h' = h_sent h \<and>
    (\<forall>later \<ge> now + 30000. \<exists>h''. pending_deadline e i later h' = Some (False, h'') \<and> h_conns h'' = h_conns h')"
proof -
  let ?q = "\<lparr>qd_kind = OUTPUT_REPLY, qd_to = 0, qd_era = 0, qd_view = 0, qd_slot = 0, qd_message_id = m, qd_bytes = bs\<rparr>"
  let ?h = "h\<lparr>h_node := queue_reply m bs (h_node h)\<rparr>"
  have q: "n_outputs (h_node ?h) = [?q]" using assms(11) by (simp add: queue_reply_def)
  have rq: "request_node e line h = Some (NODE_OK, ?h)"
    using assms(6-10) by (simp add: request_node_def assms(1) lock_node_def returning_def node_request_def Let_def)
  have "unclaimed m ?h" using assms(12) by (simp add: unclaimed_def driver_waits_def)
  then obtain k where f: "flush_outputs (Suc (Suc fuel)) e now ?h =
      Some (0, ?h\<lparr>h_node := (h_node ?h)\<lparr>n_outputs := []\<rparr>, h_draws := k, h_late_acks := h_late_acks h + 1\<rparr>)" (is "_ = Some (0, ?g)")
    using late_flush [OF assms(1) q, where now = now and fuel = fuel] assms(13) by auto
  have l: "handle_client_line (flush_outputs (Suc (Suc fuel)) e) e i line now h = Some (wait_on i (LockWait m (now + 30000)) ?g)"
    unfolding handle_client_line_def Let_def assms(2) option.case assms(3) assms(4) handle_lock_line_def rq
    by (simp del: flush_outputs.simps add: assms(5) [symmetric] rq flushed_def f)
  have "\<exists>h''. pending_deadline e i later (wait_on i (LockWait m (now + 30000)) ?g) = Some (False, h'') \<and>
      h_conns h'' = h_conns (wait_on i (LockWait m (now + 30000)) ?g)" if "now + 30000 \<le> later" for later
    using that assms(14) by (simp add: pending_deadline_def wait_on_def on_conn_def cluster_timeout_only_sends)
  with l assms(14) show ?thesis by (simp add: wait_on_def on_conn_def)
qed

section \<open>An administrative change\<close>

definition member_of :: "u32 \<Rightarrow> model \<Rightarrow> bool" where
  "member_of i mo \<longleftrightarrow> i \<in> sm_id ` set (mo_members mo)"

lemma member_finds: "find (\<lambda>m. sm_id m = i) ms = None \<longleftrightarrow> i \<notin> sm_id ` set ms" "list_ex (\<lambda>m. sm_id m = i) ms \<longleftrightarrow> i \<in> sm_id ` set ms"
  by (auto simp: find_None_iff list_ex_iff image_iff)

lemma apply_change_refuses:
  assumes "admin_op act = Some op"
  shows "fst (apply_change act i endpoint mo) \<longleftrightarrow>
    (if act = ''join'' then \<not> member_of i mo \<and> valid_endpoint endpoint else member_of i mo)"
  using assms member_finds [of i "mo_members mo"]
  by (cases "find (\<lambda>m. sm_id m = i) (mo_members mo)") (auto simp: admin_op_def apply_change_def Let_def member_of_def split: if_splits)

lemma apply_change_refused: "\<not> fst (apply_change act i endpoint mo) \<Longrightarrow> \<exists>mo'. apply_change act i endpoint mo = (False, mo')"
  by (cases "apply_change act i endpoint mo") simp

text \<open>
  C40: a change is acknowledged although the membership model refuses it. Where the era has moved on since a change was
  proposed, by this change or by any other, and the model refuses the change (a join of
  a member it has or without a valid endpoint; an increment, a decrement or a leave of a member it does not have), the client is told,
  whatever the clock, that the change was accepted. The
  answer, and the wait that ends with it, is all that changes: the model stays as it was, nothing is disseminated and nothing is sent.
\<close>

theorem refused_change_is_acknowledged:
  assumes "i < length (h_conns h)" and "cn_pending (h_conns h ! i) = Some (AdminWait act member endpoint proposal_era slot deadline)"
    and "ns_era (h_status e h) > proposal_era" and "admin_op act = Some op"
    and "if act = ''join'' then member_of member (dh_model (h_disc h)) \<or> \<not> valid_endpoint endpoint
         else \<not> member_of member (dh_model (h_disc h))"
  shows "pending_deadline e i now h =
    Some (True, h\<lparr>h_conns := (h_conns h)[i := client_reply (admin_line act member accepted_text) ((h_conns h ! i)\<lparr>cn_pending := None\<rparr>)]\<rparr>)"
proof -
  have "\<not> fst (apply_change act member endpoint (dh_model (h_disc h)))"
    using assms(5) apply_change_refuses [OF assms(4)] by (simp split: if_splits)
  then obtain mo where "apply_change act member endpoint (dh_model (h_disc h)) = (False, mo)" using apply_change_refused by blast
  with assms(2,3) show ?thesis by (simp add: pending_deadline_def on_conn_def)
qed

section \<open>Suspicion\<close>

abbreviation suspects :: "('n, 'a) seq_host \<Rightarrow> bool" where
  "suspects h \<equiv> tt_timedout (h_timedout h)"

lemma steady_timedout: "steady h h' \<Longrightarrow> h_timedout h' = h_timedout h"
  by (simp add: steady_def)

lemma flushed_timedout: "flushed (flush_outputs fuel e now) h = Some h' \<Longrightarrow> h_timedout h' = h_timedout h"
  by (auto simp: flushed_def dest: steady_flushD [OF flush_steady] steady_timedout)

lemma on_node_timedout: "on_node f h = Some (rc, h') \<Longrightarrow> h_timedout h' = h_timedout h"
  by (auto simp: on_node_def)

lemma suspect_keeps: "suspects h \<Longrightarrow> suspects (suspect e now h)"
  by (simp add: suspect_def on_suspicion_def toggle_set_def)

lemma unit_draw_timedout: "unit_draw h = (u, h') \<Longrightarrow> h_timedout h' = h_timedout h"
  by (auto simp: unit_draw_def split: prod.splits)

lemma leader_timeout_step_keeps: "leader_timeout_step (flush_outputs fuel e) e now h = Some h' \<Longrightarrow> suspects h \<Longrightarrow> suspects h'"
  by (simp add: leader_timeout_step_def Let_def)

lemma leader_seen_keeps [simp]: "h_timedout (leader_seen st h) = h_timedout h"
  by (auto simp: leader_seen_def rearm_election_wait_def unit_draw_def split: prod.splits)

lemma heartbeat_op_keeps [simp]: "h_timedout (heartbeat_op e now h) = h_timedout h"
  by (simp add: heartbeat_op_def Let_def split: option.splits)

lemma heartbeat_turn_keeps: "heartbeat_turn (flush_outputs fuel e) e now h = Some h' \<Longrightarrow> h_timedout h' = h_timedout h"
  by (auto simp: heartbeat_turn_def bind_eq_Some_conv split: if_splits dest!: flushed_timedout on_node_timedout)

lemma arm_keeps [simp]: "h_timedout (arm_viewchange now h) = h_timedout h"
  by (auto simp: arm_viewchange_def unit_draw_def split: prod.splits)

lemma poll_keeps: "poll_turn (flush_outputs fuel e) e now st h = Some h' \<Longrightarrow> h_timedout h' = h_timedout h"
  by (auto simp: poll_turn_def Let_def bind_eq_Some_conv split: if_splits dest!: flushed_timedout on_node_timedout)

lemma election_keeps: "election_turn (flush_outputs fuel e) e now st h = Some h' \<Longrightarrow> suspects h \<Longrightarrow> suspects h'"
  by (auto simp: election_turn_def Let_def split: if_splits)

lemma recovery_keeps: "recovery_turn (flush_outputs fuel e) e now st h = Some h' \<Longrightarrow> h_timedout h' = h_timedout h"
  by (auto simp: recovery_turn_def bind_eq_Some_conv split: if_splits dest!: flushed_timedout on_node_timedout)

lemma broadcast_timedout [simp]: "h_timedout (broadcast kind payload h) = h_timedout h"
proof -
  have "h_timedout (fold (\<lambda>(i, a) h. if i = h_own_id h then h else send_to a (encode_peer kind (h_fingerprint h) payload) h) ps h) =
      h_timedout h" for ps
    by (induction ps arbitrary: h) (auto simp: send_to_def)
  then show ?thesis by (simp add: broadcast_def)
qed

lemma gossip_keeps [simp]: "h_timedout (gossip_turn e now st h) = h_timedout h"
  by (simp add: gossip_turn_def join_gossip_def)

lemma timers_keep:
  assumes "timers (flush_outputs fuel e) e now h = Some h'" and "suspects h"
  shows "suspects h'"
proof -
  let ?st = "h_status e h"
  obtain h1 h2 h3 h4 h5 where s: "heartbeat_turn (flush_outputs fuel e) e now (leader_seen ?st h) = Some h1"
      "leader_timeout_step (flush_outputs fuel e) e now (if ns_state ?st = STATE_VIEW_CHANGE then suspect e now h1 else h1) = Some h2"
      "poll_turn (flush_outputs fuel e) e now ?st h2 = Some h3" "election_turn (flush_outputs fuel e) e now ?st h3 = Some h4" "recovery_turn (flush_outputs fuel e) e now ?st h4 = Some h5"
      "h' = gossip_turn e now ?st h5"
    using assms(1) by (auto simp: timers_def Let_def bind_eq_Some_conv)
  have "suspects h1" using heartbeat_turn_keeps [OF s(1)] assms(2) by simp
  then have "suspects h2" using leader_timeout_step_keeps [OF s(2)] by (simp add: suspect_keeps)
  then have "suspects h3" using poll_keeps [OF s(3)] by simp
  then have "suspects h4" by (rule election_keeps [OF s(4)])
  then show ?thesis using recovery_keeps [OF s(5)] s(6) by simp
qed

lemma submit_get_steady:
  assumes "steady_flush fl" and "submit_get fl e now h = Some h'"
  shows "steady h h'"
proof -
  obtain g m h2 rc h3 json where g: "g = on_driver (\<lambda>d. d\<lparr>dr_request_num := dr_request_num d + 1\<rparr>) h"
    and "fresh_id g = (m, h2)" "request_node e json h2 = Some (rc, h3)" "route_op fl e now rc DriverGet json m h3 = Some h'"
    using assms(2) by (auto simp: submit_get_def Let_def bind_eq_Some_conv split: prod.splits)
  then have "steady g h2" "steady h2 h3" "steady h3 h'"
    using steady_fresh steady_request route_op_steady [OF assms(1)] by blast+
  moreover have "steady h g" by (simp add: g)
  ultimately show ?thesis using steady_trans by blast
qed

lemmas submit_timedout =
  submit_get_steady [OF flush_steady, THEN steady_timedout] submit_hold_steady [OF flush_steady, THEN steady_timedout]
  driver_complete_steady [OF flush_steady, THEN steady_timedout] embedded_reply_steady [OF flush_steady, THEN steady_timedout]

lemma driver_act_timedout: "driver_act (flush_outputs fuel e) e now h = Some h' \<Longrightarrow> h_timedout h' = h_timedout h"
  by (auto simp: driver_act_def submit_renew_def split: if_splits option.splits dest!: submit_timedout)

lemma below_timedout: "below b h = (x, h') \<Longrightarrow> h_timedout h' = h_timedout h"
  by (rule steady_timedout [OF steady_below])

lemma driver_step_timedout:
  assumes "driver_step (flush_outputs fuel e) e now h = Some h'"
  shows "h_timedout h' = h_timedout h"
proof (cases "dr_pending (h_driver h)")
  case None
  with assms show ?thesis by (auto simp: driver_step_def Let_def split: if_splits dest!: driver_act_timedout)
next
  case (Some p)
  obtain k h1 where c: "cluster_timeout e h = (k, h1)" by (cases "cluster_timeout e h")
  then have t: "h_timedout h1 = h_timedout h" using cluster_timeout_only_sends(2) [of e h] by simp
  obtain x h2 where b: "below 80 (drop_pending h1) = (x, h2)" by (cases "below 80 (drop_pending h1)")
  then have "h_timedout (act_at t h2) = h_timedout h" for t using t below_timedout [OF b] by (simp add: act_at_def drop_pending_def)
  with assms Some c b t show ?thesis by (auto simp: driver_step_def Let_def split: if_splits dest!: driver_act_timedout)
qed

lemma client_step_keeps:
  assumes k: "\<And>a w b w'. submit a w = Some (b, w') \<Longrightarrow> steady w w'" and "client_step jo ut submit m now d (cl, w) = Some (n, cl', w')"
  shows "steady w w'"
  using assms(2) submit_or_absorb_keeps [where submit = submit, OF k]
  by (auto simp: client_step_def Let_def bind_eq_Some_conv split: option.splits if_splits)

lemma step_clients_keep:
  assumes k: "\<And>a w b w'. submit a w = Some (b, w') \<Longrightarrow> steady w w'"
  shows "step_clients jo ut submit fresh now d i cls w = Some (n, cls', w') \<Longrightarrow> steady w w'"
proof (induction cls arbitrary: i w n cls')
  case (Cons cl cls)
  obtain j cl' w1 where c: "client_step jo ut submit (fresh i) now d (cl, w) = Some (j, cl', w1)"
    using Cons.prems by (cases "client_step jo ut submit (fresh i) now d (cl, w)") auto
  then obtain a cls1 where "step_clients jo ut submit fresh now d (Suc i) cls w1 = Some (a, cls1, w')"
    using Cons.prems by (cases "step_clients jo ut submit fresh now d (Suc i) cls w1") auto
  then have "steady w1 w'" by (rule Cons.IH)
  with client_step_keeps [where submit = submit, OF k c] show ?case by (rule steady_trans)
qed simp

lemma embedded_step_timedout:
  assumes "embedded_step (flush_outputs fuel e) e now h = Some h'"
  shows "h_timedout h' = h_timedout h"
proof (cases "h_embedded h")
  case None
  with assms show ?thesis by (simp add: embedded_step_def)
next
  case (Some r)
  let ?g = "h\<lparr>h_embedded := None, h_draws := h_draws h + length (ru_clients r)\<rparr>"
  obtain n r' h1 where t: "runner_tick (he_json e) (he_uuid e) (submit_embedded (flush_outputs fuel e now) e)
      (\<lambda>i. h_uuids h (h_draws h + i)) (h_latch h) now r ?g = Some (n, r', h1)"
    and h': "h' = (if n > 0 then snd (cluster_timeout e (h1\<lparr>h_embedded := Some r'\<rparr>)) else h1\<lparr>h_embedded := Some r'\<rparr>)"
    using assms Some by (auto simp: embedded_step_def bind_eq_Some_conv Let_def)
  have "steady ?g h1"
    using t step_clients_keep [OF submit_embedded_steady [OF flush_steady]] by (auto simp: runner_tick_def Let_def)
  then show ?thesis using h' by (simp add: steady_timedout)
qed

lemma on_conn_timedout [simp]: "h_timedout (on_conn i f h) = h_timedout h"
  by (simp add: on_conn_def)

lemma conn_writes_timedout [simp]: "h_timedout (reply_to i bs h) = h_timedout h" "h_timedout (wait_on i p h) = h_timedout h"
  by (simp_all add: reply_to_def wait_on_def)

lemma insert_peer_timedout [simp]: "h_timedout (insert_peer i a h) = h_timedout h"
  by (simp add: insert_peer_def Let_def)

lemma sends_timedout [simp]:
  "h_timedout (send_to a p h) = h_timedout h" "h_timedout (send_forward_request a m b h) = h_timedout h"
  "h_timedout (send_not_leader a m era vw h) = h_timedout h"
  by (simp_all add: send_to_def send_forward_request_def send_not_leader_def send_application_def)

lemma request_timedout: "request_node e b h = Some (rc, h') \<Longrightarrow> h_timedout h' = h_timedout h"
  by (rule steady_timedout [OF steady_request])

lemma lock_line_timedout:
  assumes "handle_lock_line (flush_outputs fuel e) e i line m now h = Some h'"
  shows "h_timedout h' = h_timedout h"
proof -
  obtain rc h1 where r: "request_node e line h = Some (rc, h1)"
    using assms by (cases "request_node e line h") (auto simp: handle_lock_line_def Let_def)
  obtain h2 where f: "flushed (flush_outputs fuel e now) h1 = Some h2"
    using assms r by (cases "flushed (flush_outputs fuel e now) h1") (auto simp: handle_lock_line_def Let_def)
  let ?leader = "ns_leader (h_status e h)"
  have "h_timedout h' = h_timedout h2"
    using assms r f
    by (cases "rc = NODE_OK"; cases "if rc = NOT_LEADER \<and> ?leader \<noteq> LEADER_UNKNOWN \<and> ?leader \<noteq> h_own_id h2 then peer_addr h2 ?leader else None")
      (auto simp only: handle_lock_line_def Let_def bind.simps if_True if_False option.case option.inject prod.case simp_thms
        conn_writes_timedout sends_timedout)
  then show ?thesis using flushed_timedout [OF f] request_timedout [OF r] by simp
qed

lemma admin_line_timedout:
  assumes "handle_admin_line (flush_outputs fuel e) e i act op member endpoint now h = Some h'"
  shows "h_timedout h' = h_timedout h"
proof (cases "ns_state (h_status e h) \<noteq> STATE_NORMAL \<or> ns_leader (h_status e h) \<noteq> h_own_id h")
  case True
  with assms show ?thesis by (simp add: handle_admin_line_def Let_def) (metis conn_writes_timedout(1))
next
  case False
  obtain rc h1 where r: "on_node (no_reconfigure (he_node e) op member POSITION_APPEND) h = Some (rc, h1)"
    using assms False by (cases "on_node (no_reconfigure (he_node e) op member POSITION_APPEND) h") (auto simp: handle_admin_line_def Let_def)
  obtain s h2 where f: "flush_outputs fuel e now h1 = Some (s, h2)"
    using assms False r by (cases "flush_outputs fuel e now h1") (auto simp: handle_admin_line_def Let_def)
  have "h_timedout h' = h_timedout h2"
    using assms False r f
    by (cases "rc = NODE_OK"; cases "if act = ''join'' then he_resolve e endpoint else None") (auto simp: handle_admin_line_def Let_def)
  then show ?thesis using steady_timedout [OF steady_flushD [OF flush_steady f]] on_node_timedout [OF r] by simp
qed

lemma client_line_timedout: "handle_client_line (flush_outputs fuel e) e i line now h = Some h' \<Longrightarrow> h_timedout h' = h_timedout h"
  by (auto simp: handle_client_line_def Let_def split: option.splits dest!: lock_line_timedout admin_line_timedout)

lemma client_lines_timedout: "client_lines k (flush_outputs fuel e) e i now h = Some (b, h') \<Longrightarrow> h_timedout h' = h_timedout h"
proof (induction k arbitrary: h)
  case (Suc k)
  obtain line c where p: "pop_line (h_conns h ! i) = (line, c)" by (cases "pop_line (h_conns h ! i)")
  show ?case
  proof (cases "cn_pending (h_conns h ! i) \<noteq> None \<or> line = None \<or> from_utf8 (the line) = None")
    case True
    with Suc.prems p show ?thesis by (cases line) (auto split: if_splits)
  next
    case False
    with Suc.prems p obtain l h1 where "handle_client_line (flush_outputs fuel e) e i l now (on_conn i (\<lambda>_. c) h) = Some h1" "client_lines k (flush_outputs fuel e) e i now h1 = Some (b, h')"
      by (cases line) (auto simp: bind_eq_Some_conv)
    then show ?thesis using Suc.IH client_line_timedout by (metis on_conn_timedout)
  qed
qed simp

subsection \<open>The rounds of a connection's lines\<close>

definition bufs :: "('n, 'a) seq_host \<Rightarrow> bytes list" where
  "bufs h = map cn_buf (h_conns h)"

lemma steady_bufs: "steady h h' \<Longrightarrow> bufs h' = bufs h"
  unfolding steady_def bufs_def list_all2_conv_all_nth
  by (intro nth_equalityI) (force simp: conn_moves_def client_reply_def)+

lemma flush_bufs: "flush_outputs fuel e now h = Some (s, h') \<Longrightarrow> bufs h' = bufs h"
  by (rule steady_bufs [OF steady_flushD [OF flush_steady]])

lemma flushed_bufs: "flushed (flush_outputs fuel e now) h = Some h' \<Longrightarrow> bufs h' = bufs h"
  by (auto simp: flushed_def dest: flush_bufs)

lemma on_conn_bufs: "(\<And>c. cn_buf (f c) = cn_buf c) \<Longrightarrow> bufs (on_conn i f h) = bufs h"
  by (cases "i < length (h_conns h)") (simp_all add: bufs_def on_conn_def map_update list_update_beyond, metis list_update_id nth_map)

lemma conn_writes_bufs [simp]: "bufs (reply_to i bs h) = bufs h" "bufs (wait_on i p h) = bufs h"
  by (simp_all add: reply_to_def wait_on_def on_conn_bufs client_reply_def)

lemma sends_bufs [simp]: "bufs (send_forward_request a m b h) = bufs h" "bufs (insert_peer j c h) = bufs h"
  by (simp_all add: bufs_def send_to_def send_forward_request_def send_application_def insert_peer_def Let_def)

lemma lock_line_bufs:
  assumes "handle_lock_line (flush_outputs fuel e) e i line m now h = Some h'"
  shows "bufs h' = bufs h"
proof -
  obtain rc h1 where r: "request_node e line h = Some (rc, h1)"
    using assms by (cases "request_node e line h") (auto simp: handle_lock_line_def Let_def)
  obtain h2 where f: "flushed (flush_outputs fuel e now) h1 = Some h2"
    using assms r by (cases "flushed (flush_outputs fuel e now) h1") (auto simp: handle_lock_line_def Let_def)
  let ?leader = "ns_leader (h_status e h)"
  have "bufs h' = bufs h2"
    using assms r f
    by (cases "rc = NODE_OK"; cases "if rc = NOT_LEADER \<and> ?leader \<noteq> LEADER_UNKNOWN \<and> ?leader \<noteq> h_own_id h2 then peer_addr h2 ?leader else None")
      (auto simp only: handle_lock_line_def Let_def bind.simps if_True if_False option.case option.inject prod.case simp_thms
        conn_writes_bufs sends_bufs)
  then show ?thesis using flushed_bufs [OF f] steady_bufs [OF steady_request [OF r]] by simp
qed

lemma admin_line_bufs:
  assumes "handle_admin_line (flush_outputs fuel e) e i act op member endpoint now h = Some h'"
  shows "bufs h' = bufs h"
proof (cases "ns_state (h_status e h) \<noteq> STATE_NORMAL \<or> ns_leader (h_status e h) \<noteq> h_own_id h")
  case True
  with assms show ?thesis by (simp add: handle_admin_line_def Let_def) (metis conn_writes_bufs(1))
next
  case False
  obtain rc h1 where r: "on_node (no_reconfigure (he_node e) op member POSITION_APPEND) h = Some (rc, h1)"
    using assms False by (cases "on_node (no_reconfigure (he_node e) op member POSITION_APPEND) h") (auto simp: handle_admin_line_def Let_def)
  obtain s h2 where f: "flush_outputs fuel e now h1 = Some (s, h2)"
    using assms False r by (cases "flush_outputs fuel e now h1") (auto simp: handle_admin_line_def Let_def)
  have "bufs h' = bufs h2"
    using assms False r f
    by (cases "rc = NODE_OK"; cases "if act = ''join'' then he_resolve e endpoint else None") (auto simp: handle_admin_line_def Let_def)
  moreover have "bufs h1 = bufs h" using r by (auto simp: on_node_def bufs_def)
  ultimately show ?thesis using flush_bufs [OF f] by simp
qed

lemma client_line_bufs: "handle_client_line (flush_outputs fuel e) e i line now h = Some h' \<Longrightarrow> bufs h' = bufs h"
  by (auto simp: handle_client_line_def Let_def split: option.splits dest!: lock_line_bufs admin_line_bufs)

lemma pop_line_shrinks: "pop_line c = (Some line, c') \<Longrightarrow> length (cn_buf c') < length (cn_buf c)"
proof -
  have "length (takeWhile P xs) \<le> length xs" for P :: "u8 \<Rightarrow> bool" and xs by (rule length_takeWhile_le)
  then show "pop_line c = (Some line, c') \<Longrightarrow> length (cn_buf c') < length (cn_buf c)"
    by (cases "cn_buf c") (auto simp: pop_line_def Let_def split: if_splits)
qed

text \<open>The rounds a connection is given are enough: more rounds give the same result.\<close>

lemma client_lines_enough:
  "i < length (h_conns h) \<Longrightarrow> length (cn_buf (h_conns h ! i)) < k \<Longrightarrow> length (cn_buf (h_conns h ! i)) < k' \<Longrightarrow>
   client_lines k (flush_outputs fuel e) e i now h = client_lines k' (flush_outputs fuel e) e i now h"
proof (induction k arbitrary: k' h)
  case (Suc k)
  then obtain j where j: "k' = Suc j" by (cases k') auto
  obtain l c where p: "pop_line (h_conns h ! i) = (l, c)" by (cases "pop_line (h_conns h ! i)")
  have step: "client_lines k (flush_outputs fuel e) e i now h1 = client_lines j (flush_outputs fuel e) e i now h1"
    if line: "l = Some line" and h1: "handle_client_line (flush_outputs fuel e) e i line now (on_conn i (\<lambda>_. c) h) = Some h1" for line h1
  proof -
    have b: "bufs h1 = (bufs h)[i := cn_buf c]" using client_line_bufs [OF h1] by (simp add: bufs_def on_conn_def map_update)
    then have n: "length (h_conns h1) = length (h_conns h)" by (metis bufs_def length_list_update length_map)
    with b Suc.prems(1) have "cn_buf (h_conns h1 ! i) = cn_buf c" by (metis bufs_def length_map nth_list_update_eq nth_map)
    with n Suc.prems j pop_line_shrinks [of "h_conns h ! i" line c] p line show ?thesis by (intro Suc.IH) auto
  qed
  show ?case
  proof (cases l)
    case None
    with p j show ?thesis by simp
  next
    case (Some line)
    then show ?thesis using p j step [OF Some] by (cases "handle_client_line (flush_outputs fuel e) e i line now (on_conn i (\<lambda>_. c) h)") simp_all
  qed
qed simp

lemma disseminate_timedout: "disseminate h = Some h' \<Longrightarrow> h_timedout h' = h_timedout h"
  by (auto simp: disseminate_def Let_def)

lemma deadline_timedout: "pending_deadline e i now h = Some (b, h') \<Longrightarrow> h_timedout h' = h_timedout h"
  by (auto simp: pending_deadline_def Let_def bind_eq_Some_conv split: option.splits tcp_pending.splits if_splits prod.splits bool.splits
      dest!: disseminate_timedout)

lemma serve_conn_timedout:
  assumes "serve_conn (flush_outputs fuel e) e now got i h = Some h'"
  shows "h_timedout h' = h_timedout h"
proof (cases "snd got")
  case False
  with assms show ?thesis by (auto simp: serve_conn_def Let_def)
next
  case True
  define h1 where "h1 = on_conn i (\<lambda>c. c\<lparr>cn_buf := cn_buf c @ fst got\<rparr>) h"
  obtain gone h2 where l: "client_lines (Suc (length (cn_buf (h_conns h1 ! i)))) (flush_outputs fuel e) e i now h1 = Some (gone, h2)"
    using assms True by (cases "client_lines (Suc (length (cn_buf (h_conns h1 ! i)))) (flush_outputs fuel e) e i now h1")
      (auto simp only: serve_conn_def Let_def h1_def [symmetric] bind.simps simp_thms if_False option.distinct)
  have t: "h_timedout h2 = h_timedout h" using client_lines_timedout [OF l] by (simp add: h1_def)
  show ?thesis
  proof (cases gone)
    case g: True
    with assms True l have "h' = h2\<lparr>h_conns := take i (h_conns h2) @ drop (Suc i) (h_conns h2)\<rparr>"
      by (simp only: serve_conn_def Let_def h1_def [symmetric] bind.simps simp_thms if_False if_True prod.case option.inject)
    then show ?thesis using t by simp
  next
    case g: False
    obtain b h3 where d: "pending_deadline e i now h2 = Some (b, h3)"
      using assms True l g by (cases "pending_deadline e i now h2")
        (auto simp only: serve_conn_def Let_def h1_def [symmetric] bind.simps simp_thms if_False prod.case option.distinct)
    with assms True l g have "h' = (if b then h3 else h3\<lparr>h_conns := take i (h_conns h3) @ drop (Suc i) (h_conns h3)\<rparr>)"
      by (simp only: serve_conn_def Let_def h1_def [symmetric] bind.simps simp_thms if_False prod.case option.inject)
    then show ?thesis using t deadline_timedout [OF d] by simp
  qed
qed

lemma serve_conns_timedout: "serve_conns (flush_outputs fuel e) e now reads k h = Some h' \<Longrightarrow> h_timedout h' = h_timedout h"
proof (induction k arbitrary: h)
  case (Suc k)
  then obtain h1 where "serve_conn (flush_outputs fuel e) e now (reads k) k h = Some h1" "serve_conns (flush_outputs fuel e) e now reads k h1 = Some h'"
    by (auto simp: bind_eq_Some_conv)
  then show ?case using Suc.IH [of h1] serve_conn_timedout [of fuel e now "reads k" k h h1] by simp
qed simp

lemma pump_tcp_timedout: "pump_tcp (flush_outputs fuel e) e now k reads h = Some h' \<Longrightarrow> h_timedout h' = h_timedout h"
  by (auto simp: pump_tcp_def Let_def drop_stale_def dest!: serve_conns_timedout)

lemma discovery_timedout [simp]: "h_timedout (discovery_step now h) = h_timedout h"
  by (simp add: discovery_step_def Let_def)

definition leader_commit :: "('n, 'a, 'j) host_env \<Rightarrow> u32 \<Rightarrow> bytes \<Rightarrow> ('n, 'a) seq_host \<Rightarrow> bool" where
  "leader_commit e replica packet h \<longleftrightarrow>
     (\<exists>payload x. decode_peer packet = Some (PEER_VRR, h_fingerprint h, payload) \<and> vrr_header_of payload = Some x \<and>
        vh_tag x = COMMIT_TAG \<and> ns_leader (h_status e h) = replica)"

definition sender_row :: "('n, 'a, 'j) host_env \<Rightarrow> 'a \<Rightarrow> ('n, 'a) seq_host \<Rightarrow> ('n, 'a) seq_host" where
  "sender_row e addr h = (if dh_addr_to_id (h_disc h) addr = None then snd (learn_member_row e addr h) else h)"

lemma sender_row_keeps [simp]:
  "h_timedout (sender_row e addr h) = h_timedout h" "h_node (sender_row e addr h) = h_node h" "h_fingerprint (sender_row e addr h) = h_fingerprint h"
  by (simp_all add: sender_row_def learn_member_row_def insert_peer_def Let_def split: option.split)

lemma pump_udp_Cons:
  "pump_udp (flush_outputs fuel e) e now ((addr, packet) # rest) h =
     Option.bind (case dh_addr_to_id (h_disc (sender_row e addr h)) addr of
                    None \<Rightarrow> Some (sender_row e addr h)
                  | Some i \<Rightarrow> handle_packet (flush_outputs fuel e) e i addr packet now (sender_row e addr h)) (pump_udp (flush_outputs fuel e) e now rest)"
  unfolding pump_udp.simps Let_def sender_row_def [symmetric] by (rule refl)

lemma vrr_lifts:
  assumes "handle_vrr (flush_outputs fuel e) e replica addr payload now h = Some h'" and "suspects h" and "\<not> suspects h'"
  shows "\<exists>x. vrr_header_of payload = Some x \<and> vh_tag x = COMMIT_TAG \<and> ns_leader (h_status e h) = replica"
proof (rule ccontr)
  assume no: "\<not> ?thesis"
  define h1 where "h1 = (case vrr_header_of payload of
      None \<Rightarrow> h
    | Some x \<Rightarrow> (case he_tag e (vh_tag x) of
         None \<Rightarrow> h
       | Some t \<Rightarrow> h\<lparr>h_relay := answered replica (vh_era x) (vh_view x) (vh_slot x) t (h_relay h)\<rparr>))"
  have s: "h_status e h1 = h_status e h" "h_timedout h1 = h_timedout h" by (auto simp: h1_def split: option.splits)
  have c: "on_leader_commit e replica (vrr_header_of payload) now h1 = h1"
    using no s by (auto simp: on_leader_commit_def split: option.split)
  obtain i h3 where r: "remap e replica addr payload h1 = (i, h3)" by (cases "remap e replica addr payload h1")
  then have t: "h_timedout h3 = h_timedout h" using s(2) by (auto simp: remap_def split: option.splits prod.splits if_splits)
  define h4 where "h4 = (if ns_leader (h_status e h3) = i then h3\<lparr>h_leader_elapsed := 0\<rparr> else h3)"
  obtain rc h5 where "on_node (no_receive (he_node e) i payload) h4 = Some (rc, h5)" "flushed (flush_outputs fuel e now) h5 = Some h'"
    using assms(1) unfolding handle_vrr_def Let_def h1_def [symmetric] c r prod.case h4_def [symmetric]
    by (auto simp: bind_eq_Some_conv)
  then have "h_timedout h' = h_timedout h4" using flushed_timedout on_node_timedout by metis
  then show False using assms(2,3) t by (simp add: h4_def split: if_splits)
qed

lemma forward_request_timedout: "handle_forward_request (flush_outputs fuel e) e addr m json now h = Some h' \<Longrightarrow> h_timedout h' = h_timedout h"
  by (auto simp: handle_forward_request_def Let_def bind_eq_Some_conv split: if_splits dest!: flushed_timedout request_timedout)

lemma deliver_timedout [simp]: "h_timedout (deliver_reply m bs h) = h_timedout h"
  by (rule steady_timedout [OF deliver_steady])

lemma forward_response_timedout: "handle_forward_response (flush_outputs fuel e) e m bs now h = Some h' \<Longrightarrow> h_timedout h' = h_timedout h"
  by (auto simp: handle_forward_response_def bind_eq_Some_conv drop_pending_def split: option.splits dest!: submit_timedout)

lemma embedded_not_leader_timedout: "embedded_not_leader e now m h = Some (b, h') \<Longrightarrow> h_timedout h' = h_timedout h"
  by (cases "h_embedded h") (auto simp: embedded_not_leader_def fresh_id_def bind_eq_Some_conv)

lemma not_leader_timedout:
  assumes "handle_forward_not_leader e m now h = Some h'"
  shows "h_timedout h' = h_timedout h"
proof (cases "driver_waits m h")
  case None
  obtain b h1 where d: "embedded_not_leader e now m h = Some (b, h1)"
    using assms None by (cases "embedded_not_leader e now m h") (auto simp: handle_forward_not_leader_def)
  then have "h_timedout h' = h_timedout h1"
    using assms None by (cases b; cases "answer_conn m (error_line ''not_leader'') (h_conns h1)") (auto simp: handle_forward_not_leader_def)
  then show ?thesis using embedded_not_leader_timedout [OF d] by simp
next
  case (Some op)
  obtain x h1 where b: "below 80 (drop_pending h) = (x, h1)" by (cases "below 80 (drop_pending h)")
  with assms Some have "h' = act_at (now + x + 20) h1" by (simp add: handle_forward_not_leader_def)
  then show ?thesis using below_timedout [OF b] by (simp add: act_at_def drop_pending_def)
qed

lemma dispatch_timedout: "dispatch_application (flush_outputs fuel e) e addr k len m rest now h = Some h' \<Longrightarrow> h_timedout h' = h_timedout h"
  by (auto simp: dispatch_application_def split: if_splits dest: forward_request_timedout forward_response_timedout not_leader_timedout)

lemma handle_application_timedout: "handle_application (flush_outputs fuel e) e addr payload now h = Some h' \<Longrightarrow> h_timedout h' = h_timedout h"
  unfolding handle_application_def by (cases payload) (simp_all only: list.case option.inject dispatch_timedout)

lemma application_timedout:
  assumes "handle_packet (flush_outputs fuel e) e replica addr packet now h = Some h'" and "decode_peer packet = Some (kind, h_fingerprint h, payload)"
    and "kind \<noteq> PEER_VRR"
  shows "h_timedout h' = h_timedout h"
proof (cases "kind = PEER_SNAPSHOT")
  case True
  with assms show ?thesis
    by (cases "handle_snapshot_packet (he_resolve e) addr payload (h_disc h)") (auto simp: handle_packet_def split: option.splits)
next
  case False
  with assms have "handle_application (flush_outputs fuel e) e addr payload now h = Some h'" by (simp add: handle_packet_def)
  then show ?thesis by (rule handle_application_timedout)
qed

lemma packet_lifts:
  assumes "handle_packet (flush_outputs fuel e) e replica addr packet now h = Some h'" and "suspects h" and "\<not> suspects h'"
  shows "leader_commit e replica packet h"
proof -
  obtain kind fp payload where d: "decode_peer packet = Some (kind, fp, payload)"
    using assms by (cases "decode_peer packet") (auto simp: handle_packet_def)
  have fp: "fp = h_fingerprint h" using assms d by (cases "fp = h_fingerprint h") (auto simp: handle_packet_def)
  have k: "kind = PEER_VRR"
  proof (rule ccontr)
    assume "kind \<noteq> PEER_VRR"
    then have "h_timedout h' = h_timedout h" using application_timedout [OF assms(1)] d fp by simp
    then show False using assms(2,3) by simp
  qed
  have "handle_vrr (flush_outputs fuel e) e replica addr payload now h = Some h'"
    using assms(1) d fp k by (simp add: handle_packet_def PEER_VRR_def PEER_SNAPSHOT_def)
  from vrr_lifts [OF this assms(2,3)] d fp k show ?thesis by (auto simp: leader_commit_def)
qed

lemma pump_lifts:
  "pump_udp (flush_outputs fuel e) e now ds h = Some h' \<Longrightarrow> suspects h \<Longrightarrow> \<not> suspects h' \<Longrightarrow>
   \<exists>k h0 i. k < length ds \<and> pump_udp (flush_outputs fuel e) e now (take k ds) h = Some h0 \<and>
     dh_addr_to_id (h_disc (sender_row e (fst (ds ! k)) h0)) (fst (ds ! k)) = Some i \<and> leader_commit e i (snd (ds ! k)) h0"
proof (induction ds arbitrary: h)
  case (Cons d ds)
  obtain addr packet where d: "d = (addr, packet)" by (cases d)
  let ?r = "sender_row e addr h"
  obtain h1 where h1: "(case dh_addr_to_id (h_disc ?r) addr of None \<Rightarrow> Some ?r | Some i \<Rightarrow> handle_packet (flush_outputs fuel e) e i addr packet now ?r) = Some h1"
    and p: "pump_udp (flush_outputs fuel e) e now ds h1 = Some h'"
    using Cons.prems(1) unfolding d pump_udp_Cons bind_eq_Some_conv by blast
  show ?case
  proof (cases "suspects h1")
    case True
    from Cons.IH [OF p True Cons.prems(3)] obtain k h0 i where k: "k < length ds" "pump_udp (flush_outputs fuel e) e now (take k ds) h1 = Some h0"
      "dh_addr_to_id (h_disc (sender_row e (fst (ds ! k)) h0)) (fst (ds ! k)) = Some i" "leader_commit e i (snd (ds ! k)) h0" by blast
    have "pump_udp (flush_outputs fuel e) e now (take (Suc k) (d # ds)) h = Some h0"
      using h1 k(2) unfolding d take_Suc_Cons pump_udp_Cons by simp
    with k show ?thesis by (intro exI [of _ "Suc k"] exI [of _ h0] exI [of _ i]) simp
  next
    case False
    then obtain i where i: "dh_addr_to_id (h_disc ?r) addr = Some i" "handle_packet (flush_outputs fuel e) e i addr packet now ?r = Some h1"
      using h1 Cons.prems(2) by (cases "dh_addr_to_id (h_disc ?r) addr") auto
    have "leader_commit e i packet ?r" by (rule packet_lifts [OF i(2)]) (use Cons.prems(2) False in simp_all)
    with i(1) show ?thesis unfolding d by (intro exI [of _ 0] exI [of _ h] exI [of _ i]) (simp add: leader_commit_def)
  qed
qed simp

lemma turn_lifts:
  assumes "host_turn (flush_outputs fuel e) e t h = Some h'" and "suspects h" and "\<not> suspects h'"
  shows "\<exists>k h0 i. k < length (ti_datagrams t) \<and>
    pump_udp (flush_outputs fuel e) e (ti_now t) (take k (ti_datagrams t)) (h\<lparr>h_latch := ti_latch t\<rparr>) = Some h0 \<and>
    dh_addr_to_id (h_disc (sender_row e (fst (ti_datagrams t ! k)) h0)) (fst (ti_datagrams t ! k)) = Some i \<and>
    leader_commit e i (snd (ti_datagrams t ! k)) h0"
proof -
  let ?now = "ti_now t"
  obtain h1 h2 h3 h4 h5 where s: "pump_udp (flush_outputs fuel e) e ?now (ti_datagrams t) (h\<lparr>h_latch := ti_latch t\<rparr>) = Some h1"
      "pump_tcp (flush_outputs fuel e) e ?now (ti_accepted t) (ti_reads t) h1 = Some h2" "timers (flush_outputs fuel e) e ?now h2 = Some h3"
      "driver_step (flush_outputs fuel e) e ?now (discovery_step ?now h3) = Some h4" "embedded_step (flush_outputs fuel e) e ?now h4 = Some h5" "flushed (flush_outputs fuel e ?now) h5 = Some h'"
    using assms(1) unfolding host_turn_def Let_def bind_eq_Some_conv by blast
  have "\<not> suspects h3" using assms(3) flushed_timedout [OF s(6)] embedded_step_timedout [OF s(5)] driver_step_timedout [OF s(4)] by simp
  then have "\<not> suspects h1" using timers_keep [OF s(3)] pump_tcp_timedout [OF s(2)] by auto
  with pump_lifts [OF s(1)] assms(2) show ?thesis by simp
qed

section \<open>Concrete hosts\<close>

text \<open>A node that stays in its status, and stand-ins for what lies outside the host.\<close>

definition still_node :: "node_status \<Rightarrow> unit node_ops" where
  "still_node st =
     \<lparr>no_status = (\<lambda>_. st), no_weight = (\<lambda>_. Some 1), no_next_output = (\<lambda>n. Some (None, n)), no_request = (\<lambda>_ n. Some (NODE_OK, n)),
      no_receive = (\<lambda>_ _ n. Some (NODE_OK, n)), no_idle = (\<lambda>n. Some (NODE_OK, n)), no_leader_timeout = (\<lambda>n. Some (NODE_OK, n)),
      no_force_view = (\<lambda>_ _ n. Some (NODE_OK, n)), no_recover = (\<lambda>n. Some (NODE_OK, n)), no_reconfigure = (\<lambda>_ _ _ n. Some (NODE_OK, n))\<rparr>"

definition text_json :: "string json_ops" where
  "text_json =
     \<lparr>jo_parse = (\<lambda>_. Some []), jo_render = (\<lambda>_. []), jo_null = [], jo_num = (\<lambda>_. []), jo_str = (\<lambda>s. s), jo_obj = (\<lambda>_. []),
      jo_get = (\<lambda>k _. if k = ''message_id'' then Some (replicate 31 (CHR ''0'') @ ''9'') else None),
      jo_as_str = (\<lambda>v. if v = [] then None else Some v), jo_as_bool = (\<lambda>_. None), jo_as_u64 = (\<lambda>_. None), jo_is_object = (\<lambda>_. False)\<rparr>"

definition demo_env :: "'n node_ops \<Rightarrow> ('n, nat, string) host_env" where
  "demo_env ops =
     \<lparr>he_node = ops, he_json = text_json, he_uuid = \<lparr>ut_parse = (\<lambda>_. None), ut_show = (\<lambda>_. [])\<rparr>, he_resolve = (\<lambda>_. None),
      he_tag = (\<lambda>_. None), he_matcher = (\<lambda>_. Retransmit), he_gossip = (\<lambda>_ _. []), he_lawful = (\<lambda>_. False), he_next_life = (\<lambda>_. None)\<rparr>"

definition demo_seq :: "'n \<Rightarrow> conn list \<Rightarrow> ('n, nat) seq_host" where
  "demo_seq n cs =
     \<lparr>h_node = n,
      h_disc = \<lparr>dh_model = \<lparr>mo_era = 1, mo_slot = 0, mo_members = []\<rparr>, dh_active = False, dh_era = 1, dh_slot = 0, dh_tallies = Map.empty,
        dh_peers = [(2, 20)], dh_addr_to_id = [20 \<mapsto> 2], dh_sidecar = []\<rparr>,
      h_disc_deadline = 0, h_disc_next_request = 0, h_fingerprint = ''0000000000000000'', h_own_id = 1, h_heartbeat_ms = 1000,
      h_recovery_ms = 1000, h_stagger_ms = 0, h_last_heartbeat = 0, h_leader_elapsed = 0, h_last_recovery = 0, h_last_gossip = 0,
      h_last_seen_leader = 2, h_reincarnated = False,
      h_driver = \<lparr>dr_client_id = 1, dr_request_num = 0, dr_holder = 0, dr_lease_id = 0, dr_held_expiry = None, dr_last_get_foreign = False,
        dr_next_action_at = 1000, dr_pending = None\<rparr>,
      h_forwarded = Map.empty, h_late_acks = 0, h_conns = cs, h_last_leader_commit = 0, h_frontier_slot = 0, h_relay = ledger_new,
      h_detected_key = None, h_timedout = \<lparr>tt_timedout = True, tt_last_toggle_ms = None\<rparr>,
      h_viewchange = \<lparr>vt_min_ms = 100, vt_max_ms = 100, vt_deadline_ms = 0, vt_armed = False\<rparr>, h_leader_timeout = leader_watch_new 100 100,
      h_election_wait = 100, h_embedded = None, h_latch = False, h_rng = 1, h_uuids = (\<lambda>_. 0), h_draws = 0, h_sent = []\<rparr>"

definition follower_status :: node_status where
  "follower_status = \<lparr>ns_state = 0, ns_leader = 2, ns_era = 2, ns_view = 0, ns_config_era = 1, ns_poisoned = False, ns_fault_note = None\<rparr>"

abbreviation quiet_conn :: conn where "quiet_conn \<equiv> \<lparr>cn_buf = [], cn_pending = None, cn_written = []\<rparr>"

theorem reply_reaches_first_waiter_witness:
  "\<exists>h'. take_output (flush_outputs 1 (demo_env (still_node follower_status)) 10) (demo_env (still_node follower_status)) 10
      \<lparr>qd_kind = OUTPUT_REPLY, qd_to = 0, qd_era = 0, qd_view = 0, qd_slot = 0, qd_message_id = 9, qd_bytes = [7]\<rparr>
      (demo_seq () [quiet_conn, quiet_conn\<lparr>cn_pending := Some (LockWait 9 50)\<rparr>]) = Some (0, h') \<and>
    h_conns h' = [quiet_conn, quiet_conn\<lparr>cn_written := [7, 0x0A]\<rparr>]"
  using reply_reaches_first_waiter [of "\<lparr>qd_kind = OUTPUT_REPLY, qd_to = 0, qd_era = 0, qd_view = 0, qd_slot = 0, qd_message_id = 9, qd_bytes = [7]\<rparr>"
      "demo_seq () [quiet_conn, quiet_conn\<lparr>cn_pending := Some (LockWait 9 50)\<rparr>]" 1 1 "demo_env (still_node follower_status)" 10]
  by (auto simp: unclaimed_def driver_waits_def demo_seq_def waits_for_def client_reply_def simp del: flush_outputs.simps)

lemma nine_bytes: "uuid_bytes (replicate 31 (CHR ''0'') @ ''9'') = Some (replicate 15 0 @ [9])"
proof -
  have "hex_value (CHR ''0'') = Some 0" "hex_value (CHR ''9'') = Some 9" "is_ascii_hexdigit (CHR ''0'')" "is_ascii_hexdigit (CHR ''9'')"
    by code_simp+
  then show ?thesis by (simp add: uuid_bytes_def Let_def numeral_eq_Suc upt_rec nth_append)
qed

theorem retried_request_never_answered_witness:
  "\<exists>h'. handle_client_line (flush_outputs 2 (demo_env (lock_node demo_host))) (demo_env (lock_node demo_host)) 0 [1] 10 (demo_seq ((demo_node True)\<lparr>n_replies := [9 \<mapsto> [9]]\<rparr>) [quiet_conn]) = Some h' \<and>
     h_conns h' = [quiet_conn\<lparr>cn_pending := Some (LockWait 9 30010)\<rparr>] \<and> h_late_acks h' = 1 \<and> h_sent h' = []"
proof -
  let ?h = "demo_seq ((demo_node True)\<lparr>n_replies := [9 \<mapsto> [9]]\<rparr>) [quiet_conn]"
  let ?e = "demo_env (lock_node demo_host)"
  have j: "he_node ?e = lock_node demo_host" "jo_parse (he_json ?e) [1] = Some []" "jo_as_str (he_json ?e) (jo_index (he_json ?e) [] ''action'') = None"
      "Option.bind (jo_as_str (he_json ?e) (jo_index (he_json ?e) [] ''message_id'')) uuid_bytes = Some (replicate 15 0 @ [9])"
    by (simp_all add: demo_env_def text_json_def jo_index_def nine_bytes)
  have "replicate 15 0 @ [9] = [0, 0, 0, 0, 0, 0, 0, 0, 0, 0, 0, 0, 0, 0, 0, 9 :: u8]" by (simp add: eval_nat_numeral)
  then have m: "(9 :: uuid) = be_word (replicate 15 0 @ [9])" by (simp add: be_word_def be_val_def)
  have d: "decode (ho_parse demo_host) [1] = Inr (ReqSet 9 7 1 5 \<lparr>cand_lease_id = 0, cand_holder = 21, cand_lease_ms = 100\<rparr>
      (Some ''/db'') None (Some 10))"
    by (simp add: demo_host_def demo_decode)
  have n: "n_replies (h_node ?h) 9 = Some [9]" "\<not> n_stopped (h_node ?h)" "n_outputs (h_node ?h) = []" "unclaimed 9 ?h"
      "\<forall>c \<in> set (h_conns ?h). \<not> waits_for 9 c" "0 < length (h_conns ?h)"
    by (simp_all add: demo_seq_def demo_node_def unclaimed_def driver_waits_def waits_for_def)
  have "length [1 :: u8] \<le> MAX_DATAGRAM" by (simp add: MAX_DATAGRAM_def)
  from retried_request_never_answered [OF j m d _ this n, where fuel = 0 and now = 10]
  show ?thesis by (auto simp: demo_seq_def numeral_2_eq_2 simp del: flush_outputs.simps)
qed

theorem refused_change_is_acknowledged_witness:
  "\<exists>h'. pending_deadline (demo_env (still_node follower_status)) 0 10
      (demo_seq () [quiet_conn\<lparr>cn_pending := Some (AdminWait ''join'' 5 [] 1 7 99)\<rparr>]) = Some (True, h') \<and>
    h_disc h' = h_disc (demo_seq () []) \<and> h_conns h' = [client_reply (admin_line ''join'' 5 accepted_text) quiet_conn] \<and>
    pending_deadline (demo_env (still_node follower_status)) 0 10
      (demo_seq () [quiet_conn\<lparr>cn_pending := Some (AdminWait ''leave'' 5 [] 1 7 99)\<rparr>]) =
      Some (True, demo_seq () [client_reply (admin_line ''leave'' 5 accepted_text) quiet_conn])"
proof -
  let ?e = "demo_env (still_node follower_status)"
  let ?h = "\<lambda>act. demo_seq () [quiet_conn\<lparr>cn_pending := Some (AdminWait act 5 [] 1 7 99)\<rparr>]"
  have "pending_deadline ?e 0 10 (?h ''join'') = Some (True, demo_seq () [client_reply (admin_line ''join'' 5 accepted_text) quiet_conn])"
    using refused_change_is_acknowledged [of 0 "?h ''join''" "''join''" 5 "[]" 1 7 99 ?e RECONFIGURE_JOIN 10]
    by (simp add: demo_seq_def demo_env_def still_node_def follower_status_def valid_endpoint_def rsplit_once_def admin_op_def)
  moreover have "pending_deadline ?e 0 10 (?h ''leave'') = Some (True, demo_seq () [client_reply (admin_line ''leave'' 5 accepted_text) quiet_conn])"
    using refused_change_is_acknowledged [of 0 "?h ''leave''" "''leave''" 5 "[]" 1 7 99 ?e RECONFIGURE_LEAVE 10]
    by (simp add: demo_seq_def demo_env_def still_node_def follower_status_def member_of_def admin_op_def)
  ultimately show ?thesis by (simp add: demo_seq_def)
qed

end
