(* ===== verification/Sequencer_Fuel.thy ===== *)
theory Sequencer_Fuel
  imports Sequencer_Props
begin

text \<open>
  The fuel of the host's flush is enough. A flush may submit a request and flush again, but only a reply to a pending read makes it
  submit, and what it submits is no read: the pending reads, and among equals the queued outputs, come down with every
  output taken. So a turn of the host over the node has a fuel with which the flush never stops for want of
  fuel, and a result without a value is a panic or an operation of the node that does not return.
\<close>

section \<open>What does not depend on the end of the fuel\<close>

text \<open>The flush that goes on as \<open>rest\<close> when its fuel is used up.\<close>

fun flush_with :: "('n, 'a) timed_flush \<Rightarrow> nat \<Rightarrow> ('n, 'a, 'j) host_env \<Rightarrow> ('n, 'a) timed_flush" where
  "flush_with rest 0 e now h = rest now h"
| "flush_with rest (Suc fuel) e now h = do {
     (out, n) \<leftarrow> no_next_output (he_node e) (h_node h);
     (case out of
        None \<Rightarrow> Some (0, h\<lparr>h_node := n\<rparr>)
      | Some q \<Rightarrow> do {
          (slot, h1) \<leftarrow> take_output (flush_with rest fuel e now) e now q (h\<lparr>h_node := n\<rparr>);
          (frontier, h2) \<leftarrow> flush_with rest fuel e now h1;
          Some (max slot frontier, h2)
        })
   }"

lemma flush_with_none: "flush_with (\<lambda>_ _. None) fuel e = flush_outputs fuel e"
proof (induction fuel)
  case 0
  show ?case by (intro ext) simp
next
  case (Suc fuel)
  show ?case unfolding fun_eq_iff flush_with.simps flush_outputs.simps Suc by simp
qed

definition sure :: "('n, 'a, 'j) host_env \<Rightarrow> (('n, 'a) timed_flush \<Rightarrow> 'b) \<Rightarrow> bool" where
  "sure e f \<longleftrightarrow> (\<exists>N. \<forall>fuel \<ge> N. \<forall>rest. f (flush_with rest fuel e) = f (flush_outputs N e))"

lemma sureI: "(\<And>fuel rest. N \<le> fuel \<Longrightarrow> f (flush_with rest fuel e) = v) \<Longrightarrow> sure e f"
  unfolding sure_def by (metis flush_with_none order_refl)

lemma sureE:
  assumes "sure e f"
  obtains N v where "\<And>fuel rest. N \<le> fuel \<Longrightarrow> f (flush_with rest fuel e) = v" "f (flush_outputs N e) = v"
  using assms unfolding sure_def by blast

lemma sure_const [simp, intro!]: "sure e (\<lambda>_. v)"
  by (rule sureI) simp

lemma sure_map:
  assumes "sure e f"
  shows "sure e (\<lambda>fl. map_option k (f fl))"
proof -
  obtain N v where "\<And>fuel rest. N \<le> fuel \<Longrightarrow> f (flush_with rest fuel e) = v" using assms by (rule sureE) blast
  then show ?thesis by (intro sureI [of N _ _ "map_option k v"]) simp
qed

lemma sure_bind:
  assumes "sure e f" and "\<And>fuel x. f (flush_outputs fuel e) = Some x \<Longrightarrow> sure e (\<lambda>fl. g fl x)"
  shows "sure e (\<lambda>fl. Option.bind (f fl) (g fl))"
proof -
  obtain N v where f: "\<And>fuel rest. N \<le> fuel \<Longrightarrow> f (flush_with rest fuel e) = v" "f (flush_outputs N e) = v"
    using assms(1) by (rule sureE) blast
  show ?thesis
  proof (cases v)
    case None
    with f show ?thesis by (intro sureI [of N _ _ None]) simp
  next
    case (Some x)
    with assms(2) f(2) have "sure e (\<lambda>fl. g fl x)" by blast
    then obtain M w where "\<And>fuel rest. M \<le> fuel \<Longrightarrow> g (flush_with rest fuel e) x = w" by (rule sureE) blast
    with f(1) Some show ?thesis by (intro sureI [of "max N M" _ _ w]) simp
  qed
qed

lemma sure_if: "(c \<Longrightarrow> sure e f) \<Longrightarrow> (\<not> c \<Longrightarrow> sure e g) \<Longrightarrow> sure e (\<lambda>fl. if c then f fl else g fl)"
  by (cases c) simp_all

lemma sure_option: "(x = None \<Longrightarrow> sure e f) \<Longrightarrow> (\<And>y. x = Some y \<Longrightarrow> sure e (\<lambda>fl. g fl y)) \<Longrightarrow>
    sure e (\<lambda>fl. case x of None \<Rightarrow> f fl | Some y \<Rightarrow> g fl y)"
  by (cases x) simp_all

lemma sure_prod: "(\<And>a b. x = (a, b) \<Longrightarrow> sure e (\<lambda>fl. g fl a b)) \<Longrightarrow> sure e (\<lambda>fl. case x of (a, b) \<Rightarrow> g fl a b)"
  by (cases x) simp

lemma sure_list: "(x = [] \<Longrightarrow> sure e f) \<Longrightarrow> (\<And>y ys. x = y # ys \<Longrightarrow> sure e (\<lambda>fl. g fl y ys)) \<Longrightarrow>
    sure e (\<lambda>fl. case x of [] \<Rightarrow> f fl | y # ys \<Rightarrow> g fl y ys)"
  by (cases x) simp_all

lemma sure_let: "sure e (\<lambda>fl. g fl v) \<Longrightarrow> sure e (\<lambda>fl. let x = v in g fl x)"
  by simp

lemmas sure_rules = sure_let sure_if sure_option sure_prod sure_bind

section \<open>Pending reads\<close>

definition driver_gets :: "driver \<Rightarrow> nat" where
  "driver_gets d = (case dr_pending d of None \<Rightarrow> 0 | Some p \<Rightarrow> if dp_op p = DriverGet then 1 else 0)"

definition client_gets :: "lease_client \<Rightarrow> bool" where
  "client_gets cl \<longleftrightarrow> (case lc_pending cl of None \<Rightarrow> False | Some p \<Rightarrow> ac_op (pa_action p) = ''get'')"

definition runner_gets :: "runner option \<Rightarrow> nat" where
  "runner_gets x = (case x of None \<Rightarrow> 0 | Some r \<Rightarrow> length (filter client_gets (ru_clients r)))"

definition gets :: "('n, 'a) seq_host \<Rightarrow> nat" where
  "gets h = driver_gets (h_driver h) + runner_gets (h_embedded h)"

text \<open>An operation that takes \<open>h\<close> to \<open>h'\<close> adds no read, and gives no runner where there is none.\<close>

definition eases :: "('n, 'a) seq_host \<Rightarrow> ('n, 'a) seq_host \<Rightarrow> bool" where
  "eases h h' \<longleftrightarrow> gets h' \<le> gets h \<and> (h_embedded h = None \<longrightarrow> h_embedded h' = None)"

lemma eases_refl [simp]: "eases h h" and eases_trans: "eases a b \<Longrightarrow> eases b c \<Longrightarrow> eases a c"
  by (auto simp: eases_def)

definition fewer :: "('n, 'a) flush \<Rightarrow> bool" where
  "fewer fl \<longleftrightarrow> (\<forall>h s h'. fl h = Some (s, h') \<longrightarrow> eases h h')"

lemma fewerD: "fewer fl \<Longrightarrow> fl h = Some (s, h') \<Longrightarrow> eases h h'"
  by (simp add: fewer_def)

text \<open>The driver and the runner, and how an operation may change them without a new read.\<close>

definition calm :: "('n, 'a) seq_host \<Rightarrow> ('n, 'a) seq_host \<Rightarrow> bool" where
  "calm h h' \<longleftrightarrow> dr_pending (h_driver h') = dr_pending (h_driver h) \<and> h_embedded h' = h_embedded h"

lemma calm_gets: "calm h h' \<Longrightarrow> gets h' = gets h"
  by (simp add: calm_def gets_def driver_gets_def)

lemma calm_trans: "calm a b \<Longrightarrow> calm b c \<Longrightarrow> calm a c"
  by (simp add: calm_def)

lemma calm_below: "below b h = (x, h') \<Longrightarrow> calm h h' \<and> h_node h' = h_node h"
  by (auto simp: below_def calm_def split: prod.splits)

lemma calm_fresh: "fresh_id h = (u, h') \<Longrightarrow> calm h h' \<and> h_node h' = h_node h"
  by (auto simp: fresh_id_def calm_def)

lemma calm_request: "request_node e b h = Some (rc, h') \<Longrightarrow> calm h h'"
  by (auto simp: request_node_def calm_def)

lemma calm_sends: "calm h (send_to a p h)" "calm h (send_forward_request a m b h)" "calm h (send_forward_response a m b h)"
  by (simp_all add: calm_def send_to_def send_forward_request_def send_forward_response_def send_application_def)

lemma calm_act_at: "calm h (act_at t h)" "h_node (act_at t h) = h_node h"
  by (simp_all add: calm_def act_at_def)

lemma calm_foreign: "calm h (foreign_until t h) \<and> h_node (foreign_until t h) = h_node h"
proof -
  obtain x h1 where b: "below (POLL_JITTER_MS + 1) (on_driver (\<lambda>d. d\<lparr>dr_last_get_foreign := True\<rparr>) h) = (x, h1)" by (meson surj_pair)
  with calm_below [OF b] show ?thesis by (simp add: foreign_until_def calm_def act_at_def)
qed

lemma calm_again: "below b h = (x, h1) \<Longrightarrow> calm h (act_at t h1) \<and> h_node (act_at t h1) = h_node h"
  using calm_below [of b h x h1] by (simp add: calm_def act_at_def)

section \<open>The driver\<close>

lemma with_pending_gets: "op \<noteq> DriverGet \<Longrightarrow> gets (with_pending m op now h) \<le> gets h"
  by (simp add: gets_def with_pending_def driver_gets_def)

lemma with_pending_embedded [simp]: "h_embedded (with_pending m op now h) = h_embedded h"
  by (simp add: with_pending_def)

lemma calm_eases: "calm h h' \<Longrightarrow> eases h h'"
  by (simp add: eases_def calm_gets) (simp add: calm_def)

lemma route_op_eases:
  assumes "fewer fl" and "op \<noteq> DriverGet" and r: "route_op fl e now rc op json m h = Some h'"
  shows "eases h h'"
proof (cases "rc = NODE_OK")
  case True
  with r have "h' = with_pending m op now h" by (simp add: route_op_def)
  with assms(2) show ?thesis by (simp add: eases_def with_pending_gets)
next
  case False
  then obtain s h1 where f: "fl h = Some (s, h1)" using r by (cases "fl h") (auto simp: route_op_def)
  have "eases h1 h'"
  proof (cases "if rc = NOT_LEADER then other_leader e h1 else None")
    case None
    obtain x h2 where b: "below 100 h1 = (x, h2)" by (cases "below 100 h1")
    with r False f None have "h' = act_at (now + x + 50) h2" by (simp add: route_op_def)
    then show ?thesis using calm_again [OF b] calm_eases by blast
  next
    case (Some a)
    with r False f have h': "h' = with_pending m op now (send_forward_request a m json h1)" by (simp add: route_op_def)
    have "eases h1 (send_forward_request a m json h1)" by (rule calm_eases [OF calm_sends(2)])
    moreover have "eases g (with_pending m op now g)" for g :: "('a, 'b) seq_host" using with_pending_gets [OF assms(2)] by (simp add: eases_def)
    ultimately show ?thesis unfolding h' using eases_trans by blast
  qed
  with fewerD [OF assms(1) f] show ?thesis by (rule eases_trans)
qed

lemma submit_hold_eases:
  assumes "fewer fl" and "op \<noteq> DriverGet" and "submit_hold fl e now op h = Some h'"
  shows "eases h h'"
proof -
  obtain g m h2 rc h3 json where g: "g = on_driver (\<lambda>d. d\<lparr>dr_request_num := dr_request_num d + 1, dr_lease_id := dr_lease_id d + 1\<rparr>) h"
    and f: "fresh_id g = (m, h2)" and q: "request_node e json h2 = Some (rc, h3)" and r: "route_op fl e now rc op json m h3 = Some h'"
    using assms(3) by (auto simp: submit_hold_def Let_def bind_eq_Some_conv split: prod.splits)
  have "calm h g" by (simp add: g calm_def)
  then have "calm h h3" using calm_fresh [OF f] calm_request [OF q] calm_trans by blast
  then show ?thesis using route_op_eases [OF assms(1,2) r] calm_eases eases_trans by blast
qed

lemma drop_pending_gets: "driver_waits m h = Some op \<Longrightarrow> gets h = gets (drop_pending h) + (if op = DriverGet then 1 else 0)"
  by (auto simp: driver_waits_def gets_def drop_pending_def driver_gets_def split: option.splits if_splits)

lemma complete_hold_calm:
  assumes "complete_hold e now reply h = Some h'"
  shows "calm h h' \<and> h_node h' = h_node h"
proof (cases "jo_as_bool (he_json e) (jo_index (he_json e) reply ''granted'') = Some True")
  case True
  with assms show ?thesis by (auto simp: complete_hold_def Let_def calm_def)
next
  case False
  define h1 where "h1 = on_driver (\<lambda>d. d\<lparr>dr_held_expiry := None\<rparr>) h"
  obtain x h2 where b: "below 100 h1 = (x, h2)" by (cases "below 100 h1")
  note again = calm_again [OF b, of "now + x + 50"]
  have h1: "calm h h1" "h_node h1 = h_node h" by (simp_all add: h1_def calm_def)
  have "\<exists>t. h' = act_at (now + x + 50) h2 \<or> h' = foreign_until t h1"
    using assms False b by (auto simp: complete_hold_def Let_def h1_def bind_eq_Some_conv split: if_splits)
  then show ?thesis using h1 again calm_foreign [of h1] calm_trans [OF h1(1)] by auto
qed

lemma complete_get_eases:
  assumes "fewer fl" and "complete_get fl e now reply h = Some h'"
  shows "eases h h'"
proof (cases "jo_is_object (he_json e) (jo_index (he_json e) reply ''lease'')")
  case True
  then obtain t where "h' = on_driver (\<lambda>d. d\<lparr>dr_held_expiry := Some t, dr_last_get_foreign := False\<rparr>) h \<or> h' = foreign_until t h"
    using assms(2) by (auto simp: complete_get_def Let_def bind_eq_Some_conv split: if_splits)
  then have "calm h h'" using calm_foreign by (auto simp: calm_def)
  then show ?thesis by (rule calm_eases)
next
  case False
  let ?g = "on_driver (\<lambda>d. d\<lparr>dr_last_get_foreign := False\<rparr>) h"
  obtain op where "op \<noteq> DriverGet" "submit_hold fl e now op ?g = Some h'"
    using assms(2) False by (cases "dr_last_get_foreign (h_driver h)") (auto simp: complete_get_def Let_def)
  then have "eases ?g h'" by (rule submit_hold_eases [OF assms(1)])
  moreover have "eases h ?g" by (rule calm_eases) (simp add: calm_def)
  ultimately show ?thesis using eases_trans by blast
qed

lemma driver_complete_eases:
  assumes "fewer fl" and "driver_complete fl e now op bs h = Some h'"
  shows "eases h h' \<and> (op \<noteq> DriverGet \<longrightarrow> h_node h' = h_node h)"
proof (cases "jo_parse (he_json e) bs")
  case None
  obtain x h1 where b: "below 100 h = (x, h1)" by (cases "below 100 h")
  with None assms(2) have "h' = act_at (now + x + 20) h1" by (simp add: driver_complete_def)
  then show ?thesis using calm_again [OF b] calm_eases by blast
next
  case (Some reply)
  with assms(2) have "if op = DriverGet then complete_get fl e now reply h = Some h' else complete_hold e now reply h = Some h'"
    by (simp add: driver_complete_def split: if_splits)
  then show ?thesis
    using complete_get_eases [OF assms(1), of e now reply h h'] complete_hold_calm [of e now reply h h'] calm_eases [of h h']
    by (simp split: if_splits)
qed

section \<open>The embedded clients\<close>

lemma contender_follows:
  assumes "contender_absorb jo ut m now a reply c = Some (Some b, c')"
  shows "ac_op a = ''get'' \<and> ac_op b \<noteq> ''get''"
  using assms
  by (auto simp: contender_absorb_def Let_def build_set_def split: option.splits if_splits prod.splits)

lemma update_filter:
  "i < length xs \<Longrightarrow> \<not> P y \<Longrightarrow> length (filter P (xs[i := y])) + (if P (xs ! i) then 1 else 0) = length (filter P xs)"
proof (induction xs arbitrary: i)
  case (Cons x xs)
  then show ?case by (cases i) auto
qed simp

lemma waiting_at_pending: "waiting_at m cls = Some (i, p) \<Longrightarrow> i < length cls \<and> lc_pending (cls ! i) = Some p"
proof (induction cls arbitrary: i)
  case (Cons cl cls)
  then show ?case by (auto split: option.splits if_splits)
qed simp

lemma submit_embedded_eases:
  assumes "fewer fl" and r: "submit_embedded fl e a h = Some (b, h')"
  shows "eases h h'"
proof -
  obtain rc h1 where q: "request_node e (str_bytes (ac_request a)) h = Some (rc, h1)"
    using r by (cases "request_node e (str_bytes (ac_request a)) h") (auto simp: submit_embedded_def)
  have "eases h1 h'"
  proof (cases "rc = NODE_OK")
    case True
    with r q show ?thesis by (simp add: submit_embedded_def)
  next
    case False
    then obtain s h2 where f: "fl h1 = Some (s, h2)" using r q by (cases "fl h1") (auto simp: submit_embedded_def)
    have "eases h2 h'"
      using r q False f calm_eases [OF calm_sends(2)]
      by (cases "if rc = NOT_LEADER then other_leader e h2 else None") (auto simp: submit_embedded_def)
    with fewerD [OF assms(1) f] show ?thesis by (rule eases_trans)
  qed
  with calm_eases [OF calm_request [OF q]] show ?thesis by (rule eases_trans)
qed

text \<open>A completed action leaves no read behind; where it submits, it was a read itself.\<close>

lemma client_complete_eases:
  assumes s: "\<And>a w b w'. submit a w = Some (b, w') \<Longrightarrow> eases w w'"
    and "client_complete jo ut submit m now d p reply (cl, w) = Some (cl', w')" and "lc_pending cl = None"
  shows "\<not> client_gets cl' \<and> eases w w' \<and> (ac_op (pa_action p) \<noteq> ''get'' \<longrightarrow> w' = w)"
proof -
  obtain follow c where c: "contender_absorb jo ut m now (pa_action p) reply (lc_contender cl) = Some (follow, c)"
    using assms(2) by (auto simp: client_complete_def bind_eq_Some_conv)
  show ?thesis
  proof (cases follow)
    case None
    with c assms(2,3) show ?thesis by (auto simp: client_complete_def client_gets_def)
  next
    case (Some a)
    note f = contender_follows [OF c [unfolded Some]]
    obtain taken where t: "submit a w = Some (taken, w')" "cl' = cl\<lparr>lc_contender := c, lc_pending := Some \<lparr>pa_action = a, pa_deadline = now + d\<rparr>\<rparr> \<or> (\<exists>c'. cl' = cl\<lparr>lc_contender := c'\<rparr>)"
      using assms(2) c Some by (auto simp: client_complete_def submit_or_absorb_def bind_eq_Some_conv split: if_splits)
    with f assms(3) have "\<not> client_gets cl'" by (auto simp: client_gets_def)
    with s [OF t(1)] f show ?thesis by blast
  qed
qed

lemma gets_taken: "gets (h\<lparr>h_embedded := x\<rparr>) = driver_gets (h_driver h) + runner_gets x"
  by (simp add: gets_def)

lemma embedded_reply_eases:
  assumes "fewer fl" and r: "embedded_reply fl e now m bs h = Some (b, h')"
  shows "eases h h' \<and> (gets h' < gets h \<or> h_node h' = h_node h)"
proof (cases "h_embedded h")
  case None
  with r show ?thesis by (simp add: embedded_reply_def)
next
  case (Some rn)
  obtain u h1 where f: "fresh_id h = (u, h1)" by (cases "fresh_id h")
  note fr = calm_fresh [OF f]
  let ?w = "h1\<lparr>h_embedded := None\<rparr>"
  obtain r' w where a: "runner_absorb (he_json e) (he_uuid e) (submit_embedded fl e) u now m bs rn ?w = Some (b, r', w)"
    and h': "h' = w\<lparr>h_embedded := Some r'\<rparr>"
    using r Some f by (auto simp: embedded_reply_def bind_eq_Some_conv)
  have dr: "driver_gets (h_driver h1) = driver_gets (h_driver h)" using fr by (simp add: calm_def driver_gets_def)
  show ?thesis
  proof (cases "waiting_at m (ru_clients rn)")
    case None
    with a have "w = ?w" "r' = rn" by (simp_all add: runner_absorb_def)
    with fr Some dr show ?thesis by (simp add: h' eases_def gets_def)
  next
    case w: (Some x)
    obtain i p where x: "x = (i, p)" by (cases x)
    note wp = waiting_at_pending [OF w [unfolded x]]
    obtain cl where cl: "client_complete (he_json e) (he_uuid e) (submit_embedded fl e) u now (ru_deadline_ms rn) p (jo_parse (he_json e) bs)
        ((ru_clients rn ! i)\<lparr>lc_pending := None\<rparr>, ?w) = Some (cl, w)" "r' = rn\<lparr>ru_clients := (ru_clients rn)[i := cl]\<rparr>"
      using a w x by (auto simp: runner_absorb_def)
    have c: "\<not> client_gets cl" "eases ?w w" "ac_op (pa_action p) \<noteq> ''get'' \<longrightarrow> w = ?w"
      using client_complete_eases [where submit = "submit_embedded fl e", OF _ cl(1)] submit_embedded_eases [OF assms(1)] by (simp_all, blast+)
    have n: "runner_gets (Some r') + (if client_gets (ru_clients rn ! i) then 1 else 0) = runner_gets (Some rn)"
      using update_filter [of i "ru_clients rn" client_gets cl] wp c(1) by (simp add: runner_gets_def cl(2))
    have "gets w \<le> driver_gets (h_driver h)" "h_embedded w = None" using c(2) dr by (simp_all add: eases_def gets_taken runner_gets_def)
    then have "driver_gets (h_driver w) \<le> driver_gets (h_driver h)" by (simp add: gets_def runner_gets_def)
    then have g: "gets h' + (if client_gets (ru_clients rn ! i) then 1 else 0) \<le> gets h" using n Some by (simp add: h' gets_def)
    show ?thesis
    proof (cases "client_gets (ru_clients rn ! i)")
      case True
      with g Some show ?thesis by (simp add: eases_def)
    next
      case False
      with wp have "ac_op (pa_action p) \<noteq> ''get''" by (simp add: client_gets_def)
      with c(3) fr have "h_node h' = h_node h" by (simp add: h')
      with g Some show ?thesis by (simp add: eases_def split: if_splits)
    qed
  qed
qed

section \<open>The flush\<close>

lemma deliver_calm: "calm h (deliver_reply m bs h)" "h_node (deliver_reply m bs h) = h_node h"
  by (simp_all add: deliver_reply_def calm_def split: option.split)

lemma output_send_calm:
  assumes "output_send e now q h = Some h'"
  shows "calm h h' \<and> h_node h' = h_node h"
  using assms by (auto simp: output_send_def Let_def calm_def send_to_def split: option.splits if_splits)

lemma output_reply_eases:
  assumes "fewer fl" and r: "output_reply fl e now m bs h = Some h'"
  shows "eases h h' \<and> (gets h' < gets h \<or> h_node h' = h_node h)"
proof (cases "h_forwarded h m")
  case (Some p)
  obtain dest d where "p = (dest, d)" by (cases p)
  with r Some have h': "h' = send_forward_response dest m bs (h\<lparr>h_forwarded := (h_forwarded h)(m := None)\<rparr>)" by (simp add: output_reply_def)
  have "calm h h' \<and> h_node h' = h_node h" by (simp add: h' calm_def send_forward_response_def send_application_def send_to_def)
  then show ?thesis using calm_eases by blast
next
  case none: None
  show ?thesis
  proof (cases "driver_waits m h")
    case None
    with r none obtain b h1 where a: "embedded_reply fl e now m bs h = Some (b, h1)" and h': "h' = (if b then h1 else deliver_reply m bs h1)"
      by (auto simp: output_reply_def bind_eq_Some_conv)
    have d: "gets h' = gets h1" "h_node h' = h_node h1" "h_embedded h' = h_embedded h1"
      using deliver_calm [where h = h1 and m = m and bs = bs] calm_gets [OF deliver_calm(1) [of h1 m bs]] by (simp_all add: h' calm_def)
    with embedded_reply_eases [OF assms(1) a] show ?thesis by (simp add: eases_def)
  next
    case (Some op)
    with r none have c: "driver_complete fl e now op bs (drop_pending h) = Some h'" by (simp add: output_reply_def)
    have "h_embedded (drop_pending h) = h_embedded h" "h_node (drop_pending h) = h_node h" by (simp_all add: drop_pending_def)
    with driver_complete_eases [OF assms(1) c] drop_pending_gets [OF Some] show ?thesis by (auto simp: eases_def split: if_splits)
  qed
qed

lemma take_output_eases:
  assumes "fewer fl" and "take_output fl e now q h = Some (s, h')"
  shows "eases h h' \<and> (gets h' < gets h \<or> h_node h' = h_node h)"
  using assms(2) output_reply_eases [OF assms(1), of e now "qd_message_id q" "qd_bytes q" h h'] output_send_calm [of e now q h h']
    calm_eases [of h h']
  by (auto simp: take_output_def split: if_splits)

lemma flush_fewer: "fewer (flush_outputs fuel e now)"
proof (induction fuel)
  case 0
  then show ?case by (simp add: fewer_def)
next
  case (Suc fuel)
  have n: "eases h (h\<lparr>h_node := n\<rparr>)" for h :: "('a, 'b) seq_host" and n by (rule calm_eases) (simp add: calm_def)
  have "eases h h'" if "flush_outputs (Suc fuel) e now h = Some (s, h')" for h s h'
    using that
  proof (cases rule: flush_step)
    case (1 n)
    then show ?thesis using n by simp
  next
    case (2 q n a h1 b)
    have "eases (h\<lparr>h_node := n\<rparr>) h1" using take_output_eases [OF Suc 2(2)] by blast
    then show ?thesis using fewerD [OF Suc 2(3)] n [of h n] eases_trans by blast
  qed
  then show ?case unfolding fewer_def by blast
qed

section \<open>Operations that flush\<close>

lemma route_op_sure:
  assumes "rc \<noteq> NODE_OK \<Longrightarrow> sure e (\<lambda>fl. fl now h)"
  shows "sure e (\<lambda>fl. route_op (fl now) e' now rc op json m h)"
  unfolding route_op_def by (intro sure_rules assms sure_const)

lemma submit_hold_sure:
  assumes "\<And>h3. calm h h3 \<Longrightarrow> sure e (\<lambda>fl. fl now h3)"
  shows "sure e (\<lambda>fl. submit_hold (fl now) e' now op h)"
  unfolding submit_hold_def
proof (intro sure_rules route_op_sure sure_const assms, goal_cases)
  case (1 m h2 _ x rc h3)
  then have "calm (on_driver (\<lambda>d. d\<lparr>dr_request_num := dr_request_num d + 1, dr_lease_id := dr_lease_id d + 1\<rparr>) h) h3"
    using calm_fresh calm_request calm_trans by blast
  then show ?case by (simp add: calm_def)
qed

lemma driver_complete_sure:
  assumes "\<And>h3. op = DriverGet \<Longrightarrow> calm h h3 \<Longrightarrow> sure e (\<lambda>fl. fl now h3)"
  shows "sure e (\<lambda>fl. driver_complete (fl now) e' now op bs h)"
  unfolding driver_complete_def complete_get_def
  by (intro sure_rules submit_hold_sure sure_const assms) (simp_all add: calm_def)

lemma submit_embedded_sure:
  assumes "\<And>h3. calm h h3 \<Longrightarrow> sure e (\<lambda>fl. fl now h3)"
  shows "sure e (\<lambda>fl. submit_embedded (fl now) e' a h)"
  unfolding submit_embedded_def by (intro sure_rules sure_const assms calm_request) auto

lemma submit_or_absorb_sure:
  assumes "sure e (\<lambda>fl. submit fl a w)"
  shows "sure e (\<lambda>fl. submit_or_absorb jo ut (submit fl) m now d a (cl, w))"
  unfolding submit_or_absorb_def prod.case by (intro sure_rules sure_const assms)

lemma client_complete_sure:
  assumes "\<And>a. ac_op (pa_action p) = ''get'' \<Longrightarrow> sure e (\<lambda>fl. submit fl a w)"
  shows "sure e (\<lambda>fl. client_complete jo ut (submit fl) m now d p reply (cl, w))"
  unfolding client_complete_def prod.case
proof (intro sure_rules submit_or_absorb_sure sure_const assms, goal_cases)
  case (1 _ x follow c a)
  then show ?case using contender_follows by blast
qed

lemma runner_absorb_sure:
  assumes "runner_gets (Some r) > 0 \<Longrightarrow> (\<And>a. sure e (\<lambda>fl. submit fl a w))"
  shows "sure e (\<lambda>fl. runner_absorb jo ut (submit fl) u now m bs r w)"
  unfolding runner_absorb_def
proof (intro sure_rules sure_map client_complete_sure sure_const assms, goal_cases)
  case (1 x i p a)
  then have "ru_clients r ! i \<in> set (ru_clients r)" "client_gets (ru_clients r ! i)"
    using waiting_at_pending [of m "ru_clients r" i p] by (simp_all add: client_gets_def)
  then show ?case by (auto simp: runner_gets_def filter_empty_conv)
qed

lemma embedded_reply_sure:
  assumes "\<And>h3. gets h3 < gets h \<Longrightarrow> sure e (\<lambda>fl. fl now h3)"
  shows "sure e (\<lambda>fl. embedded_reply (fl now) e' now m bs h)"
  unfolding embedded_reply_def
proof (intro sure_rules runner_absorb_sure submit_embedded_sure sure_const assms, goal_cases)
  case (1 r u h1 a h3)
  have "gets h3 = driver_gets (h_driver h1)" using calm_gets [OF 1(4)] by (simp add: gets_def runner_gets_def)
  moreover have "driver_gets (h_driver h1) = driver_gets (h_driver h)" using calm_fresh [OF 1(2)] by (simp add: calm_def driver_gets_def)
  ultimately show ?case using 1(1,3) by (simp add: gets_def)
qed

lemma take_output_sure:
  assumes "\<And>h3. gets h3 < gets h \<Longrightarrow> sure e (\<lambda>fl. fl now h3)"
  shows "sure e (\<lambda>fl. take_output (fl now) e' now q h)"
  unfolding take_output_def output_reply_def
proof (intro sure_rules sure_map driver_complete_sure embedded_reply_sure sure_const assms, goal_cases)
  case (2 op h3)
  then show ?case using drop_pending_gets [of "qd_message_id q" h op] calm_gets [of "drop_pending h" h3] by simp
qed simp

section \<open>Enough fuel\<close>

lemma sure_unfold:
  assumes "sure e (\<lambda>fl. Option.bind (no_next_output (he_node e) (h_node h)) (\<lambda>(out, n).
      case out of
        None \<Rightarrow> Some (0, h\<lparr>h_node := n\<rparr>)
      | Some q \<Rightarrow> Option.bind (take_output (fl now) e now q (h\<lparr>h_node := n\<rparr>)) (\<lambda>(slot, h1).
          Option.bind (fl now h1) (\<lambda>(frontier, h2). Some (max slot frontier, h2)))))" (is "sure e ?body")
  shows "sure e (\<lambda>fl. fl now h)"
proof -
  obtain N v where f: "\<And>fuel rest. N \<le> fuel \<Longrightarrow> ?body (flush_with rest fuel e) = v" using assms by (rule sureE) blast
  have "flush_with rest fuel e now h = v" if "Suc N \<le> fuel" for fuel rest
  proof -
    obtain k where "fuel = Suc k" "N \<le> k" using \<open>Suc N \<le> fuel\<close> by (cases fuel) simp_all
    with f [of k rest] show ?thesis by simp
  qed
  then show ?thesis by (rule sureI)
qed

text \<open>
  The node's outputs as the host uses them: there is a bound on how many are queued, which every output taken lowers.
\<close>

locale output_queue =
  fixes e :: "('n, 'a, 'j) host_env" and queued :: "'n \<Rightarrow> nat"
  assumes taken: "no_next_output (he_node e) n = Some (Some q, n') \<Longrightarrow> queued n' < queued n"
begin

lemma flush_sure: "sure e (\<lambda>fl. fl now h)"
proof (induction h rule: wf_induct_rule [OF wf_measures, of "[gets, \<lambda>h. queued (h_node h)]"])
  case (1 h)
  have ih: "sure e (\<lambda>fl. fl now y)" if "gets y < gets h \<or> gets y = gets h \<and> queued (h_node y) < queued (h_node h)" for y
    using 1 [of y] that by simp
  show ?case
  proof (rule sure_unfold, intro sure_rules sure_const take_output_sure, goal_cases)
    case (1 _ x out n q h3)
    then show ?case by (intro ih) (simp add: gets_def)
  next
    case (2 _ x out n q fuel y slot h1)
    then have "gets h1 \<le> gets h" "gets h1 < gets h \<or> h_node h1 = n"
      using take_output_eases [OF flush_fewer, of fuel e now e now q "h\<lparr>h_node := n\<rparr>" slot h1] by (auto simp: eases_def gets_def)
    moreover have "queued n < queued (h_node h)" using 2 taken by blast
    ultimately show ?case by (intro ih) (auto simp: le_less)
  qed
qed

lemma flushed_sure: "sure e (\<lambda>fl. flushed (fl now) h)"
  unfolding flushed_def by (rule sure_map [OF flush_sure])

lemma submit_get_sure: "sure e (\<lambda>fl. submit_get (fl now) e now h)"
  unfolding submit_get_def by (intro sure_rules route_op_sure sure_const flush_sure)

lemmas flush_rules = sure_rules sure_map sure_const flushed_sure flush_sure submit_get_sure
  submit_hold_sure [OF flush_sure] driver_complete_sure [OF flush_sure] submit_embedded_sure [OF flush_sure] embedded_reply_sure [OF flush_sure]

lemma detect_leader_sure: "sure e (\<lambda>fl. detect_leader fl e now h)"
  unfolding detect_leader_def by (intro flush_rules)

lemma timers_sure: "sure e (\<lambda>fl. timers fl e now h)"
  unfolding timers_def heartbeat_turn_def leader_timeout_step_def poll_turn_def election_turn_def recovery_turn_def
  by (intro flush_rules detect_leader_sure)

lemma driver_act_sure: "sure e (\<lambda>fl. driver_act fl e now h)"
  unfolding driver_act_def submit_renew_def by (intro flush_rules)

lemma driver_step_sure: "sure e (\<lambda>fl. driver_step fl e now h)"
  unfolding driver_step_def by (intro flush_rules driver_act_sure)

lemma client_step_sure: "sure e (\<lambda>fl. client_step jo ut (submit_embedded (fl now) e) m t d (cl, w))"
  unfolding client_step_def prod.case Let_def by (intro flush_rules submit_or_absorb_sure)

lemma step_clients_sure: "sure e (\<lambda>fl. step_clients jo ut (submit_embedded (fl now) e) fresh t d i cls w)"
proof (induction cls arbitrary: i w)
  case (Cons cl cls)
  then show ?case unfolding step_clients.simps by (intro flush_rules client_step_sure)
qed simp

lemma embedded_step_sure: "sure e (\<lambda>fl. embedded_step fl e now h)"
  unfolding embedded_step_def runner_tick_def by (intro flush_rules step_clients_sure)

lemma handle_packet_sure: "sure e (\<lambda>fl. handle_packet fl e i addr packet now h)"
  unfolding handle_packet_def handle_vrr_def handle_application_def dispatch_application_def handle_forward_request_def
    handle_forward_response_def
  by (intro flush_rules sure_list)

lemma pump_udp_sure: "sure e (\<lambda>fl. pump_udp fl e now ds h)"
proof (induction ds arbitrary: h)
  case (Cons d ds)
  then show ?case by (cases d) (simp only: pump_udp.simps, intro flush_rules handle_packet_sure)
qed simp

lemma client_line_sure: "sure e (\<lambda>fl. handle_client_line fl e i line now h)"
  unfolding handle_client_line_def handle_lock_line_def handle_admin_line_def by (intro flush_rules)

lemma client_lines_sure: "sure e (\<lambda>fl. client_lines k fl e i now h)"
proof (induction k arbitrary: h)
  case (Suc k)
  then show ?case unfolding client_lines.simps by (intro flush_rules client_line_sure)
qed simp

lemma serve_conns_sure: "sure e (\<lambda>fl. serve_conns fl e now reads k h)"
proof (induction k arbitrary: h)
  case (Suc k)
  then show ?case unfolding serve_conns.simps serve_conn_def by (intro flush_rules client_lines_sure)
qed simp

lemma host_turn_sure: "sure e (\<lambda>fl. host_turn fl e t h)"
  unfolding host_turn_def pump_tcp_def
  by (intro flush_rules pump_udp_sure serve_conns_sure timers_sure driver_step_sure embedded_step_sure)

end

text \<open>The lock node's queue is a list, of which each output taken is the head.\<close>

interpretation lock_outputs: output_queue "e\<lparr>he_node := lock_node ho\<rparr>" "\<lambda>n. length (n_outputs n)" for e ho
  by unfold_locales (auto simp: lock_node_def returning_def next_output_def Let_def split: list.splits if_splits)

section \<open>Suspicion\<close>

text \<open>
  C38: a suspicion of the leader is lifted only by a commit of the leader. A turn of the loop of a host over the lock node, with its packets, its
  clients' lines, its timers, the driver and the embedded clients, has a fuel from which on its result is settled: with that much or more no
  flush runs out, whatever would go on in its place, and a turn without a result is a panic or an operation of the node that does not return.
  Where the turn ends without the suspicion it began with, one of
  its datagrams is a commit under the host's own fingerprint, and its sender is the replica that the node names as the leader when the
  datagram is handled. So the host of a node that leads itself keeps its suspicion unless its own commits come back to it.
\<close>

theorem suspicion_lifted_by_leader_commit:
  assumes "he_node e = lock_node ho"
  shows "\<exists>N. (\<forall>fuel \<ge> N. \<forall>rest. host_turn (flush_with rest fuel e) e t h = host_turn (flush_outputs N e) e t h) \<and>
    (\<forall>h'. host_turn (flush_outputs N e) e t h = Some h' \<and> suspects h \<and> \<not> suspects h' \<longrightarrow>
      (\<exists>k h0 i. k < length (ti_datagrams t) \<and>
        pump_udp (flush_outputs N e) e (ti_now t) (take k (ti_datagrams t)) (h\<lparr>h_latch := ti_latch t\<rparr>) = Some h0 \<and>
        dh_addr_to_id (h_disc (sender_row e (fst (ti_datagrams t ! k)) h0)) (fst (ti_datagrams t ! k)) = Some i \<and>
        leader_commit e i (snd (ti_datagrams t ! k)) h0))"
proof -
  have "e\<lparr>he_node := lock_node ho\<rparr> = e" using assms by simp
  then have "sure e (\<lambda>fl. host_turn fl e t h)" using lock_outputs.host_turn_sure [where e = e and ho = ho and t = t and h = h] by simp
  then obtain N where "\<forall>fuel \<ge> N. \<forall>rest. host_turn (flush_with rest fuel e) e t h = host_turn (flush_outputs N e) e t h"
    unfolding sure_def by blast
  then show ?thesis using turn_lifts [of N e t h] by (intro exI [of _ N]) blast
qed

section \<open>A concrete turn\<close>

definition commit_payload :: bytes where "commit_payload = [0, 0, 0, 4] @ replicate 16 0"

definition commit_turn :: "nat turn_input" where
  "commit_turn = \<lparr>ti_now = 10, ti_datagrams = [(20, encode_peer PEER_VRR ''0000000000000000'' commit_payload)], ti_accepted = 0,
     ti_reads = (\<lambda>_. ([], True)), ti_latch = False\<rparr>"

lemma commit_decoded: "decode_peer (encode_peer PEER_VRR ''0000000000000000'' commit_payload) = Some (PEER_VRR, ''0000000000000000'', commit_payload)"
proof -
  have "is_ascii_hexdigit (CHR ''0'')" by code_simp
  then show ?thesis by (simp add: peer_framing_exact framed_def)
qed

lemma commit_header: "\<exists>x. vrr_header_of commit_payload = Some x \<and> vh_tag x = COMMIT_TAG"
  by (simp add: vrr_header_of_def commit_payload_def slice_def be_word_def be_val_def COMMIT_TAG_def)

text \<open>A follower of node 2, which drops what it cannot unpack.\<close>

definition follower_host ::
  "(u64 \<times> bool, (operation_id \<times> bytes) option, unit, unit, unit, core_snap, unit, unit, path \<Rightarrow> (u32 \<times> zig_marker) option) host" where
  "follower_host = demo_host\<lparr>ho_replica := demo_replica\<lparr>rp_record := (\<lambda>_ _. Some (\<lambda>_. Some 2)), rp_config_era := (\<lambda>_. 1)\<rparr>\<rparr>"

definition follower_node :: "(u64 \<times> bool, core_snap, unit, unit, path \<Rightarrow> (u32 \<times> zig_marker) option) node" where
  "follower_node = (demo_node False)\<lparr>n_known_ids := [1, 2]\<rparr>"

abbreviation follower_env where "follower_env \<equiv> demo_env (lock_node follower_host)"

lemma follower_status: "status (ho_replica follower_host) follower_node = follower_status"
  by (simp add: status_def follower_host_def demo_host_def demo_replica_def follower_node_def demo_node_def follower_status_def Let_def
      primary_index_def leader_for_def)

lemma lock_status: "no_status (he_node follower_env) follower_node = follower_status"
  by (simp add: demo_env_def lock_node_def follower_status)

lemma lock_flushed: "h_node h = follower_node \<Longrightarrow> flushed (flush_outputs (Suc k) follower_env now) h = Some h"
  by (simp add: flushed_def demo_env_def lock_node_def returning_def next_output_def follower_node_def demo_node_def)

lemma lock_received:
  "h_node h = follower_node \<Longrightarrow> on_node (no_receive (he_node follower_env) 2 commit_payload) h = Some (VRR_MESSAGE, h)"
  by (simp add: on_node_def demo_env_def lock_node_def returning_def receive_def follower_node_def demo_node_def follower_host_def
      demo_host_def demo_replica_def known_peer_def commit_payload_def MAX_DATAGRAM_def)

lemma demo_env_tag: "he_tag (demo_env ops) t = None"
  by (simp add: demo_env_def)

lemma demo_lifted:
  "\<exists>h1. pump_udp (flush_outputs (Suc k) follower_env) follower_env 10 (ti_datagrams commit_turn) (demo_seq follower_node []) = Some h1 \<and>
     \<not> suspects h1 \<and> h_node h1 = follower_node \<and>
     h_conns h1 = [] \<and> h_embedded h1 = None \<and> \<not> dh_active (h_disc h1) \<and> h_last_heartbeat h1 = 0 \<and> h_heartbeat_ms h1 = 1000 \<and>
     h_last_seen_leader h1 = 2 \<and> h_leader_elapsed h1 = 0 \<and> h_election_wait h1 = 100 \<and> h_stagger_ms h1 = 0 \<and> \<not> h_reincarnated h1"
proof -
  let ?e = follower_env and ?h = "demo_seq follower_node []" and ?fl = "flush_outputs (Suc k) follower_env"
  let ?p = "encode_peer PEER_VRR ''0000000000000000'' commit_payload"
  obtain x where x: "vrr_header_of commit_payload = Some x" "vh_tag x = COMMIT_TAG" using commit_header by blast
  define h1 where "h1 = on_leader_commit ?e 2 (Some x) 10 ?h"
  have n: "h_node ?h = follower_node" by (simp add: demo_seq_def)
  have lead: "ns_leader follower_status = 2" by (simp add: follower_status_def)
  have h1: "\<not> suspects h1 \<and> h_node h1 = follower_node \<and> h_conns h1 = [] \<and> h_embedded h1 = None \<and> \<not> dh_active (h_disc h1) \<and>
      h_last_heartbeat h1 = 0 \<and> h_heartbeat_ms h1 = 1000 \<and> h_last_seen_leader h1 = 2 \<and> h_election_wait h1 = 100 \<and> h_stagger_ms h1 = 0 \<and>
      \<not> h_reincarnated h1"
    using x(2) by (simp add: h1_def on_leader_commit_def n lock_status lead)
      (simp add: demo_seq_def on_commit_def leader_watch_new_def toggle_set_def leader_evidence_def unit_draw_def rearm_election_wait_def
        rearm_def random_wait_ms_def Let_def split_def)
  have r: "remap ?e 2 20 commit_payload h1 = (2, h1)"
    by (simp add: remap_def reincarnation_pair_def commit_payload_def REINCARNATION_BYTES_def)
  have "handle_vrr ?fl ?e 2 20 commit_payload 10 ?h = Some (h1\<lparr>h_leader_elapsed := 0\<rparr>)"
    using x r lead h1 by (simp add: handle_vrr_def Let_def lock_received lock_flushed demo_env_tag lock_status h1_def [symmetric])
  moreover have "handle_packet ?fl ?e 2 20 ?p 10 ?h = handle_vrr ?fl ?e 2 20 commit_payload 10 ?h"
    unfolding handle_packet_def commit_decoded by (simp add: demo_seq_def PEER_VRR_def PEER_SNAPSHOT_def)
  moreover have "sender_row ?e 20 ?h = ?h" "dh_addr_to_id (h_disc ?h) 20 = Some 2" by (simp_all add: sender_row_def demo_seq_def)
  ultimately have "pump_udp ?fl ?e 10 (ti_datagrams commit_turn) ?h = Some (h1\<lparr>h_leader_elapsed := 0\<rparr>)"
    unfolding commit_turn_def by (simp only: turn_input.simps pump_udp_Cons option.case bind.simps pump_udp.simps(1))
  with h1 show ?thesis by simp
qed

lemma demo_rest:
  assumes "\<not> suspects h" and "h_node h = follower_node" and "h_conns h = []" and "h_embedded h = None" and "\<not> dh_active (h_disc h)"
    and "h_last_heartbeat h = 0" and "h_heartbeat_ms h = 1000" and "h_last_seen_leader h = 2" and "h_leader_elapsed h = 0"
    and "h_election_wait h = 100" and "h_stagger_ms h = 0" and "\<not> h_reincarnated h"
  shows "\<exists>h3. timers fl follower_env 10 h = Some h3 \<and> \<not> suspects h3 \<and> h_node h3 = follower_node \<and> h_embedded h3 = None \<and>
    \<not> dh_active (h_disc h3)"
  using assms
  by (simp add: timers_def lock_status follower_status_def leader_seen_def heartbeat_turn_def saturating_sub_def leader_timeout_step_def
      poll_turn_def election_turn_def TICK_MS_def recovery_turn_def gossip_turn_def STATE_NORMAL_def STATE_VIEW_CHANGE_def
      STATE_RECOVERING_def STATE_JOINING_def Let_def)

lemma demo_turn:
  "\<exists>h'. host_turn (flush_outputs (Suc k) follower_env) follower_env commit_turn (demo_seq follower_node []) = Some h' \<and> \<not> suspects h'"
proof -
  let ?e = follower_env and ?h = "demo_seq follower_node []" and ?fl = "flush_outputs (Suc k) follower_env"
  have l: "?h\<lparr>h_latch := ti_latch commit_turn\<rparr> = ?h" by (simp add: demo_seq_def commit_turn_def)
  obtain h1 where h1: "pump_udp ?fl ?e 10 (ti_datagrams commit_turn) ?h = Some h1" "\<not> suspects h1" "h_node h1 = follower_node"
      "h_conns h1 = []" "h_embedded h1 = None"
      "\<not> dh_active (h_disc h1)" "h_last_heartbeat h1 = 0" "h_heartbeat_ms h1 = 1000" "h_last_seen_leader h1 = 2" "h_leader_elapsed h1 = 0"
      "h_election_wait h1 = 100" "h_stagger_ms h1 = 0" "\<not> h_reincarnated h1"
    using demo_lifted by blast
  have t: "pump_tcp ?fl ?e 10 0 r h1 = Some (drop_stale 10 h1)" for r using h1(4) by (simp add: pump_tcp_def Let_def drop_stale_def)
  obtain h3 where h3: "timers ?fl ?e 10 (drop_stale 10 h1) = Some h3" "\<not> suspects h3" "h_node h3 = follower_node" "h_embedded h3 = None"
      "\<not> dh_active (h_disc h3)"
    using demo_rest [of "drop_stale 10 h1" ?fl] h1(2-) by (auto simp: drop_stale_def)
  have d: "discovery_step 10 h3 = h3" using h3(5) by (simp add: discovery_step_def Let_def)
  define h4 where "h4 = on_driver (\<lambda>d. d\<lparr>dr_pending := None, dr_held_expiry := None\<rparr>) h3"
  have s: "driver_step ?fl ?e 10 h3 = Some h4" by (simp add: driver_step_def h3(3) lock_status follower_status_def h4_def Let_def)
  have m: "embedded_step ?fl ?e 10 h4 = Some h4" using h3(4) by (simp add: embedded_step_def h4_def)
  have "flushed (?fl 10) h4 = Some h4" using h3(3) by (simp add: lock_flushed h4_def)
  then have "host_turn ?fl ?e commit_turn ?h = Some h4"
    unfolding host_turn_def Let_def l using h1(1) t h3(1) s m d by (simp add: commit_turn_def)
  moreover have "\<not> suspects h4" using h3(2) by (simp add: h4_def)
  ultimately show ?thesis by blast
qed

theorem suspicion_lifted_by_leader_commit_witness:
  "\<exists>N h' h0 k i. host_turn (flush_outputs N follower_env) follower_env commit_turn (demo_seq follower_node []) = Some h' \<and>
     suspects (demo_seq follower_node []) \<and> \<not> suspects h' \<and> k < length (ti_datagrams commit_turn) \<and>
     leader_commit follower_env i (snd (ti_datagrams commit_turn ! k)) h0"
proof -
  let ?h = "demo_seq follower_node []"
  have e: "he_node follower_env = lock_node follower_host" by (simp add: demo_env_def)
  from suspicion_lifted_by_leader_commit [OF e, of commit_turn ?h] obtain N where
    N: "\<forall>fuel \<ge> N. \<forall>rest. host_turn (flush_with rest fuel follower_env) follower_env commit_turn ?h =
      host_turn (flush_outputs N follower_env) follower_env commit_turn ?h"
    and lifts: "\<And>h'. host_turn (flush_outputs N follower_env) follower_env commit_turn ?h = Some h' \<Longrightarrow> suspects ?h \<Longrightarrow> \<not> suspects h' \<Longrightarrow>
      \<exists>k h0 i. k < length (ti_datagrams commit_turn) \<and> leader_commit follower_env i (snd (ti_datagrams commit_turn ! k)) h0"
    by blast
  obtain h' where "host_turn (flush_outputs (Suc N) follower_env) follower_env commit_turn ?h = Some h'" "\<not> suspects h'"
    using demo_turn by blast
  then have h': "host_turn (flush_outputs N follower_env) follower_env commit_turn ?h = Some h'" "\<not> suspects h'"
    using N [rule_format, of "Suc N" "\<lambda>_ _. None"] unfolding flush_with_none by simp_all
  have "suspects ?h" by (simp add: demo_seq_def)
  with lifts [OF h'(1) this h'(2)] h' show ?thesis by blast
qed

end
