(* ===== verification/Spec2Isabelle.thy ===== *)
theory Spec2Isabelle
  imports Lock_Exclusion Aof_Props Wal_Props Witness_Marks Recovery_Flush Node_Stop Membership_Props Gateway_Props Host_Timers_Props
    Peer_Wire_Props Lease_Clients_Props Sequencer_Fuel
begin

text \<open>
  Verification of the lunet lock service: advisory locks with leases, replicated by an external Viewstamped Replication
  library, and the lease sequencer that hosts a node of it. Paths below are relative to \<^verbatim>\<open>src/\<close>; \<^verbatim>\<open>AL\<close> stands for
  \<^verbatim>\<open>ext/advisory_lock/src\<close> and \<^verbatim>\<open>LS\<close> for \<^verbatim>\<open>examples/lease-sequencer/src\<close>.

  \<^bold>\<open>The program.\<close> A node takes client requests, proposes them to the replication library, executes what the library commits on the
  lock service exactly once, queues the replies, and keeps a lock-event journal, a state store and a boot marker on disk.
  At a start the marker decides under which identity and in which view the node runs. A host owns the
  sockets: it feeds a node with datagrams, client lines and ticks, drains its outputs and routes the replies.

  \<^bold>\<open>Theories and code.\<close>
  \<^item> \<^emph>\<open>Shared vocabulary.\<close> \<open>Prelude_Locks\<close> (machine integers, byte codecs, collections of simplification rules), \<open>Ordered_Map\<close>
    (\<^verbatim>\<open>BTreeMap\<close>; locale \<open>ordered_map\<close>), \<open>Text_Fields\<close>, \<open>Utf8_Text\<close>, \<open>Hex_Text\<close> (standard library text), \<open>Json_Seam\<close> (the JSON library
    as a record of parameters).
  \<^item> \<^emph>\<open>Lock service\<close>, \<^verbatim>\<open>AL/locks.rs\<close>: \<open>Lock_Wire\<close>, \<open>Lock_Service\<close>; facts in \<open>Lock_Service_Props\<close> and \<open>Lock_Exclusion\<close>. A live lease
    excludes every other holder over any committed operations; the reported transition is the change of the table; a snapshot
    restores to itself.
  \<^item> \<^emph>\<open>Disk\<close>, \<^verbatim>\<open>AL/disk.rs\<close>, \<^verbatim>\<open>AL/state.rs\<close>: \<open>Disk_Seam\<close> (files, directories, what is durable, scheduled faults, crashes), \<open>Staged_Write\<close>
    (write, sync, rename, sync of the directory; locale \<open>crash_atomic\<close>), \<open>Disk_Frame\<close>, \<open>State_Store\<close> (locale \<open>state_store\<close>). A flush is atomic
    under a crash; a damaged file is refused; a start loads the table last flushed.
  \<^item> \<^emph>\<open>Journal and logs\<close>, \<^verbatim>\<open>AL/journal.rs\<close>, \<^verbatim>\<open>AL/aof.rs\<close>, \<^verbatim>\<open>AL/recovery_flush.rs\<close>, \<^verbatim>\<open>AL/witness/mod.rs\<close>: \<open>Lock_Journal\<close>, \<open>Journal_Props\<close>,
    \<open>Journal_File\<close>, \<open>Journal_File_Props\<close>, \<open>Aof_Writer\<close>, \<open>Aof_Props\<close>, \<open>Recovery_Flush\<close>, \<open>Witness_Marks\<close>. Records round-trip and damage is
    seen; an answered drain is durable and every drain is answered.
  \<^item> \<^emph>\<open>Write-ahead snapshots\<close>, \<^verbatim>\<open>AL/wal_snapshot.rs\<close>: \<open>Wal_Snapshot\<close>, \<open>Wal_Props\<close>. A load finds the view of the flushed table
    that the two streams carry, which is a refinement of the state store's contract with named losses.
  \<^item> \<^emph>\<open>Boot\<close>, \<^verbatim>\<open>AL/marker_store.rs\<close>, \<^verbatim>\<open>AL/ffi.rs\<close>: \<open>Boot_Gate\<close>, \<open>Boot_Props\<close>. Identities advance over any history of crashes.
  \<^item> \<^emph>\<open>Node\<close>, \<^verbatim>\<open>AL/ffi.rs\<close>: \<open>Node_State\<close>, \<open>Lock_Node\<close> (drive loop, entries, stop), \<open>Node_Boot\<close> (construction); facts in \<open>Node_Props\<close>
    (locale \<open>node_order\<close>, a step relation over all entries), \<open>Node_Claims\<close>, \<open>Node_Stop\<close>. Replies never change, a repeated commit is
    not executed again, the drive loop returns, a stop is durable and the next start resumes it.
  \<^item> \<^emph>\<open>Membership\<close>, \<^verbatim>\<open>LS/membership.rs\<close> and its callers in \<^verbatim>\<open>LS/main.rs\<close>: \<open>Membership\<close>, \<open>Membership_Props\<close>. The model goes back only
    where its era wraps, quorums meet, a discovery adopts only what a quorum sent.
  \<^item> \<^emph>\<open>Gateway\<close>, \<^verbatim>\<open>LS/gateway.rs\<close>: \<open>Gateway\<close>, \<open>Gateway_Props\<close>. A handle is answered at most once; one command per session is in flight.
  \<^item> \<^emph>\<open>Timers, relay, framing\<close>, \<^verbatim>\<open>LS/timeouts.rs\<close>, \<^verbatim>\<open>LS/relay.rs\<close>, \<^verbatim>\<open>LS/transport.rs\<close>: \<open>Host_Timers\<close>, \<open>Host_Timers_Props\<close>, \<open>Peer_Wire\<close>,
    \<open>Peer_Wire_Props\<close>. Deadlines stay in their windows, unanswered datagrams are kept, the framing and the genesis bytes are exact.
  \<^item> \<^emph>\<open>Lease clients\<close>, \<^verbatim>\<open>LS/client_gate.rs\<close>, \<^verbatim>\<open>LS/embedded_client.rs\<close>: \<open>Lease_Clients\<close>, \<open>Lease_Clients_Props\<close>. A silenced runner is silent.
  \<^item> \<^emph>\<open>Host\<close>, \<^verbatim>\<open>LS/main.rs\<close>: \<open>Sequencer_Host\<close> (state, packets out), \<open>Sequencer_Routing\<close> (flush, driver, embedded clients), \<open>Sequencer_Turns\<close>
    (timers, packets in), \<open>Sequencer_Clients\<close> (client lines, loop body, descriptor); facts in \<open>Sequencer_Props\<close> and \<open>Sequencer_Fuel\<close>
    (locale \<open>output_queue\<close>). A reply reaches the first that
    waits for it; a suspicion ends only with a commit of the leader. The host runs over a record of node operations, which
    \<open>lock_node\<close> fills with the node model; the retried request is followed through both.

  \<^bold>\<open>Correspondence.\<close> A struct is a record with the source's fields, an enum a datatype, an operation a function on explicit state. Integers keep
  their width and wrap, as a release build's do. A text is the list of the bytes of its UTF-8 form. \<^verbatim>\<open>io::Result\<close> is a sum
  with the error on the left. A panic, an abort and an operation that does not return are values apart from every
  result. Clocks, process identities and fresh identities are arguments or streams of the state. A floating-point sample is the 53-bit
  numerator of the generator's fraction, and products round to 53 bits, ties to even.

  \<^bold>\<open>Code outside the repository\<close> is a parameter: the lock machinery and the replica (\<open>core_ops\<close>, \<open>replica_ops\<close>, \<open>lifecycle\<close>), the WAL and marker
  engines, JSON, the text of identities, the keyed hash, the resolver. What a property needs of it is a named hypothesis,
  such as \<open>core_documented\<close> or \<open>bearers_differ\<close>, and its witness instantiates it.

  \<^bold>\<open>Loops and fuel.\<close> The drive loop is a partial function whose return is proved where the replica settles. The host's flush may submit
  and flush again; its fuel bounds the outputs taken. Every operation that flushes has a fuel from which on its result does not change and no flush stops
  for want of fuel (\<open>host_turn_sure\<close> and its like in \<open>output_queue\<close>, interpreted for the lock node): only a reply to a pending read makes a flush submit, and
  what it submits is no read. A connection's lines are given as many rounds as its buffer has bytes, which is
  enough (\<open>client_lines_enough\<close>). Everything else is total.

  \<^bold>\<open>Not modelled.\<close> Log lines, telemetry and the flight recorder, which nothing reads back; the io_uring variants and an embedder's own
  engine files; the C interface's pointer conversions; the sidecar's writer thread, signal handlers and option parsing; the table of the
  hash's round constants, which is an argument; paths that end in a separator and Windows builds; the harnesses, benches, console, feed
  server, command-line clients and tools; and the Teal host, a second host over the same C interface on an
  event loop of its own. The join gossip's bytes are the replication library's.

  \<^bold>\<open>Shortcomings shown.\<close> Some properties state behaviour that falls short of the documents: a retried request that is never answered,
  an acknowledged change without effect, a refused duplicate that loses a reply, a contender that takes a refused set for a
  hold, colliding joins of two gateways, a torn journal tail that hides the appends up to the next roll, a state path without a
  directory, tokens forgotten by the write-ahead store and a release that the tick after a refused one skips, a starved expired lock, a membership era
  that wraps, and a life that cannot start again.
\<close>

end
